(* ===== verification/Prelude.thy ===== *)
theory Prelude
  imports Main "HOL-Library.Sublist" "HOL-Library.Char_ord"
begin

text \<open>
  Shared vocabulary of the development: Go error values and \<^verbatim>\<open>errors.Is\<close>, results of
  fallible calls, wall-clock times and durations, the functions of Go's \<^verbatim>\<open>strings\<close> package
  that the components use, and the reachability locale that every state machine of the
  development interprets.  Strings are byte sequences, as in Go.
\<close>

named_theorems go_defs \<open>definitions of the string helpers, for unfolding\<close>
named_theorems result_simps \<open>inversion facts for fallible computations\<close>

section \<open>Errors and results\<close>

text \<open>
  An error is a sentinel (\<^verbatim>\<open>errors.New\<close>: name and text) or a message that wraps another error
  (\<^verbatim>\<open>fmt.Errorf\<close> with \<^verbatim>\<open>%w\<close>).  A \<^verbatim>\<open>%v\<close> argument contributes its text only.
\<close>

datatype goerr = ErrNew string | ErrWrap string goerr

primrec errText :: "goerr \<Rightarrow> string" where
  "errText (ErrNew m) = m"
| "errText (ErrWrap m _) = m"

primrec errorsIs :: "goerr \<Rightarrow> goerr \<Rightarrow> bool" where
  "errorsIs (ErrNew m) t = (ErrNew m = t)"
| "errorsIs (ErrWrap m e) t = (ErrWrap m e = t \<or> errorsIs e t)"

definition wrapV :: "goerr \<Rightarrow> string \<Rightarrow> goerr" where
  \<comment> \<open>\<^verbatim>\<open>fmt.Errorf("%w: %v", e, x)\<close>, the second argument given by its text\<close>
  "wrapV e t = ErrWrap (errText e @ '': '' @ t) e"

lemma errorsIs_refl [simp]: "errorsIs e e"
  by (cases e) simp_all

lemma errorsIs_wrapV [simp]: "errorsIs (wrapV e t) e"
  by (simp add: wrapV_def)

type_synonym 'a result = "goerr + 'a"

lemma case_sum_Inr [result_simps]:
  "(case r of Inl e \<Rightarrow> Inl e | Inr x \<Rightarrow> f x) = Inr y \<longleftrightarrow> (\<exists>x. r = Inr x \<and> f x = Inr y)"
  by (cases r) auto

lemma case_option_err_Inr [result_simps]:
  "(case r of Some e \<Rightarrow> Inl e | None \<Rightarrow> f) = Inr y \<longleftrightarrow> r = None \<and> f = Inr y"
  by (cases r) auto

lemma if_Inl_Inr [result_simps]:
  "(if b then Inl e else r) = Inr y \<longleftrightarrow> \<not> b \<and> r = Inr y"
  by simp

section \<open>Reading query results\<close>

text \<open>
  The ways a \<^verbatim>\<open>database/sql\<close> query can fail: at the query, at the scan of the n-th row, and at
  \<^verbatim>\<open>rows.Err()\<close> after the last one.
\<close>

record rows_io =
  io_query :: "goerr option"
  io_scan :: "nat \<Rightarrow> goerr option"
  io_end :: "goerr option"

fun scanRows :: "rows_io \<Rightarrow> nat \<Rightarrow> 'a list \<Rightarrow> 'a list result" where
  "scanRows io n [] = (case io_end io of Some e \<Rightarrow> Inl e | None \<Rightarrow> Inr [])"
| "scanRows io n (x # xs) =
     (case io_scan io n of
        Some e \<Rightarrow> Inl e
      | None \<Rightarrow> (case scanRows io (Suc n) xs of Inl e \<Rightarrow> Inl e | Inr ys \<Rightarrow> Inr (x # ys)))"

definition queryRows :: "rows_io \<Rightarrow> 'a list \<Rightarrow> 'a list result" where
  "queryRows io xs = (case io_query io of Some e \<Rightarrow> Inl e | None \<Rightarrow> scanRows io 0 xs)"

definition noFault :: rows_io where
  "noFault = \<lparr>io_query = None, io_scan = (\<lambda>_. None), io_end = None\<rparr>"

lemma scanRows_Inr: "scanRows io n xs = Inr ys \<Longrightarrow> ys = xs"
  by (induction io n xs arbitrary: ys rule: scanRows.induct) (auto split: option.splits sum.splits)

lemma queryRows_Inr [dest]: "queryRows io xs = Inr ys \<Longrightarrow> ys = xs"
  by (auto simp: queryRows_def dest: scanRows_Inr split: option.splits)

lemma queryRows_noFault [simp]: "queryRows noFault xs = Inr xs"
proof -
  have "scanRows noFault n xs = Inr xs" for n
    by (induction xs arbitrary: n) (auto simp: noFault_def)
  then show ?thesis by (simp add: queryRows_def noFault_def)
qed

text \<open>
  \<^verbatim>\<open>QueryRow(...).Scan\<close>: the row, \<^verbatim>\<open>sql.ErrNoRows\<close> when there is none, or a database failure.  A
  statement's failure is given per call as \<^typ>\<open>goerr option\<close>, a transaction's as a function of the
  position of the statement in it.
\<close>

type_synonym faults = "nat \<Rightarrow> goerr option"

definition ErrNoRows :: goerr where
  "ErrNoRows = ErrNew ''sql: no rows in result set''"

definition ErrDuplicateKey :: goerr where
  "ErrDuplicateKey = ErrNew ''duplicate key value violates unique constraint''"

definition queryRow :: "goerr option \<Rightarrow> 'a option \<Rightarrow> 'a result" where
  "queryRow fault row =
     (case fault of
        Some e \<Rightarrow> Inl e
      | None \<Rightarrow> (case row of None \<Rightarrow> Inl ErrNoRows | Some x \<Rightarrow> Inr x))"

lemma queryRow_Inr [simp]: "queryRow fault row = Inr x \<longleftrightarrow> fault = None \<and> row = Some x"
  by (auto simp: queryRow_def split: option.splits)

lemma queryRow_None_Some [simp]: "queryRow None (Some x) = Inr x"
  by simp

lemma queryRow_None_None [simp]: "queryRow None None = Inl ErrNoRows"
  by (simp add: queryRow_def)

section \<open>Times and durations\<close>

text \<open>
  A \<^verbatim>\<open>time.Time\<close> is its number of nanoseconds since the Unix epoch and a \<^verbatim>\<open>time.Duration\<close> a
  number of nanoseconds.  The zero \<^verbatim>\<open>time.Time\<close> is 1 January of year 1, and \<^verbatim>\<open>Unix\<close> rounds down
  to whole seconds.
\<close>

type_synonym time = int
type_synonym duration = int

definition Second :: duration where "Second = 1000000000"

definition Minute :: duration where "Minute = 60 * Second"

definition Hour :: duration where "Hour = 60 * Minute"

definition zeroTime :: time where "zeroTime = - 62135596800 * Second"

definition IsZero :: "time \<Rightarrow> bool" where "IsZero t \<longleftrightarrow> t = zeroTime"

definition Unix :: "time \<Rightarrow> int" where "Unix t = t div Second"

lemmas time_defs = Second_def Minute_def Hour_def zeroTime_def

lemma Second_pos [simp]: "0 < Second"
  by (simp add: Second_def)

lemma Second_nonneg [simp]: "0 \<le> Second"
  by (simp add: Second_def)

lemma Unix_mono: "s \<le> t \<Longrightarrow> Unix s \<le> Unix t"
  by (simp add: Unix_def zdiv_mono1)

lemma Unix_bounds: "Unix t * Second \<le> t" "t < (Unix t + 1) * Second"
  by (simp_all add: Unix_def Second_def)

lemma Unix_add_Second: "Unix (t + k * Second) = Unix t + k"
  by (simp add: Unix_def Second_def)

section \<open>Go strings\<close>

definition HasPrefix :: "string \<Rightarrow> string \<Rightarrow> bool" where
  [go_defs]: "HasPrefix s p = prefix p s"

definition HasSuffix :: "string \<Rightarrow> string \<Rightarrow> bool" where
  [go_defs]: "HasSuffix s p = suffix p s"

definition TrimPrefix :: "string \<Rightarrow> string \<Rightarrow> string" where
  [go_defs]: "TrimPrefix s p = (if prefix p s then drop (length p) s else s)"

definition TrimSuffix :: "string \<Rightarrow> string \<Rightarrow> string" where
  [go_defs]: "TrimSuffix s p = (if suffix p s then take (length s - length p) s else s)"

text \<open>\<^verbatim>\<open>strings.Index\<close>: the first offset at which the substring occurs.\<close>

fun Index :: "string \<Rightarrow> string \<Rightarrow> nat option" where
  "Index s p =
     (if prefix p s then Some 0
      else case s of [] \<Rightarrow> None | c # cs \<Rightarrow> map_option Suc (Index cs p))"

declare Index.simps [simp del]

definition Contains :: "string \<Rightarrow> string \<Rightarrow> bool" where
  "Contains s sub \<longleftrightarrow> Index s sub \<noteq> None"

text \<open>\<^verbatim>\<open>strings.Split\<close> at a one-byte separator: always at least one part.\<close>

fun Split :: "char \<Rightarrow> string \<Rightarrow> string list" where
  "Split c [] = [[]]"
| "Split c (x # xs) =
     (if x = c then [] # Split c xs
      else case Split c xs of [] \<Rightarrow> [[x]] | p # ps \<Rightarrow> (x # p) # ps)"

text \<open>\<^verbatim>\<open>strings.SplitN\<close> at a one-byte separator into at most \<open>n\<close> parts (\<open>n > 0\<close>).\<close>

fun SplitN :: "char \<Rightarrow> nat \<Rightarrow> string \<Rightarrow> string list" where
  "SplitN c n [] = [[]]"
| "SplitN c n (x # xs) =
     (if n \<le> 1 then [x # xs]
      else if x = c then [] # SplitN c (n - 1) xs
      else case SplitN c n xs of [] \<Rightarrow> [[x]] | p # ps \<Rightarrow> (x # p) # ps)"

text \<open>
  \<^verbatim>\<open>strings.TrimSpace\<close> drops leading and trailing Unicode white space, given here by the UTF-8
  encodings of the white-space code points.
\<close>

definition goSpaces :: "string list" where
  "goSpaces =
     map (map char_of)
       ([[9], [10], [11], [12], [13], [32 :: nat], [194, 133], [194, 160], [225, 154, 128]]
        @ map (\<lambda>b. [226, 128, b]) ([128 ..< 139] @ [168, 169, 175])
        @ [[226, 129, 159], [227, 128, 128]])"

function trimWith :: "string list \<Rightarrow> string \<Rightarrow> string" where
  "trimWith ps s =
     (case find (\<lambda>p. p \<noteq> [] \<and> prefix p s) ps of
        None \<Rightarrow> s
      | Some p \<Rightarrow> trimWith ps (drop (length p) s))"
  by pat_completeness auto
termination
proof (relation "measure (\<lambda>(ps, s). length s)", goal_cases)
  case (2 ps s p)
  then have "p \<noteq> []" "prefix p s" by (auto simp: find_Some_iff)
  then show ?case by (cases s) (auto dest: prefix_length_le)
qed simp

declare trimWith.simps [simp del]

definition TrimSpace :: "string \<Rightarrow> string" where
  "TrimSpace s = rev (trimWith (map rev goSpaces) (rev (trimWith goSpaces s)))"

text \<open>A value reduced to a signed 64-bit integer, Go's \<^verbatim>\<open>int\<close> and \<^verbatim>\<open>int64\<close>.\<close>

definition wrap64 :: "int \<Rightarrow> int" where
  "wrap64 i = (i + 2 ^ 63) mod 2 ^ 64 - 2 ^ 63"

lemma wrap64_id: "- (2 ^ 63) \<le> i \<Longrightarrow> i < 2 ^ 63 \<Longrightarrow> wrap64 i = i"
  by (simp add: wrap64_def)

text \<open>\<^verbatim>\<open>strings.EqualFold\<close> against ASCII letters none of which folds to a letter outside ASCII.\<close>

definition lowerByte :: "char \<Rightarrow> char" where
  "lowerByte c = (let n = of_char c in if 65 \<le> n \<and> n \<le> 90 then char_of (n + 32 :: nat) else c)"

text \<open>Decimal rendering (\<^verbatim>\<open>%d\<close>).\<close>

fun showNat :: "nat \<Rightarrow> string" where
  "showNat n = (if n < 10 then [char_of (48 + n)] else showNat (n div 10) @ [char_of (48 + n mod 10)])"

declare showNat.simps [simp del]

definition showInt :: "int \<Rightarrow> string" where
  "showInt i = (if i < 0 then ''-'' @ showNat (nat (- i)) else showNat (nat i))"

text \<open>
  \<^verbatim>\<open>%q\<close> (\<^verbatim>\<open>strconv.Quote\<close>): a double-quoted literal with Go's escapes.  Bytes from 128 on are kept,
  as \<^verbatim>\<open>Quote\<close> does for text that is printable UTF-8.
\<close>

definition hexDigit :: "nat \<Rightarrow> char" where
  "hexDigit n = char_of (if n < 10 then 48 + n else 87 + n)"

text \<open>\<^verbatim>\<open>hex.EncodeToString\<close>.\<close>

definition hexEncode :: "string \<Rightarrow> string" where
  "hexEncode s = concat (map (\<lambda>c. [hexDigit (of_char c div 16), hexDigit (of_char c mod 16)]) s)"

definition quoteByte :: "char \<Rightarrow> string" where
  "quoteByte c =
     (let n = of_char c :: nat in
      if n = 34 \<or> n = 92 then [CHR 0x5C, c]
      else if n = 7 then [CHR 0x5C, CHR ''a'']
      else if n = 8 then [CHR 0x5C, CHR ''b'']
      else if n = 12 then [CHR 0x5C, CHR ''f'']
      else if n = 10 then [CHR 0x5C, CHR ''n'']
      else if n = 13 then [CHR 0x5C, CHR ''r'']
      else if n = 9 then [CHR 0x5C, CHR ''t'']
      else if n = 11 then [CHR 0x5C, CHR ''v'']
      else if n < 32 \<or> n = 127 then [CHR 0x5C, CHR ''x'', hexDigit (n div 16), hexDigit (n mod 16)]
      else [c])"

definition goQuote :: "string \<Rightarrow> string" where
  "goQuote s = CHR 0x22 # concat (map quoteByte s) @ [CHR 0x22]"

definition wrapQ :: "goerr \<Rightarrow> string \<Rightarrow> goerr" where
  \<comment> \<open>\<^verbatim>\<open>fmt.Errorf("%w: %q", e, x)\<close>\<close>
  "wrapQ e t = ErrWrap (errText e @ '': '' @ goQuote t) e"

lemma errorsIs_wrapQ [simp]: "errorsIs (wrapQ e t) e"
  by (simp add: wrapQ_def)

text \<open>
  The runes a \<^verbatim>\<open>for range\<close> loop over a string visits, each as its bytes: well-formed UTF-8 sequences,
  and single bytes where the text is not well-formed.
\<close>

definition contByte :: "nat \<Rightarrow> nat \<Rightarrow> char \<Rightarrow> bool" where
  "contByte lo hi c \<longleftrightarrow> lo \<le> of_char c \<and> of_char c \<le> hi"

definition runeWidth :: "string \<Rightarrow> nat" where
  "runeWidth s =
     (case s of
        [] \<Rightarrow> 1
      | c # cs \<Rightarrow>
          (let b = of_char c :: nat;
               tail = (\<lambda>n. length cs \<ge> n \<and> list_all (contByte 128 191) (take n cs))
           in if 194 \<le> b \<and> b \<le> 223 \<and> tail 1 then 2
              else if 224 \<le> b \<and> b \<le> 239 \<and> tail 2 \<and>
                contByte (if b = 224 then 160 else 128) (if b = 237 then 159 else 191) (hd cs) then 3
              else if 240 \<le> b \<and> b \<le> 244 \<and> tail 3 \<and>
                contByte (if b = 240 then 144 else 128) (if b = 244 then 143 else 191) (hd cs) then 4
              else 1))"

lemma runeWidth_pos: "0 < runeWidth s"
  by (auto simp: runeWidth_def Let_def split: list.splits)

function runes :: "string \<Rightarrow> string list" where
  "runes s = (if s = [] then [] else take (runeWidth s) s # runes (drop (runeWidth s) s))"
  by pat_completeness auto
termination
  by (relation "measure length") (auto simp: runeWidth_pos)

declare runes.simps [simp del]

text \<open>ASCII letters and digits.\<close>

definition asciiAlnum :: "char \<Rightarrow> bool" where
  [simp]: "asciiAlnum c = list_ex (\<lambda>(lo, hi). lo \<le> c \<and> c \<le> hi) [(CHR ''a'', CHR ''z''), (CHR ''A'', CHR ''Z''), (CHR ''0'', CHR ''9'')]"

text \<open>\<^verbatim>\<open>%v\<close> of a string slice.\<close>

fun joinSp :: "string list \<Rightarrow> string" where
  "joinSp [] = []"
| "joinSp [x] = x"
| "joinSp (x # y # xs) = x @ '' '' @ joinSp (y # xs)"

definition showStrings :: "string list \<Rightarrow> string" where
  "showStrings xs = ''['' @ joinSp xs @ '']''"

subsection \<open>Facts about splitting and trimming\<close>

lemma Split_nonempty [simp]: "Split c s \<noteq> []"
  by (cases s) (auto split: list.splits)

lemma Split_no_sep: "c \<notin> set s \<Longrightarrow> Split c s = [s]"
  by (induction s) auto

lemma Split_append: "c \<notin> set p \<Longrightarrow> Split c (p @ c # s) = p # Split c s"
  by (induction p) (auto split: list.splits)

lemma TrimPrefix_append [simp]: "TrimPrefix (p @ s) p = s"
  by (simp add: TrimPrefix_def)

lemma Index_SomeD: "Index s p = Some i \<Longrightarrow> i + length p \<le> length s \<and> take (length p) (drop i s) = p"
proof (induction s arbitrary: i)
  case Nil
  then show ?case by (simp add: Index.simps split: if_splits)
next
  case (Cons c cs)
  show ?case
  proof (cases "prefix p (c # cs)")
    case True
    with Cons.prems have "i = 0" by (simp add: Index.simps)
    with True prefix_length_le [OF True] show ?thesis by (auto simp: prefix_def)
  next
    case False
    with Cons.prems obtain j where "i = Suc j" "Index cs p = Some j"
      by (subst (asm) Index.simps) auto
    with Cons.IH show ?thesis by simp
  qed
qed

lemma Index_None_iff: "Index s p = None \<longleftrightarrow> (\<forall>i \<le> length s. \<not> prefix p (drop i s))"
proof (induction s)
  case Nil
  show ?case by (simp add: Index.simps)
next
  case (Cons c cs)
  have "(\<forall>i \<le> length (c # cs). \<not> prefix p (drop i (c # cs))) \<longleftrightarrow>
      \<not> prefix p (c # cs) \<and> (\<forall>i \<le> length cs. \<not> prefix p (drop i cs))"
    by (auto simp: All_less_Suc2 less_Suc_eq_le [symmetric] simp del: less_Suc_eq_le)
  with Cons.IH show ?case by (subst Index.simps) auto
qed

lemma Index_Some_iff:
  "Index s p = Some n \<longleftrightarrow> n \<le> length s \<and> prefix p (drop n s) \<and> (\<forall>i < n. \<not> prefix p (drop i s))"
proof (induction s arbitrary: n)
  case Nil
  show ?case by (auto simp: Index.simps)
next
  case (Cons c cs)
  show ?case
  proof (cases n)
    case 0
    then show ?thesis by (subst Index.simps) auto
  next
    case (Suc k)
    with Cons.IH [of k] show ?thesis by (subst Index.simps) (auto simp: All_less_Suc2)
  qed
qed

text \<open>Text that starts and ends with printable ASCII bytes is not trimmed.\<close>

definition plainByte :: "char \<Rightarrow> bool" where
  "plainByte c \<longleftrightarrow> 33 \<le> (of_char c :: nat) \<and> (of_char c :: nat) < 127"

lemma trimWith_id: "(\<And>p. p \<in> set ps \<Longrightarrow> p \<noteq> [] \<Longrightarrow> \<not> prefix p s) \<Longrightarrow> trimWith ps s = s"
  by (subst trimWith.simps) (auto simp: find_None_iff split: option.splits dest: find_Some_iff [THEN iffD1])

lemma goSpaces_ends: "p \<in> set goSpaces \<Longrightarrow> p \<noteq> [] \<and> \<not> plainByte (hd p) \<and> \<not> plainByte (last p)"
  by (auto simp: goSpaces_def plainByte_def)

lemma not_prefix_hd: "s \<noteq> [] \<Longrightarrow> p \<noteq> [] \<Longrightarrow> hd p \<noteq> hd s \<Longrightarrow> \<not> prefix p s"
  by (cases p; cases s) auto

lemma TrimSpace_Nil [simp]: "TrimSpace [] = []"
  by (simp add: TrimSpace_def trimWith_id)

lemma TrimSpace_plain:
  assumes "s \<noteq> []" and "plainByte (hd s)" and "plainByte (last s)"
  shows "TrimSpace s = s"
proof -
  have "trimWith goSpaces s = s"
    using assms by (intro trimWith_id not_prefix_hd) (auto dest: goSpaces_ends)
  moreover have "trimWith (map rev goSpaces) (rev s) = rev s"
    using assms by (intro trimWith_id not_prefix_hd) (auto simp: hd_rev dest: goSpaces_ends)
  ultimately show ?thesis by (simp add: TrimSpace_def)
qed

section \<open>Reachable states\<close>

text \<open>
  The states a component can be in: from an initial state, through any finite sequence of
  labelled steps.
\<close>

inductive reach :: "('s \<Rightarrow> bool) \<Rightarrow> ('s \<Rightarrow> 'e \<Rightarrow> 's \<Rightarrow> bool) \<Rightarrow> 's \<Rightarrow> bool"
  for init :: "'s \<Rightarrow> bool" and step :: "'s \<Rightarrow> 'e \<Rightarrow> 's \<Rightarrow> bool" where
  reach_init: "init s \<Longrightarrow> reach init step s"
| reach_step: "reach init step s \<Longrightarrow> step s e t \<Longrightarrow> reach init step t"

text \<open>
  The contract of an inductive invariant.  Each stateful component interprets it on its own
  initial states, its own steps and its own invariant.
\<close>

locale transition_system =
  fixes init :: "'s \<Rightarrow> bool"
    and step :: "'s \<Rightarrow> 'e \<Rightarrow> 's \<Rightarrow> bool"
    and inv :: "'s \<Rightarrow> bool"
  assumes inv_init: "init s \<Longrightarrow> inv s"
    and inv_step: "inv s \<Longrightarrow> step s e t \<Longrightarrow> inv t"
begin

lemma reach_inv: "reach init step s \<Longrightarrow> inv s"
  by (induction rule: reach.induct) (auto intro: inv_init inv_step)

end

text \<open>A run: the labels of consecutive steps.\<close>

inductive stepPath :: "('s \<Rightarrow> 'e \<Rightarrow> 's \<Rightarrow> bool) \<Rightarrow> 's \<Rightarrow> 'e list \<Rightarrow> 's \<Rightarrow> bool" for step :: "'s \<Rightarrow> 'e \<Rightarrow> 's \<Rightarrow> bool" where
  path_Nil: "stepPath step s [] s"
| path_Cons: "step s e t \<Longrightarrow> stepPath step t es u \<Longrightarrow> stepPath step s (e # es) u"

inductive_simps path_Nil_iff [simp]: "stepPath step s [] t"
inductive_simps path_Cons_iff: "stepPath step s (e # es) t"

lemma reach_path: "stepPath step s es t \<Longrightarrow> reach init step s \<Longrightarrow> reach init step t"
  by (induction rule: stepPath.induct) (auto intro: reach_step)

lemma stepPath_append: "stepPath step s es t \<Longrightarrow> stepPath step t es' u \<Longrightarrow> stepPath step s (es @ es') u"
  by (induction rule: stepPath.induct) (auto intro: stepPath.intros)

text \<open>
  The contract of a refinement: on states with the invariant, every step of the component is a step of its specification
  between the abstractions.
\<close>

locale simulation = transition_system init step inv
  for init :: "'s \<Rightarrow> bool" and step :: "'s \<Rightarrow> 'e \<Rightarrow> 's \<Rightarrow> bool" and inv :: "'s \<Rightarrow> bool" +
  fixes spec :: "'a \<Rightarrow> 'e \<Rightarrow> 'a \<Rightarrow> bool" and abs :: "'s \<Rightarrow> 'a"
  assumes simulates: "inv s \<Longrightarrow> step s e t \<Longrightarrow> spec (abs s) e (abs t)"
begin

lemma path_simulated: "stepPath step s es t \<Longrightarrow> inv s \<Longrightarrow> stepPath spec (abs s) es (abs t)"
  by (induction rule: stepPath.induct) (auto intro: stepPath.intros simulates inv_step)

lemma run_simulated: "reach init step s \<Longrightarrow> stepPath step s es t \<Longrightarrow> stepPath spec (abs s) es (abs t)"
  by (rule path_simulated [OF _ reach_inv])

end

end
