(* ===== verification/Harness.thy ===== *)
theory Harness
  imports Prelude
begin

text \<open>
  \<^verbatim>\<open>internal/harness\<close>: the agent loop with its step limit, tool filter, checkpoints and approval gate.
  The model gateway, the tools and the checkpoint store act on a world \<open>'w\<close>; a run also returns the
  trace of what it asked of them, in order.
\<close>

section \<open>Data\<close>

record message =
  ms_Role :: string
  ms_Content :: string

record tool_spec =
  sp_Name :: string
  sp_Description :: string
  sp_InputSchema :: string

record completion_request =
  rq_Model :: string
  rq_Messages :: "message list"
  rq_Tools :: "tool_spec list"
  rq_RunID :: string
  rq_Agent :: string

record completion =
  cp_Text :: string
  cp_StopReason :: string
  cp_ToolName :: string
  cp_ToolInput :: string
  cp_InputTokens :: int
  cp_OutputTok :: int

record run_state =
  rs_RunID :: string
  rs_SessionID :: string
  rs_AgentRef :: string
  rs_Messages :: "message list"
  rs_Step :: int
  rs_Status :: string
  rs_PendingTool :: string
  rs_PendingInput :: string
  rs_FinalText :: string
  rs_GrantedTools :: "string list"

record 'w tool =
  tl_Name :: string
  tl_Description :: string
  tl_InputSchema :: string
  tl_RequiresApproval :: bool
  tl_Execute :: "string \<Rightarrow> 'w \<Rightarrow> string result \<times> 'w"

record 'w checkpointer =
  ck_Save :: "string \<Rightarrow> run_state \<Rightarrow> 'w \<Rightarrow> goerr option \<times> 'w"
  ck_Load :: "string \<Rightarrow> 'w \<Rightarrow> run_state result \<times> 'w"

record 'w harness =
  hn_completer :: "completion_request \<Rightarrow> 'w \<Rightarrow> completion result \<times> 'w"
  hn_tools :: "string \<rightharpoonup> 'w tool"
  hn_maxSteps :: int
  hn_checkpoints :: "'w checkpointer"

datatype event = Completed completion_request | Executed string string | Saved run_state

definition ErrMaxSteps :: goerr where "ErrMaxSteps = ErrNew ''max steps exceeded''"
definition ErrUnknownTool :: goerr where "ErrUnknownTool = ErrNew ''tool not granted or unknown''"
definition ErrNoCheckpoint :: goerr where "ErrNoCheckpoint = ErrNew ''no checkpoint for run''"
definition ErrNotPending :: goerr where "ErrNotPending = ErrNew ''run is not awaiting approval''"

section \<open>Operations\<close>

definition NewHarness ::
  "(completion_request \<Rightarrow> 'w \<Rightarrow> completion result \<times> 'w) \<Rightarrow> 'w tool list \<Rightarrow> int \<Rightarrow> 'w checkpointer \<Rightarrow> 'w harness" where
  "NewHarness completer tools maxSteps checkpoints =
     \<lparr>hn_completer = completer, hn_tools = fold (\<lambda>t m. m(tl_Name t \<mapsto> t)) tools Map.empty,
      hn_maxSteps = maxSteps, hn_checkpoints = checkpoints\<rparr>"

fun granted :: "string list \<Rightarrow> string \<Rightarrow> bool" where
  "granted [] name = False"
| "granted (g # gs) name = (if g = name then True else granted gs name)"

fun toolSpecs :: "'w harness \<Rightarrow> string list \<Rightarrow> tool_spec list" where
  "toolSpecs h [] = []"
| "toolSpecs h (name # names) =
     (case hn_tools h name of
        Some t \<Rightarrow> \<lparr>sp_Name = tl_Name t, sp_Description = tl_Description t, sp_InputSchema = tl_InputSchema t\<rparr> # toolSpecs h names
      | None \<Rightarrow> toolSpecs h names)"

definition buildRequest :: "'w harness \<Rightarrow> run_state \<Rightarrow> string list \<Rightarrow> string \<Rightarrow> completion_request" where
  "buildRequest h state grantedTools model =
     \<lparr>rq_Model = model, rq_Messages = rs_Messages state, rq_Tools = toolSpecs h grantedTools,
      rq_RunID = rs_RunID state, rq_Agent = rs_AgentRef state\<rparr>"

definition save :: "'w harness \<Rightarrow> run_state \<Rightarrow> 'w \<Rightarrow> 'w" where
  \<comment> \<open>the error of \<^verbatim>\<open>Save\<close> is discarded\<close>
  "save h state w = snd (ck_Save (hn_checkpoints h) (rs_RunID state) state w)"

definition executeAndAppend :: "run_state \<Rightarrow> 'w tool \<Rightarrow> string \<Rightarrow> 'w \<Rightarrow> run_state \<times> 'w" where
  "executeAndAppend state t input w =
     (case tl_Execute t input w of
        (res, w') \<Rightarrow>
          (let out = (case res of Inr out \<Rightarrow> out | Inl err \<Rightarrow> ''tool error: '' @ errText err)
           in (state\<lparr>rs_Messages := rs_Messages state @
                 [\<lparr>ms_Role = ''tool'', ms_Content = ''['' @ tl_Name t @ ''] '' @ out\<rparr>]\<rparr>, w')))"

definition finished :: "run_state \<Rightarrow> string \<Rightarrow> run_state" where
  "finished state txt = state\<lparr>rs_Status := ''done'', rs_FinalText := txt\<rparr>"

definition stepped :: "run_state \<Rightarrow> completion \<Rightarrow> run_state" where
  "stepped state resp =
     state\<lparr>rs_Step := rs_Step state + 1,
           rs_Messages := rs_Messages state @ [\<lparr>ms_Role = ''assistant'', ms_Content = cp_Text resp\<rparr>]\<rparr>"

definition awaiting :: "run_state \<Rightarrow> completion \<Rightarrow> run_state" where
  "awaiting state resp =
     state\<lparr>rs_Status := ''awaiting_approval'', rs_PendingTool := cp_ToolName resp, rs_PendingInput := cp_ToolInput resp\<rparr>"

text \<open>
  One pass of the loop ends the run or asks for another pass from a later state.
\<close>

datatype 'w pass = Return run_state "goerr option" 'w | Again run_state 'w

definition runPass :: "'w harness \<Rightarrow> string list \<Rightarrow> string \<Rightarrow> run_state \<Rightarrow> 'w \<Rightarrow> 'w pass \<times> event list" where
  "runPass h grantedTools model state w =
     (if rs_Step state \<ge> hn_maxSteps h then
        (let s = finished state [] in
         (Return s (Some (ErrWrap (errText ErrMaxSteps @ '' after '' @ showInt (hn_maxSteps h) @ '' steps'') ErrMaxSteps))
            (save h s w), [Saved s]))
      else
     (let req = buildRequest h state grantedTools model in
      case hn_completer h req w of
        (Inl err, w1) \<Rightarrow> (Return state (Some err) w1, [Completed req])
      | (Inr resp, w1) \<Rightarrow>
     (let s1 = stepped state resp in
      if cp_StopReason resp = ''end_turn'' then
        (let s = finished s1 (cp_Text resp) in (Return s None (save h s w1), [Completed req, Saved s]))
      else if cp_StopReason resp = ''tool_use'' then
     (case (if granted grantedTools (cp_ToolName resp) then hn_tools h (cp_ToolName resp) else None) of
        None \<Rightarrow>
          (let s = finished s1 [] in
           (Return s (Some (wrapQ ErrUnknownTool (cp_ToolName resp))) (save h s w1), [Completed req, Saved s]))
      | Some t \<Rightarrow>
          if tl_RequiresApproval t then
            (let s = awaiting s1 resp in (Return s None (save h s w1), [Completed req, Saved s]))
          else
            (case executeAndAppend s1 t (cp_ToolInput resp) w1 of
               (s, w2) \<Rightarrow> (Again s (save h s w2),
                           [Completed req, Executed (cp_ToolName resp) (cp_ToolInput resp), Saved s])))
      else
        (let s = finished s1 (cp_Text resp) in (Return s None (save h s w1), [Completed req, Saved s])))))"

lemma executeAndAppend_step:
  "executeAndAppend s t i w = (s', w') \<Longrightarrow>
     rs_Step s' = rs_Step s \<and> rs_Status s' = rs_Status s \<and> rs_GrantedTools s' = rs_GrantedTools s"
  by (auto simp: executeAndAppend_def Let_def split: prod.splits)

lemma runPass_again:
  "runPass h gts model s w = (Again s' w', evs) \<Longrightarrow> rs_Step s' = rs_Step s + 1 \<and> rs_Step s < hn_maxSteps h"
  by (auto simp: runPass_def Let_def stepped_def dest: executeAndAppend_step
      split: if_splits prod.splits sum.splits option.splits)

function runLoop ::
  "'w harness \<Rightarrow> string list \<Rightarrow> string \<Rightarrow> run_state \<Rightarrow> 'w \<Rightarrow> (run_state \<times> goerr option \<times> 'w) \<times> event list" where
  "runLoop h grantedTools model state w =
     (case runPass h grantedTools model state w of
        (Return s err w', evs) \<Rightarrow> ((s, err, w'), evs)
      | (Again s w', evs) \<Rightarrow>
          (case runLoop h grantedTools model s w' of (res, evs') \<Rightarrow> (res, evs @ evs')))"
  by pat_completeness auto
termination
  by (relation "measure (\<lambda>(h, gts, model, s, w). nat (hn_maxSteps h - rs_Step s))") (auto dest!: sym [THEN runPass_again])

declare runLoop.simps [simp del]

definition Run ::
  "'w harness \<Rightarrow> run_state \<Rightarrow> string list \<Rightarrow> string \<Rightarrow> 'w \<Rightarrow> (run_state \<times> goerr option \<times> 'w) \<times> event list" where
  "Run h state grantedTools model w =
     runLoop h grantedTools model (state\<lparr>rs_GrantedTools := grantedTools, rs_Status := ''running''\<rparr>) w"

definition grantedFromState :: "run_state \<Rightarrow> string list" where
  "grantedFromState state = rs_GrantedTools state"

definition declined :: "run_state \<Rightarrow> run_state" where
  "declined state = state\<lparr>rs_Status := ''done'', rs_FinalText := ''user declined the tool call; stopping.'',
     rs_PendingTool := [], rs_PendingInput := []\<rparr>"

definition approvedNote :: "run_state \<Rightarrow> run_state" where
  "approvedNote state = state\<lparr>rs_Messages := rs_Messages state @
     [\<lparr>ms_Role = ''assistant'', ms_Content = ''[approved tool '' @ rs_PendingTool state @ '']''\<rparr>]\<rparr>"

definition Resume ::
  "'w harness \<Rightarrow> string \<Rightarrow> bool \<Rightarrow> string \<Rightarrow> 'w \<Rightarrow> (run_state option \<times> goerr option \<times> 'w) \<times> event list" where
  "Resume h runID approved model w =
     (case ck_Load (hn_checkpoints h) runID w of
        (Inl err, w1) \<Rightarrow> ((None, Some ErrNoCheckpoint, w1), [])
      | (Inr state, w1) \<Rightarrow>
     (if rs_Status state \<noteq> ''awaiting_approval'' then ((None, Some ErrNotPending, w1), [])
      else
     (case (if approved then hn_tools h (rs_PendingTool state) else None) of
        None \<Rightarrow>
          (let s = declined state in ((Some s, None, save h s w1), [Saved s]))
      | Some t \<Rightarrow>
     (case executeAndAppend (approvedNote state) t (rs_PendingInput state) w1 of
        (s1, w2) \<Rightarrow>
     (let s = s1\<lparr>rs_PendingTool := [], rs_PendingInput := []\<rparr> in
      case Run h s (grantedFromState s) model (save h s w2) of
        ((r, err, w3), evs) \<Rightarrow>
          ((Some r, err, w3), Executed (rs_PendingTool state) (rs_PendingInput state) # Saved s # evs))))))"

section \<open>Facts about the loop\<close>

lemma granted_iff [simp]: "granted gs name \<longleftrightarrow> name \<in> set gs"
  by (induction gs) auto

text \<open>The tool table of a harness files every tool under its own name.\<close>

definition toolsNamed :: "'w harness \<Rightarrow> bool" where
  "toolsNamed h \<longleftrightarrow> (\<forall>n t. hn_tools h n = Some t \<longrightarrow> tl_Name t = n)"

lemma NewHarness_named: "toolsNamed (NewHarness completer tools maxSteps ck)"
proof -
  have "(fold (\<lambda>t m. m(tl_Name t \<mapsto> t)) ts m0) n = Some t \<Longrightarrow> \<forall>n t. m0 n = Some t \<longrightarrow> tl_Name t = n \<Longrightarrow> tl_Name t = n"
    for ts m0 n t
    by (induction ts arbitrary: m0) (auto split: if_splits)
  then show ?thesis by (auto simp: toolsNamed_def NewHarness_def)
qed

lemma toolSpecs_names: "toolsNamed h \<Longrightarrow> sp_Name ` set (toolSpecs h names) \<subseteq> set names"
  by (induction names) (auto simp: toolsNamed_def split: option.splits)

text \<open>Induction over the passes of a run.\<close>

lemma runLoop_cases:
  assumes "runLoop h gts model s w = ((s', err, w'), evs)"
  obtains (last) "runPass h gts model s w = (Return s' err w', evs)"
  | (more) s1 w1 evs1 evs2 where "runPass h gts model s w = (Again s1 w1, evs1)"
      "runLoop h gts model s1 w1 = ((s', err, w'), evs2)" "evs = evs1 @ evs2"
proof (cases "runPass h gts model s w")
  case (Pair p evs1)
  with assms show thesis
    by (cases p; subst (asm) runLoop.simps) (auto intro: last more split: prod.splits)
qed

lemma runLoop_induct [consumes 1, case_names last more]:
  assumes "runLoop h gts model s w = ((s', err, w'), evs)"
    and "\<And>s w evs. runPass h gts model s w = (Return s' err w', evs) \<Longrightarrow> P s w evs"
    and "\<And>s w s1 w1 evs1 evs2. runPass h gts model s w = (Again s1 w1, evs1) \<Longrightarrow>
           runLoop h gts model s1 w1 = ((s', err, w'), evs2) \<Longrightarrow> P s1 w1 evs2 \<Longrightarrow> P s w (evs1 @ evs2)"
  shows "P s w evs"
  using assms(1)
proof (induction "nat (hn_maxSteps h - rs_Step s)" arbitrary: s w evs rule: less_induct)
  case less
  from less.prems show ?case
  proof (cases rule: runLoop_cases)
    case last
    then show ?thesis by (rule assms(2))
  next
    case (more s1 w1 evs1 evs2)
    have "P s1 w1 evs2" by (rule less.hyps [OF _ more(2)]) (use runPass_again [OF more(1)] in simp)
    with more show ?thesis using assms(3) by blast
  qed
qed

lemma runPass_cases:
  assumes "runPass h gts model s w = (p, evs)"
  obtains (limit) err where "rs_Step s \<ge> hn_maxSteps h" "p = Return (finished s []) (Some err) (save h (finished s []) w)"
      "evs = [Saved (finished s [])]" "errorsIs err ErrMaxSteps"
  | (broken) err w1 where "rs_Step s < hn_maxSteps h" "p = Return s (Some err) w1" "evs = [Completed (buildRequest h s gts model)]"
  | (ended) resp fin err w1 where "rs_Step s < hn_maxSteps h" "p = Return (finished (stepped s resp) fin) err w1"
      "evs = [Completed (buildRequest h s gts model), Saved (finished (stepped s resp) fin)]"
  | (pending) resp t w1 where "rs_Step s < hn_maxSteps h" "p = Return (awaiting (stepped s resp) resp) None w1"
      "cp_ToolName resp \<in> set gts" "hn_tools h (cp_ToolName resp) = Some t" "tl_RequiresApproval t"
      "evs = [Completed (buildRequest h s gts model), Saved (awaiting (stepped s resp) resp)]"
  | (continues) resp :: completion and t s1 w2 where "rs_Step s < hn_maxSteps h" "p = Again s1 w2" "rs_Step s1 = rs_Step s + 1" "rs_Status s1 = rs_Status s" "rs_GrantedTools s1 = rs_GrantedTools s"
      "cp_ToolName resp \<in> set gts" "hn_tools h (cp_ToolName resp) = Some t" "\<not> tl_RequiresApproval t"
      "evs = [Completed (buildRequest h s gts model), Executed (cp_ToolName resp) (cp_ToolInput resp), Saved s1]"
proof (cases "rs_Step s \<ge> hn_maxSteps h")
  case True
  with assms show thesis by (intro limit) (auto simp: runPass_def Let_def)
next
  case False
  obtain c w1 where c: "hn_completer h (buildRequest h s gts model) w = (c, w1)" by force
  show thesis
  proof (cases c)
    case (Inl err)
    with False c assms show thesis by (intro broken) (auto simp: runPass_def Let_def)
  next
    case (Inr resp)
    let ?t = "if granted gts (cp_ToolName resp) then hn_tools h (cp_ToolName resp) else None"
    note pass = assms [unfolded runPass_def, simplified False c Inr Let_def if_False prod.case sum.case]
    show thesis
    proof (cases "cp_StopReason resp = ''tool_use''")
      case notool: False
      with pass show thesis using False by (intro ended [of resp "cp_Text resp"]) (auto split: if_splits)
    next
      case tool: True
      then have "cp_StopReason resp \<noteq> ''end_turn''" by simp
      note pass = pass [simplified tool this, simplified]
      show thesis
      proof (cases ?t)
        case None
        with pass False show thesis by (intro ended [of resp "[]"]) (auto split: if_splits)
      next
        case (Some t)
        then have t: "cp_ToolName resp \<in> set gts" "hn_tools h (cp_ToolName resp) = Some t" by (auto split: if_splits)
        obtain s1 w2 where x: "executeAndAppend (stepped s resp) t (cp_ToolInput resp) w1 = (s1, w2)" by force
        show thesis
        proof (cases "tl_RequiresApproval t")
          case True
          with pass t False show thesis by (intro pending [of resp _ t]) auto
        next
          case nogate: False
          have "rs_Step s1 = rs_Step s + 1" "rs_Status s1 = rs_Status s" "rs_GrantedTools s1 = rs_GrantedTools s"
            using executeAndAppend_step [OF x] by (simp_all add: stepped_def)
          with pass t False nogate x show thesis by (intro continues [of s1 _ resp t]) auto
        qed
      qed
    qed
  qed
qed

fun isCompleted :: "event \<Rightarrow> bool" where
  "isCompleted (Completed _) = True"
| "isCompleted _ = False"

text \<open>What a run with a given tool list may do: ask the model about those tools, run the ungated ones of them.\<close>

definition permitted :: "'w harness \<Rightarrow> string list \<Rightarrow> event \<Rightarrow> bool" where
  "permitted h gts e =
     (case e of
        Completed req \<Rightarrow> sp_Name ` set (rq_Tools req) \<subseteq> set gts
      | Executed n i \<Rightarrow> n \<in> set gts \<and> (\<exists>t. hn_tools h n = Some t \<and> \<not> tl_RequiresApproval t)
      | Saved s \<Rightarrow> True)"

lemma runPass_permitted: "toolsNamed h \<Longrightarrow> runPass h gts model s w = (p, evs) \<Longrightarrow> e \<in> set evs \<Longrightarrow> permitted h gts e"
  by (erule runPass_cases) (auto simp: permitted_def buildRequest_def dest: toolSpecs_names)

lemma runLoop_permitted:
  assumes "runLoop h gts model s w = ((s', err, w'), evs)" and "toolsNamed h"
  shows "\<forall>e \<in> set evs. permitted h gts e"
  using assms(1)
proof (induction rule: runLoop_induct)
  case (last s w evs)
  then show ?case using runPass_permitted [OF assms(2)] by blast
next
  case (more s w s1 w1 evs1 evs2)
  then show ?case using runPass_permitted [OF assms(2)] by auto
qed

lemma runLoop_budget:
  assumes "runLoop h gts model s w = ((s', err, w'), evs)"
  shows "int (length (filter isCompleted evs)) \<le> max 0 (hn_maxSteps h - rs_Step s) \<and>
    rs_Step s \<le> rs_Step s' \<and> rs_Step s' \<le> max (rs_Step s) (hn_maxSteps h)"
  using assms
proof (induction rule: runLoop_induct)
  case (last s w evs)
  then show ?case by (cases rule: runPass_cases) (auto simp: finished_def stepped_def awaiting_def)
next
  case (more s w s1 w1 evs1 evs2)
  from more(1) show ?case
    by (cases rule: runPass_cases) (use more(3) in auto)
qed

lemma runLoop_nonempty: "runLoop h gts model s w = ((s', err, w'), evs) \<Longrightarrow> evs \<noteq> []"
proof (erule runLoop_cases)
  assume "runPass h gts model s w = (Return s' err w', evs)"
  then show ?thesis by (cases rule: runPass_cases) auto
next
  fix s1 w1 evs1 evs2
  assume "runPass h gts model s w = (Again s1 w1, evs1)" "evs = evs1 @ evs2"
  then show ?thesis by (cases rule: runPass_cases) auto
qed

lemma runLoop_limit:
  assumes "hn_maxSteps h \<le> rs_Step s" and "runLoop h gts model s w = ((s', err, w'), evs)"
  shows "\<exists>e. err = Some e \<and> errorsIs e ErrMaxSteps"
  using assms(2)
proof (cases rule: runLoop_cases)
  case last
  then show ?thesis by (cases rule: runPass_cases) (use assms(1) in auto)
next
  case more
  from more(1) show ?thesis by (cases rule: runPass_cases) (use assms(1) in auto)
qed

lemma runLoop_awaiting:
  assumes "runLoop h gts model s w = ((s', err, w'), evs)" and "rs_Status s' = ''awaiting_approval''"
    and "rs_Status s \<noteq> ''awaiting_approval''"
  shows "err = None \<and> last evs = Saved s' \<and> rs_PendingTool s' \<in> set gts \<and>
    (\<exists>t. hn_tools h (rs_PendingTool s') = Some t \<and> tl_RequiresApproval t)"
  using assms(1,3)
proof (induction rule: runLoop_induct)
  case (last s w evs)
  from last(1) show ?case
    by (cases rule: runPass_cases) (use assms(2) last(2) in \<open>auto simp: finished_def awaiting_def\<close>)
next
  case (more s w s1 w1 evs1 evs2)
  have "evs2 \<noteq> []" using more(2) by (rule runLoop_nonempty)
  from more(1) show ?case
    by (cases rule: runPass_cases) (use more(3,4) \<open>evs2 \<noteq> []\<close> in auto)
qed

lemma Run_permitted:
  assumes "h = NewHarness completer tools maxSteps ck" and "Run h state gts model w = ((s', err, w'), evs)"
  shows "\<forall>e \<in> set evs. permitted h gts e"
  using assms(2) unfolding Run_def by (rule runLoop_permitted) (simp add: assms(1) NewHarness_named)

text \<open>A resume that executes something: the pending call first, then a run.\<close>

lemma Resume_executes:
  assumes "Resume h runID approved model w = ((r, err, w'), evs)" and "Executed n i \<in> set evs"
  obtains state w1 s w2 s' evs' where "approved" "ck_Load (hn_checkpoints h) runID w = (Inr state, w1)"
    "rs_Status state = ''awaiting_approval''"
    "evs = Executed (rs_PendingTool state) (rs_PendingInput state) # Saved s # evs'"
    "Run h s (grantedFromState s) model w2 = ((s', err, w'), evs')"
proof -
  obtain l w1 where l: "ck_Load (hn_checkpoints h) runID w = (l, w1)" by force
  then obtain state where st: "l = Inr state" using assms by (cases l) (auto simp: Resume_def)
  with l assms have aw: "rs_Status state = ''awaiting_approval''" by (auto simp: Resume_def split: if_splits)
  with l st assms obtain t where ap: "approved" "hn_tools h (rs_PendingTool state) = Some t"
    by (auto simp: Resume_def Let_def split: if_splits option.splits)
  obtain s1 w2 where x: "executeAndAppend (approvedNote state) t (rs_PendingInput state) w1 = (s1, w2)" by force
  let ?s = "s1\<lparr>rs_PendingTool := [], rs_PendingInput := []\<rparr>"
  obtain s' err' w3 evs' where run: "Run h ?s (grantedFromState ?s) model (save h ?s w2) = ((s', err', w3), evs')"
    by (metis surj_pair)
  from assms(1) l st aw ap x run show thesis by (intro that [of state w1 ?s evs' "save h ?s w2" s']) (simp_all add: Resume_def)
qed

section \<open>Properties\<close>

text \<open>
  C13. A run stays within its step budget: it asks the model at most as often as steps are left, its
  step counter never decreases and never passes the limit, and with no step left it stops at once
  with \<^verbatim>\<open>ErrMaxSteps\<close> without asking the model.  Every run returns (the loop is a total function).
\<close>

theorem run_within_step_budget:
  assumes "Run h state gts model w = ((s', err, w'), evs)"
  shows "int (length (filter isCompleted evs)) \<le> max 0 (hn_maxSteps h - rs_Step state) \<and>
    rs_Step state \<le> rs_Step s' \<and> rs_Step s' \<le> max (rs_Step state) (hn_maxSteps h) \<and>
    (hn_maxSteps h \<le> rs_Step state \<longrightarrow> (\<exists>e. err = Some e \<and> errorsIs e ErrMaxSteps))"
proof -
  let ?s = "state\<lparr>rs_GrantedTools := gts, rs_Status := ''running''\<rparr>"
  from assms have run: "runLoop h gts model ?s w = ((s', err, w'), evs)" by (simp add: Run_def)
  then have "hn_maxSteps h \<le> rs_Step state \<longrightarrow> (\<exists>e. err = Some e \<and> errorsIs e ErrMaxSteps)"
    using runLoop_limit [OF _ run] by simp
  with runLoop_budget [OF run] show ?thesis by simp
qed

text \<open>A harness with one free and one gated tool and a model that asks for each in turn.\<close>

definition exWrite :: "bool \<Rightarrow> string \<Rightarrow> nat tool" where
  "exWrite gate name = \<lparr>tl_Name = name, tl_Description = [], tl_InputSchema = [], tl_RequiresApproval = gate,
     tl_Execute = (\<lambda>input n. (Inr ''ok'', n + 10))\<rparr>"

definition exHarness :: "nat harness" where
  "exHarness = NewHarness
     (\<lambda>req n. (Inr \<lparr>cp_Text = ''thinking'', cp_StopReason = ''tool_use'',
        cp_ToolName = (if n < 10 then ''read'' else ''deploy''), cp_ToolInput = ''{}'', cp_InputTokens = 1, cp_OutputTok = 1\<rparr>, n))
     [exWrite False ''read'', exWrite True ''deploy''] 5
     \<lparr>ck_Save = (\<lambda>_ _ n. (None, n)), ck_Load = (\<lambda>_ n. (Inl ErrNoCheckpoint, n))\<rparr>"

definition exState :: run_state where
  "exState = \<lparr>rs_RunID = ''r'', rs_SessionID = ''s'', rs_AgentRef = ''a'', rs_Messages = [], rs_Step = 0, rs_Status = [],
     rs_PendingTool = [], rs_PendingInput = [], rs_FinalText = [], rs_GrantedTools = []\<rparr>"

lemma ex_harness_simps:
  "hn_tools exHarness ''read'' = Some (exWrite False ''read'')" "hn_tools exHarness ''deploy'' = Some (exWrite True ''deploy'')"
  "hn_maxSteps exHarness = 5" "save exHarness s n = n"
  "hn_completer exHarness req n = (Inr \<lparr>cp_Text = ''thinking'', cp_StopReason = ''tool_use'',
        cp_ToolName = (if n < 10 then ''read'' else ''deploy''), cp_ToolInput = ''{}'', cp_InputTokens = 1, cp_OutputTok = 1\<rparr>, n)"
  by (simp_all add: exHarness_def NewHarness_def exWrite_def save_def)

lemma ex_harness_tool_simps:
  "tl_RequiresApproval (exWrite g n) = g" "tl_Execute (exWrite g n) i k = (Inr ''ok'', k + 10)" "tl_Name (exWrite g n) = n"
  by (simp_all add: exWrite_def)

lemma ex_run:
  "\<exists>s' evs. Run exHarness exState [''read'', ''deploy''] ''m'' 0 = ((s', None, 10), evs) \<and> rs_Step s' = 2 \<and>
     rs_Status s' = ''awaiting_approval'' \<and> rs_PendingTool s' = ''deploy'' \<and> Executed ''read'' ''{}'' \<in> set evs"
  by (simp add: Run_def runLoop.simps runPass_def ex_harness_simps ex_harness_tool_simps exState_def stepped_def awaiting_def
      executeAndAppend_def Let_def)

theorem run_within_step_budget_witness:
  "\<exists>s' err w' evs. Run exHarness exState [''read'', ''deploy''] ''m'' 0 = ((s', err, w'), evs) \<and>
     length (filter isCompleted evs) \<le> 5 \<and> rs_Step s' \<le> 5"
proof -
  obtain s' err w' evs where run: "Run exHarness exState [''read'', ''deploy''] ''m'' 0 = ((s', err, w'), evs)"
    by (metis surj_pair)
  from run_within_step_budget [OF this] run show ?thesis
    by (auto simp: ex_harness_simps exState_def)
qed

text \<open>
  C23. During a run only granted tools are shown to the model, and every tool that is executed is
  granted, registered and free of an approval requirement, whatever the model asks for.
\<close>

theorem run_only_granted_tools:
  assumes "h = NewHarness completer tools maxSteps ck" and "Run h state gts model w = ((s', err, w'), evs)"
  shows "(\<forall>req. Completed req \<in> set evs \<longrightarrow> sp_Name ` set (rq_Tools req) \<subseteq> set gts) \<and>
    (\<forall>n i. Executed n i \<in> set evs \<longrightarrow>
       n \<in> set gts \<and> (\<exists>t. hn_tools h n = Some t \<and> tl_Name t = n \<and> \<not> tl_RequiresApproval t))"
proof -
  have named: "toolsNamed h" using assms(1) by (simp add: NewHarness_named)
  with Run_permitted [OF assms] show ?thesis by (fastforce simp: permitted_def toolsNamed_def)
qed

theorem run_only_granted_tools_witness:
  "\<exists>s' err w' evs. Run exHarness exState [''read'', ''deploy''] ''m'' 0 = ((s', err, w'), evs) \<and>
     Executed ''read'' ''{}'' \<in> set evs \<and> (\<forall>n i. Executed n i \<in> set evs \<longrightarrow> n \<in> set [''read'', ''deploy''])"
proof -
  from ex_run obtain s' err w' evs where run: "Run exHarness exState [''read'', ''deploy''] ''m'' 0 = ((s', err, w'), evs)"
    and ex: "Executed ''read'' ''{}'' \<in> set evs" by blast
  note run_only_granted_tools [OF exHarness_def run]
  then have "\<forall>n i. Executed n i \<in> set evs \<longrightarrow> n \<in> set [''read'', ''deploy'']" by meson
  with run ex show ?thesis by meson
qed

text \<open>
  C24. A tool that requires approval runs only after the user approved exactly that call.  A run that
  stops for approval has not executed it, names a granted tool, and saved its state last.  A resume
  executes a gated tool only when the decision is an approval, the checkpoint awaits one, and the
  tool and input are the pending ones, and then exactly once; a refusal executes nothing.
\<close>

theorem approval_gate:
  assumes "h = NewHarness completer tools maxSteps ck"
  shows "(\<forall>state gts w s' err w' evs. Run h state gts model w = ((s', err, w'), evs) \<and> rs_Status s' = ''awaiting_approval'' \<longrightarrow>
      err = None \<and> last evs = Saved s' \<and> rs_PendingTool s' \<in> set gts \<and> (\<forall>i. Executed (rs_PendingTool s') i \<notin> set evs)) \<and>
    (\<forall>w r err w' evs n i t. Resume h runID approved model w = ((r, err, w'), evs) \<and> Executed n i \<in> set evs \<and>
        hn_tools h n = Some t \<and> tl_RequiresApproval t \<longrightarrow>
      approved \<and> (\<exists>state w1 evs'. ck_Load ck runID w = (Inr state, w1) \<and> rs_Status state = ''awaiting_approval'' \<and>
        n = rs_PendingTool state \<and> i = rs_PendingInput state \<and>
        evs = Executed n i # evs' \<and> (\<forall>j. Executed n j \<notin> set evs'))) \<and>
    (\<forall>w r err w' evs n i. Resume h runID False model w = ((r, err, w'), evs) \<longrightarrow> Executed n i \<notin> set evs)"
proof (intro conjI allI impI; (elim conjE)?)
  fix state gts w s' err w' evs
  assume run: "Run h state gts model w = ((s', err, w'), evs)" and st: "rs_Status s' = ''awaiting_approval''"
  have aw: "err = None \<and> last evs = Saved s' \<and> rs_PendingTool s' \<in> set gts \<and>
    (\<exists>t. hn_tools h (rs_PendingTool s') = Some t \<and> tl_RequiresApproval t)"
    by (rule runLoop_awaiting [OF run [unfolded Run_def] st]) simp
  then show "err = None" "last evs = Saved s'" "rs_PendingTool s' \<in> set gts" by simp_all
  show "Executed (rs_PendingTool s') i \<notin> set evs" for i
    using Run_permitted [OF assms run] aw by (auto simp: permitted_def)
next
  fix w r err w' evs n i t
  assume res: "Resume h runID approved model w = ((r, err, w'), evs)" and ev: "Executed n i \<in> set evs"
    and t: "hn_tools h n = Some t" "tl_RequiresApproval t"
  from Resume_executes [OF res ev] obtain state w1 s w2 s' evs' where
    ap: approved and ld: "ck_Load (hn_checkpoints h) runID w = (Inr state, w1)"
    and st: "rs_Status state = ''awaiting_approval''"
    and evs: "evs = Executed (rs_PendingTool state) (rs_PendingInput state) # Saved s # evs'"
    and run: "Run h s (grantedFromState s) model w2 = ((s', err, w'), evs')" .
  have tail: "Executed n j \<notin> set (Saved s # evs')" for j
    using Run_permitted [OF assms run] t by (auto simp: permitted_def)
  with ev evs have eq: "n = rs_PendingTool state" "i = rs_PendingInput state" by auto
  show approved by (rule ap)
  show  "\<exists>state w1 evs'. ck_Load ck runID w = (Inr state, w1) \<and> rs_Status state = ''awaiting_approval'' \<and>
        n = rs_PendingTool state \<and> i = rs_PendingInput state \<and>
        evs = Executed n i # evs' \<and> (\<forall>j. Executed n j \<notin> set evs')"
    using ld st evs eq tail assms by (intro exI [of _ state] exI [of _ w1] exI [of _ "Saved s # evs'"]) (simp add: NewHarness_def)
next
  fix w r err w' evs n i
  assume "Resume h runID False model w = ((r, err, w'), evs)"
  then show "Executed n i \<notin> set evs"
    by (auto simp: Resume_def Let_def split: prod.splits sum.splits if_splits)
qed

theorem approval_gate_witness:
  "\<exists>s' evs. Run exHarness exState [''read'', ''deploy''] ''m'' 0 = ((s', None, 10), evs) \<and>
     rs_Status s' = ''awaiting_approval'' \<and> last evs = Saved s' \<and> (\<forall>i. Executed ''deploy'' i \<notin> set evs)"
proof -
  from ex_run obtain s' evs where run: "Run exHarness exState [''read'', ''deploy''] ''m'' 0 = ((s', None, 10), evs)"
    and st: "rs_Status s' = ''awaiting_approval''" and pt: "rs_PendingTool s' = ''deploy''" by blast
  from approval_gate [OF exHarness_def, THEN conjunct1, rule_format, OF conjI [OF run st]]
  have "last evs = Saved s'" "\<forall>i. Executed (rs_PendingTool s') i \<notin> set evs" by blast+
  with run st pt show ?thesis by (intro exI conjI) simp_all
qed

end
