(* ===== verification/StopHook.thy ===== *)
theory StopHook
  imports Prelude
begin

text \<open>
  \<^verbatim>\<open>internal/stophook\<close>: the commit-before-death sequence that pushes the work of a session, keeps the
  diffs it could not push, and emits the session manifest.  Git, object storage, the manifest store
  and the grace-period context act on a world \<open>'w\<close> and are parameters, as is the JSON encoding of the
  manifest.
\<close>

section \<open>Data\<close>

record repo_work =
  rw_Origin :: string
  rw_Branch :: string
  rw_Diff :: string

record git_state =
  gs_Repo :: string
  gs_Branch :: string
  gs_HeadSHA :: string
  gs_PRs :: "string list"
  gs_Uncommitted :: bool
  gs_DiffRef :: string

record manifest =
  mf_SessionID :: string
  mf_AgentVersion :: string
  mf_TranscriptRef :: string
  mf_GitState :: "git_state list"
  mf_EndedReason :: string

record hook_input =
  in_OrgID :: string
  in_SessionID :: string
  in_AgentVersion :: string
  in_TranscriptRef :: string
  in_EndedReason :: string
  in_Repos :: "repo_work list"

text \<open>
  \<open>hk_expired\<close> is \<^verbatim>\<open>cctx.Err() != nil\<close>: whether the grace period of the run is over in a world.
\<close>

record 'w hook =
  hk_CommitAndPush :: "string \<Rightarrow> string \<Rightarrow> string \<Rightarrow> 'w \<Rightarrow> (string \<times> string) result \<times> 'w"
  hk_Upload :: "string \<Rightarrow> string \<Rightarrow> 'w \<Rightarrow> string result \<times> 'w"
  hk_SaveManifest :: "(string \<Rightarrow> string \<Rightarrow> string \<Rightarrow> 'w \<Rightarrow> goerr option \<times> 'w) option"
  hk_Marshal :: "manifest \<Rightarrow> string result"
  hk_expired :: "duration \<Rightarrow> 'w \<Rightarrow> bool"
  hk_grace :: duration

definition DeadlineExceeded :: goerr where
  "DeadlineExceeded = ErrNew ''context deadline exceeded''"

section \<open>Operations\<close>

definition NewHook :: "'w hook \<Rightarrow> duration \<Rightarrow> 'w hook" where
  "NewHook services grace = services\<lparr>hk_grace := (if grace = 0 then 120 * Second else grace)\<rparr>"

definition sanitizeRune :: "string \<Rightarrow> char" where
  "sanitizeRune r =
     (case r of
        [c] \<Rightarrow> if asciiAlnum c \<or>
                  c = CHR ''-'' \<or> c = CHR ''.'' then c else CHR ''-''
      | _ \<Rightarrow> CHR ''-'')"

definition sanitize :: "string \<Rightarrow> string" where
  "sanitize origin = map sanitizeRune (runes origin)"

definition emit :: "'w hook \<Rightarrow> hook_input \<Rightarrow> manifest \<Rightarrow> 'w \<Rightarrow> manifest result \<times> 'w" where
  "emit h inp m w =
     (case hk_Marshal h m of
        Inl err \<Rightarrow> (Inl err, w)
      | Inr raw \<Rightarrow>
          (case hk_SaveManifest h of
             None \<Rightarrow> (Inr m, w)
           | Some sv \<Rightarrow>
               (case sv (in_OrgID inp) (in_SessionID inp) raw w of
                  (Some err, w') \<Rightarrow> (Inl err, w')
                | (None, w') \<Rightarrow> (Inr m, w'))))"

definition diffKey :: "hook_input \<Rightarrow> repo_work \<Rightarrow> string" where
  "diffKey inp rw = ''uncommitted/'' @ in_SessionID inp @ ''/'' @ sanitize (rw_Origin rw) @ ''.diff''"

definition pushedState :: "repo_work \<Rightarrow> string \<Rightarrow> string \<Rightarrow> git_state" where
  "pushedState rw headSHA prURL =
     \<lparr>gs_Repo = rw_Origin rw, gs_Branch = rw_Branch rw, gs_HeadSHA = headSHA,
      gs_PRs = (if prURL \<noteq> [] then [prURL] else []), gs_Uncommitted = False, gs_DiffRef = []\<rparr>"

definition savedState :: "repo_work \<Rightarrow> string \<Rightarrow> git_state" where
  "savedState rw ref =
     \<lparr>gs_Repo = rw_Origin rw, gs_Branch = rw_Branch rw, gs_HeadSHA = [], gs_PRs = [],
      gs_Uncommitted = True, gs_DiffRef = ref\<rparr>"

definition addState :: "git_state \<Rightarrow> manifest \<Rightarrow> manifest" where
  "addState gs m = m\<lparr>mf_GitState := mf_GitState m @ [gs]\<rparr>"

fun runRepos :: "'w hook \<Rightarrow> hook_input \<Rightarrow> repo_work list \<Rightarrow> manifest \<Rightarrow> 'w \<Rightarrow> manifest result \<times> 'w" where
  "runRepos h inp [] m w = emit h inp m w"
| "runRepos h inp (rw # rws) m w =
     (case hk_CommitAndPush h (rw_Origin rw) (rw_Branch rw) (rw_Diff rw) w of
        (Inr (headSHA, prURL), w1) \<Rightarrow> runRepos h inp rws (addState (pushedState rw headSHA prURL) m) w1
      | (Inl err, w1) \<Rightarrow>
          (case hk_Upload h (diffKey inp rw) (rw_Diff rw) w1 of
             (Inl upErr, w2) \<Rightarrow> (Inl upErr, w2)
           | (Inr ref, w2) \<Rightarrow>
               if errorsIs err DeadlineExceeded \<or> hk_expired h (hk_grace h) w1
               then emit h inp (addState (savedState rw ref) m) w2
               else runRepos h inp rws (addState (savedState rw ref) m) w2))"

definition RunHook :: "'w hook \<Rightarrow> hook_input \<Rightarrow> 'w \<Rightarrow> manifest result \<times> 'w" where
  "RunHook h inp w =
     runRepos h inp (in_Repos inp)
       \<lparr>mf_SessionID = in_SessionID inp, mf_AgentVersion = in_AgentVersion inp, mf_TranscriptRef = in_TranscriptRef inp,
        mf_GitState = [], mf_EndedReason = in_EndedReason inp\<rparr> w"

section \<open>What a manifest says about a repository\<close>

text \<open>Either the push of the work returned this head, or an upload of the diff returned this reference.\<close>

definition accounts :: "'w hook \<Rightarrow> hook_input \<Rightarrow> repo_work \<Rightarrow> git_state \<Rightarrow> bool" where
  "accounts h inp rw gs \<longleftrightarrow>
     (\<exists>w head pr w'. hk_CommitAndPush h (rw_Origin rw) (rw_Branch rw) (rw_Diff rw) w = (Inr (head, pr), w') \<and>
        gs = pushedState rw head pr) \<or>
     (\<exists>w ref w'. hk_Upload h (diffKey inp rw) (rw_Diff rw) w = (Inr ref, w') \<and> gs = savedState rw ref)"

lemma emit_Inr: "emit h inp m w = (Inr m', w') \<Longrightarrow> m' = m \<and> (\<exists>raw. hk_Marshal h m = Inr raw)"
  by (auto simp: emit_def split: sum.splits option.splits prod.splits)

definition graceOver :: "'w hook \<Rightarrow> repo_work \<Rightarrow> bool" where
  "graceOver h rw \<longleftrightarrow>
     (\<exists>w err w'. hk_CommitAndPush h (rw_Origin rw) (rw_Branch rw) (rw_Diff rw) w = (Inl err, w') \<and>
        (errorsIs err DeadlineExceeded \<or> hk_expired h (hk_grace h) w'))"

text \<open>A manifest that covers the repositories up to the one at which the grace period ended.\<close>

definition covers :: "'w hook \<Rightarrow> hook_input \<Rightarrow> repo_work list \<Rightarrow> git_state list \<Rightarrow> bool" where
  "covers h inp rws gss \<longleftrightarrow>
     (\<exists>done rest. rws = done @ rest \<and> list_all2 (accounts h inp) done gss \<and>
        (rest \<noteq> [] \<longrightarrow> done \<noteq> [] \<and> graceOver h (List.last done) \<and> gs_Uncommitted (List.last gss)))"

lemma covers_Cons:
  assumes "accounts h inp rw gs" and "covers h inp rws gss"
  shows "covers h inp (rw # rws) (gs # gss)"
proof -
  from assms(2) obtain dn rest where d: "rws = dn @ rest" "list_all2 (accounts h inp) dn gss"
    "rest \<noteq> [] \<longrightarrow> dn \<noteq> [] \<and> graceOver h (List.last dn) \<and> gs_Uncommitted (List.last gss)"
    by (auto simp: covers_def)
  have "dn = [] \<longleftrightarrow> gss = []" using d(2) by auto
  with d assms(1) show ?thesis unfolding covers_def
    by (intro exI [of _ "rw # dn"] exI [of _ rest]) auto
qed

lemma runRepos_covers:
  "runRepos h inp rws m w = (Inr m', w') \<Longrightarrow>
   \<exists>gss. m' = m\<lparr>mf_GitState := mf_GitState m @ gss\<rparr> \<and> covers h inp rws gss \<and> (\<exists>raw. hk_Marshal h m' = Inr raw)"
proof (induction rws arbitrary: m w)
  case Nil
  then show ?case by (intro exI [of _ "[]"]) (auto simp: covers_def dest: emit_Inr)
next
  case (Cons rw rws)
  obtain r w1 where push: "hk_CommitAndPush h (rw_Origin rw) (rw_Branch rw) (rw_Diff rw) w = (r, w1)" by force
  have step: ?case if "accounts h inp rw gs" "runRepos h inp rws (addState gs m) w2 = (Inr m', w')" for gs w2
  proof -
    from Cons.IH [OF that(2)] obtain gss where "m' = (addState gs m)\<lparr>mf_GitState := mf_GitState (addState gs m) @ gss\<rparr>"
      "covers h inp rws gss" "\<exists>raw. hk_Marshal h m' = Inr raw" by blast
    with covers_Cons [OF that(1)] show ?thesis by (intro exI [of _ "gs # gss"]) (simp add: addState_def)
  qed
  show ?case
  proof (cases r)
    case (Inr hp)
    obtain head pr where "hp = (head, pr)" by force
    with Inr push have "accounts h inp rw (pushedState rw head pr)" by (auto simp: accounts_def)
    moreover have "runRepos h inp rws (addState (pushedState rw head pr) m) w1 = (Inr m', w')"
      using Cons.prems push Inr \<open>hp = (head, pr)\<close> by simp
    ultimately show ?thesis by (rule step)
  next
    case (Inl err)
    obtain u w2 where up: "hk_Upload h (diffKey inp rw) (rw_Diff rw) w1 = (u, w2)" by force
    with Cons.prems push Inl obtain ref where u: "u = Inr ref" by (cases u) auto
    with up have acc: "accounts h inp rw (savedState rw ref)" unfolding accounts_def by blast
    show ?thesis
    proof (cases "errorsIs err DeadlineExceeded \<or> hk_expired h (hk_grace h) w1")
      case True
      with push Inl have "graceOver h rw" by (auto simp: graceOver_def)
      with acc have "covers h inp (rw # rws) [savedState rw ref]"
        unfolding covers_def by (intro exI [of _ "[rw]"] exI [of _ rws]) (simp add: savedState_def)
      moreover have "emit h inp (addState (savedState rw ref) m) w2 = (Inr m', w')"
        using Cons.prems push Inl up u True by simp
      ultimately show ?thesis by (intro exI [of _ "[savedState rw ref]"]) (auto simp: addState_def dest!: emit_Inr)
    next
      case False
      with Cons.prems push Inl up u have "runRepos h inp rws (addState (savedState rw ref) m) w2 = (Inr m', w')" by simp
      with acc show ?thesis by (rule step)
    qed
  qed
qed

section \<open>Properties\<close>

text \<open>
  C26. The manifest that the stop hook returns accounts for the work of the session: it has one entry
  per repository, in order, up to the repository at which the grace period ended and for all of them
  if it did not, and each entry either carries the head that the push of its work returned or the
  reference that the upload of its diff returned.
\<close>

theorem manifest_accounts_for_work:
  assumes "RunHook h inp w = (Inr m, w')"
  shows "covers h inp (in_Repos inp) (mf_GitState m) \<and> mf_SessionID m = in_SessionID inp \<and>
    mf_AgentVersion m = in_AgentVersion inp \<and> mf_TranscriptRef m = in_TranscriptRef inp \<and> mf_EndedReason m = in_EndedReason inp \<and>
    ((\<forall>rw \<in> set (in_Repos inp). \<not> graceOver h rw) \<longrightarrow> length (mf_GitState m) = length (in_Repos inp))"
proof -
  from runRepos_covers [OF assms [unfolded RunHook_def]] have cov: "covers h inp (in_Repos inp) (mf_GitState m)"
    and "mf_SessionID m = in_SessionID inp" "mf_AgentVersion m = in_AgentVersion inp"
      "mf_TranscriptRef m = in_TranscriptRef inp" "mf_EndedReason m = in_EndedReason inp"
    by auto
  moreover from cov have "length (mf_GitState m) = length (in_Repos inp)" if "\<forall>rw \<in> set (in_Repos inp). \<not> graceOver h rw"
  proof -
    from cov obtain dn rest where d: "in_Repos inp = dn @ rest" "list_all2 (accounts h inp) dn (mf_GitState m)"
      "rest \<noteq> [] \<longrightarrow> dn \<noteq> [] \<and> graceOver h (List.last dn)" by (auto simp: covers_def)
    have "rest = []" using d(1,3) that by (metis Un_iff last_in_set set_append)
    with d(1,2) show ?thesis by (simp add: list_all2_lengthD)
  qed
  ultimately show ?thesis by blast
qed

text \<open>A hook whose pushes fail for one origin, with a grace period that ends after the third push.\<close>

definition exHook :: "nat hook" where
  "exHook = \<lparr>hk_CommitAndPush = (\<lambda>repo br diff n. (if repo = ''ok'' then Inr (''sha'', ''pr'') else Inl (ErrNew ''rejected''), Suc n)),
     hk_Upload = (\<lambda>key dat n. (Inr (''blob:'' @ dat), n)), hk_SaveManifest = None,
     hk_Marshal = (\<lambda>m. Inr ''raw''), hk_expired = (\<lambda>g n. n > 2), hk_grace = 0\<rparr>"

definition exRepos :: "repo_work list" where
  "exRepos = [\<lparr>rw_Origin = ''ok'', rw_Branch = ''b'', rw_Diff = ''d1''\<rparr>, \<lparr>rw_Origin = ''bad'', rw_Branch = ''b'', rw_Diff = ''d2''\<rparr>]"

definition exInput :: "repo_work list \<Rightarrow> hook_input" where
  "exInput repos = \<lparr>in_OrgID = ''o'', in_SessionID = ''s'', in_AgentVersion = ''v'', in_TranscriptRef = ''t'',
     in_EndedReason = ''idle-timeout'', in_Repos = repos\<rparr>"

lemma ex_hook_run:
  "\<exists>m. RunHook exHook (exInput exRepos) 0 = (Inr m, 2) \<and>
     mf_GitState m = [pushedState (exRepos ! 0) ''sha'' ''pr'', savedState (exRepos ! 1) ''blob:d2'']"
  by (simp add: RunHook_def exInput_def exHook_def exRepos_def addState_def emit_def pushedState_def savedState_def
      DeadlineExceeded_def)

theorem manifest_accounts_for_work_witness:
  "\<exists>m. RunHook exHook (exInput exRepos) 0 = (Inr m, 2) \<and> covers exHook (exInput exRepos) exRepos (mf_GitState m)"
proof -
  from ex_hook_run obtain m where m: "RunHook exHook (exInput exRepos) 0 = (Inr m, 2)" by blast
  with manifest_accounts_for_work [OF m] show ?thesis by (auto simp: exInput_def)
qed

text \<open>
  When the grace period ends at a repository, the repositories after it are given up: their work is
  neither pushed nor uploaded and they are missing from the manifest, which is returned as success.
\<close>

theorem grace_end_drops_later_repos:
  assumes "hk_CommitAndPush h (rw_Origin rw) (rw_Branch rw) (rw_Diff rw) w = (Inl err, w1)"
    and "errorsIs err DeadlineExceeded \<or> hk_expired h (hk_grace h) w1"
    and "hk_Upload h (diffKey inp rw) (rw_Diff rw) w1 = (Inr ref, w2)"
  shows "runRepos h inp (rw # later) m w = emit h inp (addState (savedState rw ref) m) w2"
  using assms by simp

text \<open>Different origins can share the storage key of their diffs.\<close>

theorem diff_keys_collide:
  "diffKey inp \<lparr>rw_Origin = ''https://g/a/b'', rw_Branch = x, rw_Diff = d\<rparr> =
   diffKey inp \<lparr>rw_Origin = ''https://g/a-b'', rw_Branch = y, rw_Diff = e\<rparr>"
  by (simp add: diffKey_def sanitize_def runes.simps runeWidth_def sanitizeRune_def Let_def less_eq_char_def)

end
