(* ===== verification/Base64.thy ===== *)
theory Base64
  imports Prelude
begin

text \<open>
  Go's \<^verbatim>\<open>base64.RawURLEncoding\<close> (URL alphabet, no padding), which frames the segments of run
  tokens, jtis and facade URLs.  Decoding skips carriage returns and line feeds, refuses any
  other byte outside the alphabet and a final quantum of one character, and ignores the unused
  low bits of the final quantum, as the Go decoder does outside its strict mode.
\<close>

text \<open>The alphabet: letters, digits, \<^verbatim>\<open>-\<close> and \<^verbatim>\<open>_\<close>.\<close>

definition b64Char :: "nat \<Rightarrow> char" where
  "b64Char n =
     char_of (if n < 26 then 65 + n else if n < 52 then 71 + n else if n < 62 then n - 4
              else if n = 62 then 45 else 95)"

definition b64Val :: "char \<Rightarrow> nat option" where
  "b64Val c =
     (let n = of_char c in
      if 65 \<le> n \<and> n \<le> 90 then Some (n - 65)
      else if 97 \<le> n \<and> n \<le> 122 then Some (n - 71)
      else if 48 \<le> n \<and> n \<le> 57 then Some (n + 4)
      else if n = 45 then Some 62
      else if n = 95 then Some 63
      else None)"

fun b64Digits :: "nat list \<Rightarrow> nat list" where
  "b64Digits [] = []"
| "b64Digits [a] = [a div 4, (a mod 4) * 16]"
| "b64Digits [a, b] = [a div 4, (a mod 4) * 16 + b div 16, (b mod 16) * 4]"
| "b64Digits (a # b # c # r) =
     a div 4 # ((a mod 4) * 16 + b div 16) # ((b mod 16) * 4 + c div 64) # (c mod 64) # b64Digits r"

fun b64Quanta :: "nat list \<Rightarrow> nat list option" where
  "b64Quanta [] = Some []"
| "b64Quanta [p] = None"
| "b64Quanta [p, q] = Some [p * 4 + q div 16]"
| "b64Quanta [p, q, r] = Some [p * 4 + q div 16, (q mod 16) * 16 + r div 4]"
| "b64Quanta (p # q # r # t # rest) =
     map_option (\<lambda>bs. (p * 4 + q div 16) # ((q mod 16) * 16 + r div 4) # ((r mod 4) * 64 + t) # bs)
       (b64Quanta rest)"

fun b64Vals :: "string \<Rightarrow> nat list option" where
  "b64Vals [] = Some []"
| "b64Vals (c # cs) =
     (case b64Val c of None \<Rightarrow> None | Some v \<Rightarrow> map_option ((#) v) (b64Vals cs))"

definition EncodeToString :: "string \<Rightarrow> string" where
  "EncodeToString s = map b64Char (b64Digits (map of_char s))"

definition DecodeString :: "string \<Rightarrow> string option" where
  "DecodeString s =
     (case b64Vals (filter (\<lambda>c. c \<noteq> CHR 0x0D \<and> c \<noteq> CHR 0x0A) s) of
        None \<Rightarrow> None
      | Some vs \<Rightarrow> map_option (map char_of) (b64Quanta vs))"

subsection \<open>Round trip\<close>

lemma b64Digits_less: "\<forall>n \<in> set xs. n < 256 \<Longrightarrow> \<forall>d \<in> set (b64Digits xs). d < 64"
  by (induction xs rule: b64Digits.induct) auto

lemma b64Quanta_Digits: "\<forall>n \<in> set xs. n < 256 \<Longrightarrow> b64Quanta (b64Digits xs) = Some xs"
  by (induction xs rule: b64Digits.induct) (auto simp: mult.commute)

lemma b64Val_Char [simp]: "n < 64 \<Longrightarrow> b64Val (b64Char n) = Some n"
  by (auto simp: b64Val_def b64Char_def Let_def)

lemma b64Val_reserved:
  "b64Val CHR 0x0D = None" "b64Val CHR 0x0A = None" "b64Val CHR ''.'' = None" "b64Val CHR ''/'' = None"
  by (simp_all add: b64Val_def)

lemma b64Char_reserved:
  "n < 64 \<Longrightarrow> b64Char n \<notin> {CHR 0x0D, CHR 0x0A, CHR ''.'', CHR ''/''}"
  by (metis b64Val_Char b64Val_reserved empty_iff insert_iff option.distinct(1))

lemma b64Vals_map: "\<forall>d \<in> set ds. d < 64 \<Longrightarrow> b64Vals (map b64Char ds) = Some ds"
  by (induction ds) auto

lemma b64_strip: "\<forall>d \<in> set ds. d < 64 \<Longrightarrow>
    filter (\<lambda>c. c \<noteq> CHR 0x0D \<and> c \<noteq> CHR 0x0A) (map b64Char ds) = map b64Char ds"
  using b64Char_reserved by (intro filter_True) fastforce

lemma bytes_less: "\<forall>n \<in> set (map (of_char :: char \<Rightarrow> nat) s). n < 256"
  by (auto simp: of_char_def)

lemma Decode_Encode [simp]: "DecodeString (EncodeToString s) = Some s"
proof -
  let ?ds = "b64Digits (map of_char s)"
  have ds: "\<forall>d \<in> set ?ds. d < 64" by (rule b64Digits_less [OF bytes_less])
  then show ?thesis
    by (simp add: DecodeString_def EncodeToString_def b64_strip b64Vals_map
        b64Quanta_Digits [OF bytes_less] comp_def)
qed

lemma Encode_no_sep:
  "CHR ''.'' \<notin> set (EncodeToString s)" "CHR ''/'' \<notin> set (EncodeToString s)"
  using b64Digits_less [OF bytes_less, of s] b64Char_reserved
  by (force simp: EncodeToString_def)+

lemma b64Char_plain: "n < 64 \<Longrightarrow> plainByte (b64Char n)"
  by (auto simp: plainByte_def b64Char_def)

lemma Encode_plain: "list_all plainByte (EncodeToString s)"
  using b64Digits_less [OF bytes_less, of s] by (auto simp: EncodeToString_def list_all_iff b64Char_plain)

lemma Encode_inject [simp]: "EncodeToString s = EncodeToString t \<longleftrightarrow> s = t"
  by (metis Decode_Encode option.inject)

end
