(* ===== verification/RunToken.thy ===== *)
theory RunToken
  imports Base64
begin

text \<open>
  \<^verbatim>\<open>internal/runtoken\<close>: minting, renewing, validating and revoking the run tokens that gate all
  egress.  HMAC-SHA256, the JSON codec of the claims, the session store behind
  \<^verbatim>\<open>SessionChecker\<close> and the Redis server behind \<^verbatim>\<open>RedisRevocations\<close> are parameters; base64 framing,
  expiry arithmetic and every check of the service are translated.
\<close>

section \<open>Data\<close>

record claims =
  cl_RunID :: string
  cl_SessionID :: string
  cl_Agent :: string
  cl_UserID :: string
  cl_OrgID :: string
  cl_Grants :: "string list"
  cl_MCPServer :: "string list"
  cl_JTI :: string
  cl_IssuedAt :: int
  cl_ExpiresAt :: int

record session_info =
  si_Alive :: bool
  si_Deadline :: time

record mint_request =
  mr_RunID :: string
  mr_SessionID :: string
  mr_Agent :: string
  mr_UserID :: string
  mr_OrgID :: string
  mr_Grants :: "string list"
  mr_MCPServer :: "string list"

definition ErrMalformed :: goerr where "ErrMalformed = ErrNew ''malformed token''"
definition ErrBadSignature :: goerr where "ErrBadSignature = ErrNew ''token signature invalid''"
definition ErrExpired :: goerr where "ErrExpired = ErrNew ''token expired''"
definition ErrRevoked :: goerr where "ErrRevoked = ErrNew ''token revoked''"
definition ErrSessionEnded :: goerr where "ErrSessionEnded = ErrNew ''session not alive''"
definition ErrSessionExpired :: goerr where "ErrSessionExpired = ErrNew ''session lifetime exceeded''"

lemmas token_errs = ErrMalformed_def ErrBadSignature_def ErrExpired_def ErrRevoked_def
  ErrSessionEnded_def ErrSessionExpired_def

definition defaultTTL :: duration where "defaultTTL = 15 * Minute"

text \<open>
  The \<^verbatim>\<open>Revocations\<close> interface over a store state \<open>'r\<close>; both calls see the store's clock.
\<close>

record 'r revocations =
  rv_Revoke :: "string \<Rightarrow> duration \<Rightarrow> time \<Rightarrow> 'r \<Rightarrow> goerr option \<times> 'r"
  rv_IsRevoked :: "string \<Rightarrow> time \<Rightarrow> 'r \<Rightarrow> bool result"

record 'r service =
  sv_secret :: string
  sv_ttl :: duration
  sv_mac :: "string \<Rightarrow> string \<Rightarrow> string"  \<comment> \<open>\<^verbatim>\<open>crypto/hmac\<close> with SHA-256: key, message\<close>
  sv_marshal :: "claims \<Rightarrow> string"  \<comment> \<open>\<^verbatim>\<open>encoding/json\<close> on the claims\<close>
  sv_unmarshal :: "string \<Rightarrow> claims option"
  sv_revoke :: "'r revocations option"

section \<open>Encoding\<close>

definition tokenHeader :: string where
  "tokenHeader = EncodeToString (''{'' @ [CHR 0x22] @ ''alg'' @ [CHR 0x22] @ '':'' @ [CHR 0x22]
     @ ''HS256'' @ [CHR 0x22] @ '','' @ [CHR 0x22] @ ''typ'' @ [CHR 0x22] @ '':'' @ [CHR 0x22]
     @ ''JWT'' @ [CHR 0x22] @ ''}'')"

definition encode :: "'r service \<Rightarrow> claims \<Rightarrow> string" where
  "encode svc c =
     (let header = tokenHeader;
          body = EncodeToString (sv_marshal svc c);
          mac = sv_mac svc (sv_secret svc) (header @ ''.'' @ body)
      in header @ ''.'' @ body @ ''.'' @ EncodeToString mac)"

definition decode :: "'r service \<Rightarrow> string \<Rightarrow> claims result" where
  "decode svc token =
     (case Split CHR ''.'' token of
        [p0, p1, p2] \<Rightarrow>
          (let want = sv_mac svc (sv_secret svc) (p0 @ ''.'' @ p1) in
           case DecodeString p2 of
             None \<Rightarrow> Inl ErrBadSignature
           | Some got \<Rightarrow>
               if want \<noteq> got then Inl ErrBadSignature
               else case DecodeString p1 of
                      None \<Rightarrow> Inl ErrMalformed
                    | Some raw \<Rightarrow>
                        (case sv_unmarshal svc raw of
                           None \<Rightarrow> Inl ErrMalformed
                         | Some c \<Rightarrow> Inr c))
      | _ \<Rightarrow> Inl ErrMalformed)"

text \<open>\<^verbatim>\<open>newJTI\<close> renders the 16 bytes it reads from the entropy source.\<close>

definition newJTI :: "string \<Rightarrow> string" where
  "newJTI entropy = EncodeToString entropy"

section \<open>Operations\<close>

definition NewService ::
  "string \<Rightarrow> (string \<Rightarrow> string \<Rightarrow> string) \<Rightarrow> (claims \<Rightarrow> string) \<Rightarrow> (string \<Rightarrow> claims option)
   \<Rightarrow> 'r revocations option \<Rightarrow> 'r service" where
  "NewService secret mac mar unmar rv =
     \<lparr>sv_secret = secret, sv_ttl = defaultTTL, sv_mac = mac, sv_marshal = mar,
      sv_unmarshal = unmar, sv_revoke = rv\<rparr>"

definition encodeToken ::
  "'r service \<Rightarrow> time \<Rightarrow> mint_request \<Rightarrow> time \<Rightarrow> string \<Rightarrow> (string \<times> claims) result" where
  "encodeToken svc now req sessionDeadline jti =
     (let exp0 = now + sv_ttl svc;
          exp = (if \<not> IsZero sessionDeadline \<and> exp0 > sessionDeadline then sessionDeadline else exp0)
      in if \<not> exp > now then Inl ErrSessionExpired
         else let claims = \<lparr>cl_RunID = mr_RunID req, cl_SessionID = mr_SessionID req,
                            cl_Agent = mr_Agent req, cl_UserID = mr_UserID req,
                            cl_OrgID = mr_OrgID req, cl_Grants = mr_Grants req,
                            cl_MCPServer = mr_MCPServer req, cl_JTI = jti,
                            cl_IssuedAt = Unix now, cl_ExpiresAt = Unix exp\<rparr>
              in Inr (encode svc claims, claims))"

definition mintWithDeadline ::
  "'r service \<Rightarrow> time \<Rightarrow> string \<Rightarrow> mint_request \<Rightarrow> time \<Rightarrow> (string \<times> claims) result" where
  "mintWithDeadline svc now entropy req sessionDeadline =
     encodeToken svc now req sessionDeadline (newJTI entropy)"

definition Mint ::
  "'r service \<Rightarrow> (string \<Rightarrow> session_info result) \<Rightarrow> time \<Rightarrow> string \<Rightarrow> mint_request
   \<Rightarrow> (string \<times> claims) result" where
  "Mint svc session now entropy req =
     (case session (mr_SessionID req) of
        Inl e \<Rightarrow> Inl e
      | Inr info \<Rightarrow>
          if \<not> si_Alive info then Inl ErrSessionEnded
          else mintWithDeadline svc now entropy req (si_Deadline info))"

definition Validate :: "'r service \<Rightarrow> time \<Rightarrow> 'r \<Rightarrow> string \<Rightarrow> claims result" where
  "Validate svc now r token =
     (case decode svc token of
        Inl e \<Rightarrow> Inl e
      | Inr c \<Rightarrow>
          if Unix now \<ge> cl_ExpiresAt c then Inl ErrExpired
          else case sv_revoke svc of
                 None \<Rightarrow> Inr c
               | Some rv \<Rightarrow>
                   (case rv_IsRevoked rv (cl_JTI c) now r of
                      Inl e \<Rightarrow> Inl e
                    | Inr revoked \<Rightarrow> if revoked then Inl ErrRevoked else Inr c))"

text \<open>
  \<^verbatim>\<open>Renew\<close> reads the clock twice: \<open>now\<close> inside \<^verbatim>\<open>Validate\<close>, \<open>now'\<close> inside \<^verbatim>\<open>encodeToken\<close>.
\<close>

definition renewRequest :: "claims \<Rightarrow> mint_request" where
  "renewRequest c =
     \<lparr>mr_RunID = cl_RunID c, mr_SessionID = cl_SessionID c, mr_Agent = cl_Agent c,
      mr_UserID = cl_UserID c, mr_OrgID = cl_OrgID c, mr_Grants = cl_Grants c,
      mr_MCPServer = cl_MCPServer c\<rparr>"

definition Renew ::
  "'r service \<Rightarrow> (string \<Rightarrow> session_info result) \<Rightarrow> time \<Rightarrow> time \<Rightarrow> 'r \<Rightarrow> string
   \<Rightarrow> (string \<times> claims) result" where
  "Renew svc session now now' r token =
     (case Validate svc now r token of
        Inl e \<Rightarrow> Inl e
      | Inr c \<Rightarrow>
          (case session (cl_SessionID c) of
             Inl e \<Rightarrow> Inl e
           | Inr info \<Rightarrow>
               if \<not> si_Alive info then Inl ErrSessionEnded
               else encodeToken svc now' (renewRequest c) (si_Deadline info) (cl_JTI c)))"

text \<open>
  \<^verbatim>\<open>Revoke\<close> calls the revocation list without a nil check; the nil dereference is the outcome
  \<^term>\<open>None\<close>.
\<close>

definition Revoke :: "'r service \<Rightarrow> time \<Rightarrow> 'r \<Rightarrow> string \<Rightarrow> (goerr option \<times> 'r) option" where
  "Revoke svc now r token =
     (case decode svc token of
        Inl e \<Rightarrow> Some (Some e, r)
      | Inr c \<Rightarrow>
          (let ttl = (cl_ExpiresAt c - Unix now) * Second in
           if ttl \<le> 0 then Some (None, r)
           else case sv_revoke svc of
                  None \<Rightarrow> None
                | Some rv \<Rightarrow> Some (rv_Revoke rv (cl_JTI c) ttl now r)))"

section \<open>Revocations in Redis\<close>

text \<open>The two commands the client sends: \<^verbatim>\<open>SET key value EX ttl\<close> and \<^verbatim>\<open>EXISTS key\<close>.\<close>

record 'r redis =
  rd_Set :: "string \<Rightarrow> string \<Rightarrow> duration \<Rightarrow> time \<Rightarrow> 'r \<Rightarrow> goerr option \<times> 'r"
  rd_Exists :: "string \<Rightarrow> time \<Rightarrow> 'r \<Rightarrow> int result"

definition revocationKey :: "string \<Rightarrow> string" where
  "revocationKey jti = ''runtoken:revoked:'' @ jti"

definition redisRevoke ::
  "'r redis \<Rightarrow> string \<Rightarrow> duration \<Rightarrow> time \<Rightarrow> 'r \<Rightarrow> goerr option \<times> 'r" where
  "redisRevoke rd jti ttl now r = rd_Set rd (revocationKey jti) ''1'' ttl now r"

definition redisIsRevoked :: "'r redis \<Rightarrow> string \<Rightarrow> time \<Rightarrow> 'r \<Rightarrow> bool result" where
  "redisIsRevoked rd jti now r =
     (case rd_Exists rd (revocationKey jti) now r of Inl e \<Rightarrow> Inl e | Inr n \<Rightarrow> Inr (n > 0))"

definition RedisRevocations :: "'r redis \<Rightarrow> 'r revocations" where
  "RedisRevocations rd = \<lparr>rv_Revoke = redisRevoke rd, rv_IsRevoked = redisIsRevoked rd\<rparr>"

section \<open>Contracts\<close>

text \<open>
  What clients of the \<^verbatim>\<open>Revocations\<close> interface rely on: a revoked jti is reported revoked (or the
  call fails) for the whole lifetime it was revoked for, revocations of other jtis do not touch
  it, and an entry is gone once its lifetime is over.
\<close>

locale revocation_list =
  fixes Rv :: "'r revocations"
  assumes revoked_until:
      "rv_Revoke Rv jti ttl t r = (None, r') \<Longrightarrow> t \<le> t' \<Longrightarrow> t' < t + ttl
       \<Longrightarrow> rv_IsRevoked Rv jti t' r' \<noteq> Inr False"
    and revoke_frame:
      "rv_Revoke Rv jti' ttl t r = (e, r') \<Longrightarrow> jti' \<noteq> jti
       \<Longrightarrow> rv_IsRevoked Rv jti t' r' = rv_IsRevoked Rv jti t' r"
    and revoked_lapses:
      "rv_Revoke Rv jti ttl t r = (None, r') \<Longrightarrow> t + ttl \<le> t' \<Longrightarrow> rv_IsRevoked Rv jti t' r' = Inr False"

text \<open>
  The documented behaviour of the Redis commands: a key set with a time to live exists until
  then and not after, and setting one key leaves the others alone.
\<close>

definition redis_ttl_store :: "'r redis \<Rightarrow> bool" where
  "redis_ttl_store rd \<longleftrightarrow>
     (\<forall>k v ttl t r r' t'. rd_Set rd k v ttl t r = (None, r') \<longrightarrow>
        (t \<le> t' \<and> t' < t + ttl \<longrightarrow> (\<forall>n. rd_Exists rd k t' r' = Inr n \<longrightarrow> n > 0)) \<and>
        (t + ttl \<le> t' \<longrightarrow> rd_Exists rd k t' r' = Inr 0)) \<and>
     (\<forall>k k' v ttl t r e r' t'. rd_Set rd k' v ttl t r = (e, r') \<longrightarrow> k' \<noteq> k \<longrightarrow>
        rd_Exists rd k t' r' = rd_Exists rd k t' r)"

locale redis_server =
  fixes rd :: "'r redis"
  assumes ttl_store: "redis_ttl_store rd"

sublocale redis_server \<subseteq> revs: revocation_list "RedisRevocations rd"
proof (unfold_locales, goal_cases)
  case (1 jti ttl t r r' t')
  then show ?case
    using ttl_store
    by (fastforce simp: redis_ttl_store_def RedisRevocations_def redisRevoke_def redisIsRevoked_def
        split: sum.splits)
next
  case (2 jti' ttl t r e r' jti t')
  then have "revocationKey jti' \<noteq> revocationKey jti" by (simp add: revocationKey_def)
  with 2 ttl_store have "rd_Exists rd (revocationKey jti) t' r' = rd_Exists rd (revocationKey jti) t' r"
    unfolding redis_ttl_store_def RedisRevocations_def redisRevoke_def by fastforce
  then show ?case by (simp add: RedisRevocations_def redisIsRevoked_def)
next
  case (3 jti ttl t r r' t')
  then have "rd_Exists rd (revocationKey jti) t' r' = Inr 0"
    using ttl_store unfolding redis_ttl_store_def RedisRevocations_def redisRevoke_def by fastforce
  then show ?case by (simp add: RedisRevocations_def redisIsRevoked_def)
qed

context redis_server
begin

lemma revocations_in_redis: "revocation_list (RedisRevocations rd)"
  by (rule revs.revocation_list_axioms)

end

text \<open>An in-memory store with the documented behaviour, on which the contract is inhabited.\<close>

definition memRedis :: "(string \<rightharpoonup> string \<times> time) redis" where
  "memRedis =
     \<lparr>rd_Set = (\<lambda>k v ttl t r. (None, r(k \<mapsto> (v, t + ttl)))),
      rd_Exists = (\<lambda>k t r. Inr (case r k of None \<Rightarrow> 0 | Some (_, e) \<Rightarrow> if t < e then 1 else 0))\<rparr>"

interpretation mem: redis_server memRedis
  by unfold_locales (auto simp: redis_ttl_store_def memRedis_def)

section \<open>Lemmas\<close>

lemma tokenHeader_no_dot: "CHR ''.'' \<notin> set tokenHeader"
  by (simp add: tokenHeader_def Encode_no_sep)

lemma Split_token:
  "CHR ''.'' \<notin> set p0 \<Longrightarrow> CHR ''.'' \<notin> set p1 \<Longrightarrow> CHR ''.'' \<notin> set p2 \<Longrightarrow>
   Split CHR ''.'' (p0 @ CHR ''.'' # p1 @ CHR ''.'' # p2) = [p0, p1, p2]"
  by (simp add: Split_append Split_no_sep)

lemma decode_encode:
  "sv_unmarshal svc (sv_marshal svc c) = Some c \<Longrightarrow> decode svc (encode svc c) = Inr c"
  by (simp add: decode_def encode_def Let_def Split_token tokenHeader_no_dot Encode_no_sep)

lemma decode_authentic:
  assumes "decode svc token = Inr c"
  obtains p0 p1 p2 raw where
    "Split CHR ''.'' token = [p0, p1, p2]"
    "DecodeString p2 = Some (sv_mac svc (sv_secret svc) (p0 @ ''.'' @ p1))"
    "DecodeString p1 = Some raw" "sv_unmarshal svc raw = Some c"
  using assms
  by (auto simp: decode_def Let_def split: list.splits option.splits if_splits)

lemma Validate_Inr_iff:
  "Validate svc now r token = Inr c \<longleftrightarrow>
     decode svc token = Inr c \<and> Unix now < cl_ExpiresAt c \<and>
     (\<forall>rv. sv_revoke svc = Some rv \<longrightarrow> rv_IsRevoked rv (cl_JTI c) now r = Inr False)"
  by (auto simp: Validate_def split: sum.splits option.splits if_splits)

lemma encodeToken_Inr_iff:
  "encodeToken svc now req dl jti = Inr (tok, c) \<longleftrightarrow>
     (let exp = (if \<not> IsZero dl then min (now + sv_ttl svc) dl else now + sv_ttl svc) in
      now < exp \<and> tok = encode svc c \<and>
      c = \<lparr>cl_RunID = mr_RunID req, cl_SessionID = mr_SessionID req, cl_Agent = mr_Agent req,
           cl_UserID = mr_UserID req, cl_OrgID = mr_OrgID req, cl_Grants = mr_Grants req,
           cl_MCPServer = mr_MCPServer req, cl_JTI = jti, cl_IssuedAt = Unix now,
           cl_ExpiresAt = Unix exp\<rparr>)"
  by (auto simp: encodeToken_def Let_def min_def)

lemma Renew_Inr_iff:
  "Renew svc session now now' r token = Inr (token', c') \<longleftrightarrow>
     (\<exists>c info. Validate svc now r token = Inr c \<and> session (cl_SessionID c) = Inr info \<and> si_Alive info \<and>
        encodeToken svc now' (renewRequest c) (si_Deadline info) (cl_JTI c) = Inr (token', c'))"
  by (auto simp: Renew_def result_simps)

lemma encodeToken_exp_le:
  assumes "encodeToken svc now req dl jti = Inr (tok, c)"
  shows "cl_ExpiresAt c \<le> Unix (now + sv_ttl svc)"
    and "\<not> IsZero dl \<Longrightarrow> cl_ExpiresAt c \<le> Unix dl"
  using assms by (auto simp: encodeToken_Inr_iff Let_def intro!: Unix_mono split: if_splits)

lemmas encodeToken_facts = encodeToken_Inr_iff Let_def

text \<open>Further revocations through the service, at later times and of other tokens.\<close>

fun revokeAll :: "'r service \<Rightarrow> 'r \<Rightarrow> (time \<times> string) list \<Rightarrow> 'r" where
  "revokeAll svc r [] = r"
| "revokeAll svc r ((t, tok) # ops) =
     (case Revoke svc t r tok of None \<Rightarrow> r | Some (_, r') \<Rightarrow> revokeAll svc r' ops)"

context revocation_list
begin

lemma Revoke_frame:
  assumes "sv_revoke svc = Some Rv" and "Revoke svc t r tok = Some (e, r')"
    and "\<And>c. decode svc tok = Inr c \<Longrightarrow> cl_JTI c \<noteq> jti"
  shows "rv_IsRevoked Rv jti t' r' = rv_IsRevoked Rv jti t' r"
  using assms
  by (auto simp: Revoke_def Let_def split: sum.splits if_splits intro: revoke_frame)

lemma revokeAll_frame:
  assumes "sv_revoke svc = Some Rv"
    and "\<forall>(t, tok) \<in> set ops. \<forall>c. decode svc tok = Inr c \<longrightarrow> cl_JTI c \<noteq> jti"
  shows "rv_IsRevoked Rv jti t' (revokeAll svc r ops) = rv_IsRevoked Rv jti t' r"
  using assms(2)
proof (induction ops arbitrary: r)
  case Nil
  then show ?case by simp
next
  case (Cons op ops)
  then show ?case
    by (cases op) (auto simp: Revoke_frame [OF assms(1)] split: option.splits)
qed

lemma revoked_rejected:
  assumes rv: "sv_revoke svc = Some Rv" and c: "decode svc tok = Inr c"
    and revoke: "Revoke svc t0 r tok = Some (None, r1)" and later: "t0 \<le> t"
    and others: "\<forall>(t, tok') \<in> set ops. \<forall>c'. decode svc tok' = Inr c' \<longrightarrow> cl_JTI c' \<noteq> cl_JTI c"
  shows "\<exists>e. Validate svc t (revokeAll svc r1 ops) tok = Inl e"
proof (cases "Unix t < cl_ExpiresAt c")
  case False
  with c show ?thesis by (simp add: Validate_def)
next
  case True
  define ttl where "ttl = (cl_ExpiresAt c - Unix t0) * Second"
  from True Unix_mono [OF later] have "0 < ttl" by (simp add: ttl_def)
  with revoke rv c have *: "rv_Revoke Rv (cl_JTI c) ttl t0 r = (None, r1)"
    by (simp add: Revoke_def ttl_def)
  have "t < (Unix t + 1) * Second" by (rule Unix_bounds)
  also have "\<dots> \<le> cl_ExpiresAt c * Second" using True by (intro mult_right_mono) auto
  also have "\<dots> \<le> t0 + ttl" using Unix_bounds(1) [of t0] by (simp add: ttl_def algebra_simps)
  finally have "rv_IsRevoked Rv (cl_JTI c) t r1 \<noteq> Inr False"
    using * later by (intro revoked_until)
  then have "rv_IsRevoked Rv (cl_JTI c) t (revokeAll svc r1 ops) \<noteq> Inr False"
    using revokeAll_frame [OF rv others] by simp
  then have "\<nexists>c'. Validate svc t (revokeAll svc r1 ops) tok = Inr c'"
    using rv c by (auto simp: Validate_Inr_iff)
  then show ?thesis by (metis sumE)
qed

lemma lapsed_accepted:
  assumes rv: "sv_revoke svc = Some Rv" and c: "decode svc tok = Inr c"
    and revoke: "Revoke svc t0 r tok = Some (None, r1)" and live: "Unix t0 < cl_ExpiresAt c"
    and c': "decode svc tok' = Inr c'" and same: "cl_JTI c' = cl_JTI c"
    and lapsed: "t0 + (cl_ExpiresAt c - Unix t0) * Second \<le> t" and valid: "Unix t < cl_ExpiresAt c'"
  shows "Validate svc t r1 tok' = Inr c'"
proof -
  from live have "\<not> (cl_ExpiresAt c - Unix t0) * Second \<le> 0"
    by (simp add: not_le)
  with rv c revoke have "rv_Revoke Rv (cl_JTI c) ((cl_ExpiresAt c - Unix t0) * Second) t0 r = (None, r1)"
    by (simp add: Revoke_def Let_def)
  then have "rv_IsRevoked Rv (cl_JTI c') t r1 = Inr False"
    using lapsed same by (simp add: revoked_lapses)
  with rv c' valid show ?thesis by (simp add: Validate_Inr_iff)
qed

end

text \<open>An encoded token is printable ASCII, so reading it from a header does not trim it.\<close>

lemma TrimSpace_encode: "TrimSpace (encode svc c) = encode svc c"
proof -
  have "list_all plainByte (encode svc c)" and ne: "encode svc c \<noteq> []"
    by (simp_all add: encode_def Let_def tokenHeader_def Encode_plain plainByte_def)
  then show ?thesis by (intro TrimSpace_plain) (simp_all add: list_all_iff)
qed

section \<open>Properties\<close>

text \<open>
  A service, a session source and a request on which the properties below are exercised: the
  JSON codec knows the claims that are minted, and the revocation list is in Redis.
\<close>

definition exClaims :: "int \<Rightarrow> int \<Rightarrow> claims" where
  "exClaims iat exp =
     \<lparr>cl_RunID = ''run-1'', cl_SessionID = ''sess-1'', cl_Agent = ''bot@v1'', cl_UserID = ''user-1'',
      cl_OrgID = ''org-1'', cl_Grants = [''net:fetch''], cl_MCPServer = [], cl_JTI = newJTI ''abc'',
      cl_IssuedAt = iat, cl_ExpiresAt = exp\<rparr>"

definition exService :: "(string \<rightharpoonup> string \<times> time) service" where
  "exService =
     NewService ''key'' (\<lambda>k m. k @ m)
       (\<lambda>c. if cl_ExpiresAt c = 900 then ''a'' else ''b'')
       (\<lambda>s. if s = ''a'' then Some (exClaims 0 900)
            else if s = ''b'' then Some (exClaims 600 1500) else None)
       (Some (RedisRevocations memRedis))"

definition exRequest :: mint_request where
  "exRequest = renewRequest (exClaims 0 0)"

definition exSessions :: "string \<Rightarrow> session_info result" where
  "exSessions sid = Inr \<lparr>si_Alive = True, si_Deadline = 4 * Hour\<rparr>"

lemmas ex_defs = exClaims_def exService_def exRequest_def exSessions_def NewService_def
  renewRequest_def defaultTTL_def time_defs IsZero_def Unix_def

lemma ex_mint: "Mint exService exSessions 0 ''abc'' exRequest
    = Inr (encode exService (exClaims 0 900), exClaims 0 900)"
  by (simp add: Mint_def mintWithDeadline_def encodeToken_Inr_iff ex_defs)

lemma ex_roundtrip:
  "sv_unmarshal exService (sv_marshal exService (exClaims 0 900)) = Some (exClaims 0 900)"
  "sv_unmarshal exService (sv_marshal exService (exClaims 600 1500)) = Some (exClaims 600 1500)"
  by (simp_all add: ex_defs)

lemmas ex_decode = ex_roundtrip [THEN decode_encode]

lemma ex_validate: "Validate exService (5 * Second) Map.empty (encode exService (exClaims 0 900)) = Inr (exClaims 0 900)"
  by (simp add: Validate_def ex_decode)
    (simp add: ex_defs RedisRevocations_def redisIsRevoked_def memRedis_def)

lemma ex_renew: "Renew exService exSessions (600 * Second) (600 * Second) Map.empty (encode exService (exClaims 0 900))
    = Inr (encode exService (exClaims 600 1500), exClaims 600 1500)"
  by (simp add: Renew_def Validate_def ex_decode)
    (simp add: encodeToken_Inr_iff ex_defs RedisRevocations_def redisIsRevoked_def memRedis_def)

lemma ex_revoke: "\<exists>r. Revoke exService (660 * Second) Map.empty (encode exService (exClaims 0 900)) = Some (None, r)"
  by (simp add: Revoke_def ex_decode) (simp add: ex_defs RedisRevocations_def redisRevoke_def memRedis_def)

text \<open>
  C20. A minted token validates to exactly the claims it was minted with, at every instant before
  its expiry at which its jti is not on the revocation list, whenever the JSON codec reads those
  claims back.
\<close>

theorem mint_validate_roundtrip:
  assumes "Mint svc session now entropy req = Inr (tok, c)"
    and "sv_unmarshal svc (sv_marshal svc c) = Some c"
    and "Unix t < cl_ExpiresAt c"
    and "\<And>rv. sv_revoke svc = Some rv \<Longrightarrow> rv_IsRevoked rv (cl_JTI c) t r = Inr False"
  shows "Validate svc t r tok = Inr c"
proof -
  from assms(1) have "tok = encode svc c"
    by (auto simp: Mint_def mintWithDeadline_def encodeToken_facts result_simps split: if_splits)
  with assms(2-4) show ?thesis by (simp add: Validate_Inr_iff decode_encode)
qed

theorem mint_validate_roundtrip_witness:
  "Validate exService (5 * Second) Map.empty (encode exService (exClaims 0 900)) = Inr (exClaims 0 900)"
  by (rule mint_validate_roundtrip [OF ex_mint ex_roundtrip(1)])
    (simp_all add: ex_defs RedisRevocations_def redisIsRevoked_def memRedis_def)

text \<open>
  Minting succeeds only for a session that is alive, copies the identity and the grants of the
  request, and never sets an expiry past the service's lifetime for tokens or past the session's
  deadline.
\<close>

theorem mint_sound:
  assumes "Mint svc session now entropy req = Inr (tok, c)"
  shows "\<exists>info. session (mr_SessionID req) = Inr info \<and> si_Alive info \<and>
           cl_RunID c = mr_RunID req \<and> cl_SessionID c = mr_SessionID req \<and>
           cl_Agent c = mr_Agent req \<and> cl_UserID c = mr_UserID req \<and> cl_OrgID c = mr_OrgID req \<and>
           cl_Grants c = mr_Grants req \<and> cl_MCPServer c = mr_MCPServer req \<and>
           cl_JTI c = newJTI entropy \<and> cl_IssuedAt c = Unix now \<and>
           cl_ExpiresAt c \<le> Unix (now + sv_ttl svc) \<and>
           (IsZero (si_Deadline info) \<or> now < si_Deadline info \<and> cl_ExpiresAt c \<le> Unix (si_Deadline info))"
proof -
  from assms obtain info where info: "session (mr_SessionID req) = Inr info" "si_Alive info"
    and tok: "encodeToken svc now req (si_Deadline info) (newJTI entropy) = Inr (tok, c)"
    by (auto simp: Mint_def mintWithDeadline_def result_simps split: if_splits)
  from tok have "IsZero (si_Deadline info) \<or> now < si_Deadline info"
    by (auto simp: encodeToken_facts split: if_splits)
  with info tok encodeToken_exp_le [OF tok] show ?thesis
    by (auto simp: encodeToken_Inr_iff Let_def)
qed

theorem mint_sound_witness:
  "\<exists>info. exSessions ''sess-1'' = Inr info \<and> si_Alive info \<and> cl_ExpiresAt (exClaims 0 900) \<le> Unix (si_Deadline info)"
  using mint_sound [OF ex_mint] by (simp add: ex_defs)

text \<open>
  Validation accepts a token exactly when its third segment is the MAC of the first two under
  the service's secret, its payload decodes to the returned claims, it has not expired and its
  jti is not revoked; any revocation lookup failure is a rejection.
\<close>

theorem validate_accepts_iff:
  "Validate svc now r token = Inr c \<longleftrightarrow>
     (\<exists>p0 p1 p2 raw. Split CHR ''.'' token = [p0, p1, p2] \<and>
        DecodeString p2 = Some (sv_mac svc (sv_secret svc) (p0 @ ''.'' @ p1)) \<and>
        DecodeString p1 = Some raw \<and> sv_unmarshal svc raw = Some c) \<and>
     Unix now < cl_ExpiresAt c \<and>
     (case sv_revoke svc of None \<Rightarrow> True | Some rv \<Rightarrow> rv_IsRevoked rv (cl_JTI c) now r = Inr False)"
proof -
  have "decode svc token = Inr c \<longleftrightarrow>
     (\<exists>p0 p1 p2 raw. Split CHR ''.'' token = [p0, p1, p2] \<and>
        DecodeString p2 = Some (sv_mac svc (sv_secret svc) (p0 @ ''.'' @ p1)) \<and>
        DecodeString p1 = Some raw \<and> sv_unmarshal svc raw = Some c)"
    by (auto elim!: decode_authentic) (simp add: decode_def)
  then show ?thesis by (auto simp: Validate_Inr_iff split: option.splits)
qed

text \<open>
  Renewal needs a token that validates and a session that is alive; the renewed token keeps
  every claim of the old one, the jti included, apart from the two timestamps, and stays within
  the token lifetime and the session's deadline.
\<close>

theorem renew_sound:
  assumes "Renew svc session now now' r token = Inr (token', c')"
  shows "\<exists>c info. Validate svc now r token = Inr c \<and> session (cl_SessionID c) = Inr info \<and> si_Alive info \<and>
           c' = c\<lparr>cl_IssuedAt := Unix now', cl_ExpiresAt := cl_ExpiresAt c'\<rparr> \<and> token' = encode svc c' \<and>
           cl_ExpiresAt c' \<le> Unix (now' + sv_ttl svc) \<and>
           (IsZero (si_Deadline info) \<or> cl_ExpiresAt c' \<le> Unix (si_Deadline info))"
proof -
  from assms obtain c info where c: "Validate svc now r token = Inr c"
    and info: "session (cl_SessionID c) = Inr info" "si_Alive info"
    and tok: "encodeToken svc now' (renewRequest c) (si_Deadline info) (cl_JTI c) = Inr (token', c')"
    by (auto simp: Renew_Inr_iff)
  from tok have "c' = c\<lparr>cl_IssuedAt := Unix now', cl_ExpiresAt := cl_ExpiresAt c'\<rparr>" "token' = encode svc c'"
    by (auto simp: encodeToken_facts renewRequest_def)
  with c info encodeToken_exp_le [OF tok] show ?thesis by blast
qed

theorem renew_sound_witness:
  "\<exists>c. Validate exService (600 * Second) Map.empty (encode exService (exClaims 0 900)) = Inr c \<and>
       cl_JTI (exClaims 600 1500) = cl_JTI c"
proof -
  from renew_sound [OF ex_renew] obtain c where c: "Validate exService (600 * Second) Map.empty (encode exService (exClaims 0 900)) = Inr c"
    and eq: "exClaims 600 1500 = c\<lparr>cl_IssuedAt := Unix (600 * Second), cl_ExpiresAt := cl_ExpiresAt (exClaims 600 1500)\<rparr>"
    by blast
  from arg_cong [OF eq, of cl_JTI] c show ?thesis by simp
qed



text \<open>
  Revoking a token does not cover a renewal of it: the list entry lives only as long as the
  token that was presented, so a token renewed before the revocation, which has the same jti and a
  later expiry, is accepted again once the entry has lapsed.
\<close>

theorem renewed_token_outlives_revocation:
  assumes "redis_ttl_store rd" and "sv_revoke svc = Some (RedisRevocations rd)"
    and "decode svc tok = Inr c" and "Renew svc session t1 t1' r0 tok = Inr (tok', c')"
    and "sv_unmarshal svc (sv_marshal svc c') = Some c'"
    and "Revoke svc t0 r tok = Some (None, r1)" and "Unix t0 < cl_ExpiresAt c"
    and "t0 + (cl_ExpiresAt c - Unix t0) * Second \<le> t" and "Unix t < cl_ExpiresAt c'"
  shows "Validate svc t r1 tok' = Inr c'"
proof -
  from assms(1) have rl: "revocation_list (RedisRevocations rd)"
    by (intro redis_server.revocations_in_redis redis_server.intro)
  from assms(3,4) have "tok' = encode svc c'" "cl_JTI c' = cl_JTI c"
    by (auto simp: Renew_def Validate_Inr_iff encodeToken_facts result_simps split: if_splits)
  then show ?thesis
    using revocation_list.lapsed_accepted [OF rl assms(2,3,6,7)] decode_encode [OF assms(5)] assms(8,9)
    by simp
qed

theorem renewed_token_outlives_revocation_witness:
  "\<exists>r1. Revoke exService (660 * Second) Map.empty (encode exService (exClaims 0 900)) = Some (None, r1) \<and>
        Validate exService (1000 * Second) r1 (encode exService (exClaims 600 1500)) = Inr (exClaims 600 1500)"
proof -
  from ex_revoke obtain r1 where r1:
    "Revoke exService (660 * Second) Map.empty (encode exService (exClaims 0 900)) = Some (None, r1)" ..
  have "Validate exService (1000 * Second) r1 (encode exService (exClaims 600 1500)) = Inr (exClaims 600 1500)"
    by (rule renewed_token_outlives_revocation [OF mem.ttl_store _ ex_decode(1) ex_renew ex_roundtrip(2) r1])
      (simp_all add: ex_defs)
  with r1 show ?thesis by blast
qed

end
