(* ===== verification/Decimal.thy ===== *)
theory Decimal
  imports Prelude
begin

text \<open>
  Reading decimal numbers, and that it inverts their rendering in \<^const>\<open>showNat\<close> and \<^const>\<open>showInt\<close>.
\<close>

text \<open>\<^verbatim>\<open>strconv.ParseInt(s, 10, 64)\<close>, which is \<^verbatim>\<open>strconv.Atoi\<close> where \<^verbatim>\<open>int\<close> has 64 bits.\<close>

definition digitOf :: "char \<Rightarrow> nat option" where
  "digitOf c = (let n = of_char c in if 48 \<le> n \<and> n \<le> 57 then Some (n - 48) else None)"

fun digitsVal :: "nat \<Rightarrow> string \<Rightarrow> nat option" where
  "digitsVal acc [] = Some acc"
| "digitsVal acc (c # cs) = (case digitOf c of None \<Rightarrow> None | Some d \<Rightarrow> digitsVal (10 * acc + d) cs)"

definition parseDigits :: "string \<Rightarrow> nat option" where
  "parseDigits s = (if s = [] then None else digitsVal 0 s)"

definition ParseInt :: "string \<Rightarrow> int option" where
  "ParseInt s =
     (case (case s of
              [] \<Rightarrow> None
            | c # cs \<Rightarrow>
                if c = CHR ''-'' then map_option (\<lambda>n. - int n) (parseDigits cs)
                else if c = CHR ''+'' then map_option int (parseDigits cs)
                else map_option int (parseDigits s)) of
        None \<Rightarrow> None
      | Some i \<Rightarrow> if - (2 ^ 63) \<le> i \<and> i < 2 ^ 63 then Some i else None)"

lemma digitsVal_append: "digitsVal a (xs @ ys) = (case digitsVal a xs of None \<Rightarrow> None | Some b \<Rightarrow> digitsVal b ys)"
  by (induction a xs rule: digitsVal.induct) (auto split: option.split)

lemma digitOf_char: "d < 10 \<Longrightarrow> digitOf (char_of (48 + d)) = Some d"
  by (simp add: digitOf_def Let_def)

lemma digitsVal_showNat: "digitsVal 0 (showNat n) = Some n"
proof (induction n rule: showNat.induct)
  case (1 n)
  show ?case
  proof (cases "n < 10")
    case True
    then show ?thesis by (subst showNat.simps) (simp add: digitOf_char)
  next
    case False
    with 1 show ?thesis by (subst showNat.simps) (simp add: digitsVal_append digitOf_char)
  qed
qed

lemma showNat_head: "\<exists>(d :: nat) cs. showNat n = char_of (48 + d) # cs \<and> d < 10"
proof (induction n rule: showNat.induct)
  case (1 n)
  show ?case
  proof (cases "n < 10")
    case True
    then show ?thesis by (intro exI [of _ n] exI [of _ "[]"]) (subst showNat.simps, simp)
  next
    case False
    with 1 obtain d :: nat and cs where "showNat (n div 10) = char_of (48 + d) # cs" and "d < 10" by blast
    with False show ?thesis by (intro exI [of _ d] exI [of _ "cs @ [char_of (48 + n mod 10)]"]) (subst showNat.simps, simp)
  qed
qed

lemma digit_not_sign: "(d :: nat) < 10 \<Longrightarrow> char_of (48 + d) \<noteq> CHR ''-'' \<and> char_of (48 + d) \<noteq> CHR ''+''"
proof -
  assume "d < 10"
  then have "digitOf (char_of (48 + d)) = Some d" by (rule digitOf_char)
  moreover have "digitOf (CHR ''-'') = None" and "digitOf (CHR ''+'') = None" by (simp_all add: digitOf_def)
  ultimately show ?thesis by (metis option.distinct(1))
qed

lemma parseDigits_showNat: "parseDigits (showNat n) = Some n"
  using showNat_head [of n] digitsVal_showNat [of n] by (auto simp: parseDigits_def)

lemma ParseInt_showInt:
  assumes "- (2 ^ 63) \<le> i" and "i < 2 ^ 63"
  shows "ParseInt (showInt i) = Some i"
proof (cases "i < 0")
  case True
  with assms show ?thesis by (simp add: ParseInt_def showInt_def parseDigits_showNat)
next
  case False
  obtain d :: nat and cs where h: "showNat (nat i) = char_of (48 + d) # cs" and d: "d < 10" using showNat_head by blast
  from False assms parseDigits_showNat [of "nat i"] digit_not_sign [OF d] show ?thesis
    by (simp add: ParseInt_def showInt_def h)
qed

end
