(* ===== verification/SessionStore.thy ===== *)
theory SessionStore
  imports RunToken Decimal
begin

text \<open>
  \<^verbatim>\<open>internal/sessionstore\<close>: sessions, runs and checkpoints in DynamoDB, and the session checker that caps the
  renewal of run tokens.  The DynamoDB client is a parameter that acts on a world \<open>'w\<close>; what the code
  relies on of it is the predicate \<open>dynamo\<close>.
\<close>

section \<open>Data\<close>

text \<open>Attribute values: a string, a number in decimal, bytes.  An item maps attribute names to values.\<close>

datatype attribute = S string | N string | B string

type_synonym item = "string \<rightharpoonup> attribute"

record session =
  se_OrgID :: string
  se_SessionID :: string
  se_UserID :: string
  se_AgentRef :: string
  se_Status :: string
  se_EnvironmentKey :: string
  se_Manifest :: string
  se_CreatedAt :: time
  se_TTL :: time

record run_record =
  ru_SessionID :: string
  ru_RunID :: string
  ru_Trigger :: string
  ru_Status :: string

datatype key_type = HASH | RANGE

record index =
  ix_IndexName :: string
  ix_KeySchema :: "(string \<times> key_type) list"
  ix_Projection :: string

record table_input =
  ct_TableName :: string
  ct_KeySchema :: "(string \<times> key_type) list"
  ct_AttributeDefinitions :: "(string \<times> string) list"
  ct_GlobalSecondaryIndexes :: "index list"
  ct_BillingMode :: string

record update_input =
  ui_TableName :: string
  ui_Key :: item
  ui_UpdateExpression :: string
  ui_Names :: "string \<rightharpoonup> string"
  ui_Values :: item

record query_input =
  qi_TableName :: string
  qi_IndexName :: "string option"
  qi_KeyConditionExpression :: string
  qi_FilterExpression :: "string option"
  qi_Names :: "string \<rightharpoonup> string"
  qi_Values :: item
  qi_Select :: "string option"
  qi_Limit :: "int option"

record 'w dynamo_client =
  dd_CreateTable :: "table_input \<Rightarrow> 'w \<Rightarrow> goerr option \<times> 'w"
  dd_UpdateTimeToLive :: "string \<Rightarrow> string \<Rightarrow> bool \<Rightarrow> 'w \<Rightarrow> goerr option \<times> 'w"
  dd_PutItem :: "string \<Rightarrow> item \<Rightarrow> 'w \<Rightarrow> goerr option \<times> 'w"
  dd_GetItem :: "string \<Rightarrow> item \<Rightarrow> bool \<Rightarrow> 'w \<Rightarrow> item option result \<times> 'w"
  dd_UpdateItem :: "update_input \<Rightarrow> 'w \<Rightarrow> goerr option \<times> 'w"
  dd_DeleteItem :: "string \<Rightarrow> item \<Rightarrow> 'w \<Rightarrow> goerr option \<times> 'w"
  dd_Query :: "query_input \<Rightarrow> 'w \<Rightarrow> (item list \<times> int) result \<times> 'w"
  dd_ResourceInUse :: "goerr \<Rightarrow> bool"

record 'w store =
  st_client :: "'w dynamo_client"

definition tableSessions :: string where "tableSessions = ''Sessions''"
definition tableRuns :: string where "tableRuns = ''Runs''"
definition tableCheckpoints :: string where "tableCheckpoints = ''RunCheckpoints''"
definition tableLookup :: string where "tableLookup = ''SessionsLookup''"
definition attrOrg :: string where "attrOrg = ''orgId''"
definition attrSession :: string where "attrSession = ''sessionId''"
definition attrUser :: string where "attrUser = ''userId''"
definition attrAgent :: string where "attrAgent = ''agentRef''"
definition attrStatus :: string where "attrStatus = ''status''"
definition attrExpires :: string where "attrExpires = ''expiresAt''"

lemmas attr_defs = attrOrg_def attrSession_def attrUser_def attrAgent_def attrStatus_def attrExpires_def
lemmas table_defs = tableSessions_def tableRuns_def tableCheckpoints_def tableLookup_def

definition ErrNotFound :: goerr where "ErrNotFound = ErrNew ''not found''"
definition ErrTooLarge :: goerr where "ErrTooLarge = ErrNew ''manifest exceeds DynamoDB item limit''"
definition ErrSessionNotFound :: goerr where "ErrSessionNotFound = ErrNew ''session not found''"

definition NewStore :: "'w dynamo_client \<Rightarrow> 'w store" where
  "NewStore client = \<lparr>st_client = client\<rparr>"

section \<open>Tables\<close>

definition gsi :: "string \<Rightarrow> string \<Rightarrow> string \<Rightarrow> index" where
  "gsi name pk sk = \<lparr>ix_IndexName = name, ix_KeySchema = [(pk, HASH), (sk, RANGE)], ix_Projection = ''ALL''\<rparr>"

definition sessionsTable :: table_input where
  "sessionsTable =
     \<lparr>ct_TableName = tableSessions, ct_KeySchema = [(attrOrg, HASH), (attrSession, RANGE)],
      ct_AttributeDefinitions = [(attrOrg, ''S''), (attrSession, ''S''), (attrUser, ''S''), (attrAgent, ''S''), (''sessionIdOnly'', ''S'')],
      ct_GlobalSecondaryIndexes =
        [gsi ''user-index'' attrUser attrSession, gsi ''agent-index'' attrAgent attrSession,
         gsi ''session-id-index'' ''sessionIdOnly'' attrSession],
      ct_BillingMode = ''PAY_PER_REQUEST''\<rparr>"

definition checkpointsTable :: table_input where
  "checkpointsTable =
     \<lparr>ct_TableName = tableCheckpoints, ct_KeySchema = [(''runId'', HASH)], ct_AttributeDefinitions = [(''runId'', ''S'')],
      ct_GlobalSecondaryIndexes = [], ct_BillingMode = ''PAY_PER_REQUEST''\<rparr>"

definition lookupTable :: table_input where
  "lookupTable =
     \<lparr>ct_TableName = tableLookup, ct_KeySchema = [(attrSession, HASH)], ct_AttributeDefinitions = [(attrSession, ''S'')],
      ct_GlobalSecondaryIndexes = [], ct_BillingMode = ''PAY_PER_REQUEST''\<rparr>"

definition runsTable :: table_input where
  "runsTable =
     \<lparr>ct_TableName = tableRuns, ct_KeySchema = [(attrSession, HASH), (''runId'', RANGE)],
      ct_AttributeDefinitions = [(attrSession, ''S''), (''runId'', ''S'')],
      ct_GlobalSecondaryIndexes = [], ct_BillingMode = ''PAY_PER_REQUEST''\<rparr>"

definition tableExists :: "'w store \<Rightarrow> goerr \<Rightarrow> bool" where
  "tableExists st err = dd_ResourceInUse (st_client st) err"

fun createTables :: "'w store \<Rightarrow> table_input list \<Rightarrow> 'w \<Rightarrow> goerr option \<times> 'w" where
  "createTables st [] w = (None, w)"
| "createTables st (t # ts) w =
     (case dd_CreateTable (st_client st) t w of
        (Some err, w1) \<Rightarrow>
          if \<not> tableExists st err then (Some (ErrWrap (''create '' @ ct_TableName t @ '': '' @ errText err) err), w1)
          else createTables st ts w1
      | (None, w1) \<Rightarrow> createTables st ts w1)"

definition EnsureTables :: "'w store \<Rightarrow> 'w \<Rightarrow> goerr option \<times> 'w" where
  "EnsureTables st w =
     (case createTables st [sessionsTable, checkpointsTable, lookupTable, runsTable] w of
        (Some err, w1) \<Rightarrow> (Some err, w1)
      | (None, w1) \<Rightarrow> (None, snd (dd_UpdateTimeToLive (st_client st) tableSessions attrExpires True w1)))"

section \<open>Items\<close>

definition maxManifest :: nat where "maxManifest = 350000"

definition itemOf :: "session \<Rightarrow> item result" where
  "itemOf sess =
     (if maxManifest < length (se_Manifest sess) then Inl ErrTooLarge
      else
        let it = [attrOrg \<mapsto> S (se_OrgID sess), attrSession \<mapsto> S (se_SessionID sess), ''sessionIdOnly'' \<mapsto> S (se_SessionID sess),
                  attrUser \<mapsto> S (se_UserID sess), attrAgent \<mapsto> S (se_AgentRef sess), attrStatus \<mapsto> S (se_Status sess),
                  ''environmentKey'' \<mapsto> S (se_EnvironmentKey sess), ''createdAt'' \<mapsto> N (showInt (Unix (se_CreatedAt sess)))];
            it = (if \<not> IsZero (se_TTL sess) then it(attrExpires \<mapsto> N (showInt (Unix (se_TTL sess)))) else it);
            it = (if 0 < length (se_Manifest sess) then it(''manifest'' \<mapsto> B (se_Manifest sess)) else it)
        in Inr it)"

definition keyOf :: "string \<Rightarrow> string \<Rightarrow> item" where
  "keyOf orgID sessionID = [attrOrg \<mapsto> S orgID, attrSession \<mapsto> S sessionID]"

definition strAttr :: "item \<Rightarrow> string \<Rightarrow> string" where
  "strAttr it k = (case it k of Some (S v) \<Rightarrow> v | _ \<Rightarrow> [])"

definition timeAttr :: "item \<Rightarrow> string \<Rightarrow> time" where
  "timeAttr it k =
     (case it k of
        Some (N v) \<Rightarrow> (case ParseInt v of Some sec \<Rightarrow> sec * Second | None \<Rightarrow> zeroTime)
      | _ \<Rightarrow> zeroTime)"

definition fromItem :: "item \<Rightarrow> session" where
  "fromItem it =
     \<lparr>se_OrgID = strAttr it attrOrg, se_SessionID = strAttr it attrSession, se_UserID = strAttr it attrUser,
      se_AgentRef = strAttr it attrAgent, se_Status = strAttr it attrStatus, se_EnvironmentKey = strAttr it ''environmentKey'',
      se_Manifest = (case it ''manifest'' of Some (B v) \<Rightarrow> v | _ \<Rightarrow> []),
      se_CreatedAt = timeAttr it ''createdAt'', se_TTL = timeAttr it attrExpires\<rparr>"

section \<open>Operations\<close>

definition PutSession :: "'w store \<Rightarrow> session \<Rightarrow> 'w \<Rightarrow> goerr option \<times> 'w" where
  "PutSession st sess w =
     (case itemOf sess of
        Inl err \<Rightarrow> (Some err, w)
      | Inr it \<Rightarrow>
          (case dd_PutItem (st_client st) tableSessions it w of
             (Some err, w1) \<Rightarrow> (Some err, w1)
           | (None, w1) \<Rightarrow>
               dd_PutItem (st_client st) tableLookup [attrSession \<mapsto> S (se_SessionID sess), attrOrg \<mapsto> S (se_OrgID sess)] w1))"

definition lookupOrg :: "'w store \<Rightarrow> string \<Rightarrow> 'w \<Rightarrow> string result \<times> 'w" where
  "lookupOrg st sessionID w =
     (case dd_GetItem (st_client st) tableLookup [attrSession \<mapsto> S sessionID] True w of
        (Inl err, w1) \<Rightarrow> (Inl err, w1)
      | (Inr None, w1) \<Rightarrow> (Inl ErrNotFound, w1)
      | (Inr (Some it), w1) \<Rightarrow> ((case it attrOrg of Some (S v) \<Rightarrow> Inr v | _ \<Rightarrow> Inl ErrNotFound), w1))"

definition statusUpdate :: "string \<Rightarrow> string \<Rightarrow> string \<Rightarrow> update_input" where
  "statusUpdate orgID sessionID status =
     \<lparr>ui_TableName = tableSessions, ui_Key = keyOf orgID sessionID, ui_UpdateExpression = ''SET #st = :st'',
      ui_Names = [''#st'' \<mapsto> ''status''], ui_Values = ['':st'' \<mapsto> S status]\<rparr>"

definition UpdateStatus :: "'w store \<Rightarrow> string \<Rightarrow> string \<Rightarrow> string \<Rightarrow> 'w \<Rightarrow> goerr option \<times> 'w" where
  "UpdateStatus st orgID sessionID status w =
     (case (if orgID = [] then lookupOrg st sessionID w else (Inr orgID, w)) of
        (Inl err, w1) \<Rightarrow> (Some err, w1)
      | (Inr orgID, w1) \<Rightarrow> dd_UpdateItem (st_client st) (statusUpdate orgID sessionID status) w1)"

definition GetSession :: "'w store \<Rightarrow> string \<Rightarrow> string \<Rightarrow> 'w \<Rightarrow> session result \<times> 'w" where
  "GetSession st orgID sessionID w =
     (case dd_GetItem (st_client st) tableSessions (keyOf orgID sessionID) False w of
        (Inl err, w1) \<Rightarrow> (Inl err, w1)
      | (Inr None, w1) \<Rightarrow> (Inl (ErrNew ''session not found''), w1)
      | (Inr (Some it), w1) \<Rightarrow> (Inr (fromItem it), w1))"

definition queryStore :: "'w store \<Rightarrow> string \<Rightarrow> string \<Rightarrow> item \<Rightarrow> 'w \<Rightarrow> session list result \<times> 'w" where
  "queryStore st table cond values w =
     (case dd_Query (st_client st)
             \<lparr>qi_TableName = table, qi_IndexName = None, qi_KeyConditionExpression = cond, qi_FilterExpression = None,
              qi_Names = Map.empty, qi_Values = values, qi_Select = None, qi_Limit = None\<rparr> w of
        (Inl err, w1) \<Rightarrow> (Inl err, w1)
      | (Inr out, w1) \<Rightarrow> (Inr (map fromItem (fst out)), w1))"

definition ListByOrg :: "'w store \<Rightarrow> string \<Rightarrow> 'w \<Rightarrow> session list result \<times> 'w" where
  "ListByOrg st orgID w = queryStore st tableSessions ''orgId = :o'' ['':o'' \<mapsto> S orgID] w"

definition ListResumableByUser :: "'w store \<Rightarrow> string \<Rightarrow> 'w \<Rightarrow> session list result \<times> 'w" where
  "ListResumableByUser st userID w =
     (case dd_Query (st_client st)
             \<lparr>qi_TableName = tableSessions, qi_IndexName = Some ''user-index'', qi_KeyConditionExpression = ''#u = :u'',
              qi_FilterExpression = Some ''#st <> :term'', qi_Names = [''#u'' \<mapsto> attrUser, ''#st'' \<mapsto> ''status''],
              qi_Values = ['':u'' \<mapsto> S userID, '':term'' \<mapsto> S ''Terminated''], qi_Select = None, qi_Limit = None\<rparr> w of
        (Inl err, w1) \<Rightarrow> (Inl err, w1)
      | (Inr out, w1) \<Rightarrow> (Inr (map fromItem (fst out)), w1))"

definition CountActiveByAgent :: "'w store \<Rightarrow> string \<Rightarrow> 'w \<Rightarrow> int result \<times> 'w" where
  "CountActiveByAgent st agentRef w =
     (case dd_Query (st_client st)
             \<lparr>qi_TableName = tableSessions, qi_IndexName = Some ''agent-index'', qi_KeyConditionExpression = ''#a = :a'',
              qi_FilterExpression = Some ''#st <> :term'', qi_Names = [''#a'' \<mapsto> attrAgent, ''#st'' \<mapsto> ''status''],
              qi_Values = ['':a'' \<mapsto> S agentRef, '':term'' \<mapsto> S ''Terminated''], qi_Select = Some ''COUNT'', qi_Limit = None\<rparr> w of
        (Inl err, w1) \<Rightarrow> (Inl err, w1)
      | (Inr out, w1) \<Rightarrow> (Inr (snd out), w1))"

definition manifestUpdate :: "string \<Rightarrow> string \<Rightarrow> string \<Rightarrow> update_input" where
  "manifestUpdate orgID sessionID manifest =
     \<lparr>ui_TableName = tableSessions, ui_Key = keyOf orgID sessionID, ui_UpdateExpression = ''SET manifest = :m'',
      ui_Names = Map.empty, ui_Values = ['':m'' \<mapsto> B manifest]\<rparr>"

definition SaveManifest :: "'w store \<Rightarrow> string \<Rightarrow> string \<Rightarrow> string \<Rightarrow> 'w \<Rightarrow> goerr option \<times> 'w" where
  "SaveManifest st orgID sessionID manifest w =
     (if maxManifest < length manifest then (Some ErrTooLarge, w)
      else dd_UpdateItem (st_client st) (manifestUpdate orgID sessionID manifest) w)"

definition SaveCheckpoint :: "'w store \<Rightarrow> string \<Rightarrow> string \<Rightarrow> 'w \<Rightarrow> goerr option \<times> 'w" where
  "SaveCheckpoint st runID state w =
     dd_PutItem (st_client st) tableCheckpoints [''runId'' \<mapsto> S runID, ''state'' \<mapsto> B state] w"

definition LoadCheckpoint :: "'w store \<Rightarrow> string \<Rightarrow> 'w \<Rightarrow> string result \<times> 'w" where
  "LoadCheckpoint st runID w =
     (case dd_GetItem (st_client st) tableCheckpoints [''runId'' \<mapsto> S runID] True w of
        (Inl err, w1) \<Rightarrow> (Inl err, w1)
      | (Inr None, w1) \<Rightarrow> (Inl (ErrNew ''checkpoint not found''), w1)
      | (Inr (Some it), w1) \<Rightarrow>
          ((case it ''state'' of Some (B v) \<Rightarrow> Inr v | _ \<Rightarrow> Inl (ErrNew ''checkpoint missing state'')), w1))"

definition DeleteCheckpoint :: "'w store \<Rightarrow> string \<Rightarrow> 'w \<Rightarrow> goerr option \<times> 'w" where
  "DeleteCheckpoint st runID w = dd_DeleteItem (st_client st) tableCheckpoints [''runId'' \<mapsto> S runID] w"

definition PutRun :: "'w store \<Rightarrow> run_record \<Rightarrow> 'w \<Rightarrow> goerr option \<times> 'w" where
  "PutRun st r w =
     dd_PutItem (st_client st) tableRuns
       [attrSession \<mapsto> S (ru_SessionID r), ''runId'' \<mapsto> S (ru_RunID r), ''trigger'' \<mapsto> S (ru_Trigger r), attrStatus \<mapsto> S (ru_Status r)] w"

section \<open>The session checker\<close>

text \<open>The checker's clock is left out: \<^verbatim>\<open>GetSession\<close> does not read it.\<close>

record 'w session_checker =
  sc_store :: "'w store"
  sc_maxLifetime :: duration

definition NewSessionChecker :: "'w store \<Rightarrow> duration \<Rightarrow> 'w session_checker" where
  "NewSessionChecker st maxLifetime =
     \<lparr>sc_store = st, sc_maxLifetime = (if maxLifetime = 0 then 4 * Hour else maxLifetime)\<rparr>"

definition sessionInfo :: "'w session_checker \<Rightarrow> session \<Rightarrow> session_info" where
  "sessionInfo c sess =
     (let deadline = se_CreatedAt sess + sc_maxLifetime c
      in \<lparr>si_Alive = (se_Status sess \<noteq> ''Terminated''),
          si_Deadline = (if \<not> IsZero (se_TTL sess) \<and> se_TTL sess < deadline then se_TTL sess else deadline)\<rparr>)"

definition checkSession :: "'w session_checker \<Rightarrow> string \<Rightarrow> 'w \<Rightarrow> session_info result \<times> 'w" where
  "checkSession c sessionID w =
     (case dd_Query (st_client (sc_store c))
             \<lparr>qi_TableName = tableSessions, qi_IndexName = Some ''session-id-index'', qi_KeyConditionExpression = ''#sid = :s'',
              qi_FilterExpression = None, qi_Names = [''#sid'' \<mapsto> ''sessionIdOnly''], qi_Values = ['':s'' \<mapsto> S sessionID],
              qi_Select = None, qi_Limit = Some 1\<rparr> w of
        (Inl err, w1) \<Rightarrow> (Inl err, w1)
      | (Inr out, w1) \<Rightarrow>
          (case fst out of
             [] \<Rightarrow> (Inl ErrSessionNotFound, w1)
           | it # _ \<Rightarrow> (Inr (sessionInfo c (fromItem it)), w1)))"

section \<open>Items\<close>

text \<open>What is kept of a session: its times, to the second.\<close>

definition stored :: "session \<Rightarrow> session" where
  "stored sess = sess\<lparr>se_CreatedAt := Unix (se_CreatedAt sess) * Second,
     se_TTL := (if IsZero (se_TTL sess) then zeroTime else Unix (se_TTL sess) * Second)\<rparr>"

definition int64Time :: "time \<Rightarrow> bool" where
  "int64Time t \<longleftrightarrow> - (2 ^ 63) \<le> Unix t \<and> Unix t < 2 ^ 63"

lemma fromItem_itemOf:
  assumes "itemOf sess = Inr it" and "int64Time (se_CreatedAt sess)" and "int64Time (se_TTL sess)"
  shows "fromItem it = stored sess"
proof -
  have "ParseInt (showInt (Unix (se_CreatedAt sess))) = Some (Unix (se_CreatedAt sess))"
    and "ParseInt (showInt (Unix (se_TTL sess))) = Some (Unix (se_TTL sess))"
    using assms(2,3) by (simp_all add: int64Time_def ParseInt_showInt)
  moreover from assms(1) have "length (se_Manifest sess) \<le> maxManifest" by (simp add: itemOf_def split: if_splits)
  ultimately show ?thesis using assms(1)
    by (cases sess) (auto simp: itemOf_def Let_def fromItem_def stored_def strAttr_def timeAttr_def attr_defs split: if_splits)
qed

section \<open>What the code relies on of DynamoDB\<close>

text \<open>
  On the rows of a world, per table and primary key: a put replaces the row of the item's key, an update
  sets one attribute of the row of its key, which it creates if there is none, a delete drops it.  A
  consistent read returns the row; other reads and queries do when the world is settled.  Every item a
  query returns satisfies the query's conditions.  Operations that fail are not constrained.
\<close>

definition allTables :: "table_input list" where
  "allTables = [sessionsTable, checkpointsTable, lookupTable, runsTable]"

definition keyAttrs :: "string \<Rightarrow> string set" where
  "keyAttrs t = (case find (\<lambda>ct. ct_TableName ct = t) allTables of None \<Rightarrow> {} | Some ct \<Rightarrow> set (map fst (ct_KeySchema ct)))"

definition resolve :: "(string \<rightharpoonup> string) \<Rightarrow> string \<Rightarrow> string" where
  "resolve names a = (case names a of None \<Rightarrow> a | Some n \<Rightarrow> n)"

definition setAttr :: "item \<Rightarrow> string \<Rightarrow> attribute \<Rightarrow> item option \<Rightarrow> item" where
  "setAttr key a v row = (case row of None \<Rightarrow> key | Some it \<Rightarrow> it)(a \<mapsto> v)"

definition put_law :: "'w dynamo_client \<Rightarrow> ('w \<Rightarrow> string \<Rightarrow> item \<rightharpoonup> item) \<Rightarrow> bool" where
  "put_law dd rows \<longleftrightarrow>
     (\<forall>t it w w'. dd_PutItem dd t it w = (None, w') \<longrightarrow> rows w' = (rows w)(t := (rows w t)(it |` keyAttrs t \<mapsto> it)))"

definition get_law :: "'w dynamo_client \<Rightarrow> ('w \<Rightarrow> string \<Rightarrow> item \<rightharpoonup> item) \<Rightarrow> ('w \<Rightarrow> bool) \<Rightarrow> bool" where
  "get_law dd rows settled \<longleftrightarrow>
     (\<forall>t key consistent w out w'. dd_GetItem dd t key consistent w = (Inr out, w') \<longrightarrow>
        rows w' = rows w \<and> (consistent \<or> settled w \<longrightarrow> out = rows w t key))"

definition update_law :: "'w dynamo_client \<Rightarrow> ('w \<Rightarrow> string \<Rightarrow> item \<rightharpoonup> item) \<Rightarrow> bool" where
  "update_law dd rows \<longleftrightarrow>
     (\<forall>u w w' a v val. dd_UpdateItem dd u w = (None, w') \<longrightarrow>
        Split (CHR '' '') (ui_UpdateExpression u) = [''SET'', a, ''='', v] \<longrightarrow> ui_Values u v = Some val \<longrightarrow>
        rows w' = (rows w)(ui_TableName u := (rows w (ui_TableName u))
          (ui_Key u \<mapsto> setAttr (ui_Key u) (resolve (ui_Names u) a) val (rows w (ui_TableName u) (ui_Key u)))))"

definition delete_law :: "'w dynamo_client \<Rightarrow> ('w \<Rightarrow> string \<Rightarrow> item \<rightharpoonup> item) \<Rightarrow> bool" where
  "delete_law dd rows \<longleftrightarrow>
     (\<forall>t key w w'. dd_DeleteItem dd t key w = (None, w') \<longrightarrow> rows w' = (rows w)(t := (rows w t)(key := None)))"

definition query_law :: "'w dynamo_client \<Rightarrow> ('w \<Rightarrow> string \<Rightarrow> item \<rightharpoonup> item) \<Rightarrow> ('w \<Rightarrow> bool) \<Rightarrow> bool" where
  "query_law dd rows settled \<longleftrightarrow>
     (\<forall>q w its n w'. dd_Query dd q w = (Inr (its, n), w') \<longrightarrow> rows w' = rows w \<and>
        (\<forall>it \<in> set its. (settled w \<longrightarrow> it \<in> ran (rows w (qi_TableName q))) \<and>
           (\<forall>a v. Split (CHR '' '') (qi_KeyConditionExpression q) = [a, ''='', v] \<longrightarrow> it (resolve (qi_Names q) a) = qi_Values q v) \<and>
           (\<forall>f a v. qi_FilterExpression q = Some f \<longrightarrow> Split (CHR '' '') f = [a, ''<>'', v] \<longrightarrow>
              it (resolve (qi_Names q) a) \<noteq> qi_Values q v)))"

definition dynamo :: "'w dynamo_client \<Rightarrow> ('w \<Rightarrow> string \<Rightarrow> item \<rightharpoonup> item) \<Rightarrow> ('w \<Rightarrow> bool) \<Rightarrow> bool" where
  "dynamo dd rows settled \<longleftrightarrow>
     put_law dd rows \<and> get_law dd rows settled \<and> update_law dd rows \<and> delete_law dd rows \<and> query_law dd rows settled"

lemma dynamoD:
  assumes "dynamo dd rows settled"
  shows "dd_PutItem dd t it w = (None, w') \<Longrightarrow> rows w' = (rows w)(t := (rows w t)(it |` keyAttrs t \<mapsto> it))"
    and "dd_GetItem dd t key consistent w = (Inr out, w') \<Longrightarrow> consistent \<or> settled w \<Longrightarrow> rows w' = rows w \<and> out = rows w t key"
    and "dd_DeleteItem dd t key w = (None, w') \<Longrightarrow> rows w' = (rows w)(t := (rows w t)(key := None))"
  using assms unfolding dynamo_def put_law_def get_law_def delete_law_def by blast+

lemma dynamo_update:
  assumes "dynamo dd rows settled" and "dd_UpdateItem dd u w = (None, w')"
    and "Split (CHR '' '') (ui_UpdateExpression u) = [''SET'', a, ''='', v]" and "ui_Values u v = Some val"
  shows "rows w' = (rows w)(ui_TableName u := (rows w (ui_TableName u))
          (ui_Key u \<mapsto> setAttr (ui_Key u) (resolve (ui_Names u) a) val (rows w (ui_TableName u) (ui_Key u))))"
  using assms unfolding dynamo_def update_law_def by blast

lemma dynamo_query:
  assumes "dynamo dd rows settled" and "dd_Query dd q w = (Inr (its, n), w')" and "it \<in> set its"
  shows "settled w \<Longrightarrow> it \<in> ran (rows w (qi_TableName q))"
    and "Split (CHR '' '') (qi_KeyConditionExpression q) = [a, ''='', v] \<Longrightarrow> it (resolve (qi_Names q) a) = qi_Values q v"
    and "qi_FilterExpression q = Some f \<Longrightarrow> Split (CHR '' '') f = [a', ''<>'', v'] \<Longrightarrow> it (resolve (qi_Names q) a') \<noteq> qi_Values q v'"
  using assms unfolding dynamo_def query_law_def by blast+

lemma keyAttrs_simps [simp]:
  "keyAttrs tableSessions = {attrOrg, attrSession}" "keyAttrs tableLookup = {attrSession}"
  "keyAttrs tableCheckpoints = {''runId''}" "keyAttrs tableRuns = {attrSession, ''runId''}"
  by (simp_all add: keyAttrs_def allTables_def sessionsTable_def checkpointsTable_def lookupTable_def runsTable_def table_defs)

lemma tables_distinct [simp]:
  "tableSessions \<noteq> tableLookup" "tableLookup \<noteq> tableSessions" "tableSessions \<noteq> tableCheckpoints" "tableCheckpoints \<noteq> tableSessions"
  "tableSessions \<noteq> tableRuns" "tableRuns \<noteq> tableSessions" "tableCheckpoints \<noteq> tableRuns" "tableRuns \<noteq> tableCheckpoints"
  by (simp_all add: table_defs)

lemma itemOf_key: "itemOf sess = Inr it \<Longrightarrow> it |` keyAttrs tableSessions = keyOf (se_OrgID sess) (se_SessionID sess)"
  by (rule ext) (auto simp: itemOf_def Let_def keyOf_def restrict_map_def attr_defs split: if_splits)

lemma lookup_key: "[attrSession \<mapsto> S s, attrOrg \<mapsto> S og] |` keyAttrs tableLookup = [attrSession \<mapsto> S s]"
  by (rule ext) (simp add: restrict_map_def attr_defs)

lemma checkpoint_key: "[''runId'' \<mapsto> S r, ''state'' \<mapsto> B x] |` keyAttrs tableCheckpoints = [''runId'' \<mapsto> S r]"
  by (rule ext) (simp add: restrict_map_def)

section \<open>Properties of the store\<close>

text \<open>
  Round trip of a session.  After a session was put, reading it (from settled replicas) gives it back with
  its times cut to the second, and the organisation lookup, which reads consistently, resolves its id.
\<close>

theorem put_get_session:
  assumes "dynamo (st_client st) rows settled" and "int64Time (se_CreatedAt sess)" and "int64Time (se_TTL sess)"
    and "PutSession st sess w = (None, w1)"
  shows "(\<forall>out w2. settled w1 \<longrightarrow>
            dd_GetItem (st_client st) tableSessions (keyOf (se_OrgID sess) (se_SessionID sess)) False w1 = (Inr out, w2) \<longrightarrow>
            GetSession st (se_OrgID sess) (se_SessionID sess) w1 = (Inr (stored sess), w2))
       \<and> (\<forall>out w2. dd_GetItem (st_client st) tableLookup [attrSession \<mapsto> S (se_SessionID sess)] True w1 = (Inr out, w2) \<longrightarrow>
            lookupOrg st (se_SessionID sess) w1 = (Inr (se_OrgID sess), w2))"
proof -
  let ?key = "keyOf (se_OrgID sess) (se_SessionID sess)" and ?lk = "[attrSession \<mapsto> S (se_SessionID sess)]"
  let ?lit = "[attrSession \<mapsto> S (se_SessionID sess), attrOrg \<mapsto> S (se_OrgID sess)]"
  obtain it where it: "itemOf sess = Inr it" using assms(4) by (cases "itemOf sess") (simp_all add: PutSession_def)
  obtain x w0 where put: "dd_PutItem (st_client st) tableSessions it w = (x, w0)" by (rule prod.exhaust)
  have x: "x = None" using assms(4) put it by (cases x) (simp_all add: PutSession_def)
  have put2: "dd_PutItem (st_client st) tableLookup ?lit w0 = (None, w1)"
    using assms(4) put it x by (simp add: PutSession_def)
  note r1 = dynamoD(1) [OF assms(1) put [unfolded x], unfolded itemOf_key [OF it]]
  note r2 = dynamoD(1) [OF assms(1) put2, unfolded lookup_key]
  have row: "rows w1 tableSessions ?key = Some it" and lrow: "rows w1 tableLookup ?lk = Some ?lit"
    by (simp_all add: r1 r2)
  show ?thesis
  proof (intro conjI allI impI)
    fix out w2
    assume "settled w1" and g: "dd_GetItem (st_client st) tableSessions ?key False w1 = (Inr out, w2)"
    then have "out = Some it" using dynamoD(2) [OF assms(1) g] row by simp
    with g show "GetSession st (se_OrgID sess) (se_SessionID sess) w1 = (Inr (stored sess), w2)"
      by (simp add: GetSession_def fromItem_itemOf [OF it assms(2,3)])
  next
    fix out w2
    assume g: "dd_GetItem (st_client st) tableLookup ?lk True w1 = (Inr out, w2)"
    then have "out = Some ?lit" using dynamoD(2) [OF assms(1) g] lrow by simp
    with g show "lookupOrg st (se_SessionID sess) w1 = (Inr (se_OrgID sess), w2)" by (simp add: lookupOrg_def)
  qed
qed

lemma UpdateStatus_success:
  assumes "dynamo (st_client st) rows settled" and "UpdateStatus st orgID sessionID status w = (None, w1)"
  shows "\<exists>og. (if orgID = [] then \<exists>it. rows w tableLookup [attrSession \<mapsto> S sessionID] = Some it \<and> it attrOrg = Some (S og) else og = orgID) \<and>
    rows w1 = (rows w)(tableSessions := (rows w tableSessions)
      (keyOf og sessionID \<mapsto> setAttr (keyOf og sessionID) attrStatus (S status) (rows w tableSessions (keyOf og sessionID))))"
proof -
  obtain og w0 where og: "(if orgID = [] then lookupOrg st sessionID w else (Inr orgID, w)) = (Inr og, w0)"
    and up: "dd_UpdateItem (st_client st) (statusUpdate og sessionID status) w0 = (None, w1)"
    using assms(2) by (cases "if orgID = [] then lookupOrg st sessionID w else (Inr orgID, w)"; cases "fst (if orgID = [] then lookupOrg st sessionID w else (Inr orgID, w))")
      (simp_all add: UpdateStatus_def)
  have w0: "rows w0 = rows w \<and> (if orgID = [] then \<exists>it. rows w tableLookup [attrSession \<mapsto> S sessionID] = Some it \<and> it attrOrg = Some (S og) else og = orgID)"
  proof (cases "orgID = []")
    case True
    obtain out w9 where g: "dd_GetItem (st_client st) tableLookup [attrSession \<mapsto> S sessionID] True w = (out, w9)" by (rule prod.exhaust)
    from og True have lk: "lookupOrg st sessionID w = (Inr og, w0)" by simp
    then obtain it where o: "out = Inr (Some it)" "it attrOrg = Some (S og)" "w9 = w0"
      by (auto simp: lookupOrg_def g split: sum.splits option.splits attribute.splits)
    with dynamoD(2) [OF assms(1) g [unfolded o(1)]] True show ?thesis by (simp add: exI [of _ it])
  next
    case False
    with og show ?thesis by simp
  qed
  have ex: "Split (CHR '' '') (ui_UpdateExpression (statusUpdate og sessionID status)) = [''SET'', ''#st'', ''='', '':st'']"
    "ui_Values (statusUpdate og sessionID status) '':st'' = Some (S status)"
    by (simp_all add: statusUpdate_def)
  have "resolve (ui_Names (statusUpdate og sessionID status)) ''#st'' = attrStatus"
    and "ui_TableName (statusUpdate og sessionID status) = tableSessions" and "ui_Key (statusUpdate og sessionID status) = keyOf og sessionID"
    by (simp_all add: statusUpdate_def resolve_def attr_defs)
  with dynamo_update [OF assms(1) up ex] w0 show ?thesis by auto
qed

lemma fromItem_status: "fromItem (it(attrStatus \<mapsto> S status)) = (fromItem it)\<lparr>se_Status := status\<rparr>"
  by (simp add: fromItem_def strAttr_def timeAttr_def attr_defs)

text \<open>
  A status update of a session that exists, with the organisation given or resolved from the lookup table,
  changes the status of that session and nothing else in any table.
\<close>

theorem update_status_only_status:
  assumes "dynamo (st_client st) rows settled" and "UpdateStatus st orgID sessionID status w = (None, w1)"
    and "if orgID = [] then \<exists>lk. rows w tableLookup [attrSession \<mapsto> S sessionID] = Some lk \<and> lk attrOrg = Some (S og) else og = orgID"
    and "rows w tableSessions (keyOf og sessionID) = Some it"
  shows "\<exists>it'. rows w1 = (rows w)(tableSessions := (rows w tableSessions)(keyOf og sessionID \<mapsto> it')) \<and>
           fromItem it' = (fromItem it)\<lparr>se_Status := status\<rparr>"
proof -
  from UpdateStatus_success [OF assms(1,2)] obtain og' where
    og': "if orgID = [] then \<exists>lk. rows w tableLookup [attrSession \<mapsto> S sessionID] = Some lk \<and> lk attrOrg = Some (S og') else og' = orgID"
    and r: "rows w1 = (rows w)(tableSessions := (rows w tableSessions)
      (keyOf og' sessionID \<mapsto> setAttr (keyOf og' sessionID) attrStatus (S status) (rows w tableSessions (keyOf og' sessionID))))"
    by blast
  from og' assms(3) have "og' = og" by (cases "orgID = []") auto
  with r assms(4) show ?thesis
    by (intro exI [of _ "it(attrStatus \<mapsto> S status)"]) (simp add: setAttr_def fromItem_status)
qed

text \<open>A status update of a session that does not exist creates one with no user, no agent and no creation time.\<close>

theorem update_status_creates_phantom:
  assumes "dynamo (st_client st) rows settled" and "UpdateStatus st orgID sessionID status w = (None, w1)"
    and "orgID \<noteq> []" and "rows w tableSessions (keyOf orgID sessionID) = None"
  shows "\<exists>it. rows w1 tableSessions (keyOf orgID sessionID) = Some it \<and> fromItem it =
    \<lparr>se_OrgID = orgID, se_SessionID = sessionID, se_UserID = [], se_AgentRef = [], se_Status = status,
     se_EnvironmentKey = [], se_Manifest = [], se_CreatedAt = zeroTime, se_TTL = zeroTime\<rparr>"
proof -
  from UpdateStatus_success [OF assms(1,2)] assms(3,4)
  have "rows w1 tableSessions (keyOf orgID sessionID) = Some ((keyOf orgID sessionID)(attrStatus \<mapsto> S status))"
    by (simp add: setAttr_def)
  then show ?thesis by (simp add: fromItem_def strAttr_def timeAttr_def keyOf_def attr_defs)
qed

lemma SaveManifest_success:
  assumes "dynamo (st_client st) rows settled" and "SaveManifest st orgID sessionID m w = (None, w1)"
  shows "length m \<le> maxManifest"
    and "rows w1 = (rows w)(tableSessions := (rows w tableSessions)
      (keyOf orgID sessionID \<mapsto> setAttr (keyOf orgID sessionID) ''manifest'' (B m) (rows w tableSessions (keyOf orgID sessionID))))"
proof -
  from assms(2) show "length m \<le> maxManifest" by (simp add: SaveManifest_def split: if_splits)
  with assms(2) have up: "dd_UpdateItem (st_client st) (manifestUpdate orgID sessionID m) w = (None, w1)"
    by (simp add: SaveManifest_def)
  have ex: "Split (CHR '' '') (ui_UpdateExpression (manifestUpdate orgID sessionID m)) = [''SET'', ''manifest'', ''='', '':m'']"
    "ui_Values (manifestUpdate orgID sessionID m) '':m'' = Some (B m)"
    by (simp_all add: manifestUpdate_def)
  from dynamo_update [OF assms(1) up ex] show "rows w1 = (rows w)(tableSessions := (rows w tableSessions)
      (keyOf orgID sessionID \<mapsto> setAttr (keyOf orgID sessionID) ''manifest'' (B m) (rows w tableSessions (keyOf orgID sessionID))))"
    by (simp add: manifestUpdate_def resolve_def)
qed

section \<open>Properties of checkpoints\<close>

text \<open>The operations that can come between the save and the load of a run's checkpoint: all but saving or deleting it.\<close>

inductive otherOp :: "'w store \<Rightarrow> string \<Rightarrow> 'w \<Rightarrow> 'w \<Rightarrow> bool" for st :: "'w store" and runID :: string where
  put_session: "PutSession st sess w = (None, w') \<Longrightarrow> otherOp st runID w w'"
| update_status: "UpdateStatus st og sid status w = (None, w') \<Longrightarrow> otherOp st runID w w'"
| save_manifest: "SaveManifest st og sid m w = (None, w') \<Longrightarrow> otherOp st runID w w'"
| put_run: "PutRun st r w = (None, w') \<Longrightarrow> otherOp st runID w w'"
| save_checkpoint: "SaveCheckpoint st other x w = (None, w') \<Longrightarrow> other \<noteq> runID \<Longrightarrow> otherOp st runID w w'"
| delete_checkpoint: "DeleteCheckpoint st other w = (None, w') \<Longrightarrow> other \<noteq> runID \<Longrightarrow> otherOp st runID w w'"
| load_checkpoint: "LoadCheckpoint st other w = (Inr x, w') \<Longrightarrow> otherOp st runID w w'"

lemma PutSession_other:
  assumes d: "dynamo (st_client st) rows settled" and p: "PutSession st sess w = (None, w')"
    and t: "t \<noteq> tableSessions" "t \<noteq> tableLookup"
  shows "rows w' t = rows w t"
proof (cases "itemOf sess")
  case (Inr it)
  obtain x w0 where put: "dd_PutItem (st_client st) tableSessions it w = (x, w0)" by (rule prod.exhaust)
  with p Inr have x: "x = None" by (cases x) (simp_all add: PutSession_def)
  with p Inr put have "dd_PutItem (st_client st) tableLookup [attrSession \<mapsto> S (se_SessionID sess), attrOrg \<mapsto> S (se_OrgID sess)] w0 = (None, w')"
    by (simp add: PutSession_def)
  from dynamoD(1) [OF d this] dynamoD(1) [OF d put [unfolded x]] t show ?thesis by simp
qed (use p in \<open>simp add: PutSession_def\<close>)

lemma run_key_inject: "[''runId'' \<mapsto> S a] = [''runId'' \<mapsto> S b] \<longleftrightarrow> a = b"
  by (auto dest: fun_cong [of _ _ "''runId''"])

lemma otherOp_keeps:
  assumes d: "dynamo (st_client st) rows settled" and "otherOp st runID w w'"
  shows "rows w' tableCheckpoints [''runId'' \<mapsto> S runID] = rows w tableCheckpoints [''runId'' \<mapsto> S runID]"
  using assms(2)
proof cases
  case (put_session sess)
  have "tableCheckpoints \<noteq> tableLookup" by (simp add: table_defs)
  then show ?thesis using PutSession_other [OF d put_session] by simp
next
  case (update_status og sid status)
  from UpdateStatus_success [OF d this] show ?thesis by auto
next
  case (save_manifest og sid m)
  from SaveManifest_success(2) [OF d this] show ?thesis by simp
next
  case (put_run r)
  then show ?thesis using dynamoD(1) [OF d] by (simp add: PutRun_def)
next
  case (save_checkpoint other x)
  then have "dd_PutItem (st_client st) tableCheckpoints [''runId'' \<mapsto> S other, ''state'' \<mapsto> B x] w = (None, w')"
    by (simp add: SaveCheckpoint_def)
  from dynamoD(1) [OF d this, unfolded checkpoint_key] save_checkpoint show ?thesis by (simp add: run_key_inject)
next
  case (delete_checkpoint other)
  then have "dd_DeleteItem (st_client st) tableCheckpoints [''runId'' \<mapsto> S other] w = (None, w')"
    by (simp add: DeleteCheckpoint_def)
  from dynamoD(3) [OF d this] delete_checkpoint show ?thesis by (simp add: run_key_inject)
next
  case (load_checkpoint other x)
  then obtain it where "dd_GetItem (st_client st) tableCheckpoints [''runId'' \<mapsto> S other] True w = (Inr (Some it), w')"
    by (auto simp: LoadCheckpoint_def split: prod.splits sum.splits option.splits attribute.splits)
  from dynamoD(2) [OF d this] show ?thesis by simp
qed

lemma otherOps_keep:
  assumes "dynamo (st_client st) rows settled" and "(otherOp st runID)\<^sup>*\<^sup>* w1 w2"
  shows "rows w2 tableCheckpoints [''runId'' \<mapsto> S runID] = rows w1 tableCheckpoints [''runId'' \<mapsto> S runID]"
  using assms(2)
proof (induction rule: rtranclp_induct)
  case (step y z)
  from otherOp_keeps [OF assms(1) step(2)] step(3) show ?case by (rule trans)
qed (rule refl)

lemma load_after_save:
  assumes "dynamo (st_client st) rows settled" and "SaveCheckpoint st runID state w = (None, w1)" and "(otherOp st runID)\<^sup>*\<^sup>* w1 w2"
    and "dd_GetItem (st_client st) tableCheckpoints [''runId'' \<mapsto> S runID] True w2 = (Inr out, w3)"
  shows "LoadCheckpoint st runID w2 = (Inr state, w3)"
  using dynamoD(1) [OF assms(1) assms(2) [unfolded SaveCheckpoint_def], unfolded checkpoint_key]
    otherOps_keep [OF assms(1,3)] dynamoD(2) [OF assms(1,4)] assms(4) by (simp add: LoadCheckpoint_def)

lemma load_after_delete:
  assumes "dynamo (st_client st) rows settled" and "DeleteCheckpoint st runID w = (None, w1)" and "(otherOp st runID)\<^sup>*\<^sup>* w1 w2"
    and "dd_GetItem (st_client st) tableCheckpoints [''runId'' \<mapsto> S runID] True w2 = (Inr out, w3)"
  shows "LoadCheckpoint st runID w2 = (Inl (ErrNew ''checkpoint not found''), w3)"
  using dynamoD(3) [OF assms(1) assms(2) [unfolded DeleteCheckpoint_def]]
    otherOps_keep [OF assms(1,3)] dynamoD(2) [OF assms(1,4)] assms(4) by (simp add: LoadCheckpoint_def)

text \<open>
  A saved checkpoint is what the next load of the run returns, and a deleted one is reported as not found,
  whatever other operations come in between (a load that reaches the database).
\<close>

theorem checkpoint_roundtrip:
  assumes "dynamo (st_client st) rows settled" and "(otherOp st runID)\<^sup>*\<^sup>* w1 w2"
    and "dd_GetItem (st_client st) tableCheckpoints [''runId'' \<mapsto> S runID] True w2 = (Inr out, w3)"
  shows "(SaveCheckpoint st runID state w = (None, w1) \<longrightarrow> LoadCheckpoint st runID w2 = (Inr state, w3)) \<and>
         (DeleteCheckpoint st runID w = (None, w1) \<longrightarrow> LoadCheckpoint st runID w2 = (Inl (ErrNew ''checkpoint not found''), w3))"
  using load_after_save [OF assms(1) _ assms(2,3)] load_after_delete [OF assms(1) _ assms(2,3)] by blast

section \<open>Properties of queries and of the session checker\<close>

lemma strAttr_S: "it k = Some (S v) \<Longrightarrow> strAttr it k = v"
  by (simp add: strAttr_def)

lemma strAttr_ne: "v \<noteq> [] \<Longrightarrow> it k \<noteq> Some (S v) \<Longrightarrow> strAttr it k \<noteq> v"
  by (auto simp: strAttr_def split: option.splits attribute.splits)

text \<open>
  Every session a resumable listing returns is the user's and is not terminated, and every session an
  organisation listing returns is the organisation's.
\<close>

theorem listings_sound:
  assumes "dynamo (st_client st) rows settled"
  shows "(ListResumableByUser st userID w = (Inr ss, w') \<longrightarrow> (\<forall>s \<in> set ss. se_UserID s = userID \<and> se_Status s \<noteq> ''Terminated'')) \<and>
         (ListByOrg st orgID w = (Inr ss, w') \<longrightarrow> (\<forall>s \<in> set ss. se_OrgID s = orgID))"
proof (intro conjI impI)
  let ?q = "\<lparr>qi_TableName = tableSessions, qi_IndexName = Some ''user-index'', qi_KeyConditionExpression = ''#u = :u'',
      qi_FilterExpression = Some ''#st <> :term'', qi_Names = [''#u'' \<mapsto> attrUser, ''#st'' \<mapsto> ''status''],
      qi_Values = ['':u'' \<mapsto> S userID, '':term'' \<mapsto> S ''Terminated''], qi_Select = None, qi_Limit = None\<rparr>"
  assume l: "ListResumableByUser st userID w = (Inr ss, w')"
  then obtain its n where q: "dd_Query (st_client st) ?q w = (Inr (its, n), w')" and ss: "ss = map fromItem its"
    by (auto simp: ListResumableByUser_def split: prod.splits sum.splits)
  have cond: "it attrUser = Some (S userID) \<and> it attrStatus \<noteq> Some (S ''Terminated'')" if "it \<in> set its" for it
    using dynamo_query(2) [OF assms q that, of "''#u''" "'':u''"] dynamo_query(3) [OF assms q that, of "''#st <> :term''" "''#st''" "'':term''"]
    by (simp add: resolve_def attr_defs)
  have "se_UserID (fromItem it) = userID \<and> se_Status (fromItem it) \<noteq> ''Terminated''" if "it \<in> set its" for it
    using cond [OF that] by (simp add: fromItem_def strAttr_S strAttr_ne)
  then show "\<forall>s \<in> set ss. se_UserID s = userID \<and> se_Status s \<noteq> ''Terminated''" by (simp add: ss)
next
  let ?q = "\<lparr>qi_TableName = tableSessions, qi_IndexName = None, qi_KeyConditionExpression = ''orgId = :o'', qi_FilterExpression = None,
              qi_Names = Map.empty, qi_Values = ['':o'' \<mapsto> S orgID], qi_Select = None, qi_Limit = None\<rparr>"
  assume l: "ListByOrg st orgID w = (Inr ss, w')"
  then obtain its n where q: "dd_Query (st_client st) ?q w = (Inr (its, n), w')" and ss: "ss = map fromItem its"
    by (auto simp: ListByOrg_def queryStore_def split: prod.splits sum.splits)
  have "it attrOrg = Some (S orgID)" if "it \<in> set its" for it
    using dynamo_query(2) [OF assms q that, of "''orgId''" "'':o''"] by (simp add: resolve_def attr_defs)
  then show "\<forall>s \<in> set ss. se_OrgID s = orgID" by (simp add: ss fromItem_def strAttr_S)
qed

lemma checkSession_Inr:
  assumes "dynamo (st_client (sc_store c)) rows settled" and "checkSession c sessionID w = (Inr info, w')"
  obtains it where "it ''sessionIdOnly'' = Some (S sessionID)" "info = sessionInfo c (fromItem it)"
    "settled w \<longrightarrow> it \<in> ran (rows w tableSessions)"
proof -
  let ?q = "\<lparr>qi_TableName = tableSessions, qi_IndexName = Some ''session-id-index'', qi_KeyConditionExpression = ''#sid = :s'',
              qi_FilterExpression = None, qi_Names = [''#sid'' \<mapsto> ''sessionIdOnly''], qi_Values = ['':s'' \<mapsto> S sessionID],
              qi_Select = None, qi_Limit = Some 1\<rparr>"
  from assms(2) obtain it its n where q: "dd_Query (st_client (sc_store c)) ?q w = (Inr (it # its, n), w')"
    and info: "info = sessionInfo c (fromItem it)"
    by (auto simp: checkSession_def split: prod.splits sum.splits list.splits)
  have "it \<in> set (it # its)" by simp
  note dq = dynamo_query [OF assms(1) q this]
  show thesis
    using dq(1) dq(2) [of "''#sid''" "'':s''"] info by (intro that [of it]) (simp_all add: resolve_def)
qed

lemma sessionInfo_deadline:
  "si_Deadline (sessionInfo c s) \<le> se_CreatedAt s + sc_maxLifetime c"
  "\<not> IsZero (se_TTL s) \<Longrightarrow> si_Deadline (sessionInfo c s) \<le> se_TTL s"
  "zeroTime < se_CreatedAt s \<Longrightarrow> 0 \<le> sc_maxLifetime c \<Longrightarrow> \<not> IsZero (si_Deadline (sessionInfo c s))"
  by (auto simp: sessionInfo_def Let_def IsZero_def)


section \<open>Concrete runs\<close>

text \<open>A database whose reads are always current; it keeps beside its rows the items put, which its queries scan.\<close>

record ex_db =
  ex_rows :: "string \<Rightarrow> item \<rightharpoonup> item"
  ex_items :: "item list"

definition ex_matches :: "query_input \<Rightarrow> item \<Rightarrow> bool" where
  "ex_matches q it \<longleftrightarrow>
     (case Split (CHR '' '') (qi_KeyConditionExpression q) of [a, e, v] \<Rightarrow> it (resolve (qi_Names q) a) = qi_Values q v | _ \<Rightarrow> True) \<and>
     (case qi_FilterExpression q of None \<Rightarrow> True
      | Some f \<Rightarrow> (case Split (CHR '' '') f of [a, e, v] \<Rightarrow> it (resolve (qi_Names q) a) \<noteq> qi_Values q v | _ \<Rightarrow> True))"

definition ex_dd :: "ex_db dynamo_client" where
  "ex_dd =
     \<lparr>dd_CreateTable = (\<lambda>t w. (None, w)), dd_UpdateTimeToLive = (\<lambda>t a b w. (None, w)),
      dd_PutItem = (\<lambda>t it w. (None, \<lparr>ex_rows = (ex_rows w)(t := (ex_rows w t)(it |` keyAttrs t \<mapsto> it)), ex_items = ex_items w @ [it]\<rparr>)),
      dd_GetItem = (\<lambda>t key c w. (Inr (ex_rows w t key), w)),
      dd_UpdateItem = (\<lambda>u w. case Split (CHR '' '') (ui_UpdateExpression u) of
          [k, a, e, v] \<Rightarrow> (case ui_Values u v of
             Some val \<Rightarrow> (None, w\<lparr>ex_rows := (ex_rows w)(ui_TableName u := (ex_rows w (ui_TableName u))
               (ui_Key u \<mapsto> setAttr (ui_Key u) (resolve (ui_Names u) a) val (ex_rows w (ui_TableName u) (ui_Key u))))\<rparr>)
           | None \<Rightarrow> (Some (ErrNew ''ValidationException''), w))
        | _ \<Rightarrow> (Some (ErrNew ''ValidationException''), w)),
      dd_DeleteItem = (\<lambda>t key w. (None, w\<lparr>ex_rows := (ex_rows w)(t := (ex_rows w t)(key := None))\<rparr>)),
      dd_Query = (\<lambda>q w. (Inr (filter (\<lambda>it. ex_matches q it \<and> it \<in> ran (ex_rows w (qi_TableName q))) (ex_items w), 0), w)),
      dd_ResourceInUse = (\<lambda>e. False)\<rparr>"

lemma ex_dynamo: "dynamo ex_dd ex_rows (\<lambda>w. True)"
proof -
  have "put_law ex_dd ex_rows" "get_law ex_dd ex_rows (\<lambda>w. True)" "delete_law ex_dd ex_rows"
    by (simp_all add: put_law_def get_law_def delete_law_def ex_dd_def)
  moreover have "update_law ex_dd ex_rows" unfolding update_law_def by (auto simp add: ex_dd_def)
  moreover have "query_law ex_dd ex_rows (\<lambda>w. True)" unfolding query_law_def by (auto simp add: ex_dd_def ex_matches_def)
  ultimately show ?thesis by (simp add: dynamo_def)
qed

definition ex_st :: "ex_db store" where "ex_st = NewStore ex_dd"

definition ex_empty :: ex_db where "ex_empty = \<lparr>ex_rows = (\<lambda>t. Map.empty), ex_items = []\<rparr>"

definition ex_session :: session where
  "ex_session = \<lparr>se_OrgID = ''org-1'', se_SessionID = ''sess-1'', se_UserID = ''user-1'', se_AgentRef = ''bot@v1'', se_Status = ''Running'',
     se_EnvironmentKey = ''e'', se_Manifest = [], se_CreatedAt = 0, se_TTL = zeroTime\<rparr>"

definition ex_put :: ex_db where "ex_put = snd (PutSession ex_st ex_session ex_empty)"

lemma ex_st_client [simp]: "st_client ex_st = ex_dd"
  by (simp add: ex_st_def NewStore_def)

lemma ex_st_dynamo: "dynamo (st_client ex_st) ex_rows (\<lambda>w. True)"
  by (simp add: ex_dynamo)

lemma ex_get [simp]: "dd_GetItem ex_dd t key c w = (Inr (ex_rows w t key), w)"
  by (simp add: ex_dd_def)

lemma ex_PutSession: "PutSession ex_st ex_session ex_empty = (None, ex_put)"
  by (simp add: ex_put_def PutSession_def itemOf_def Let_def ex_session_def ex_dd_def IsZero_def)

lemma ex_int64: "int64Time (se_CreatedAt ex_session)" "int64Time (se_TTL ex_session)"
  by (simp_all add: int64Time_def ex_session_def Unix_def time_defs)

theorem put_get_session_witness:
  "GetSession ex_st ''org-1'' ''sess-1'' ex_put = (Inr (stored ex_session), ex_put)"
proof -
  have "se_OrgID ex_session = ''org-1''" "se_SessionID ex_session = ''sess-1''" by (simp_all add: ex_session_def)
  with put_get_session [OF ex_st_dynamo ex_int64 ex_PutSession] show ?thesis by simp
qed

definition ex_it :: item where "ex_it = projr (itemOf ex_session)"

lemma ex_itemOf: "itemOf ex_session = Inr ex_it"
  by (simp add: ex_it_def itemOf_def Let_def ex_session_def)

lemma ex_ids: "se_OrgID ex_session = ''org-1''" "se_SessionID ex_session = ''sess-1''"
  by (simp_all add: ex_session_def)

lemma ex_put_db: "ex_rows ex_put tableSessions = [keyOf ''org-1'' ''sess-1'' \<mapsto> ex_it]"
  "ex_items ex_put = [ex_it, [attrSession \<mapsto> S ''sess-1'', attrOrg \<mapsto> S ''org-1'']]"
  using itemOf_key [OF ex_itemOf]
  by (simp_all add: ex_put_def PutSession_def ex_itemOf ex_dd_def ex_ids ex_empty_def)

lemma ex_fromItem: "fromItem ex_it = ex_session"
  using fromItem_itemOf [OF ex_itemOf ex_int64] by (simp add: stored_def ex_session_def IsZero_def Unix_def time_defs)

lemma ex_it_id: "ex_it ''sessionIdOnly'' = Some (S ''sess-1'')" "ex_it attrUser = Some (S ''user-1'')" "ex_it attrStatus = Some (S ''Running'')"
  by (simp_all add: ex_it_def itemOf_def Let_def ex_session_def attr_defs IsZero_def)

definition ex_idle :: ex_db where "ex_idle = snd (UpdateStatus ex_st ''org-1'' ''sess-1'' ''Idle'' ex_put)"

theorem update_status_only_status_witness:
  "\<exists>it'. ex_rows ex_idle tableSessions (keyOf ''org-1'' ''sess-1'') = Some it' \<and> fromItem it' = ex_session\<lparr>se_Status := ''Idle''\<rparr>"
proof -
  have up: "UpdateStatus ex_st ''org-1'' ''sess-1'' ''Idle'' ex_put = (None, ex_idle)"
    by (simp add: ex_idle_def UpdateStatus_def ex_dd_def statusUpdate_def)
  have row: "ex_rows ex_put tableSessions (keyOf ''org-1'' ''sess-1'') = Some ex_it" by (simp add: ex_put_db)
  have og: "if ''org-1'' = [] then \<exists>lk. ex_rows ex_put tableLookup [attrSession \<mapsto> S ''sess-1''] = Some lk \<and> lk attrOrg = Some (S ''org-1'')
      else ''org-1'' = ''org-1''" by simp
  note upd = update_status_only_status [where rows = ex_rows and w = ex_put and og = "''org-1''", OF ex_st_dynamo up og row, unfolded ex_fromItem]
  then obtain it' where
    "ex_rows ex_idle = (ex_rows ex_put)(tableSessions := (ex_rows ex_put tableSessions)(keyOf ''org-1'' ''sess-1'' \<mapsto> it'))"
    and "fromItem it' = ex_session\<lparr>se_Status := ''Idle''\<rparr>" by (elim exE conjE)
  then show ?thesis by (intro exI [of _ it']) simp
qed

theorem checkpoint_roundtrip_witness:
  "LoadCheckpoint ex_st ''r'' (snd (PutRun ex_st \<lparr>ru_SessionID = ''s'', ru_RunID = ''r'', ru_Trigger = ''chat'', ru_Status = ''Running''\<rparr>
     (snd (SaveCheckpoint ex_st ''r'' ''state'' ex_empty)))) =
   (Inr ''state'', snd (PutRun ex_st \<lparr>ru_SessionID = ''s'', ru_RunID = ''r'', ru_Trigger = ''chat'', ru_Status = ''Running''\<rparr>
     (snd (SaveCheckpoint ex_st ''r'' ''state'' ex_empty))))"
proof -
  let ?run = "\<lparr>ru_SessionID = ''s'', ru_RunID = ''r'', ru_Trigger = ''chat'', ru_Status = ''Running''\<rparr>"
  let ?w1 = "snd (SaveCheckpoint ex_st ''r'' ''state'' ex_empty)"
  let ?w2 = "snd (PutRun ex_st ?run ?w1)"
  have sv: "SaveCheckpoint ex_st ''r'' ''state'' ex_empty = (None, ?w1)" by (simp add: SaveCheckpoint_def ex_dd_def)
  have "PutRun ex_st ?run ?w1 = (None, ?w2)" by (simp add: PutRun_def ex_dd_def)
  then have "otherOp ex_st ''r'' ?w1 ?w2" by (rule otherOp.put_run)
  then have ops: "(otherOp ex_st ''r'')\<^sup>*\<^sup>* ?w1 ?w2" by (rule r_into_rtranclp)
  have g: "dd_GetItem (st_client ex_st) tableCheckpoints [''runId'' \<mapsto> S ''r''] True ?w2 =
      (Inr (ex_rows ?w2 tableCheckpoints [''runId'' \<mapsto> S ''r'']), ?w2)" unfolding ex_st_client by (rule ex_get)
  from checkpoint_roundtrip [OF ex_st_dynamo ops g] sv show ?thesis by blast
qed

definition ex_resumable :: "session list" where
  "ex_resumable = projr (fst (ListResumableByUser ex_st ''user-1'' ex_put))"

theorem listings_sound_witness:
  "ex_resumable = [ex_session] \<and> se_UserID ex_session = ''user-1'' \<and> se_Status ex_session \<noteq> ''Terminated''"
proof -
  have other: "[attrSession \<mapsto> S ''sess-1'', attrOrg \<mapsto> S ''org-1''] attrUser = None" by (simp add: attr_defs)
  have l: "ListResumableByUser ex_st ''user-1'' ex_put = (Inr [ex_session], ex_put)"
    using other ex_it_id(2,3)
    by (simp add: ListResumableByUser_def ex_dd_def ex_put_db ex_matches_def resolve_def ex_fromItem)
      (simp add: attr_defs)
  have "se_UserID ex_session = ''user-1'' \<and> se_Status ex_session \<noteq> ''Terminated''"
    using listings_sound [OF ex_st_dynamo, of "''user-1''" ex_put "[ex_session]" ex_put] l by simp
  then show ?thesis unfolding ex_resumable_def l by simp
qed

definition ex_checker :: "ex_db session_checker" where "ex_checker = NewSessionChecker ex_st 0"

lemma ex_check: "fst (checkSession ex_checker ''sess-1'' ex_put) = exSessions ''sess-1''"
proof -
  have "[attrSession \<mapsto> S ''sess-1'', attrOrg \<mapsto> S ''org-1''] ''sessionIdOnly'' = None" by (simp add: attr_defs)
  then have "fst (checkSession ex_checker ''sess-1'' ex_put) = Inr (sessionInfo ex_checker ex_session)"
    by (simp add: checkSession_def ex_checker_def NewSessionChecker_def ex_dd_def ex_put_db ex_matches_def resolve_def ex_fromItem ex_it_id)
  then show ?thesis
    by (simp add: sessionInfo_def ex_checker_def NewSessionChecker_def ex_session_def exSessions_def IsZero_def)
qed


end
