(* ===== verification/Adapters.thy ===== *)
theory Adapters
  imports Harness StopHook SessionStore
begin

text \<open>
  \<^verbatim>\<open>internal/adapters\<close>: the harness's checkpointer and the stop hook's manifest store over DynamoDB, and its
  blob store over S3.  The S3 client and the JSON codec of a run state are parameters.
\<close>

section \<open>Checkpoints and manifests\<close>

definition HarnessCheckpointer_Save ::
  "'w store \<Rightarrow> (run_state \<Rightarrow> string result) \<Rightarrow> string \<Rightarrow> run_state \<Rightarrow> 'w \<Rightarrow> goerr option \<times> 'w" where
  "HarnessCheckpointer_Save st marshal runID state w =
     (case marshal state of
        Inl err \<Rightarrow> (Some err, w)
      | Inr raw \<Rightarrow> SaveCheckpoint st runID raw w)"

definition HarnessCheckpointer_Load ::
  "'w store \<Rightarrow> (string \<Rightarrow> run_state result) \<Rightarrow> string \<Rightarrow> 'w \<Rightarrow> run_state result \<times> 'w" where
  "HarnessCheckpointer_Load st unmarshal runID w =
     (case LoadCheckpoint st runID w of
        (Inl err, w1) \<Rightarrow> (Inl err, w1)
      | (Inr raw, w1) \<Rightarrow> (unmarshal raw, w1))"

definition HarnessCheckpointer_Delete :: "'w store \<Rightarrow> string \<Rightarrow> 'w \<Rightarrow> goerr option \<times> 'w" where
  "HarnessCheckpointer_Delete st runID w = DeleteCheckpoint st runID w"

definition HarnessCheckpointer ::
  "'w store \<Rightarrow> (run_state \<Rightarrow> string result) \<Rightarrow> (string \<Rightarrow> run_state result) \<Rightarrow> 'w checkpointer" where
  "HarnessCheckpointer st marshal unmarshal =
     \<lparr>ck_Save = HarnessCheckpointer_Save st marshal, ck_Load = HarnessCheckpointer_Load st unmarshal\<rparr>"

definition ManifestPersister :: "'w store \<Rightarrow> string \<Rightarrow> string \<Rightarrow> string \<Rightarrow> 'w \<Rightarrow> goerr option \<times> 'w" where
  "ManifestPersister st orgID sessionID manifest w = SaveManifest st orgID sessionID manifest w"

section \<open>Blobs\<close>

text \<open>
  A body is the sequence of its reads, each the bytes it gave and its error, if any; the reader of a
  finished body gives no more bytes and an end-of-file error.
\<close>

type_synonym body = "(string \<times> goerr option) list"

record 'w s3_client =
  s3_PutObject :: "string \<Rightarrow> string \<Rightarrow> string \<Rightarrow> 'w \<Rightarrow> goerr option \<times> 'w"
  s3_GetObject :: "string \<Rightarrow> string \<Rightarrow> 'w \<Rightarrow> body result \<times> 'w"

record 'w s3_blob_store =
  bs_Client :: "'w s3_client option"
  bs_Bucket :: string

definition Upload :: "'w s3_blob_store \<Rightarrow> string \<Rightarrow> string \<Rightarrow> 'w \<Rightarrow> string result \<times> 'w" where
  "Upload s key data w =
     (case bs_Client s of
        None \<Rightarrow> (Inl (ErrNew ''blob store not configured''), w)
      | Some client \<Rightarrow>
          if bs_Bucket s = [] then (Inl (ErrNew ''blob store not configured''), w)
          else
            (case s3_PutObject client (bs_Bucket s) key data w of
               (Some err, w1) \<Rightarrow> (Inl err, w1)
             | (None, w1) \<Rightarrow> (Inr (''s3://'' @ bs_Bucket s @ ''/'' @ key), w1)))"

text \<open>
  \<^verbatim>\<open>fmt.Sscanf(ref, "s3://%s", &key)\<close>: the literal text, then after optional white space (a newline is an
  error) the longest run without white space, which must not be empty.  The scanner reads runes: a byte
  that is not UTF-8 is stored as the replacement character.
\<close>

fun skipSpace :: "string list \<Rightarrow> string list option" where
  "skipSpace [] = Some []"
| "skipSpace (r # rs) =
     (if r = [CHR 0x0A] then None else if r \<in> set goSpaces then skipSpace rs else Some (r # rs))"

definition storeRune :: "string \<Rightarrow> string" where
  "storeRune r = (if length r = 1 \<and> 128 \<le> (of_char (hd r) :: nat) then [char_of (239 :: nat), char_of (191 :: nat), char_of (189 :: nat)] else r)"

definition scanString :: "string list \<Rightarrow> string option" where
  "scanString rs =
     (case skipSpace rs of
        None \<Rightarrow> None
      | Some ts \<Rightarrow> if ts = [] then None else Some (concat (map storeRune (takeWhile (\<lambda>r. r \<notin> set goSpaces) ts))))"

definition scanRef :: "string \<Rightarrow> string option" where
  "scanRef ref = (if HasPrefix ref ''s3://'' then scanString (runes (drop 5 ref)) else None)"

text \<open>The split at the first slash; without one, the bucket stays empty.\<close>

definition splitRef :: "string \<Rightarrow> string \<times> string" where
  "splitRef key =
     (let b = takeWhile (\<lambda>c. c \<noteq> CHR ''/'') key
      in if length b = length key then ([], key) else (b, drop (length b + 1) key))"

text \<open>The read loop ends at the first error, whichever it is.\<close>

fun readBody :: "body \<Rightarrow> string" where
  "readBody [] = []"
| "readBody ((bytes, err) # rest) = bytes @ (case err of Some _ \<Rightarrow> [] | None \<Rightarrow> readBody rest)"

text \<open>For a store with a client: on a store without one the code's method call panics.\<close>

definition Fetch :: "'w s3_client \<Rightarrow> string \<Rightarrow> 'w \<Rightarrow> string result \<times> 'w" where
  "Fetch client ref w =
     (case scanRef ref of
        None \<Rightarrow> (Inl (ErrNew ''bad ref''), w)
      | Some key \<Rightarrow>
          (case splitRef key of
             (bucket, key) \<Rightarrow>
               (case s3_GetObject client bucket key w of
                  (Inl err, w1) \<Rightarrow> (Inl err, w1)
                | (Inr bd, w1) \<Rightarrow> (Inr (readBody bd), w1))))"

section \<open>Checkpoints and manifests through the adapters\<close>

text \<open>
  The harness's checkpointer over DynamoDB: a run state that the codec reads back is what the next load of
  the run returns, whatever other store operations come in between.
\<close>

theorem harness_checkpoint_roundtrip:
  assumes "dynamo (st_client st) rows settled" and "\<And>raw. marshal state = Inr raw \<Longrightarrow> unmarshal raw = Inr state"
    and "ck_Save (HarnessCheckpointer st marshal unmarshal) runID state w = (None, w1)" and "(otherOp st runID)\<^sup>*\<^sup>* w1 w2"
    and "dd_GetItem (st_client st) tableCheckpoints [''runId'' \<mapsto> S runID] True w2 = (Inr out, w3)"
  shows "ck_Load (HarnessCheckpointer st marshal unmarshal) runID w2 = (Inr state, w3)"
proof (cases "marshal state")
  case (Inr raw)
  with assms(3) have "SaveCheckpoint st runID raw w = (None, w1)"
    by (simp add: HarnessCheckpointer_def HarnessCheckpointer_Save_def)
  from load_after_save [OF assms(1) this assms(4,5)] assms(2) [OF Inr] show ?thesis
    by (simp add: HarnessCheckpointer_def HarnessCheckpointer_Load_def)
qed (use assms(3) in \<open>simp add: HarnessCheckpointer_def HarnessCheckpointer_Save_def\<close>)

lemma runRepos_emits:
  "runRepos h inp rws m w = (Inr m', w') \<Longrightarrow> \<exists>m0 w0. emit h inp m0 w0 = (Inr m', w')"
proof (induction h inp rws m w rule: runRepos.induct)
  case (1 h inp m w)
  then show ?case by auto
next
  case (2 h inp rw rws m w)
  then show ?case by (auto split: prod.splits sum.splits if_splits)
qed

text \<open>
  The manifest a stop hook returns is on the session's record: it encodes within the item limit, and the
  record holds its encoding, which is what a session read returns.
\<close>

theorem hook_manifest_persisted:
  assumes "dynamo (st_client st) rows settled" and "hk_SaveManifest h = Some (ManifestPersister st)"
    and "RunHook h inp w = (Inr m, w')"
  shows "\<exists>raw it. hk_Marshal h m = Inr raw \<and> length raw \<le> maxManifest \<and>
    rows w' tableSessions (keyOf (in_OrgID inp) (in_SessionID inp)) = Some it \<and> se_Manifest (fromItem it) = raw"
proof -
  from runRepos_emits [OF assms(3) [unfolded RunHook_def]] obtain m0 w0 where e: "emit h inp m0 w0 = (Inr m, w')" by (elim exE)
  from emit_Inr [OF e] obtain raw where m: "m0 = m" "hk_Marshal h m = Inr raw" by auto
  with e assms(2) have "SaveManifest st (in_OrgID inp) (in_SessionID inp) raw w0 = (None, w')"
    by (auto simp: emit_def ManifestPersister_def split: prod.splits option.splits)
  note sm = SaveManifest_success [OF assms(1) this]
  have "se_Manifest (fromItem (setAttr key ''manifest'' (B raw) row)) = raw" for key row
    by (simp add: setAttr_def fromItem_def)
  with sm m show ?thesis by simp
qed

section \<open>Blobs by reference\<close>

lemma plainByte_small: "plainByte c \<Longrightarrow> (of_char c :: nat) < 128"
  by (simp add: plainByte_def)

lemma runes_plain: "list_all plainByte s \<Longrightarrow> runes s = map (\<lambda>c. [c]) s"
proof (induction s)
  case Nil
  show ?case by (simp add: runes.simps)
next
  case (Cons c cs)
  then have "runeWidth (c # cs) = 1" using plainByte_small [of c] by (simp add: runeWidth_def Let_def)
  with Cons show ?case by (subst runes.simps) simp
qed

lemma plain_not_space: "plainByte c \<Longrightarrow> [c] \<notin> set goSpaces"
  using goSpaces_ends by fastforce

lemma scanString_plain:
  assumes "s \<noteq> []" and "list_all plainByte s"
  shows "scanString (map (\<lambda>c. [c]) s) = Some s"
proof -
  have c: "plainByte (hd s)" using assms by (cases s) simp_all
  then have "[hd s] \<noteq> [CHR 0x0A]" by (auto simp: plainByte_def)
  with c have "skipSpace (map (\<lambda>c. [c]) s) = Some (map (\<lambda>c. [c]) s)"
    using assms(1) plain_not_space [OF c] by (cases s) simp_all
  moreover have "takeWhile (\<lambda>r. r \<notin> set goSpaces) (map (\<lambda>c. [c]) s) = map (\<lambda>c. [c]) s"
    using assms(2) by (auto simp: list_all_iff plain_not_space)
  moreover have "concat (map storeRune (map (\<lambda>c. [c]) s)) = s"
    using assms(2) by (induction s) (auto simp: storeRune_def dest: plainByte_small)
  ultimately show ?thesis using assms(1) by (simp only: scanString_def option.case map_is_Nil_conv if_False)
qed

lemma scanRef_plain: "s \<noteq> [] \<Longrightarrow> list_all plainByte s \<Longrightarrow> scanRef (''s3://'' @ s) = Some s"
  by (simp add: scanRef_def HasPrefix_def runes_plain scanString_plain)

lemma splitRef_slash: "CHR ''/'' \<notin> set b \<Longrightarrow> splitRef (b @ CHR ''/'' # k) = (b, k)"
proof -
  assume "CHR ''/'' \<notin> set b"
  then have "takeWhile (\<lambda>c. c \<noteq> CHR ''/'') (b @ CHR ''/'' # k) = b" by (induction b) auto
  then show ?thesis by (simp add: splitRef_def)
qed

text \<open>
  What the code relies on of S3, on the objects of a world: a put stores the object, and a body that is
  got gives a prefix of the object's bytes up to its first error, all of them if that is the end of file.
\<close>

definition EOF :: goerr where "EOF = ErrNew ''EOF''"

definition s3_objects :: "'w s3_client \<Rightarrow> ('w \<Rightarrow> string \<times> string \<rightharpoonup> string) \<Rightarrow> bool" where
  "s3_objects client objects \<longleftrightarrow>
     (\<forall>b k d w w'. s3_PutObject client b k d w = (None, w') \<longrightarrow> objects w' = (objects w)((b, k) \<mapsto> d)) \<and>
     (\<forall>b k w bd w'. s3_GetObject client b k w = (Inr bd, w') \<longrightarrow>
        (\<exists>d xs x e. objects w (b, k) = Some d \<and> bd = map (\<lambda>x. (x, None)) xs @ [(x, Some e)] \<and>
           prefix (concat xs @ x) d \<and> (e = EOF \<longrightarrow> concat xs @ x = d)))"

lemma readBody_reads: "readBody (map (\<lambda>x. (x, None)) xs @ [(x, Some e)]) = concat xs @ x"
  by (induction xs) simp_all

lemma diffKey_plain: "list_all plainByte (in_SessionID inp) \<Longrightarrow> list_all plainByte (diffKey inp rw)"
proof -
  have "plainByte (sanitizeRune r)" for r
    by (auto simp: sanitizeRune_def plainByte_def less_eq_char_def split: list.split)
  then have "list_all plainByte (sanitize (rw_Origin rw))" by (simp add: sanitize_def list_all_iff)
  moreover assume "list_all plainByte (in_SessionID inp)"
  ultimately show ?thesis by (simp add: diffKey_def plainByte_def)
qed

text \<open>
  The diff that the stop hook uploads is what a fetch by the reference returns, as long as the object is
  not replaced and its body is read to the end: for a bucket name and a session id of printable ASCII
  without white space, the bucket without a slash.
\<close>

theorem diff_blob_roundtrip:
  assumes "s3_objects client objects" and "bs_Client s = Some client"
    and "list_all plainByte (bs_Bucket s)" and "CHR ''/'' \<notin> set (bs_Bucket s)" and "list_all plainByte (in_SessionID inp)"
    and "Upload s (diffKey inp rw) (rw_Diff rw) w = (Inr ref, w1)"
    and "objects w2 (bs_Bucket s, diffKey inp rw) = objects w1 (bs_Bucket s, diffKey inp rw)"
    and "s3_GetObject client (bs_Bucket s) (diffKey inp rw) w2 = (Inr bd, w3)" and "snd (List.last bd) = Some EOF"
  shows "Fetch client ref w2 = (Inr (rw_Diff rw), w3)"
proof -
  let ?k = "diffKey inp rw"
  from assms(2,6) have put: "s3_PutObject client (bs_Bucket s) ?k (rw_Diff rw) w = (None, w1)"
    and ref: "ref = ''s3://'' @ bs_Bucket s @ CHR ''/'' # ?k"
    by (auto simp: Upload_def split: if_splits prod.splits option.splits)
  have "objects w1 (bs_Bucket s, ?k) = Some (rw_Diff rw)"
    using assms(1) put unfolding s3_objects_def by (metis fun_upd_same)
  with assms(7) have obj: "objects w2 (bs_Bucket s, ?k) = Some (rw_Diff rw)" by simp
  from assms(1,8) obtain d xs x e where d: "objects w2 (bs_Bucket s, ?k) = Some d"
    and bd: "bd = map (\<lambda>x. (x, None)) xs @ [(x, Some e)]" and full: "e = EOF \<longrightarrow> concat xs @ x = d"
    unfolding s3_objects_def by blast
  have "readBody bd = rw_Diff rw" using assms(9) obj d full by (simp add: bd readBody_reads)
  moreover have "plainByte (CHR ''/'')" by (simp add: plainByte_def)
  then have "scanRef ref = Some (bs_Bucket s @ CHR ''/'' # ?k)"
    unfolding ref using assms(3) diffKey_plain [OF assms(5)] by (intro scanRef_plain) simp_all
  ultimately show ?thesis using assms(8) by (simp add: Fetch_def splitRef_slash [OF assms(4)])
qed

text \<open>A body whose reading fails half way is returned as if it were complete.\<close>

theorem fetch_truncates_on_read_error:
  assumes "scanRef ref = Some (b @ CHR ''/'' # k)" and "CHR ''/'' \<notin> set b"
    and "s3_GetObject client b k w = (Inr (map (\<lambda>x. (x, None)) xs @ [(x, Some err)]), w')"
  shows "Fetch client ref w = (Inr (concat xs @ x), w')"
  using assms by (simp add: Fetch_def splitRef_slash readBody_reads)

section \<open>Concrete runs\<close>

text \<open>An S3 with its objects in a map, whose bodies come in one read.\<close>

definition ex_s3 :: "(string \<times> string \<rightharpoonup> string) s3_client" where
  "ex_s3 = \<lparr>s3_PutObject = \<lambda>b k d w. (None, w((b, k) \<mapsto> d)),
     s3_GetObject = \<lambda>b k w. (case w (b, k) of None \<Rightarrow> Inl (ErrNew ''NoSuchKey'') | Some d \<Rightarrow> Inr [(d, Some EOF)], w)\<rparr>"

lemma ex_s3_objects: "s3_objects ex_s3 (\<lambda>w. w)"
proof -
  have "\<exists>d' xs x e. Some d = Some d' \<and> [(d, Some EOF)] = map (\<lambda>x. (x, None)) xs @ [(x, Some e)] \<and>
      prefix (concat xs @ x) d' \<and> (e = EOF \<longrightarrow> concat xs @ x = d')" for d :: string
    by (rule exI [of _ d], rule exI [of _ "[]"], rule exI [of _ d], rule exI [of _ EOF]) simp
  then show ?thesis by (auto simp: s3_objects_def ex_s3_def split: option.splits)
qed

definition ex_blobs :: "(string \<times> string \<rightharpoonup> string) s3_blob_store" where
  "ex_blobs = \<lparr>bs_Client = Some ex_s3, bs_Bucket = ''recovery''\<rparr>"

definition ex_hook_input :: hook_input where
  "ex_hook_input = \<lparr>in_OrgID = ''org-1'', in_SessionID = ''sess-1'', in_AgentVersion = ''bot@v1'', in_TranscriptRef = [],
     in_EndedReason = ''idle'', in_Repos = []\<rparr>"

definition ex_repo :: repo_work where
  "ex_repo = \<lparr>rw_Origin = ''git@host:r'', rw_Branch = ''b'', rw_Diff = ''diff --git''\<rparr>"

definition ex_bucket :: "string \<times> string \<rightharpoonup> string" where
  "ex_bucket = [(''recovery'', diffKey ex_hook_input ex_repo) \<mapsto> ''diff --git'']"

theorem diff_blob_roundtrip_witness:
  "Upload ex_blobs (diffKey ex_hook_input ex_repo) ''diff --git'' Map.empty = (Inr (''s3://recovery/'' @ diffKey ex_hook_input ex_repo), ex_bucket) \<and>
   Fetch ex_s3 (''s3://recovery/'' @ diffKey ex_hook_input ex_repo) ex_bucket = (Inr ''diff --git'', ex_bucket)"
proof -
  let ?k = "diffKey ex_hook_input ex_repo"
  have d: "rw_Diff ex_repo = ''diff --git''" and b: "bs_Bucket ex_blobs = ''recovery''" and c: "bs_Client ex_blobs = Some ex_s3"
    by (simp_all add: ex_repo_def ex_blobs_def)
  have up: "Upload ex_blobs ?k ''diff --git'' Map.empty = (Inr (''s3://recovery/'' @ ?k), ex_bucket)"
    by (simp add: Upload_def b c ex_s3_def ex_bucket_def)
  have get: "s3_GetObject ex_s3 ''recovery'' ?k ex_bucket = (Inr [(''diff --git'', Some EOF)], ex_bucket)"
    by (simp add: ex_s3_def ex_bucket_def)
  have plain: "list_all plainByte ''recovery''" "list_all plainByte (in_SessionID ex_hook_input)"
    by (simp_all add: plainByte_def ex_hook_input_def)
  have "Fetch ex_s3 (''s3://recovery/'' @ ?k) ex_bucket = (Inr (rw_Diff ex_repo), ex_bucket)"
  proof (rule diff_blob_roundtrip [where inp = ex_hook_input, OF ex_s3_objects c])
    show "Upload ex_blobs ?k (rw_Diff ex_repo) Map.empty = (Inr (''s3://recovery/'' @ ?k), ex_bucket)" unfolding d by (rule up)
    show "s3_GetObject ex_s3 (bs_Bucket ex_blobs) ?k ex_bucket = (Inr [(''diff --git'', Some EOF)], ex_bucket)" unfolding b by (rule get)
    show "list_all plainByte (bs_Bucket ex_blobs)" unfolding b by (rule plain)
  qed (simp_all add: b plain(2))
  with up d show ?thesis by simp
qed

definition ex_hook :: "ex_db hook" where
  "ex_hook = \<lparr>hk_CommitAndPush = \<lambda>r b d w. (Inr (''sha'', []), w), hk_Upload = \<lambda>k d w. (Inl (ErrNew ''blob store not configured''), w),
     hk_SaveManifest = Some (ManifestPersister ex_st), hk_Marshal = \<lambda>m. Inr (mf_SessionID m), hk_expired = \<lambda>g w. False, hk_grace = 120 * Second\<rparr>"

theorem hook_manifest_persisted_witness:
  "\<exists>it. ex_rows (snd (RunHook ex_hook ex_hook_input ex_put)) tableSessions (keyOf ''org-1'' ''sess-1'') = Some it \<and>
     se_Manifest (fromItem it) = ''sess-1''"
proof -
  let ?m = "\<lparr>mf_SessionID = ''sess-1'', mf_AgentVersion = ''bot@v1'', mf_TranscriptRef = [], mf_GitState = [], mf_EndedReason = ''idle''\<rparr>"
  have "SaveManifest ex_st ''org-1'' ''sess-1'' ''sess-1'' ex_put = (None, snd (SaveManifest ex_st ''org-1'' ''sess-1'' ''sess-1'' ex_put))"
    by (simp add: SaveManifest_def maxManifest_def manifestUpdate_def ex_dd_def)
  then obtain w' where sv: "SaveManifest ex_st ''org-1'' ''sess-1'' ''sess-1'' ex_put = (None, w')" by (rule that)
  have run: "RunHook ex_hook ex_hook_input ex_put = (Inr ?m, w')"
    by (simp add: RunHook_def ex_hook_input_def emit_def ex_hook_def ManifestPersister_def sv)
  have h: "hk_SaveManifest ex_hook = Some (ManifestPersister ex_st)" "hk_Marshal ex_hook ?m = Inr ''sess-1''"
    by (simp_all add: ex_hook_def)
  have ids: "in_OrgID ex_hook_input = ''org-1''" "in_SessionID ex_hook_input = ''sess-1''" by (simp_all add: ex_hook_input_def)
  from hook_manifest_persisted [where rows = ex_rows, OF ex_st_dynamo h(1) run] show ?thesis
    unfolding run h(2) ids by simp
qed

end
