(* ===== verification/AgentSpec.thy ===== *)
theory AgentSpec
  imports Prelude Complex_Main
begin

text \<open>
  \<^verbatim>\<open>internal/agentspec\<close>: the declarative agent specification, its validation and its canonical form.  The YAML
  decoder and the JSON encoder are parameters.
\<close>

section \<open>Data\<close>

text \<open>A \<^verbatim>\<open>float64\<close>; the model's parameters are opaque.\<close>

datatype float64 = Finite rat | PosInf | NegInf | NaN

record model_spec =
  md_Provider :: string
  md_Name :: string
  md_Params :: string

record prompt =
  pt_Type :: string
  pt_Value :: string

record tool_ref =
  tr_Ref :: string
  tr_Scopes :: "string list"
  tr_RequiresApproval :: bool

record mcp_server =
  ms_Ref :: string
  ms_Version :: string
  ms_Auth :: string
  ms_AllowedTools :: "string list"

record image_spec =
  im_Type :: string
  im_Ref :: string
  im_Dockerfile :: string

record resources =
  re_CPU :: string
  re_Memory :: string
  re_Disk :: string

record repo =
  rp_URL :: string
  rp_Ref :: string
  rp_ClonePolicy :: string
  rp_Path :: string
  rp_Auth :: string

record environment =
  ev_Image :: image_spec
  ev_Setup :: "string list"
  ev_Resources :: resources
  ev_Repos :: "repo list"
  ev_Network :: string

record memory =
  me_Type :: string
  me_Retention :: string

record trigger =
  tg_Type :: string
  tg_Cron :: string

record agent_limits =
  lm_MaxStepsPerRun :: int
  lm_MaxTokensPerRun :: int
  lm_MonthlyBudgetUSD :: float64

record spec =
  sp_Model :: model_spec
  sp_Prompt :: prompt
  sp_Tools :: "tool_ref list"
  sp_MCPServers :: "mcp_server list"
  sp_Environment :: "environment option"
  sp_Memory :: "memory option"
  sp_Triggers :: "trigger list"
  sp_Limits :: agent_limits

record document =
  dc_APIVersion :: string
  dc_Kind :: string
  dc_Name :: string
  dc_Owner :: string
  dc_Spec :: spec

section \<open>Patterns\<close>

text \<open>The classes \<^verbatim>\<open>\s\<close> and \<^verbatim>\<open>[0-9]\<close>.\<close>

definition reSpace :: "char \<Rightarrow> bool" where
  "reSpace c \<longleftrightarrow> c \<in> {CHR 0x09, CHR 0x0A, CHR 0x0C, CHR 0x0D, CHR '' ''}"

definition reDigit :: "char \<Rightarrow> bool" where
  "reDigit c \<longleftrightarrow> CHR ''0'' \<le> c \<and> c \<le> CHR ''9''"

text \<open>\<^verbatim>\<open>^\S+(\s+\S+){n}$\<close>, matched greedily; the code's pattern has \<open>n = 4\<close>.\<close>

fun matchFields :: "nat \<Rightarrow> string \<Rightarrow> bool" where
  "matchFields 0 s \<longleftrightarrow> s \<noteq> [] \<and> list_all (\<lambda>c. \<not> reSpace c) s"
| "matchFields (Suc n) s \<longleftrightarrow>
     (let w = takeWhile (\<lambda>c. \<not> reSpace c) s; rest = dropWhile (\<lambda>c. \<not> reSpace c) s
      in w \<noteq> [] \<and> rest \<noteq> [] \<and> matchFields n (dropWhile reSpace rest))"

definition cronMatch :: "string \<Rightarrow> bool" where "cronMatch s = matchFields 4 s"

definition retentionMatch :: "string \<Rightarrow> bool" where
  "retentionMatch s \<longleftrightarrow> (let d = takeWhile reDigit s in d \<noteq> [] \<and> dropWhile reDigit s = ''d'')"

section \<open>Validation\<close>

text \<open>Messages: \<^verbatim>\<open>name[i]rest\<close>, and a quoted value at the end.\<close>

definition errf :: "string \<Rightarrow> goerr option" where "errf s = Some (ErrNew s)"

definition atIdx :: "string \<Rightarrow> nat \<Rightarrow> string \<Rightarrow> string" where
  "atIdx name i rest = name @ ''['' @ showNat i @ '']'' @ rest"

fun emptyScope :: "string list \<Rightarrow> bool" where
  "emptyScope [] = False"
| "emptyScope (sc # scs) = (if TrimSpace sc = [] then True else emptyScope scs)"

fun validateTools :: "nat \<Rightarrow> string set \<Rightarrow> tool_ref list \<Rightarrow> goerr option" where
  "validateTools i seen [] = None"
| "validateTools i seen (t # ts) =
     (if tr_Ref t = [] then errf (atIdx ''tools'' i ''.ref is required'')
      else if tr_Ref t \<in> seen then errf (''duplicate tool ref '' @ goQuote (tr_Ref t))
      else if emptyScope (tr_Scopes t) then errf (atIdx ''tools'' i ''.scopes contains an empty scope'')
      else validateTools (Suc i) (insert (tr_Ref t) seen) ts)"

fun validateMCPServers :: "nat \<Rightarrow> string set \<Rightarrow> mcp_server list \<Rightarrow> goerr option" where
  "validateMCPServers i seen [] = None"
| "validateMCPServers i seen (m # ms) =
     (if ms_Ref m = [] then errf (atIdx ''mcpServers'' i ''.ref is required'')
      else if ms_Ref m \<in> seen then errf (''duplicate mcpServer ref '' @ goQuote (ms_Ref m))
      else if ms_Version m = [] then errf (atIdx ''mcpServers'' i ''.version is required'')
      else if ms_Auth m \<noteq> [] \<and> ms_Auth m \<noteq> ''oauth-user''
      then errf (atIdx ''mcpServers'' i (''.auth must be oauth-user, got '' @ goQuote (ms_Auth m)))
      else validateMCPServers (Suc i) (insert (ms_Ref m) seen) ms)"

definition clonePolicy :: "repo \<Rightarrow> string" where
  "clonePolicy r = (if rp_ClonePolicy r = [] then ''env-build'' else rp_ClonePolicy r)"

fun validateRepos :: "nat \<Rightarrow> string set \<Rightarrow> repo list \<Rightarrow> goerr option" where
  "validateRepos i seen [] = None"
| "validateRepos i seen (r # rs) =
     (if \<not> HasPrefix (rp_URL r) ''https://'' then errf (atIdx ''environment.repos'' i (''.url must be https, got '' @ goQuote (rp_URL r)))
      else if rp_Ref r = [] then errf (atIdx ''environment.repos'' i ''.ref is required'')
      else if clonePolicy r \<noteq> ''env-build'' \<and> clonePolicy r \<noteq> ''session-start''
      then errf (atIdx ''environment.repos'' i (''.clonePolicy must be env-build or session-start, got '' @ goQuote (clonePolicy r)))
      else if \<not> HasPrefix (rp_Path r) ''/'' then errf (atIdx ''environment.repos'' i (''.path must be absolute, got '' @ goQuote (rp_Path r)))
      else if rp_Path r \<in> seen then errf (''duplicate '' @ atIdx ''environment.repos'' i (''.path '' @ goQuote (rp_Path r)))
      else validateRepos (Suc i) (insert (rp_Path r) seen) rs)"

definition validateEnvironment :: "environment \<Rightarrow> goerr option" where
  "validateEnvironment e =
     (let img = ev_Image e in
      if im_Type img = ''docker-ref'' then
        (if im_Ref img = [] then errf ''environment.image.ref is required when type=docker-ref'' else validateRepos 0 {} (ev_Repos e))
      else if im_Type img = ''dockerfile'' then
        (if TrimSpace (im_Dockerfile img) = [] then errf ''environment.image.dockerfile is required when type=dockerfile''
         else validateRepos 0 {} (ev_Repos e))
      else errf (''environment.image.type must be docker-ref or dockerfile, got '' @ goQuote (im_Type img)))"

definition validateMemory :: "memory \<Rightarrow> goerr option" where
  "validateMemory m =
     (if me_Type m \<noteq> ''conversation'' \<and> me_Type m \<noteq> ''vector-store''
      then errf (''memory.type must be conversation or vector-store, got '' @ goQuote (me_Type m))
      else if me_Retention m \<noteq> [] \<and> \<not> retentionMatch (me_Retention m)
      then errf (''memory.retention must look like '' @ goQuote ''30d'' @ '', got '' @ goQuote (me_Retention m))
      else None)"

fun triggersFrom :: "nat \<Rightarrow> trigger list \<Rightarrow> goerr option" where
  "triggersFrom i [] = None"
| "triggersFrom i (t # ts) =
     (if tg_Type t = ''chat'' \<or> tg_Type t = ''webhook'' then triggersFrom (Suc i) ts
      else if tg_Type t = ''schedule'' then
        (if \<not> cronMatch (TrimSpace (tg_Cron t))
         then errf (atIdx ''triggers'' i ('': schedule trigger requires a 5-field cron expression, got '' @ goQuote (tg_Cron t)))
         else triggersFrom (Suc i) ts)
      else errf (atIdx ''triggers'' i (''.type must be chat, schedule, or webhook, got '' @ goQuote (tg_Type t))))"

definition validateTriggers :: "trigger list \<Rightarrow> goerr option" where
  "validateTriggers ts = (if ts = [] then errf ''at least one trigger is required'' else triggersFrom 0 ts)"

text \<open>\<^verbatim>\<open>x <= 0\<close>: false for a NaN.\<close>

fun le0 :: "float64 \<Rightarrow> bool" where
  "le0 (Finite q) = (q \<le> 0)"
| "le0 PosInf = False"
| "le0 NegInf = True"
| "le0 NaN = False"

definition validateLimits :: "agent_limits \<Rightarrow> goerr option" where
  "validateLimits l =
     (if lm_MaxStepsPerRun l \<le> 0 then errf ''limits.maxStepsPerRun must be > 0''
      else if lm_MaxTokensPerRun l \<le> 0 then errf ''limits.maxTokensPerRun must be > 0''
      else if le0 (lm_MonthlyBudgetUSD l) then errf ''limits.monthlyBudgetUsd must be > 0''
      else None)"

definition validatePrompt :: "prompt \<Rightarrow> goerr option" where
  "validatePrompt p =
     (if pt_Type p = ''inline'' then
        (if TrimSpace (pt_Value p) = [] then errf ''prompt.value is required when type=inline'' else None)
      else if pt_Type p = ''template-ref'' then
        (if TrimSpace (pt_Value p) = [] then errf ''prompt.value must hold the template ref when type=template-ref'' else None)
      else errf (''prompt.type must be inline or template-ref, got '' @ goQuote (pt_Type p)))"

text \<open>The first error of a list of checks.\<close>

fun firstErr :: "goerr option list \<Rightarrow> goerr option" where
  "firstErr [] = None"
| "firstErr (c # cs) = (case c of Some e \<Rightarrow> Some e | None \<Rightarrow> firstErr cs)"

definition validateSpec :: "spec \<Rightarrow> goerr option" where
  "validateSpec s =
     (if md_Provider (sp_Model s) = [] then errf ''model.provider is required''
      else if md_Name (sp_Model s) = [] then errf ''model.name is required''
      else firstErr
        [validatePrompt (sp_Prompt s), validateTools 0 {} (sp_Tools s), validateMCPServers 0 {} (sp_MCPServers s),
         case sp_Environment s of None \<Rightarrow> None | Some e \<Rightarrow> validateEnvironment e,
         case sp_Memory s of None \<Rightarrow> None | Some m \<Rightarrow> validateMemory m,
         validateTriggers (sp_Triggers s), validateLimits (sp_Limits s)])"

definition validateDocument :: "document \<Rightarrow> goerr option" where
  "validateDocument d =
     (if dc_APIVersion d \<noteq> ''agents/v1'' then errf (''apiVersion must be agents/v1, got '' @ goQuote (dc_APIVersion d))
      else if dc_Kind d \<noteq> ''Agent'' then errf (''kind must be Agent, got '' @ goQuote (dc_Kind d))
      else if TrimSpace (dc_Name d) = [] then errf ''metadata.name is required''
      else if TrimSpace (dc_Owner d) = [] then errf ''metadata.owner is required''
      else validateSpec (dc_Spec d))"

definition Parse :: "(string \<Rightarrow> document result) \<Rightarrow> string \<Rightarrow> document result" where
  "Parse decode data =
     (case decode data of
        Inl err \<Rightarrow> Inl (ErrWrap (''decode spec: '' @ errText err) err)
      | Inr d \<Rightarrow> (case validateDocument d of Some err \<Rightarrow> Inl (ErrWrap (''validate spec: '' @ errText err) err) | None \<Rightarrow> Inr d))"

text \<open>\<^verbatim>\<open>bytes.TrimSpace\<close> of the encoder's output, which ends in a newline.\<close>

definition CanonicalJSON :: "(spec \<Rightarrow> string result) \<Rightarrow> document \<Rightarrow> string result" where
  "CanonicalJSON enc d = (case enc (dc_Spec d) of Inl err \<Rightarrow> Inl err | Inr buf \<Rightarrow> Inr (TrimSpace buf))"

section \<open>What the patterns match\<close>

text \<open>The language of \<^verbatim>\<open>^\S+(\s+\S+){n}$\<close>.\<close>

inductive fieldsRe :: "nat \<Rightarrow> string \<Rightarrow> bool" where
  re_field: "w \<noteq> [] \<Longrightarrow> list_all (\<lambda>c. \<not> reSpace c) w \<Longrightarrow> fieldsRe 0 w"
| re_more: "w \<noteq> [] \<Longrightarrow> list_all (\<lambda>c. \<not> reSpace c) w \<Longrightarrow> gap \<noteq> [] \<Longrightarrow> list_all reSpace gap \<Longrightarrow> fieldsRe n s \<Longrightarrow>
    fieldsRe (Suc n) (w @ gap @ s)"

lemma fieldsRe_head: "fieldsRe n s \<Longrightarrow> s \<noteq> [] \<and> \<not> reSpace (hd s)"
  by (induction rule: fieldsRe.induct) (auto simp: neq_Nil_conv)

lemma matchFields_complete: "fieldsRe n s \<Longrightarrow> matchFields n s"
proof (induction rule: fieldsRe.induct)
  case (re_more w gap n s)
  have w: "takeWhile (\<lambda>c. \<not> reSpace c) (w @ gap @ s) = w" "dropWhile (\<lambda>c. \<not> reSpace c) (w @ gap @ s) = gap @ s"
    using re_more(1-4) by (auto simp: list_all_iff takeWhile_append dropWhile_append neq_Nil_conv)
  have "dropWhile reSpace (gap @ s) = s"
    using re_more(4) fieldsRe_head [OF re_more(5)] by (auto simp: list_all_iff dropWhile_append neq_Nil_conv)
  with w re_more(1,3) re_more.IH show ?case by simp
qed simp

lemma matchFields_sound: "matchFields n s \<Longrightarrow> fieldsRe n s"
proof (induction n arbitrary: s)
  case 0
  then show ?case by (simp add: re_field)
next
  case (Suc n)
  let ?w = "takeWhile (\<lambda>c. \<not> reSpace c) s" and ?rest = "dropWhile (\<lambda>c. \<not> reSpace c) s"
  let ?gap = "takeWhile reSpace ?rest"
  from Suc.prems have w: "?w \<noteq> []" and r: "?rest \<noteq> []" and m: "matchFields n (dropWhile reSpace ?rest)"
    by (simp_all add: Let_def)
  have gap: "?gap \<noteq> []" using r hd_dropWhile [OF r] by (cases ?rest) auto
  have "fieldsRe (Suc n) (?w @ ?gap @ dropWhile reSpace ?rest)"
    by (rule re_more [OF w _ gap _ Suc.IH [OF m]]) (auto simp: list_all_iff dest: set_takeWhileD)
  then show ?case by simp
qed

lemma matchFields_iff: "matchFields n s \<longleftrightarrow> fieldsRe n s"
  using matchFields_sound matchFields_complete by blast

lemma reDigit_d: "\<not> reDigit (CHR ''d'')"
  by (simp add: reDigit_def less_eq_char_def)

lemma retentionMatch_iff: "retentionMatch s \<longleftrightarrow> (\<exists>d. d \<noteq> [] \<and> list_all reDigit d \<and> s = d @ ''d'')"
proof
  assume "retentionMatch s"
  then have d: "takeWhile reDigit s \<noteq> []" "dropWhile reDigit s = ''d''" by (simp_all add: retentionMatch_def Let_def)
  have "s = takeWhile reDigit s @ ''d''" using d(2) by (metis takeWhile_dropWhile_id)
  with d(1) show "\<exists>d. d \<noteq> [] \<and> list_all reDigit d \<and> s = d @ ''d''"
    by (intro exI [of _ "takeWhile reDigit s"]) (auto simp: list_all_iff dest: set_takeWhileD)
next
  assume "\<exists>d. d \<noteq> [] \<and> list_all reDigit d \<and> s = d @ ''d''"
  then show "retentionMatch s"
    by (auto simp: retentionMatch_def Let_def list_all_iff takeWhile_append dropWhile_append reDigit_d)
qed

section \<open>Well-formed specifications\<close>

text \<open>The rules of the specification documents, as a predicate.\<close>

definition blank :: "string \<Rightarrow> bool" where "blank s \<longleftrightarrow> TrimSpace s = []"

definition wfTools :: "tool_ref list \<Rightarrow> bool" where
  "wfTools ts \<longleftrightarrow> distinct (map tr_Ref ts) \<and> (\<forall>t \<in> set ts. tr_Ref t \<noteq> [] \<and> (\<forall>sc \<in> set (tr_Scopes t). \<not> blank sc))"

definition wfServers :: "mcp_server list \<Rightarrow> bool" where
  "wfServers ms \<longleftrightarrow> distinct (map ms_Ref ms) \<and>
     (\<forall>m \<in> set ms. ms_Ref m \<noteq> [] \<and> ms_Version m \<noteq> [] \<and> ms_Auth m \<in> {[], ''oauth-user''})"

definition wfRepos :: "repo list \<Rightarrow> bool" where
  "wfRepos rs \<longleftrightarrow> distinct (map rp_Path rs) \<and>
     (\<forall>r \<in> set rs. prefix ''https://'' (rp_URL r) \<and> rp_Ref r \<noteq> [] \<and> rp_ClonePolicy r \<in> {[], ''env-build'', ''session-start''} \<and>
        prefix ''/'' (rp_Path r))"

definition wfEnvironment :: "environment \<Rightarrow> bool" where
  "wfEnvironment e \<longleftrightarrow>
     (im_Type (ev_Image e) = ''docker-ref'' \<and> im_Ref (ev_Image e) \<noteq> [] \<or>
      im_Type (ev_Image e) = ''dockerfile'' \<and> \<not> blank (im_Dockerfile (ev_Image e))) \<and> wfRepos (ev_Repos e)"

definition wfMemory :: "memory \<Rightarrow> bool" where
  "wfMemory m \<longleftrightarrow> me_Type m \<in> {''conversation'', ''vector-store''} \<and>
     (me_Retention m = [] \<or> (\<exists>d. d \<noteq> [] \<and> list_all reDigit d \<and> me_Retention m = d @ ''d''))"

definition wfTriggers :: "trigger list \<Rightarrow> bool" where
  "wfTriggers ts \<longleftrightarrow> ts \<noteq> [] \<and>
     (\<forall>t \<in> set ts. tg_Type t \<in> {''chat'', ''webhook'', ''schedule''} \<and> (tg_Type t = ''schedule'' \<longrightarrow> fieldsRe 4 (TrimSpace (tg_Cron t))))"

definition wfLimits :: "agent_limits \<Rightarrow> bool" where
  "wfLimits l \<longleftrightarrow> 0 < lm_MaxStepsPerRun l \<and> 0 < lm_MaxTokensPerRun l \<and> \<not> le0 (lm_MonthlyBudgetUSD l)"

definition wfDocument :: "document \<Rightarrow> bool" where
  "wfDocument d \<longleftrightarrow>
     dc_APIVersion d = ''agents/v1'' \<and> dc_Kind d = ''Agent'' \<and> \<not> blank (dc_Name d) \<and> \<not> blank (dc_Owner d) \<and>
     (let s = dc_Spec d in
      md_Provider (sp_Model s) \<noteq> [] \<and> md_Name (sp_Model s) \<noteq> [] \<and>
      pt_Type (sp_Prompt s) \<in> {''inline'', ''template-ref''} \<and> \<not> blank (pt_Value (sp_Prompt s)) \<and>
      wfTools (sp_Tools s) \<and> wfServers (sp_MCPServers s) \<and> pred_option wfEnvironment (sp_Environment s) \<and>
      pred_option wfMemory (sp_Memory s) \<and> wfTriggers (sp_Triggers s) \<and> wfLimits (sp_Limits s))"

lemma errf_None [simp]: "errf s \<noteq> None" "None \<noteq> errf s"
  by (simp_all add: errf_def)

lemma emptyScope_iff: "emptyScope scs \<longleftrightarrow> (\<exists>sc \<in> set scs. blank sc)"
  by (induction scs) (auto simp: blank_def)

lemma validateTools_None:
  "validateTools i seen ts = None \<longleftrightarrow> wfTools ts \<and> tr_Ref ` set ts \<inter> seen = {}"
  by (induction i seen ts rule: validateTools.induct) (auto simp: wfTools_def emptyScope_iff)

lemma validateMCPServers_None:
  "validateMCPServers i seen ms = None \<longleftrightarrow> wfServers ms \<and> ms_Ref ` set ms \<inter> seen = {}"
proof (induction i seen ms rule: validateMCPServers.induct)
  case (2 i seen m ms)
  have "wfServers (m # ms) \<longleftrightarrow> ms_Ref m \<notin> ms_Ref ` set ms \<and> ms_Ref m \<noteq> [] \<and> ms_Version m \<noteq> [] \<and> ms_Auth m \<in> {[], ''oauth-user''} \<and> wfServers ms"
    by (auto simp: wfServers_def simp del: insert_iff)
  with 2 show ?case by auto
qed (simp add: wfServers_def)

lemma validateRepos_None:
  "validateRepos i seen rs = None \<longleftrightarrow> wfRepos rs \<and> rp_Path ` set rs \<inter> seen = {}"
proof (induction i seen rs rule: validateRepos.induct)
  case (2 i seen r rs)
  have cp: "clonePolicy r \<noteq> ''env-build'' \<and> clonePolicy r \<noteq> ''session-start'' \<longleftrightarrow> rp_ClonePolicy r \<notin> {[], ''env-build'', ''session-start''}"
    by (simp add: clonePolicy_def)
  have "wfRepos (r # rs) \<longleftrightarrow> rp_Path r \<notin> rp_Path ` set rs \<and> prefix ''https://'' (rp_URL r) \<and> rp_Ref r \<noteq> [] \<and>
      rp_ClonePolicy r \<in> {[], ''env-build'', ''session-start''} \<and> prefix ''/'' (rp_Path r) \<and> wfRepos rs"
    unfolding wfRepos_def by (simp only: list.map list.set distinct.simps set_map ball_simps) blast
  with 2 show ?case unfolding validateRepos.simps cp HasPrefix_def by (simp del: insert_iff) blast
qed (simp add: wfRepos_def)

lemma validateEnvironment_None: "validateEnvironment e = None \<longleftrightarrow> wfEnvironment e"
  by (simp add: validateEnvironment_def wfEnvironment_def validateRepos_None blank_def Let_def)

lemma validateMemory_None: "validateMemory m = None \<longleftrightarrow> wfMemory m"
  by (simp add: validateMemory_def wfMemory_def retentionMatch_iff [symmetric])

lemma triggersFrom_None:
  "triggersFrom i ts = None \<longleftrightarrow>
     (\<forall>t \<in> set ts. tg_Type t \<in> {''chat'', ''webhook'', ''schedule''} \<and> (tg_Type t = ''schedule'' \<longrightarrow> fieldsRe 4 (TrimSpace (tg_Cron t))))"
proof (induction i ts rule: triggersFrom.induct)
  case (2 i t ts)
  then show ?case by (simp add: cronMatch_def matchFields_iff)
qed simp

lemma validateTriggers_None: "validateTriggers ts = None \<longleftrightarrow> wfTriggers ts"
  by (simp add: validateTriggers_def wfTriggers_def triggersFrom_None)

lemma validateLimits_None: "validateLimits l = None \<longleftrightarrow> wfLimits l"
  by (simp add: validateLimits_def wfLimits_def not_le)

lemma validatePrompt_None: "validatePrompt p = None \<longleftrightarrow> pt_Type p \<in> {''inline'', ''template-ref''} \<and> \<not> blank (pt_Value p)"
  by (simp add: validatePrompt_def blank_def)

lemma firstErr_None: "firstErr cs = None \<longleftrightarrow> (\<forall>c \<in> set cs. c = None)"
  by (induction cs) (auto split: option.splits)

lemmas validators_None = validatePrompt_None validateTools_None validateMCPServers_None validateEnvironment_None
  validateMemory_None validateTriggers_None validateLimits_None

lemma option_check_None: "(case x of None \<Rightarrow> None | Some y \<Rightarrow> f y) = None \<longleftrightarrow> pred_option (\<lambda>y. f y = None) x"
  by (cases x) simp_all

lemma validateDocument_None: "validateDocument d = None \<longleftrightarrow> wfDocument d"
  by (simp add: validateDocument_def validateSpec_def wfDocument_def firstErr_None validators_None option_check_None blank_def Let_def del: firstErr.simps)


text \<open>A parsed document is what the decoder read, and is well-formed; every other input gives an error.\<close>

lemma Parse_Inr: "Parse decode data = Inr d \<longleftrightarrow> decode data = Inr d \<and> wfDocument d"
proof -
  have "Parse decode data = Inr d \<longleftrightarrow> decode data = Inr d \<and> validateDocument d = None"
    by (auto simp: Parse_def split: sum.splits option.splits)
  then show ?thesis by (simp add: validateDocument_None)
qed

end
