(* ===== verification/AuditLog.thy ===== *)
theory AuditLog
  imports Prelude
begin

text \<open>
  \<^verbatim>\<open>internal/audit\<close> and \<^verbatim>\<open>internal/auditlog\<close> over the \<^verbatim>\<open>audit_events\<close> table: the insert trigger of
  migration 006 that chains entries, filtered reads, and the verification walk.  SHA-256 with hex
  rendering is a parameter \<open>H\<close>.
\<close>

section \<open>Data\<close>

record audit_event =
  ae_ID :: int
  ae_Actor :: string
  ae_Action :: string
  ae_Resource :: string
  ae_Decision :: string
  ae_Reason :: string
  ae_Occurred :: time
  ae_PrevHash :: string
  ae_Hash :: string

text \<open>The table in ascending id order, and the value its identity column takes next.\<close>

record audit_log =
  al_rows :: "audit_event list"
  al_next :: int

record audit_filter =
  af_Resource :: string
  af_Actor :: string
  af_Action :: string
  af_Decision :: string
  af_Limit :: int

definition ErrChainBroken :: goerr where
  "ErrChainBroken = ErrNew ''audit chain verification failed''"

section \<open>The hash chain\<close>

definition chainPayload :: "string \<Rightarrow> audit_event \<Rightarrow> string" where
  "chainPayload prev e =
     prev @ ''|'' @ showInt (ae_ID e) @ ''|'' @ ae_Actor e @ ''|'' @ ae_Action e @ ''|''
     @ ae_Resource e @ ''|'' @ ae_Decision e @ ''|'' @ ae_Reason e"

definition expectedHash :: "(string \<Rightarrow> string) \<Rightarrow> string \<Rightarrow> audit_event \<Rightarrow> string" where
  "expectedHash H prev e = H (chainPayload prev e)"

definition auditChainFn :: "(string \<Rightarrow> string) \<Rightarrow> audit_log \<Rightarrow> audit_event \<Rightarrow> audit_event" where
  "auditChainFn H al e =
     (let ph = (if al_rows al = [] then [] else ae_Hash (last (al_rows al)))
      in e\<lparr>ae_PrevHash := ph, ae_Hash := expectedHash H ph e\<rparr>)"

definition auditWrite ::
  "(string \<Rightarrow> string) \<Rightarrow> time \<Rightarrow> goerr option \<Rightarrow> string \<Rightarrow> string \<Rightarrow> string \<Rightarrow> string \<Rightarrow> string
   \<Rightarrow> audit_log \<Rightarrow> goerr option \<times> audit_log" where
  "auditWrite H now fault actor action resource dec reason al =
     (case fault of
        Some e \<Rightarrow> (Some e, al)
      | None \<Rightarrow>
          (let e = \<lparr>ae_ID = al_next al, ae_Actor = actor, ae_Action = action, ae_Resource = resource,
                    ae_Decision = dec, ae_Reason = reason, ae_Occurred = now,
                    ae_PrevHash = [], ae_Hash = []\<rparr>
           in (None, al\<lparr>al_rows := al_rows al @ [auditChainFn H al e], al_next := al_next al + 1\<rparr>)))"

section \<open>Reading and verifying\<close>

definition auditMatches :: "audit_filter \<Rightarrow> audit_event \<Rightarrow> bool" where
  "auditMatches f e \<longleftrightarrow>
     (af_Resource f = [] \<or> ae_Resource e = af_Resource f) \<and>
     (af_Actor f = [] \<or> ae_Actor e = af_Actor f) \<and>
     (af_Action f = [] \<or> ae_Action e = af_Action f) \<and>
     (af_Decision f = [] \<or> ae_Decision e = af_Decision f)"

definition auditLimit :: "int \<Rightarrow> int" where
  "auditLimit limit = (if limit \<le> 0 \<or> limit > 1000 then 200 else limit)"

definition auditQuery :: "rows_io \<Rightarrow> audit_filter \<Rightarrow> audit_log \<Rightarrow> audit_event list result" where
  "auditQuery io f al =
     queryRows io (take (nat (auditLimit (af_Limit f))) (rev (filter (auditMatches f) (al_rows al))))"

fun verifyFrom ::
  "(string \<Rightarrow> string) \<Rightarrow> rows_io \<Rightarrow> string \<Rightarrow> nat \<Rightarrow> audit_event list \<Rightarrow> nat \<times> goerr option" where
  "verifyFrom H io prev n [] = (n, io_end io)"
| "verifyFrom H io prev n (e # es) =
     (case io_scan io n of
        Some err \<Rightarrow> (n, Some err)
      | None \<Rightarrow>
          if ae_PrevHash e \<noteq> prev \<or> ae_Hash e \<noteq> expectedHash H prev e
          then (n, Some (ErrWrap (errText ErrChainBroken @ '' at entry '' @ showInt (ae_ID e)) ErrChainBroken))
          else verifyFrom H io (ae_Hash e) (Suc n) es)"

definition VerifyChain :: "(string \<Rightarrow> string) \<Rightarrow> rows_io \<Rightarrow> audit_log \<Rightarrow> nat \<times> goerr option" where
  "VerifyChain H io al =
     (case io_query io of Some e \<Rightarrow> (0, Some e) | None \<Rightarrow> verifyFrom H io [] 0 (al_rows al))"

text \<open>\<^verbatim>\<open>Tamper\<close> rewrites one decision behind the append-only trigger, in one transaction.\<close>

definition Tamper :: "goerr option \<Rightarrow> int \<Rightarrow> string \<Rightarrow> audit_log \<Rightarrow> goerr option \<times> audit_log" where
  "Tamper fault i newDecision al =
     (case fault of
        Some e \<Rightarrow> (Some e, al)
      | None \<Rightarrow>
          (None, al\<lparr>al_rows := map (\<lambda>e. if ae_ID e = i then e\<lparr>ae_Decision := newDecision\<rparr> else e) (al_rows al)\<rparr>))"

section \<open>The chain invariant\<close>

fun chained :: "(string \<Rightarrow> string) \<Rightarrow> string \<Rightarrow> audit_event list \<Rightarrow> bool" where
  "chained H prev [] = True"
| "chained H prev (e # es) =
     (ae_PrevHash e = prev \<and> ae_Hash e = expectedHash H prev e \<and> chained H (ae_Hash e) es)"

definition auditInv :: "(string \<Rightarrow> string) \<Rightarrow> audit_log \<Rightarrow> bool" where
  "auditInv H al \<longleftrightarrow>
     chained H [] (al_rows al) \<and> sorted_wrt (<) (map ae_ID (al_rows al)) \<and>
     (\<forall>e \<in> set (al_rows al). ae_ID e < al_next al)"

lemma chained_append:
  "chained H prev (xs @ ys) \<longleftrightarrow>
     chained H prev xs \<and> chained H (if xs = [] then prev else ae_Hash (last xs)) ys"
  by (induction xs arbitrary: prev) auto

lemma expectedHash_meta [simp]:
  "expectedHash H prev (e\<lparr>ae_PrevHash := p, ae_Hash := h\<rparr>) = expectedHash H prev e"
  by (simp add: expectedHash_def chainPayload_def)

text \<open>A write either fails and changes nothing, or appends one entry chained to the last.\<close>

lemma auditWrite_cases:
  assumes "auditWrite H now fault a b c d r al = (e, al')"
  obtains (failed) "fault \<noteq> None" "e = fault" "al' = al"
  | (appended) x where "fault = None" "e = None" "al_rows al' = al_rows al @ [x]" "al_next al' = al_next al + 1"
      "ae_ID x = al_next al" "ae_Actor x = a" "ae_Action x = b" "ae_Resource x = c" "ae_Decision x = d"
      "ae_Reason x = r" "ae_PrevHash x = (if al_rows al = [] then [] else ae_Hash (last (al_rows al)))"
      "ae_Hash x = expectedHash H (ae_PrevHash x) x"
  using assms
  by (cases fault) (auto simp: auditWrite_def auditChainFn_def Let_def expectedHash_def chainPayload_def)

lemma auditWrite_inv:
  assumes "auditInv H al" and "auditWrite H now fault a b c d r al = (e, al')"
  shows "auditInv H al'"
  using assms(2)
proof (cases rule: auditWrite_cases)
  case failed
  with assms(1) show ?thesis by simp
next
  case (appended x)
  with assms(1) show ?thesis
    by (auto simp: auditInv_def chained_append sorted_wrt_append)
qed

text \<open>The log as a state machine: it starts empty and grows by \<^verbatim>\<open>audit.Write\<close>.\<close>

definition auditInit :: "audit_log \<Rightarrow> bool" where
  "auditInit al \<longleftrightarrow> al_rows al = []"

inductive auditStep :: "(string \<Rightarrow> string) \<Rightarrow> audit_log \<Rightarrow> string list \<Rightarrow> audit_log \<Rightarrow> bool" for H where
  audit_append: "auditWrite H now fault a b c d r al = (e, al') \<Longrightarrow> auditStep H al [a, b, c, d, r] al'"
| audit_rollback: "auditStep H al [] (al\<lparr>al_next := al_next al + 1\<rparr>)"

interpretation al: transition_system auditInit "auditStep H" "auditInv H" for H
proof (unfold_locales, goal_cases)
  case (1 s)
  then show ?case by (simp add: auditInit_def auditInv_def)
next
  case (2 s e t)
  from 2(2) show ?case
  proof cases
    case audit_append
    with 2(1) show ?thesis by (blast intro: auditWrite_inv)
  next
    case audit_rollback
    with 2(1) show ?thesis by (auto simp: auditInv_def)
  qed
qed

lemma verifyFrom_chained:
  "chained H prev es \<Longrightarrow> verifyFrom H noFault prev n es = (n + length es, None)"
  by (induction es arbitrary: prev n) (auto simp: noFault_def)

lemma verifyFrom_append:
  "chained H prev xs \<Longrightarrow>
   verifyFrom H noFault prev n (xs @ ys) =
     verifyFrom H noFault (if xs = [] then prev else ae_Hash (last xs)) (n + length xs) ys"
  by (induction xs arbitrary: prev n) (auto simp: noFault_def)

lemma verifyFrom_ok: "verifyFrom H io prev n es = (m, None) \<Longrightarrow> chained H prev es"
  by (induction es arbitrary: prev n) (auto split: option.splits if_splits)

lemma verifyFrom_cong:
  assumes "ae_ID d = ae_ID e" "ae_PrevHash d = ae_PrevHash e" "ae_Hash d = ae_Hash e"
    and "\<And>prev. expectedHash H prev d = expectedHash H prev e"
  shows "verifyFrom H io prev n (xs @ d # ys) = verifyFrom H io prev n (xs @ e # ys)"
  by (induction xs arbitrary: prev n) (simp_all add: assms cong: option.case_cong)

lemma VerifyChain_noFault: "VerifyChain H noFault al = verifyFrom H noFault [] 0 (al_rows al)"
  by (simp add: VerifyChain_def noFault_def)

lemma VerifyChain_chained:
  "chained H [] (al_rows al) \<Longrightarrow> VerifyChain H noFault al = (length (al_rows al), None)"
  by (simp add: VerifyChain_noFault verifyFrom_chained)

lemma VerifyChain_ok: "VerifyChain H io al = (m, None) \<Longrightarrow> chained H [] (al_rows al)"
  by (auto simp: VerifyChain_def dest: verifyFrom_ok split: option.splits)

section \<open>Properties\<close>


definition exHash :: "string \<Rightarrow> string" where "exHash s = ''#'' @ s"

definition exLog :: audit_log where
  "exLog = snd (auditWrite exHash 0 None ''u1'' ''grant.create'' ''repo'' ''allow'' ''ok'' \<lparr>al_rows = [], al_next = 1\<rparr>)"

lemma ex_log_reach: "reach auditInit (auditStep exHash) exLog"
proof (rule reach_step)
  show "reach auditInit (auditStep exHash) \<lparr>al_rows = [], al_next = 1\<rparr>"
    by (rule reach_init) (simp add: auditInit_def)
  show "auditStep exHash \<lparr>al_rows = [], al_next = 1\<rparr> [''u1'', ''grant.create'', ''repo'', ''allow'', ''ok''] exLog"
    unfolding exLog_def by (rule auditStep.audit_append) (rule prod.collapse [symmetric])
qed

lemma ex_log_rows:
  "\<exists>e. al_rows exLog = [e] \<and> ae_ID e = 1 \<and> ae_Resource e = ''repo'' \<and> ae_Decision e = ''allow''"
  by (simp add: exLog_def auditWrite_def auditChainFn_def Let_def)


text \<open>
  Rewriting the decision of an entry of a log that verified makes the walk stop at that entry
  with \<^verbatim>\<open>ErrChainBroken\<close>, provided the hash distinguishes the old payload of the entry from the new.
\<close>

theorem tamper_detected:
  assumes "reach auditInit (auditStep H) al"
    and "al_rows al = xs @ e # ys" and "ae_Decision e \<noteq> d"
    and "\<And>p q. p \<noteq> q \<Longrightarrow> p = chainPayload (ae_PrevHash e) e \<Longrightarrow> H p \<noteq> H q"
    and "Tamper None (ae_ID e) d al = (None, al')"
  shows "\<exists>err. VerifyChain H noFault al' = (length xs, Some err) \<and> errorsIs err ErrChainBroken"
proof -
  from al.reach_inv [OF assms(1)] have inv: "chained H [] (xs @ e # ys)"
    and srt: "sorted_wrt (<) (map ae_ID (xs @ e # ys))"
    by (simp_all add: auditInv_def assms(2))
  let ?e = "e\<lparr>ae_Decision := d\<rparr>"
  have "map (\<lambda>x. if ae_ID x = ae_ID e then x\<lparr>ae_Decision := d\<rparr> else x) xs = xs"
    using srt by (intro map_idI) (auto simp: sorted_wrt_append)
  then obtain zs where rows: "al_rows al' = xs @ ?e # zs"
    using assms(2,5) by (auto simp: Tamper_def)
  define prev where "prev = (if xs = [] then [] else ae_Hash (last xs))"
  from inv have e: "chained H [] xs" "ae_PrevHash e = prev" "ae_Hash e = expectedHash H prev e"
    by (auto simp: chained_append prev_def)
  have "chainPayload prev e \<noteq> chainPayload prev ?e"
    using assms(3) by (simp add: chainPayload_def)
  then have "expectedHash H prev ?e \<noteq> ae_Hash e"
    using assms(4) e unfolding expectedHash_def by metis
  then have "verifyFrom H noFault prev (length xs) (?e # zs)
      = (length xs, Some (ErrWrap (errText ErrChainBroken @ '' at entry '' @ showInt (ae_ID e)) ErrChainBroken))"
    by (auto simp: noFault_def)
  then show ?thesis
    using verifyFrom_append [OF e(1), of 0 "?e # zs"]
    by (simp add: VerifyChain_def noFault_def rows prev_def)
qed

theorem tamper_detected_witness:
  "\<exists>err al'. Tamper None 1 ''deny'' exLog = (None, al') \<and> VerifyChain exHash noFault al' = (0, Some err) \<and>
     errorsIs err ErrChainBroken"
proof -
  from ex_log_rows obtain e where e: "al_rows exLog = [e]" "ae_ID e = 1" "ae_Decision e = ''allow''"
    by blast
  obtain al' where al': "Tamper None (ae_ID e) ''deny'' exLog = (None, al')"
    by (simp add: Tamper_def)
  have "\<exists>err. VerifyChain exHash noFault al' = (length ([] :: audit_event list), Some err)
    \<and> errorsIs err ErrChainBroken"
    by (rule tamper_detected [OF ex_log_reach _ _ _ al', where ys = "[]"]) (simp_all add: e exHash_def)
  with al' e(2) show ?thesis by auto
qed

text \<open>
  Removing entries from the end of the log is not detected: every prefix of a log that
  verifies also verifies.
\<close>

theorem truncation_undetected:
  assumes "VerifyChain H noFault al = (n, None)"
  shows "VerifyChain H noFault (al\<lparr>al_rows := take k (al_rows al)\<rparr>) = (min k (length (al_rows al)), None)"
proof -
  from VerifyChain_ok [OF assms] have "chained H [] (take k (al_rows al) @ drop k (al_rows al))"
    by simp
  then have "chained H [] (take k (al_rows al))" by (simp only: chained_append)
  then show ?thesis
    by (simp add: VerifyChain_chained min.commute)
qed

theorem truncation_undetected_witness:
  "VerifyChain exHash noFault exLog = (1, None) \<and>
   VerifyChain exHash noFault (exLog\<lparr>al_rows := []\<rparr>) = (0, None)"
proof -
  have 1: "VerifyChain exHash noFault exLog = (1, None)"
    using al.reach_inv [OF ex_log_reach] ex_log_rows by (auto simp: auditInv_def VerifyChain_chained)
  with truncation_undetected [OF 1, of 0] show ?thesis by simp
qed

text \<open>
  The chain commits to the joined text of an entry and not to its fields: moving a separator
  from one field to the next leaves the verdict of the walk unchanged.
\<close>

theorem field_boundary_not_committed:
  "VerifyChain H io (al\<lparr>al_rows := xs @ e\<lparr>ae_Resource := a @ ''|'' @ b, ae_Decision := c\<rparr> # ys\<rparr>)
   = VerifyChain H io (al\<lparr>al_rows := xs @ e\<lparr>ae_Resource := a, ae_Decision := b @ ''|'' @ c\<rparr> # ys\<rparr>)"
proof -
  have "verifyFrom H io [] 0 (xs @ e\<lparr>ae_Resource := a @ ''|'' @ b, ae_Decision := c\<rparr> # ys)
    = verifyFrom H io [] 0 (xs @ e\<lparr>ae_Resource := a, ae_Decision := b @ ''|'' @ c\<rparr> # ys)"
    by (rule verifyFrom_cong) (simp_all add: expectedHash_def chainPayload_def)
  then show ?thesis by (simp add: VerifyChain_def split: option.split)
qed

text \<open>
  A filtered read returns matching entries only, newest first and at most a thousand of them,
  and when fewer entries match than its limit it returns every one.
\<close>

theorem audit_query_sound:
  assumes "auditInv H al" and "auditQuery io f al = Inr es"
  shows "set es \<subseteq> {e \<in> set (al_rows al). auditMatches f e} \<and>
    sorted_wrt (\<lambda>d e. ae_ID d > ae_ID e) es \<and> length es \<le> 1000 \<and>
    (length (filter (auditMatches f) (al_rows al)) \<le> nat (auditLimit (af_Limit f))
       \<longrightarrow> set es = {e \<in> set (al_rows al). auditMatches f e})"
proof -
  let ?m = "filter (auditMatches f) (al_rows al)"
  from assms(2) have es: "es = take (nat (auditLimit (af_Limit f))) (rev ?m)"
    by (auto simp: auditQuery_def)
  from assms(1) have "sorted_wrt (\<lambda>d e. ae_ID d < ae_ID e) ?m"
    by (auto simp: auditInv_def sorted_wrt_map intro: sorted_wrt_filter)
  then have "sorted_wrt (\<lambda>d e. ae_ID d > ae_ID e) (rev ?m)" by (simp add: sorted_wrt_rev)
  then have "sorted_wrt (\<lambda>d e. ae_ID d > ae_ID e) es" unfolding es by (rule sorted_wrt_take)
  moreover have "length es \<le> 1000" by (auto simp: es auditLimit_def min_def)
  moreover have "set es \<subseteq> {e \<in> set (al_rows al). auditMatches f e}"
    using set_take_subset [of "nat (auditLimit (af_Limit f))" "rev ?m"] by (auto simp: es)
  moreover have "length ?m \<le> nat (auditLimit (af_Limit f)) \<longrightarrow> set es = {e \<in> set (al_rows al). auditMatches f e}"
    by (simp add: es)
  ultimately show ?thesis by blast
qed

theorem audit_query_sound_witness:
  "\<exists>es. auditQuery noFault \<lparr>af_Resource = ''repo'', af_Actor = [], af_Action = [], af_Decision = [], af_Limit = 10\<rparr> exLog = Inr es
    \<and> set es = set (al_rows exLog)"
proof -
  let ?f = "\<lparr>af_Resource = ''repo'', af_Actor = [], af_Action = [], af_Decision = [], af_Limit = 10\<rparr>"
  obtain es where es: "auditQuery noFault ?f exLog = Inr es"
    by (simp add: auditQuery_def)
  have "auditInv exHash exLog" by (rule al.reach_inv [OF ex_log_reach])
  note sound = audit_query_sound [OF this es]
  obtain e where e: "al_rows exLog = [e]" "ae_Resource e = ''repo''"
    using ex_log_rows by blast
  have "{x \<in> set (al_rows exLog). auditMatches ?f x} = set (al_rows exLog)"
    using e by (auto simp: auditMatches_def)
  moreover have "length (filter (auditMatches ?f) (al_rows exLog)) \<le> nat (auditLimit (af_Limit ?f))"
    using e by (simp add: auditLimit_def)
  ultimately show ?thesis using sound es by blast
qed

end
