(* ===== verification/Authn.thy ===== *)
theory Authn
  imports Base64
begin

text \<open>
  \<^verbatim>\<open>internal/authn\<close>: bearer tokens of an OIDC provider, the cache of its signing keys, and the mapping of the
  token's subject to a provisioned user.  RSA, SHA-256, JSON and the HTTP client are parameters.
\<close>

section \<open>Data\<close>

definition ErrNoToken :: goerr where "ErrNoToken = ErrNew ''missing bearer token''"
definition ErrMalformed :: goerr where "ErrMalformed = ErrNew ''malformed token''"
definition ErrBadSignature :: goerr where "ErrBadSignature = ErrNew ''token signature invalid''"
definition ErrExpired :: goerr where "ErrExpired = ErrNew ''token expired''"
definition ErrBadIssuer :: goerr where "ErrBadIssuer = ErrNew ''unexpected issuer''"
definition ErrUnknownKey :: goerr where "ErrUnknownKey = ErrNew ''unknown signing key''"
definition ErrUnknownUser :: goerr where "ErrUnknownUser = ErrNew ''authenticated subject is not provisioned''"

record identity =
  id_UserID :: string
  id_OrgID :: string
  id_Sub :: string
  id_Email :: string

record rsa_public_key =
  pk_N :: nat
  pk_E :: int

record jwt_header =
  jh_Alg :: string
  jh_KID :: string

record jwt_claims =
  jc_Iss :: string
  jc_Sub :: string
  jc_Email :: string
  jc_Exp :: int

record jwk =
  jk_KID :: string
  jk_N :: string
  jk_E :: string

record authenticator =
  au_Issuer :: string
  au_keys :: "string \<rightharpoonup> rsa_public_key"

text \<open>
  The code outside: the digest and the signature check, and the JSON decoders of the four documents.  The
  decoder of a token header gives what is left in the structure, whether or not it fails.
\<close>

record jose =
  jo_Sum256 :: "string \<Rightarrow> string"
  jo_Verify :: "rsa_public_key \<Rightarrow> string \<Rightarrow> string \<Rightarrow> bool"
  jo_header :: "string \<Rightarrow> jwt_header"
  jo_claims :: "string \<Rightarrow> jwt_claims result"
  jo_discovery :: "string \<Rightarrow> string result"
  jo_jwks :: "string \<Rightarrow> jwk list result"

text \<open>The n-th request of a call: a failure of the client, or a status and a body.\<close>

type_synonym net = "nat \<Rightarrow> string \<Rightarrow> (int \<times> string) result"

section \<open>Signing keys\<close>

definition NewAuthenticator :: "string \<Rightarrow> authenticator" where
  "NewAuthenticator issuer = \<lparr>au_Issuer = issuer, au_keys = Map.empty\<rparr>"

definition getJSON :: "(string \<Rightarrow> (int \<times> string) result) \<Rightarrow> (string \<Rightarrow> 'a result) \<Rightarrow> string \<Rightarrow> 'a result" where
  "getJSON do decode rawURL =
     (case do rawURL of
        Inl err \<Rightarrow> Inl err
      | Inr (status, body) \<Rightarrow>
          if status \<noteq> 200 then Inl (ErrNew (''GET '' @ rawURL @ '': status '' @ showInt status)) else decode body)"

text \<open>\<^verbatim>\<open>big.Int.SetBytes\<close>, big-endian, and \<^verbatim>\<open>Int64\<close>, the low 64 bits as a signed number.\<close>

definition SetBytes :: "string \<Rightarrow> nat" where
  "SetBytes bs = fold (\<lambda>b n. n * 256 + of_char b) bs 0"

definition Int64 :: "nat \<Rightarrow> int" where
  "Int64 n = wrap64 (int n)"

definition jwkKey :: "jwk \<Rightarrow> rsa_public_key option" where
  "jwkKey k =
     (case DecodeString (jk_N k) of
        None \<Rightarrow> None
      | Some n \<Rightarrow> (case DecodeString (jk_E k) of None \<Rightarrow> None | Some e \<Rightarrow> Some \<lparr>pk_N = SetBytes n, pk_E = Int64 (SetBytes e)\<rparr>))"

fun storeKeys :: "jwk list \<Rightarrow> (string \<rightharpoonup> rsa_public_key) \<Rightarrow> (string \<rightharpoonup> rsa_public_key)" where
  "storeKeys [] m = m"
| "storeKeys (k # ks) m = storeKeys ks (case jwkKey k of None \<Rightarrow> m | Some pub \<Rightarrow> m(jk_KID k \<mapsto> pub))"

definition refreshKeys :: "jose \<Rightarrow> net \<Rightarrow> authenticator \<Rightarrow> goerr option \<times> authenticator" where
  "refreshKeys j net a =
     (let cfgURL = TrimSuffix (au_Issuer a) ''/'' @ ''/.well-known/openid-configuration'' in
      case getJSON (net 0) (jo_discovery j) cfgURL of
        Inl err \<Rightarrow> (Some (ErrWrap (''discovery: '' @ errText err) err), a)
      | Inr jwksURI \<Rightarrow>
     (case getJSON (net 1) (jo_jwks j) jwksURI of
        Inl err \<Rightarrow> (Some (ErrWrap (''jwks: '' @ errText err) err), a)
      | Inr ks \<Rightarrow> (None, a\<lparr>au_keys := storeKeys ks (au_keys a)\<rparr>)))"

definition signingKey :: "jose \<Rightarrow> net \<Rightarrow> string \<Rightarrow> authenticator \<Rightarrow> rsa_public_key result \<times> authenticator" where
  "signingKey j net kid a =
     (case au_keys a kid of
        Some key \<Rightarrow> (Inr key, a)
      | None \<Rightarrow>
     (case refreshKeys j net a of
        (Some err, a') \<Rightarrow> (Inl err, a')
      | (None, a') \<Rightarrow> ((case au_keys a' kid of None \<Rightarrow> Inl ErrUnknownKey | Some key \<Rightarrow> Inr key), a')))"

section \<open>Authentication\<close>

text \<open>\<^verbatim>\<open>resolver.go\<close>: the users table; \<open>None\<close> is a resolver without a database.\<close>

record user_row =
  ur_ID :: string
  ur_OrgID :: string
  ur_AuthSubject :: string

definition Resolve :: "goerr option \<Rightarrow> user_row list option \<Rightarrow> string \<Rightarrow> (string \<times> string) result" where
  "Resolve fault db sub =
     (case db of
        None \<Rightarrow> Inl (ErrNew ''authn: no resolver backing store'')
      | Some users \<Rightarrow>
     (case queryRow fault (find (\<lambda>u. ur_AuthSubject u = sub) users) of
        Inl err \<Rightarrow> Inl (if errorsIs err ErrNoRows then ErrUnknownUser else err)
      | Inr u \<Rightarrow> Inr (ur_OrgID u, ur_ID u)))"

definition bearerToken :: "string \<Rightarrow> string" where
  "bearerToken h = (if 7 < length h \<and> map lowerByte (take 7 h) = ''bearer '' then TrimSpace (drop 7 h) else [])"

definition parseJWTHeader :: "jose \<Rightarrow> string \<Rightarrow> jwt_header" where
  "parseJWTHeader j seg = (case DecodeString seg of None \<Rightarrow> \<lparr>jh_Alg = [], jh_KID = []\<rparr> | Some raw \<Rightarrow> jo_header j raw)"

definition parseClaims :: "jose \<Rightarrow> string \<Rightarrow> jwt_claims result" where
  "parseClaims j seg = (case DecodeString seg of None \<Rightarrow> Inl (ErrNew ''illegal base64 data'') | Some raw \<Rightarrow> jo_claims j raw)"

text \<open>What is done with the parts of the token once its key is known.\<close>

definition checkToken ::
  "jose \<Rightarrow> time \<Rightarrow> (string \<Rightarrow> (string \<times> string) result) \<Rightarrow> string \<Rightarrow> rsa_public_key \<Rightarrow> string \<Rightarrow> string \<Rightarrow> string \<Rightarrow> identity result" where
  "checkToken j now resolve issuer key p0 p1 p2 =
     (case DecodeString p2 of
        None \<Rightarrow> Inl ErrMalformed
      | Some sig \<Rightarrow>
          if \<not> jo_Verify j key (jo_Sum256 j (p0 @ ''.'' @ p1)) sig then Inl ErrBadSignature
          else
     (case parseClaims j p1 of
        Inl _ \<Rightarrow> Inl ErrMalformed
      | Inr c \<Rightarrow>
          if jc_Exp c \<noteq> 0 \<and> Unix now \<ge> jc_Exp c then Inl ErrExpired
          else if jc_Iss c \<noteq> issuer then Inl ErrBadIssuer
          else
     (case resolve (jc_Sub c) of
        Inl _ \<Rightarrow> Inl ErrUnknownUser
      | Inr (orgID, userID) \<Rightarrow> Inr \<lparr>id_UserID = userID, id_OrgID = orgID, id_Sub = jc_Sub c, id_Email = jc_Email c\<rparr>)))"

definition authenticate ::
  "jose \<Rightarrow> net \<Rightarrow> time \<Rightarrow> (string \<Rightarrow> (string \<times> string) result) \<Rightarrow> string \<Rightarrow> authenticator \<Rightarrow> identity result \<times> authenticator" where
  "authenticate j net now resolve authorization a =
     (let token = bearerToken authorization in
      if token = [] then (Inl ErrNoToken, a)
      else
     (case Split (CHR ''.'') token of
        [p0, p1, p2] \<Rightarrow>
          (let h = parseJWTHeader j p0 in
           if jh_KID h = [] \<or> jh_Alg h \<noteq> ''RS256'' then (Inl ErrMalformed, a)
           else
          (case signingKey j net (jh_KID h) a of
             (Inl err, a') \<Rightarrow> (Inl err, a')
           | (Inr key, a') \<Rightarrow> (checkToken j now resolve (au_Issuer a) key p0 p1 p2, a')))
      | _ \<Rightarrow> (Inl ErrMalformed, a)))"

text \<open>The middleware: an error response, or the next handler with the identity.\<close>

datatype 'a answer = Refused int string | Served 'a

definition Middleware ::
  "(identity \<Rightarrow> 'a) \<Rightarrow> jose \<Rightarrow> net \<Rightarrow> time \<Rightarrow> (string \<Rightarrow> (string \<times> string) result) \<Rightarrow> string \<Rightarrow> authenticator \<Rightarrow> 'a answer \<times> authenticator" where
  "Middleware next j net now resolve authorization a =
     (case authenticate j net now resolve authorization a of
        (Inl err, a') \<Rightarrow> (Refused (if errorsIs err ErrUnknownUser then 403 else 401) (errText err), a')
      | (Inr ident, a') \<Rightarrow> (Served (next ident), a'))"

section \<open>The key cache\<close>

text \<open>What the provider's discovery document and key set, fetched now, give for a key identifier.\<close>

definition provides :: "jose \<Rightarrow> net \<Rightarrow> string \<Rightarrow> string \<Rightarrow> rsa_public_key \<Rightarrow> bool" where
  "provides j net issuer kid pub \<longleftrightarrow>
     (\<exists>uri ks. getJSON (net 0) (jo_discovery j) (TrimSuffix issuer ''/'' @ ''/.well-known/openid-configuration'') = Inr uri \<and>
        getJSON (net 1) (jo_jwks j) uri = Inr ks \<and> (\<exists>k \<in> set ks. jk_KID k = kid \<and> jwkKey k = Some pub))"

lemma storeKeys_origin:
  "storeKeys ks m kid = Some pub \<Longrightarrow> m kid = Some pub \<or> (\<exists>k \<in> set ks. jk_KID k = kid \<and> jwkKey k = Some pub)"
  by (induction ks m rule: storeKeys.induct) (auto split: option.splits if_splits)

lemma storeKeys_dom: "m kid \<noteq> None \<Longrightarrow> storeKeys ks m kid \<noteq> None"
  by (induction ks m rule: storeKeys.induct) (auto split: option.splits)

lemma refreshKeys_origin:
  assumes "refreshKeys j net a = (e, a')"
  shows "au_Issuer a' = au_Issuer a"
    and "au_keys a' kid = Some pub \<Longrightarrow> au_keys a kid = Some pub \<or> provides j net (au_Issuer a) kid pub"
    and "au_keys a kid \<noteq> None \<Longrightarrow> au_keys a' kid \<noteq> None"
proof -
  have a': "a' = a \<or> (\<exists>uri ks. getJSON (net 0) (jo_discovery j) (TrimSuffix (au_Issuer a) ''/'' @ ''/.well-known/openid-configuration'') = Inr uri \<and>
        getJSON (net 1) (jo_jwks j) uri = Inr ks \<and> a' = a\<lparr>au_keys := storeKeys ks (au_keys a)\<rparr>)"
    using assms by (simp add: refreshKeys_def Let_def split: sum.splits)
  then show "au_Issuer a' = au_Issuer a" by (elim disjE exE conjE) simp_all
  from a' show "au_keys a kid = Some pub \<or> provides j net (au_Issuer a) kid pub" if "au_keys a' kid = Some pub"
  proof (elim disjE exE conjE)
    fix uri ks
    assume *: "getJSON (net 0) (jo_discovery j) (TrimSuffix (au_Issuer a) ''/'' @ ''/.well-known/openid-configuration'') = Inr uri"
      "getJSON (net 1) (jo_jwks j) uri = Inr ks" "a' = a\<lparr>au_keys := storeKeys ks (au_keys a)\<rparr>"
    with that have "storeKeys ks (au_keys a) kid = Some pub" by simp
    from storeKeys_origin [OF this] *(1,2) show ?thesis unfolding provides_def by metis
  qed (use that in simp)
  from a' show "au_keys a' kid \<noteq> None" if "au_keys a kid \<noteq> None"
    using that storeKeys_dom by (elim disjE exE conjE) (simp_all del: not_None_eq)
qed

lemma signingKey_origin:
  assumes "signingKey j net kid a = (out, a')"
  shows "au_Issuer a' = au_Issuer a"
    and "au_keys a' k = Some pub \<Longrightarrow> au_keys a k = Some pub \<or> provides j net (au_Issuer a) k pub"
    and "au_keys a k \<noteq> None \<Longrightarrow> au_keys a' k \<noteq> None"
    and "out = Inr key \<Longrightarrow> au_keys a' kid = Some key"
proof -
  obtain e a1 where r: "refreshKeys j net a = (e, a1)" by fastforce
  have a': "a' = a \<or> a' = a1" and k: "out = Inr key \<Longrightarrow> au_keys a' kid = Some key"
    using assms r by (auto simp: signingKey_def split: option.splits)
  from a' refreshKeys_origin(1) [OF r] show "au_Issuer a' = au_Issuer a" by metis
  from a' refreshKeys_origin(2) [OF r]
  show "au_keys a' k = Some pub \<Longrightarrow> au_keys a k = Some pub \<or> provides j net (au_Issuer a) k pub" by metis
  from a' refreshKeys_origin(3) [OF r] show "au_keys a k \<noteq> None \<Longrightarrow> au_keys a' k \<noteq> None" by metis
  show "out = Inr key \<Longrightarrow> au_keys a' kid = Some key" by (rule k)
qed

text \<open>Authentication, inverted.\<close>

lemma checkToken_Inr:
  "checkToken j now resolve issuer key p0 p1 p2 = Inr ident \<longleftrightarrow>
     (\<exists>sig c og u. DecodeString p2 = Some sig \<and> jo_Verify j key (jo_Sum256 j (p0 @ ''.'' @ p1)) sig \<and> parseClaims j p1 = Inr c \<and>
        (jc_Exp c = 0 \<or> Unix now < jc_Exp c) \<and> jc_Iss c = issuer \<and> resolve (jc_Sub c) = Inr (og, u) \<and>
        ident = \<lparr>id_UserID = u, id_OrgID = og, id_Sub = jc_Sub c, id_Email = jc_Email c\<rparr>)"
  unfolding checkToken_def by (auto simp: not_le split: option.splits sum.splits if_splits)

lemma authenticate_cases:
  assumes "authenticate j net now resolve hdr a = (out, a')"
  obtains (refused) e where "out = Inl e" "e \<in> {ErrNoToken, ErrMalformed}" "a' = a"
  | (checked) p0 p1 p2 o1 where "bearerToken hdr \<noteq> []" "Split (CHR ''.'') (bearerToken hdr) = [p0, p1, p2]"
      "jh_KID (parseJWTHeader j p0) \<noteq> []" "jh_Alg (parseJWTHeader j p0) = ''RS256''"
      "signingKey j net (jh_KID (parseJWTHeader j p0)) a = (o1, a')"
      "out = (case o1 of Inl err \<Rightarrow> Inl err | Inr key \<Rightarrow> checkToken j now resolve (au_Issuer a) key p0 p1 p2)"
proof (cases "\<exists>p0 p1 p2. bearerToken hdr \<noteq> [] \<and> Split (CHR ''.'') (bearerToken hdr) = [p0, p1, p2] \<and>
      jh_KID (parseJWTHeader j p0) \<noteq> [] \<and> jh_Alg (parseJWTHeader j p0) = ''RS256''")
  case True
  then obtain p0 p1 p2 where p: "bearerToken hdr \<noteq> []" "Split (CHR ''.'') (bearerToken hdr) = [p0, p1, p2]"
    "jh_KID (parseJWTHeader j p0) \<noteq> []" "jh_Alg (parseJWTHeader j p0) = ''RS256''" by blast
  obtain o1 a1 where o1: "signingKey j net (jh_KID (parseJWTHeader j p0)) a = (o1, a1)" by fastforce
  then have "a1 = a'" "out = (case o1 of Inl err \<Rightarrow> Inl err | Inr key \<Rightarrow> checkToken j now resolve (au_Issuer a) key p0 p1 p2)"
    using assms p by (auto simp: authenticate_def Let_def split: sum.splits)
  with p o1 checked show ?thesis by blast
next
  case False
  then have "a' = a \<and> (out = Inl ErrNoToken \<or> out = Inl ErrMalformed)"
    using assms unfolding authenticate_def Let_def by (auto split: if_splits list.splits)
  with refused show ?thesis by blast
qed

text \<open>A server: any sequence of requests against a provider that at each of them publishes only keys of \<open>T\<close>.\<close>

record auth_request =
  aq_net :: net
  aq_now :: time
  aq_resolve :: "string \<Rightarrow> (string \<times> string) result"
  aq_header :: string

definition publishes :: "jose \<Rightarrow> string \<Rightarrow> (string \<Rightarrow> rsa_public_key \<Rightarrow> bool) \<Rightarrow> net \<Rightarrow> bool" where
  "publishes j issuer T net \<longleftrightarrow> (\<forall>kid pub. provides j net issuer kid pub \<longrightarrow> T kid pub)"

definition authStep :: "jose \<Rightarrow> string \<Rightarrow> (string \<Rightarrow> rsa_public_key \<Rightarrow> bool) \<Rightarrow> authenticator \<Rightarrow> auth_request \<Rightarrow> authenticator \<Rightarrow> bool" where
  "authStep j issuer T a rq a' \<longleftrightarrow>
     publishes j issuer T (aq_net rq) \<and> a' = snd (authenticate j (aq_net rq) (aq_now rq) (aq_resolve rq) (aq_header rq) a)"

definition trusted :: "string \<Rightarrow> (string \<Rightarrow> rsa_public_key \<Rightarrow> bool) \<Rightarrow> authenticator \<Rightarrow> bool" where
  "trusted issuer T a \<longleftrightarrow> au_Issuer a = issuer \<and> (\<forall>kid pub. au_keys a kid = Some pub \<longrightarrow> T kid pub)"

lemma authenticate_trusted:
  assumes "trusted issuer T a" "publishes j issuer T net" "authenticate j net now resolve hdr a = (out, a')"
  shows "trusted issuer T a'"
  using assms(3)
proof (cases rule: authenticate_cases)
  case (checked p0 p1 p2 o1)
  from signingKey_origin(1,2) [OF checked(5)] assms(1,2) show ?thesis unfolding trusted_def publishes_def by metis
qed (use assms(1) in simp)

interpretation au: transition_system "\<lambda>a. a = NewAuthenticator issuer" "authStep j issuer T" "trusted issuer T" for j issuer T
proof (unfold_locales, goal_cases)
  case (1 s)
  then show ?case by (simp add: trusted_def NewAuthenticator_def)
next
  case (2 s e t)
  then show ?case using authenticate_trusted [of issuer T s j "aq_net e"] unfolding authStep_def by (metis prod.collapse)
qed

section \<open>Properties\<close>

lemma signed_of_trusted:
  assumes ok: "trusted issuer T a" and "publishes j issuer T net" and au: "authenticate j net now resolve hdr a = (Inr ident, a')"
  shows "\<exists>p0 p1 p2 key sig c.
    Split (CHR ''.'') (bearerToken hdr) = [p0, p1, p2] \<and> T (jh_KID (parseJWTHeader j p0)) key \<and>
    DecodeString p2 = Some sig \<and> jo_Verify j key (jo_Sum256 j (p0 @ ''.'' @ p1)) sig \<and>
    parseClaims j p1 = Inr c \<and> jc_Iss c = issuer \<and> (jc_Exp c = 0 \<or> Unix now < jc_Exp c) \<and>
    resolve (jc_Sub c) = Inr (id_OrgID ident, id_UserID ident) \<and> id_Sub ident = jc_Sub c"
proof -
  have t': "trusted issuer T a'" by (rule authenticate_trusted [OF ok assms(2) au])
  from au show ?thesis
  proof (cases rule: authenticate_cases)
    case (checked p0 p1 p2 o1)
    from checked(6) obtain key where key: "o1 = Inr key" "checkToken j now resolve (au_Issuer a) key p0 p1 p2 = Inr ident"
      by (auto split: sum.splits)
    from key(2) ok obtain sig c og u where c: "DecodeString p2 = Some sig" "jo_Verify j key (jo_Sum256 j (p0 @ ''.'' @ p1)) sig"
      "parseClaims j p1 = Inr c" "jc_Exp c = 0 \<or> Unix now < jc_Exp c" "jc_Iss c = issuer" "resolve (jc_Sub c) = Inr (og, u)"
      "ident = \<lparr>id_UserID = u, id_OrgID = og, id_Sub = jc_Sub c, id_Email = jc_Email c\<rparr>"
      unfolding checkToken_Inr trusted_def by blast
    have "T (jh_KID (parseJWTHeader j p0)) key"
      using signingKey_origin(4) [OF checked(5) key(1)] t' by (simp add: trusted_def)
    with checked(2) c show ?thesis by (intro exI [of _ p0] exI [of _ p1] exI [of _ p2] exI [of _ key] exI [of _ sig] exI [of _ c]) simp
  qed auto
qed

text \<open>
  An accepted request carries a three-part token whose first two parts are signed by a key that the issuer published
  under the identifier in its header, whose claims name that issuer and have not expired, and whose subject is
  provisioned; the identity is the one that the resolver gives for this subject.
\<close>

theorem accepted_request_is_signed:
  assumes "reach (\<lambda>a. a = NewAuthenticator issuer) (authStep j issuer T) a" and "publishes j issuer T net"
    and "fst (authenticate j net now resolve hdr a) = Inr ident"
  shows "\<exists>p0 p1 p2 key sig c.
    Split (CHR ''.'') (bearerToken hdr) = [p0, p1, p2] \<and> T (jh_KID (parseJWTHeader j p0)) key \<and>
    DecodeString p2 = Some sig \<and> jo_Verify j key (jo_Sum256 j (p0 @ ''.'' @ p1)) sig \<and>
    parseClaims j p1 = Inr c \<and> jc_Iss c = issuer \<and> (jc_Exp c = 0 \<or> Unix now < jc_Exp c) \<and>
    resolve (jc_Sub c) = Inr (id_OrgID ident, id_UserID ident) \<and> id_Sub ident = jc_Sub c"
  using signed_of_trusted [OF au.reach_inv [OF assms(1)] assms(2)] assms(3) by (metis prod.collapse)

text \<open>
  Refusals: a caller is told 403 when the token passed every check and its subject could not be resolved, and 401 for
  everything else; the protected handler then does not run.
\<close>

lemma Middleware_Refused_403:
  assumes "Middleware next j net now resolve hdr a = (Refused 403 m, a')" and "au_keys a kid = Some key"
    and "Split (CHR ''.'') (bearerToken hdr) = [p0, p1, p2]" "kid = jh_KID (parseJWTHeader j p0)"
  shows "\<exists>c e. parseClaims j p1 = Inr c \<and> resolve (jc_Sub c) = Inl e \<and> m = errText ErrUnknownUser"
proof -
  have e: "e \<noteq> ErrUnknownUser" "\<not> errorsIs e ErrUnknownUser" if "e \<in> {ErrNoToken, ErrMalformed, ErrBadSignature, ErrExpired, ErrBadIssuer}" for e
    using that by (auto simp: ErrNoToken_def ErrMalformed_def ErrBadSignature_def ErrExpired_def ErrBadIssuer_def ErrUnknownUser_def)
  from assms(1) obtain err where err: "authenticate j net now resolve hdr a = (Inl err, a')" "errorsIs err ErrUnknownUser" "m = errText err"
    by (auto simp: Middleware_def split: prod.splits sum.splits if_splits)
  from err(1) show ?thesis
  proof (cases rule: authenticate_cases)
    case (refused e1)
    then show ?thesis using err(2) e(2) by auto
  next
    case (checked q0 q1 q2 o1)
    then have q: "q0 = p0" "q1 = p1" "q2 = p2" using assms(3) by simp_all
    have "o1 = Inr key" using checked(5) assms(2,4) q by (simp add: signingKey_def)
    then have "checkToken j now resolve (au_Issuer a) key p0 p1 p2 = Inl err" using checked(6) q by simp
    then show ?thesis using err(2,3) e(2)
      by (auto simp: checkToken_def split: option.splits if_splits sum.splits)
  qed
qed

text \<open>
  A token without an expiry is accepted at every time, and a key that is in the cache is used without asking the
  provider again: rotating it out there has no effect, and no refresh removes a key.
\<close>

theorem missing_expiry_never_expires:
  assumes "parseClaims j p1 = Inr c" "jc_Exp c = 0" and "checkToken j now resolve issuer key p0 p1 p2 = Inr ident"
  shows "checkToken j later resolve issuer key p0 p1 p2 = Inr ident"
  using assms by (auto simp: checkToken_Inr)

theorem cached_key_is_never_dropped:
  assumes "authenticate j net now resolve hdr a = (out, a')" "au_keys a kid = Some key"
  shows "au_keys a' kid \<noteq> None \<and> signingKey j net' kid a = (Inr key, a)"
proof -
  have "au_keys a' kid \<noteq> None"
    using assms(1)
  proof (cases rule: authenticate_cases)
    case (checked p0 p1 p2 o1)
    from signingKey_origin(3) [OF checked(5)] assms(2) show ?thesis by simp
  qed (use assms(2) in simp)
  with assms(2) show ?thesis by (simp add: signingKey_def)
qed

text \<open>A failure of the database is answered as if the user were not provisioned.\<close>

theorem resolver_failure_is_forbidden:
  assumes "DecodeString p2 = Some sig" "jo_Verify j key (jo_Sum256 j (p0 @ ''.'' @ p1)) sig" "parseClaims j p1 = Inr c"
    "jc_Exp c = 0 \<or> Unix now < jc_Exp c"
  shows "checkToken j now (Resolve (Some e) (Some users)) (jc_Iss c) key p0 p1 p2 = Inl ErrUnknownUser"
  using assms by (auto simp: checkToken_def Resolve_def queryRow_def)

section \<open>A concrete provider\<close>

definition exJose :: jose where
  "exJose = \<lparr>jo_Sum256 = (\<lambda>s. s), jo_Verify = (\<lambda>k d s. s = ''A''), jo_header = (\<lambda>_. \<lparr>jh_Alg = ''RS256'', jh_KID = ''k''\<rparr>),
     jo_claims = (\<lambda>_. Inr \<lparr>jc_Iss = ''i'', jc_Sub = ''s'', jc_Email = [], jc_Exp = 10\<rparr>), jo_discovery = (\<lambda>_. Inr ''u''),
     jo_jwks = (\<lambda>_. Inr [\<lparr>jk_KID = ''k'', jk_N = ''QQ'', jk_E = ''QQ''\<rparr>])\<rparr>"

definition exNet :: net where "exNet n url = Inr (200, [])"

definition exUsers :: "user_row list" where "exUsers = [\<lparr>ur_ID = ''u'', ur_OrgID = ''o'', ur_AuthSubject = ''s''\<rparr>]"

lemma ex_b64_decode: "DecodeString ''QQ'' = Some ''A''"
  by code_simp

lemma ex_auth_bearer: "bearerToken ''bearer QQ.QQ.QQ'' = ''QQ.QQ.QQ''"
  by (simp add: bearerToken_def lowerByte_def TrimSpace_plain plainByte_def)

lemma ex_provides: "provides exJose exNet ''i'' kid pub \<longleftrightarrow> kid = ''k'' \<and> pub = \<lparr>pk_N = 65, pk_E = 65\<rparr>"
  by (auto simp: provides_def getJSON_def exNet_def exJose_def jwkKey_def ex_b64_decode SetBytes_def Int64_def wrap64_def)

lemma ex_authenticate:
  "fst (authenticate exJose exNet 5 (Resolve None (Some exUsers)) ''bearer QQ.QQ.QQ'' (NewAuthenticator ''i'')) =
   Inr \<lparr>id_UserID = ''u'', id_OrgID = ''o'', id_Sub = ''s'', id_Email = []\<rparr>"
proof -
  have "Split (CHR ''.'') ''QQ.QQ.QQ'' = [''QQ'', ''QQ'', ''QQ'']" by simp
  moreover have "signingKey exJose exNet ''k'' (NewAuthenticator ''i'') =
      (Inr \<lparr>pk_N = 65, pk_E = 65\<rparr>, \<lparr>au_Issuer = ''i'', au_keys = Map.empty(''k'' \<mapsto> \<lparr>pk_N = 65, pk_E = 65\<rparr>)\<rparr>)"
    by (simp add: signingKey_def refreshKeys_def NewAuthenticator_def getJSON_def exNet_def exJose_def jwkKey_def ex_b64_decode SetBytes_def Int64_def wrap64_def Let_def)
  moreover have "parseJWTHeader exJose ''QQ'' = \<lparr>jh_Alg = ''RS256'', jh_KID = ''k''\<rparr>" by (simp add: parseJWTHeader_def ex_b64_decode exJose_def)
  moreover have "checkToken exJose 5 (Resolve None (Some exUsers)) ''i'' key ''QQ'' ''QQ'' ''QQ'' =
      Inr \<lparr>id_UserID = ''u'', id_OrgID = ''o'', id_Sub = ''s'', id_Email = []\<rparr>" for key
    by (simp add: checkToken_def ex_b64_decode parseClaims_def exJose_def Unix_def Second_def Resolve_def exUsers_def)
  ultimately show ?thesis unfolding authenticate_def Let_def ex_auth_bearer by (simp add: NewAuthenticator_def)
qed

theorem accepted_request_is_signed_witness:
  "\<exists>p0 p1 p2 key sig c.
    Split (CHR ''.'') (bearerToken ''bearer QQ.QQ.QQ'') = [p0, p1, p2] \<and> provides exJose exNet ''i'' (jh_KID (parseJWTHeader exJose p0)) key \<and>
    DecodeString p2 = Some sig \<and> jo_Verify exJose key (jo_Sum256 exJose (p0 @ ''.'' @ p1)) sig \<and>
    parseClaims exJose p1 = Inr c \<and> jc_Iss c = ''i'' \<and> (jc_Exp c = 0 \<or> Unix 5 < jc_Exp c) \<and>
    Resolve None (Some exUsers) (jc_Sub c) = Inr (''o'', ''u'')"
proof -
  have r: "reach (\<lambda>a. a = NewAuthenticator ''i'') (authStep exJose ''i'' (provides exJose exNet ''i'')) (NewAuthenticator ''i'')"
    by (rule reach_init) simp
  have p: "publishes exJose ''i'' (provides exJose exNet ''i'') exNet" by (simp add: publishes_def)
  show ?thesis using accepted_request_is_signed [OF r p ex_authenticate] by (elim exE conjE) (intro exI conjI; simp)
qed

end
