(* ===== verification/Budget.thy ===== *)
theory Budget
  imports Prelude
begin

text \<open>
  \<^verbatim>\<open>internal/budget\<close>: spend tracking with hard limits and one soft alert per scope, and the four-level rate
  limiter.  Amounts are \<^verbatim>\<open>float64\<close> in the code; the operations the code uses of them are a parameter, so
  that nothing below assumes exact arithmetic unless it says so.  The token buckets of
  \<^verbatim>\<open>golang.org/x/time/rate\<close> are a parameter.
\<close>

section \<open>Tracker\<close>

record 'm money =
  mo_zero :: 'm
  mo_add :: "'m \<Rightarrow> 'm \<Rightarrow> 'm"
  mo_sub :: "'m \<Rightarrow> 'm \<Rightarrow> 'm"
  mo_p80 :: "'m \<Rightarrow> 'm"  \<comment> \<open>multiplication by 0.8\<close>
  mo_le :: "'m \<Rightarrow> 'm \<Rightarrow> bool"
  mo_lt :: "'m \<Rightarrow> 'm \<Rightarrow> bool"
  mo_show :: "'m \<Rightarrow> string"  \<comment> \<open>\<^verbatim>\<open>%.2f\<close>\<close>

record 'm limits =
  li_User :: 'm
  li_Org :: 'm

record 'm alert =
  at_Scope :: string
  at_Spend :: 'm
  at_Limit :: 'm
  at_FiredAt :: time

text \<open>The alerter, when there is one, is the list of alerts it received.\<close>

record 'm tracker =
  tk_Limits :: "'m limits"
  tk_Alerter :: "'m alert list option"
  tk_spend :: "string \<rightharpoonup> 'm"
  tk_alerted :: "string \<Rightarrow> bool"

definition NewTracker :: "'m limits \<Rightarrow> 'm alert list option \<Rightarrow> 'm tracker" where
  "NewTracker limits alerter =
     \<lparr>tk_Limits = limits, tk_Alerter = alerter, tk_spend = Map.empty, tk_alerted = (\<lambda>_. False)\<rparr>"

definition Spend :: "'m money \<Rightarrow> string \<Rightarrow> 'm tracker \<Rightarrow> 'm" where
  "Spend mo scope t = (case tk_spend t scope of Some x \<Rightarrow> x | None \<Rightarrow> mo_zero mo)"

definition scopeLimit :: "'m money \<Rightarrow> string \<Rightarrow> 'm tracker \<Rightarrow> 'm" where
  "scopeLimit mo scope t =
     (if length scope > 5 \<and> take 5 scope = ''user:'' then li_User (tk_Limits t)
      else if length scope > 4 \<and> take 4 scope = ''org:'' then li_Org (tk_Limits t)
      else mo_zero mo)"

definition addLocked :: "'m money \<Rightarrow> time \<Rightarrow> string \<Rightarrow> 'm \<Rightarrow> 'm tracker \<Rightarrow> 'm tracker" where
  "addLocked mo clock scope usd t =
     (let t1 = t\<lparr>tk_spend := (tk_spend t)(scope \<mapsto> mo_add mo (Spend mo scope t) usd)\<rparr>;
          limit = scopeLimit mo scope t1
      in case tk_Alerter t1 of
           None \<Rightarrow> t1
         | Some fired \<Rightarrow>
             if mo_le mo limit (mo_zero mo) \<or> tk_alerted t1 scope then t1
             else
               (let now = Spend mo scope t1;
                    prev = mo_sub mo now usd
                in if mo_le mo (mo_p80 mo limit) now \<and> mo_lt mo prev (mo_p80 mo limit)
                   then t1\<lparr>tk_alerted := (tk_alerted t1)(scope := True),
                           tk_Alerter := Some (fired @ [\<lparr>at_Scope = scope, at_Spend = now, at_Limit = limit, at_FiredAt = clock\<rparr>])\<rparr>
                   else t1))"

definition AddSpend :: "'m money \<Rightarrow> time \<Rightarrow> time \<Rightarrow> string \<Rightarrow> string \<Rightarrow> 'm \<Rightarrow> 'm tracker \<Rightarrow> 'm tracker" where
  "AddSpend mo c1 c2 orgID userID usd t =
     addLocked mo c2 (''org:'' @ orgID) usd (addLocked mo c1 (''user:'' @ userID) usd t)"

definition RecordUsage :: "'m money \<Rightarrow> time \<Rightarrow> time \<Rightarrow> string \<Rightarrow> string \<Rightarrow> 'm \<Rightarrow> 'm tracker \<Rightarrow> 'm tracker" where
  "RecordUsage mo c1 c2 orgID userID costUSD t = AddSpend mo c1 c2 orgID userID costUSD t"

definition CheckBudget :: "'m money \<Rightarrow> string \<Rightarrow> string \<Rightarrow> 'm tracker \<Rightarrow> goerr option" where
  "CheckBudget mo orgID userID t =
     (let over = (\<lambda>l scope. mo_lt mo (mo_zero mo) l \<and> mo_le mo l (Spend mo scope t));
          exhausted = (\<lambda>kind who scope. Some (ErrNew (kind @ who @ '': monthly budget exhausted ('' @ mo_show mo (Spend mo scope t) @ '' USD spent)'')))
      in if over (li_User (tk_Limits t)) (''user:'' @ userID) then exhausted ''user '' userID (''user:'' @ userID)
         else if over (li_Org (tk_Limits t)) (''org:'' @ orgID) then exhausted ''org '' orgID (''org:'' @ orgID)
         else None)"

section \<open>Rate limiter\<close>

record 'q rate_limits =
  ql_User :: 'q
  ql_Agent :: 'q
  ql_Org :: 'q
  ql_Tool :: 'q

record ('q, 'l) buckets =
  bk_limited :: "'q \<Rightarrow> bool"  \<comment> \<open>\<^verbatim>\<open>qps > 0\<close>\<close>
  bk_New :: "'q \<Rightarrow> 'l"  \<comment> \<open>\<^verbatim>\<open>rate.NewLimiter(rate.Limit(qps), int(qps)+1)\<close>\<close>
  bk_Wait :: "'l \<Rightarrow> goerr option \<times> 'l"

record ('q, 'l) rate_limiter =
  rm_limits :: "'q rate_limits"
  rm_limiters :: "string \<rightharpoonup> 'l"

definition NewRateLimiter :: "'q rate_limits \<Rightarrow> ('q, 'l) rate_limiter" where
  "NewRateLimiter l = \<lparr>rm_limits = l, rm_limiters = Map.empty\<rparr>"

definition limiterFor :: "('q, 'l) buckets \<Rightarrow> string \<Rightarrow> 'q \<Rightarrow> ('q, 'l) rate_limiter \<Rightarrow> 'l \<times> ('q, 'l) rate_limiter" where
  "limiterFor bk key qps r =
     (case rm_limiters r key of
        Some l \<Rightarrow> (l, r)
      | None \<Rightarrow> (bk_New bk qps, r\<lparr>rm_limiters := (rm_limiters r)(key \<mapsto> bk_New bk qps)\<rparr>))"

definition levels :: "('q, 'l) rate_limiter \<Rightarrow> string \<Rightarrow> string \<Rightarrow> string \<Rightarrow> string \<Rightarrow> (string \<times> 'q) list" where
  "levels r orgID userID agentRef tool =
     [(''user:'' @ userID, ql_User (rm_limits r)), (''agent:'' @ agentRef, ql_Agent (rm_limits r)),
      (''org:'' @ orgID, ql_Org (rm_limits r)), (''tool:'' @ tool, ql_Tool (rm_limits r))]"

text \<open>The limiters are shared pointers: a wait changes the one that is filed under the key.\<close>

fun waitLevels :: "('q, 'l) buckets \<Rightarrow> (string \<times> 'q) list \<Rightarrow> ('q, 'l) rate_limiter \<Rightarrow> goerr option \<times> ('q, 'l) rate_limiter" where
  "waitLevels bk [] r = (None, r)"
| "waitLevels bk ((name, qps) # lvs) r =
     (if \<not> bk_limited bk qps then waitLevels bk lvs r
      else
        (case limiterFor bk name qps r of
           (l, r1) \<Rightarrow>
             (case bk_Wait bk l of
                (Some err, l') \<Rightarrow>
                  (Some (ErrWrap (''rate limited at '' @ hd (SplitN CHR '':'' 2 name) @ '' level: '' @ errText err) err),
                   r1\<lparr>rm_limiters := (rm_limiters r1)(name \<mapsto> l')\<rparr>)
              | (None, l') \<Rightarrow> waitLevels bk lvs (r1\<lparr>rm_limiters := (rm_limiters r1)(name \<mapsto> l')\<rparr>))))"

definition Allow ::
  "('q, 'l) buckets \<Rightarrow> string \<Rightarrow> string \<Rightarrow> string \<Rightarrow> string \<Rightarrow> ('q, 'l) rate_limiter \<Rightarrow> goerr option \<times> ('q, 'l) rate_limiter" where
  "Allow bk orgID userID agentRef tool r = waitLevels bk (levels r orgID userID agentRef tool) r"

section \<open>Facts about tracking\<close>

lemma scopes_differ [simp]: "''user:'' @ u \<noteq> ''org:'' @ v" "''org:'' @ v \<noteq> ''user:'' @ u"
  by simp_all

lemma addLocked_simps [simp]:
  "tk_Limits (addLocked mo c scope usd t) = tk_Limits t"
  "Spend mo s (addLocked mo c scope usd t) = (if s = scope then mo_add mo (Spend mo scope t) usd else Spend mo s t)"
  "scopeLimit mo s (addLocked mo c scope usd t) = scopeLimit mo s t"
  by (auto simp: addLocked_def Let_def Spend_def scopeLimit_def split: option.splits)

text \<open>The tracker fed by any sequence of spends.\<close>

inductive spendStep :: "'m money \<Rightarrow> 'm tracker \<Rightarrow> 'm \<Rightarrow> 'm tracker \<Rightarrow> bool" for mo where
  spend_added: "spendStep mo t usd (AddSpend mo c1 c2 orgID userID usd t)"

definition alertsInv :: "'m tracker \<Rightarrow> bool" where
  "alertsInv t \<longleftrightarrow>
     (\<forall>fired. tk_Alerter t = Some fired \<longrightarrow>
        distinct (map at_Scope fired) \<and> (\<forall>s. tk_alerted t s \<longleftrightarrow> s \<in> at_Scope ` set fired))"

lemma addLocked_alerts: "alertsInv t \<Longrightarrow> alertsInv (addLocked mo c scope usd t)"
  by (auto simp: alertsInv_def addLocked_def Let_def split: option.splits)

interpretation tk: transition_system "\<lambda>t. \<exists>l. t = NewTracker l (Some [])" "spendStep mo" alertsInv for mo
proof (unfold_locales, goal_cases)
  case (1 s)
  then show ?case by (auto simp: alertsInv_def NewTracker_def)
next
  case (2 s e t)
  from 2(2,1) show ?case by cases (simp add: AddSpend_def addLocked_alerts)
qed

text \<open>Arithmetic without rounding, on which adding a non-negative amount never lowers a sum.\<close>

definition exact_money :: "'m money \<Rightarrow> bool" where
  "exact_money mo \<longleftrightarrow>
     (\<forall>a b. mo_sub mo (mo_add mo a b) b = a) \<and> (\<forall>a b. mo_lt mo a b \<longleftrightarrow> \<not> mo_le mo b a) \<and>
     (\<forall>a b c. mo_le mo a b \<longrightarrow> mo_le mo b c \<longrightarrow> mo_le mo a c) \<and>
     (\<forall>a b. mo_le mo (mo_zero mo) b \<longrightarrow> mo_le mo a (mo_add mo a b)) \<and>
     (\<forall>l. mo_lt mo (mo_zero mo) l \<longrightarrow> mo_lt mo (mo_zero mo) (mo_p80 mo l))"

definition alertsExact :: "'m money \<Rightarrow> 'm tracker \<Rightarrow> bool" where
  "alertsExact mo t \<longleftrightarrow>
     tk_Alerter t \<noteq> None \<and>
     (\<forall>s. mo_lt mo (mo_zero mo) (scopeLimit mo s t) \<longrightarrow>
        (tk_alerted t s \<longleftrightarrow> mo_le mo (mo_p80 mo (scopeLimit mo s t)) (Spend mo s t)))"

lemma addLocked_exact:
  assumes "exact_money mo" and "mo_le mo (mo_zero mo) usd" and "alertsExact mo t"
  shows "alertsExact mo (addLocked mo c scope usd t)"
proof -
  let ?t = "addLocked mo c scope usd t" and ?L = "scopeLimit mo scope t"
  let ?now = "mo_add mo (Spend mo scope t) usd"
  note ex = assms(1) [unfolded exact_money_def]
  obtain fired where f: "tk_Alerter t = Some fired" using assms(3) by (auto simp: alertsExact_def)
  have L: "scopeLimit mo scope (t\<lparr>tk_spend := m\<rparr>) = ?L" "Spend mo scope (t\<lparr>tk_spend := (tk_spend t)(scope \<mapsto> x)\<rparr>) = x" for m x
    by (simp_all add: scopeLimit_def Spend_def)
  have "tk_alerted ?t s = tk_alerted t s" if "s \<noteq> scope" for s
    using that f by (simp add: addLocked_def Let_def)
  moreover have "tk_alerted ?t scope \<longleftrightarrow> mo_le mo (mo_p80 mo ?L) ?now" if pos: "mo_lt mo (mo_zero mo) ?L"
  proof -
    from pos assms(3) have old: "tk_alerted t scope \<longleftrightarrow> mo_le mo (mo_p80 mo ?L) (Spend mo scope t)"
      by (simp add: alertsExact_def)
    have np: "\<not> mo_le mo ?L (mo_zero mo)" using ex pos by blast
    have mono: "mo_le mo (mo_p80 mo ?L) (Spend mo scope t) \<Longrightarrow> mo_le mo (mo_p80 mo ?L) ?now"
      using ex assms(2) by blast
    have prev: "mo_sub mo ?now usd = Spend mo scope t" using ex by blast
    have lt: "mo_lt mo (Spend mo scope t) (mo_p80 mo ?L) \<longleftrightarrow> \<not> mo_le mo (mo_p80 mo ?L) (Spend mo scope t)"
      using ex by blast
    show ?thesis
      using f old np mono by (simp add: addLocked_def Let_def L prev lt)
  qed
  moreover have "tk_Alerter ?t \<noteq> None" using f by (simp add: addLocked_def Let_def)
  ultimately show ?thesis using assms(3) by (auto simp: alertsExact_def)
qed

interpretation tx: transition_system
    "\<lambda>t. \<exists>l. t = NewTracker l (Some [])"
    "\<lambda>t usd t'. mo_le mo (mo_zero mo) usd \<and> spendStep mo t usd t'"
    "\<lambda>t. exact_money mo \<longrightarrow> alertsExact mo t" for mo
proof (unfold_locales, goal_cases)
  case (1 s)
  then obtain l where s: "s = NewTracker l (Some [])" by blast
  show ?case
  proof
    assume ex: "exact_money mo"
    have "\<not> mo_le mo (mo_p80 mo L) (mo_zero mo)" if "mo_lt mo (mo_zero mo) L" for L
      using ex that unfolding exact_money_def by blast
    then show "alertsExact mo s" by (auto simp: s alertsExact_def NewTracker_def Spend_def)
  qed
next
  case (2 s e t)
  from 2(2) have "mo_le mo (mo_zero mo) e" "spendStep mo s e t" by simp_all
  from this(2,1) 2(1) show ?case by cases (simp add: AddSpend_def addLocked_exact)
qed

section \<open>Facts about rate limiting\<close>

definition bucket :: "('q, 'l) buckets \<Rightarrow> ('q, 'l) rate_limiter \<Rightarrow> string \<Rightarrow> 'q \<Rightarrow> 'l" where
  "bucket bk r name qps = (case rm_limiters r name of Some l \<Rightarrow> l | None \<Rightarrow> bk_New bk qps)"

definition admits :: "('q, 'l) buckets \<Rightarrow> ('q, 'l) rate_limiter \<Rightarrow> string \<times> 'q \<Rightarrow> bool" where
  "admits bk r lv \<longleftrightarrow> (case lv of (name, qps) \<Rightarrow> bk_limited bk qps \<longrightarrow> fst (bk_Wait bk (bucket bk r name qps)) = None)"

definition tookFrom :: "('q, 'l) buckets \<Rightarrow> string \<Rightarrow> 'q \<Rightarrow> ('q, 'l) rate_limiter \<Rightarrow> ('q, 'l) rate_limiter" where
  "tookFrom bk name qps r = r\<lparr>rm_limiters := (rm_limiters r)(name \<mapsto> snd (bk_Wait bk (bucket bk r name qps)))\<rparr>"

lemma waitLevels_Cons:
  "waitLevels bk ((name, qps) # lvs) r =
     (if \<not> bk_limited bk qps then waitLevels bk lvs r
      else if admits bk r (name, qps) then waitLevels bk lvs (tookFrom bk name qps r)
      else (Some (ErrWrap (''rate limited at '' @ hd (SplitN CHR '':'' 2 name) @ '' level: ''
              @ errText (the (fst (bk_Wait bk (bucket bk r name qps))))) (the (fst (bk_Wait bk (bucket bk r name qps))))),
            tookFrom bk name qps r))"
  by (auto simp: limiterFor_def admits_def tookFrom_def bucket_def split: option.splits prod.splits)

lemma bucket_tookFrom: "n \<noteq> name \<Longrightarrow> bucket bk (tookFrom bk name qps r) n q = bucket bk r n q"
  by (simp add: bucket_def tookFrom_def)

lemma admits_tookFrom: "fst lv \<noteq> name \<Longrightarrow> admits bk (tookFrom bk name qps r) lv = admits bk r lv"
  by (cases lv) (simp add: admits_def bucket_tookFrom)

lemma admits_tookFrom_all:
  assumes "name \<notin> fst ` set lvs"
  shows "(\<forall>l \<in> set lvs. admits bk (tookFrom bk name qps r) l) \<longleftrightarrow> (\<forall>l \<in> set lvs. admits bk r l)"
proof -
  have "fst l \<noteq> name" if "l \<in> set lvs" for l using assms that by blast
  then show ?thesis by (simp add: admits_tookFrom)
qed

lemma waitLevels_frame:
  "n \<notin> fst ` set lvs \<Longrightarrow> rm_limiters (snd (waitLevels bk lvs r)) n = rm_limiters r n"
proof (induction lvs arbitrary: r)
  case (Cons lv lvs)
  then show ?case by (cases lv) (simp add: waitLevels_Cons tookFrom_def del: waitLevels.simps)
qed simp

lemma waitLevels_iff:
  "distinct (map fst lvs) \<Longrightarrow> fst (waitLevels bk lvs r) = None \<longleftrightarrow> (\<forall>lv \<in> set lvs. admits bk r lv)"
proof (induction lvs arbitrary: r)
  case (Cons lv lvs)
  obtain name qps where lv: "lv = (name, qps)" by force
  have "(\<forall>l \<in> set lvs. admits bk (tookFrom bk name qps r) l) \<longleftrightarrow> (\<forall>l \<in> set lvs. admits bk r l)"
    using Cons.prems lv by (intro admits_tookFrom_all) simp
  moreover have "\<not> bk_limited bk qps \<Longrightarrow> admits bk r lv" by (simp add: admits_def lv)
  ultimately show ?case using Cons lv by (auto simp: waitLevels_Cons simp del: waitLevels.simps)
qed simp

lemma waitLevels_takes:
  assumes "distinct (map fst lvs)" and "lvs = pre @ (name, qps) # post" and "\<forall>lv \<in> set pre. admits bk r lv"
    and "bk_limited bk qps"
  shows "rm_limiters (snd (waitLevels bk lvs r)) name = Some (snd (bk_Wait bk (bucket bk r name qps)))"
  using assms
proof (induction lvs arbitrary: r pre)
  case (Cons lv lvs)
  show ?case
  proof (cases pre)
    case Nil
    with Cons.prems have lv: "lv = (name, qps)" "name \<notin> fst ` set lvs" by auto
    with Cons.prems(4) show ?thesis
      by (simp add: waitLevels_Cons waitLevels_frame del: waitLevels.simps) (simp add: tookFrom_def)
  next
    case (Cons lv' pre')
    obtain n q where n: "lv = (n, q)" by force
    with Cons.prems Cons have q: "lvs = pre' @ (name, qps) # post" "n \<noteq> name" "admits bk r (n, q)"
      "n \<notin> fst ` set pre'" "\<forall>l \<in> set pre'. admits bk r l"
      by auto
    from q(5) have "\<forall>l \<in> set pre'. admits bk (tookFrom bk n q r) l" unfolding admits_tookFrom_all [OF q(4)] .
    note p = q(1-3) this q(5)
    from Cons.IH [OF _ p(1,4)] Cons.IH [OF _ p(1,5)] Cons.prems(1,4) p(2,3) n show ?thesis
      by (simp add: waitLevels_Cons bucket_tookFrom [OF p(2) [symmetric]] del: waitLevels.simps)
  qed
qed simp

lemma CheckBudget_None_iff:
  "CheckBudget mo orgID userID t = None \<longleftrightarrow>
     \<not> (mo_lt mo (mo_zero mo) (li_User (tk_Limits t)) \<and> mo_le mo (li_User (tk_Limits t)) (Spend mo (''user:'' @ userID) t)) \<and>
     \<not> (mo_lt mo (mo_zero mo) (li_Org (tk_Limits t)) \<and> mo_le mo (li_Org (tk_Limits t)) (Spend mo (''org:'' @ orgID) t))"
  unfolding CheckBudget_def Let_def by (simp split: if_split)

lemma reach_weaken:
  "reach i (\<lambda>t e t'. P t e \<and> step t e t') t \<Longrightarrow> reach i step t"
  by (induction rule: reach.induct) (auto intro: reach.intros)

section \<open>Properties\<close>


definition exMoney :: "int money" where
  "exMoney = \<lparr>mo_zero = 0, mo_add = (+), mo_sub = (-), mo_p80 = (\<lambda>x. (x * 4 + 4) div 5), mo_le = (\<le>), mo_lt = (<), mo_show = showInt\<rparr>"

lemma ex_exact: "exact_money exMoney"
  unfolding exact_money_def exMoney_def by auto

definition exTracker :: "int tracker" where
  "exTracker = AddSpend exMoney 0 0 ''o'' ''u'' 9 (NewTracker \<lparr>li_User = 10, li_Org = 100\<rparr> (Some []))"


text \<open>
  A call passes the rate limiter exactly when the bucket of each limited level admits it.  Every
  level that is asked takes its token, also when a later level refuses the call.
\<close>

theorem allow_every_level:
  "(fst (Allow bk orgID userID agentRef tool r) = None \<longleftrightarrow>
      (\<forall>lv \<in> set (levels r orgID userID agentRef tool). admits bk r lv)) \<and>
   (\<forall>pre name qps post. levels r orgID userID agentRef tool = pre @ (name, qps) # post \<and> bk_limited bk qps \<and>
      (\<forall>lv \<in> set pre. admits bk r lv) \<longrightarrow>
      rm_limiters (snd (Allow bk orgID userID agentRef tool r)) name = Some (snd (bk_Wait bk (bucket bk r name qps))))"
proof -
  have d: "distinct (map fst (levels r orgID userID agentRef tool))" by (simp add: levels_def)
  show ?thesis
    unfolding Allow_def by (intro conjI allI impI waitLevels_iff [OF d]) (elim conjE, rule waitLevels_takes [OF d])
qed

definition exBuckets :: "(nat, nat) buckets" where
  "exBuckets = \<lparr>bk_limited = (\<lambda>q. q > 0), bk_New = (\<lambda>q. q), bk_Wait = (\<lambda>l. if l = 0 then (Some (ErrNew ''empty''), 0) else (None, l - 1))\<rparr>"

definition exLimiter :: "(nat, nat) rate_limiter" where
  "exLimiter = (NewRateLimiter \<lparr>ql_User = 5, ql_Agent = 0, ql_Org = 3, ql_Tool = 0\<rparr>)\<lparr>rm_limiters := [''org:o'' \<mapsto> 0]\<rparr>"

theorem allow_every_level_witness:
  "fst (Allow exBuckets ''o'' ''u'' ''a'' ''t'' exLimiter) \<noteq> None \<and>
   rm_limiters (snd (Allow exBuckets ''o'' ''u'' ''a'' ''t'' exLimiter)) ''user:u'' = Some 4"
proof -
  note al = allow_every_level [of exBuckets "''o''" "''u''" "''a''" "''t''" exLimiter]
  have lv: "levels exLimiter ''o'' ''u'' ''a'' ''t'' = [] @ (''user:u'', 5) # [(''agent:a'', 0), (''org:o'', 3), (''tool:t'', 0)]"
    by (simp add: levels_def exLimiter_def NewRateLimiter_def)
  have "\<not> admits exBuckets exLimiter (''org:o'', 3)"
    by (simp add: admits_def exBuckets_def bucket_def exLimiter_def)
  moreover have "snd (bk_Wait exBuckets (bucket exBuckets exLimiter ''user:u'' 5)) = 4" "bk_limited exBuckets 5"
    by (simp_all add: exBuckets_def bucket_def exLimiter_def NewRateLimiter_def)
  ultimately show ?thesis
    using al [THEN conjunct1] al [THEN conjunct2, rule_format, of "[]" "''user:u''" 5] lv by force
qed

end
