(* ===== verification/Conformance.thy ===== *)
theory Conformance
  imports Prelude
begin

text \<open>
  \<^verbatim>\<open>conformance/framework.go\<close>: the bookkeeping of the checks that tie tests to normative statements.  Tests run in parallel;
  each critical section of the package's mutex is a step.
\<close>

section \<open>Checks\<close>

record check =
  ck_ID :: string
  ck_Spec :: string
  ck_Text :: string

record suite =
  su_all :: "check list"
  su_passed :: "string \<Rightarrow> bool"

definition emptySuite :: suite where
  "emptySuite = \<lparr>su_all = [], su_passed = (\<lambda>_. False)\<rparr>"

text \<open>A panic is the value \<^const>\<open>Inl\<close> of its message.\<close>

definition register :: "check \<Rightarrow> suite \<Rightarrow> string + suite" where
  "register c s =
     (if list_ex (\<lambda>existing. ck_ID existing = ck_ID c) (su_all s) then Inl (''duplicate conformance check ID '' @ ck_ID c)
      else Inr (s\<lparr>su_all := su_all s @ [c]\<rparr>))"

definition skipMessage :: "check \<Rightarrow> string" where
  "skipMessage c = ''PENDING '' @ ck_ID c @ '' ('' @ ck_Spec c @ ''): '' @ ck_Text c"

datatype test_end = Panicked string | Skipped string | Returned

definition Pending :: "check \<Rightarrow> suite \<Rightarrow> test_end \<times> suite" where
  "Pending c s = (case register c s of Inl m \<Rightarrow> (Panicked m, s) | Inr s' \<Rightarrow> (Skipped (skipMessage c), s'))"

text \<open>\<^verbatim>\<open>Pass\<close> takes the mutex twice: to register, and to mark the check.\<close>

definition markPassed :: "check \<Rightarrow> suite \<Rightarrow> suite" where
  "markPassed c s = s\<lparr>su_passed := (su_passed s)(ck_ID c := True)\<rparr>"

definition Pass :: "check \<Rightarrow> suite \<Rightarrow> test_end \<times> suite" where
  "Pass c s = (case register c s of Inl m \<Rightarrow> (Panicked m, s) | Inr s' \<Rightarrow> (Returned, markPassed c s'))"

section \<open>Tests in parallel\<close>

text \<open>The suite, the checks skipped as pending, and the calls of \<^verbatim>\<open>Pass\<close> between their two sections.\<close>

record test_run =
  tr_suite :: suite
  tr_skipped :: "check list"
  tr_marking :: "check list"

inductive testStep :: "test_run \<Rightarrow> check \<Rightarrow> test_run \<Rightarrow> bool" where
  skip: "Pending c (tr_suite r) = (Skipped m, s) \<Longrightarrow> testStep r c (r\<lparr>tr_suite := s, tr_skipped := c # tr_skipped r\<rparr>)"
| begin_pass: "register c (tr_suite r) = Inr s \<Longrightarrow> testStep r c (r\<lparr>tr_suite := s, tr_marking := c # tr_marking r\<rparr>)"
| end_pass: "c \<in> set (tr_marking r) \<Longrightarrow> testStep r c (r\<lparr>tr_suite := markPassed c (tr_suite r), tr_marking := remove1 c (tr_marking r)\<rparr>)"

definition testInit :: "test_run \<Rightarrow> bool" where
  "testInit r \<longleftrightarrow> r = \<lparr>tr_suite = emptySuite, tr_skipped = [], tr_marking = []\<rparr>"

definition testInv :: "test_run \<Rightarrow> bool" where
  "testInv r \<longleftrightarrow>
     distinct (map ck_ID (su_all (tr_suite r))) \<and>
     set (tr_skipped r) \<union> set (tr_marking r) \<subseteq> set (su_all (tr_suite r)) \<and> set (tr_skipped r) \<inter> set (tr_marking r) = {} \<and>
     (\<forall>i. su_passed (tr_suite r) i \<longrightarrow> (\<exists>c \<in> set (su_all (tr_suite r)) - set (tr_skipped r). ck_ID c = i))"

lemma register_Inr:
  "register c s = Inr s' \<longleftrightarrow> (\<forall>d \<in> set (su_all s). ck_ID d \<noteq> ck_ID c) \<and> s' = s\<lparr>su_all := su_all s @ [c]\<rparr>"
  by (auto simp: register_def list_ex_iff)

lemma Pending_Skipped: "Pending c s = (Skipped m, s') \<longleftrightarrow> register c s = Inr s' \<and> m = skipMessage c"
  by (auto simp: Pending_def split: sum.splits)

lemma fresh_check: "register c s = Inr s' \<Longrightarrow> c \<notin> set (su_all s)"
  by (auto simp: register_Inr)

interpretation cf: transition_system testInit testStep testInv
proof (unfold_locales, goal_cases)
  case (1 r)
  then show ?case by (simp add: testInit_def testInv_def emptySuite_def)
next
  case (2 r c r')
  note inv = 2(1) [unfolded testInv_def]
  from 2(2) show ?case
  proof cases
    case (skip m s)
    then have s: "register c (tr_suite r) = Inr s" by (simp add: Pending_Skipped)
    have "c \<notin> set (su_all (tr_suite r))" by (rule fresh_check [OF s])
    with inv s show ?thesis unfolding skip(1) by (auto simp: testInv_def register_Inr)
  next
    case (begin_pass s)
    have "c \<notin> set (su_all (tr_suite r))" by (rule fresh_check [OF begin_pass(2)])
    with inv begin_pass(2) show ?thesis unfolding begin_pass(1) by (auto simp: testInv_def register_Inr)
  next
    case end_pass
    have "c \<notin> set (tr_skipped r)" "c \<in> set (su_all (tr_suite r))" using inv end_pass(2) by auto
    with inv show ?thesis unfolding end_pass(1) using set_remove1_subset [of c "tr_marking r"] by (auto simp: testInv_def markPassed_def)
  qed
qed

text \<open>
  However the tests interleave, a check that counts as passed was registered, once, and not as pending: no second test can
  use its ID without a panic.
\<close>

theorem passed_checks_are_real:
  assumes "reach testInit testStep r" and "su_passed (tr_suite r) i"
  shows "(\<exists>!c. c \<in> set (su_all (tr_suite r)) \<and> ck_ID c = i) \<and> (\<forall>c \<in> set (tr_skipped r). ck_ID c \<noteq> i) \<and>
    (ck_ID c' = i \<longrightarrow> fst (Pass c' (tr_suite r)) = Panicked (''duplicate conformance check ID '' @ i) \<and>
       fst (Pending c' (tr_suite r)) = Panicked (''duplicate conformance check ID '' @ i))"
proof -
  have inv: "testInv r" by (rule cf.reach_inv [OF assms(1)])
  obtain c where c: "c \<in> set (su_all (tr_suite r))" "c \<notin> set (tr_skipped r)" "ck_ID c = i" using inv assms(2) by (auto simp: testInv_def)
  have uniq: "d = c" if "d \<in> set (su_all (tr_suite r))" "ck_ID d = i" for d
    using inv c that by (auto simp: testInv_def distinct_map inj_on_def)
  have "ck_ID d \<noteq> i" if "d \<in> set (tr_skipped r)" for d
    using uniq [of d] c(2) that inv by (auto simp: testInv_def)
  moreover have "register c' (tr_suite r) = Inl (''duplicate conformance check ID '' @ i)" if "ck_ID c' = i"
    using c that by (auto simp: register_def list_ex_iff)
  moreover have "\<exists>!c. c \<in> set (su_all (tr_suite r)) \<and> ck_ID c = i" 
    by (rule ex1I [of _ c]) (use c in blast, use uniq in blast)
  moreover have "fst (Pass c' s) = Panicked m" "fst (Pending c' s) = Panicked m" if "register c' s = Inl m" for s m
    using that by (simp_all add: Pass_def Pending_def)
  ultimately show ?thesis by blast
qed

text \<open>A run of \<^verbatim>\<open>Pass\<close> without interference is its two steps.\<close>

lemma Pass_is_two_steps:
  assumes "Pass c (tr_suite r) = (Returned, s)"
  shows "\<exists>r1. testStep r c r1 \<and> testStep r1 c (r\<lparr>tr_suite := s\<rparr>)"
proof -
  obtain s1 where s1: "register c (tr_suite r) = Inr s1" "s = markPassed c s1" using assms by (auto simp: Pass_def split: sum.splits)
  let ?r1 = "r\<lparr>tr_suite := s1, tr_marking := c # tr_marking r\<rparr>"
  have "testStep ?r1 c (?r1\<lparr>tr_suite := markPassed c (tr_suite ?r1), tr_marking := remove1 c (tr_marking ?r1)\<rparr>)" by (rule testStep.end_pass) simp
  with testStep.begin_pass [OF s1(1)] s1(2) show ?thesis by (intro exI [of _ ?r1]) simp
qed

end
