(* ===== verification/Grants.thy ===== *)
theory Grants
  imports AuditLog
begin

text \<open>
  \<^verbatim>\<open>internal/grants\<close>: the permission ledger (consent requests, grants with consent evidence,
  revocation, active scopes) over its two tables and the audit log, and the scope cache of the
  gateways.  Each transaction is one step: the row lock of \<^verbatim>\<open>SELECT ... FOR UPDATE\<close> serialises
  decisions on one request.  A transaction that does not commit leaves the tables as they were;
  only the identity values its audit inserts took are lost.
\<close>

section \<open>Data\<close>

record consent_request =
  cr_ID :: string
  cr_OrgID :: string
  cr_UserID :: string
  cr_Resource :: string
  cr_Scope :: string
  cr_Status :: string
  cr_DecidedAt :: "time option"
  cr_DecidedBy :: "string option"

text \<open>The consent record is the pair of its two JSON members, request id and deciding actor.\<close>

record grant =
  gr_ID :: string
  gr_OrgID :: string
  gr_UserID :: string
  gr_Resource :: string
  gr_Scope :: string
  gr_Expiry :: "time option"
  gr_RevokedAt :: "time option"
  gr_CreatedAt :: time
  gr_Consent :: "string \<times> string"

record ledger =
  lg_requests :: "consent_request list"
  lg_grants :: "grant list"
  lg_audit :: audit_log

definition ErrNotFound :: goerr where "ErrNotFound = ErrNew ''not found''"

definition ErrAlreadyDecided :: goerr where
  "ErrAlreadyDecided = ErrNew ''consent request already decided''"

definition rollback :: "ledger \<Rightarrow> audit_log \<Rightarrow> ledger" where
  "rollback s al = s\<lparr>lg_audit := (lg_audit s)\<lparr>al_next := al_next al\<rparr>\<rparr>"

section \<open>Operations of the store\<close>

definition audit ::
  "(string \<Rightarrow> string) \<Rightarrow> time \<Rightarrow> goerr option \<Rightarrow> string \<Rightarrow> string \<Rightarrow> string \<Rightarrow> string \<Rightarrow> string
   \<Rightarrow> audit_log \<Rightarrow> goerr option \<times> audit_log" where
  "audit H now fault actor action resource dec reason al =
     auditWrite H now fault actor action resource dec reason al"

definition RequestConsent ::
  "string \<Rightarrow> goerr option \<Rightarrow> string \<Rightarrow> string \<Rightarrow> string \<Rightarrow> string \<Rightarrow> ledger \<Rightarrow> consent_request result \<times> ledger" where
  "RequestConsent newID fault orgID userID resource scope s =
     (case fault of
        Some e \<Rightarrow> (Inl e, s)
      | None \<Rightarrow>
          if newID \<in> cr_ID ` set (lg_requests s) then (Inl ErrDuplicateKey, s)
          else
            (let r = \<lparr>cr_ID = newID, cr_OrgID = orgID, cr_UserID = userID, cr_Resource = resource,
                      cr_Scope = scope, cr_Status = ''pending'', cr_DecidedAt = None, cr_DecidedBy = None\<rparr>
             in (Inr r, s\<lparr>lg_requests := lg_requests s @ [r]\<rparr>)))"

definition decideRow :: "time \<Rightarrow> string \<Rightarrow> string \<Rightarrow> consent_request \<Rightarrow> consent_request" where
  "decideRow now newStatus decidedBy r =
     r\<lparr>cr_Status := newStatus, cr_DecidedAt := Some now, cr_DecidedBy := Some decidedBy\<rparr>"

definition newGrant :: "time \<Rightarrow> string \<Rightarrow> string \<Rightarrow> consent_request \<Rightarrow> string \<Rightarrow> string \<Rightarrow> grant" where
  "newGrant now newID orgID r reqID decidedBy =
     \<lparr>gr_ID = newID, gr_OrgID = orgID, gr_UserID = cr_UserID r, gr_Resource = cr_Resource r,
      gr_Scope = cr_Scope r, gr_Expiry = None, gr_RevokedAt = None, gr_CreatedAt = now,
      gr_Consent = (reqID, decidedBy)\<rparr>"

definition DecideConsent ::
  "(string \<Rightarrow> string) \<Rightarrow> time \<Rightarrow> string \<Rightarrow> faults \<Rightarrow> string \<Rightarrow> string \<Rightarrow> bool \<Rightarrow> string
   \<Rightarrow> ledger \<Rightarrow> grant option result \<times> ledger" where
  "DecideConsent H now newID fault orgID reqID approved decidedBy s =
     (case fault 0 of
        Some e \<Rightarrow> (Inl e, s)
      | None \<Rightarrow>
     (case queryRow (fault 1) (find (\<lambda>r. cr_ID r = reqID \<and> cr_OrgID r = orgID) (lg_requests s)) of
        Inl e \<Rightarrow> (Inl (if errorsIs e ErrNoRows then ErrNotFound else e), s)
      | Inr r \<Rightarrow>
     (if cr_Status r \<noteq> ''pending'' then (Inl ErrAlreadyDecided, s)
      else
     (let newStatus = (if approved then ''approved'' else ''denied'');
          action = (if approved then ''consent.approve'' else ''consent.deny'');
          resource = cr_Resource r @ '':'' @ cr_Scope r;
          s1 = s\<lparr>lg_requests := map (\<lambda>x. if cr_ID x = reqID then decideRow now newStatus decidedBy x else x)
                                 (lg_requests s)\<rparr>
      in
     (case fault 2 of
        Some e \<Rightarrow> (Inl e, s)
      | None \<Rightarrow>
     (case audit H now (fault 3) decidedBy action resource newStatus (''request='' @ reqID) (lg_audit s1) of
        (Some e, al) \<Rightarrow> (Inl e, rollback s al)
      | (None, al) \<Rightarrow>
     (if \<not> approved then
        (case fault 4 of
           Some e \<Rightarrow> (Inl e, rollback s al)
         | None \<Rightarrow> (Inr None, s1\<lparr>lg_audit := al\<rparr>))
      else
     (case (if newID \<in> gr_ID ` set (lg_grants s1) then Some ErrDuplicateKey else fault 5) of
        Some e \<Rightarrow> (Inl e, rollback s al)
      | None \<Rightarrow>
     (let g = newGrant now newID orgID r reqID decidedBy;
          s2 = s1\<lparr>lg_grants := lg_grants s1 @ [g]\<rparr>
      in
     (case audit H now (fault 6) decidedBy ''grant.create'' resource ''allow'' (''grant='' @ gr_ID g) al of
        (Some e, al2) \<Rightarrow> (Inl e, rollback s al2)
      | (None, al2) \<Rightarrow>
     (case fault 7 of
        Some e \<Rightarrow> (Inl e, rollback s al2)
      | None \<Rightarrow> (Inr (Some g), s2\<lparr>lg_audit := al2\<rparr>))))))))))))"

definition revocable :: "string \<Rightarrow> string \<Rightarrow> grant \<Rightarrow> bool" where
  "revocable orgID grantID g \<longleftrightarrow> gr_ID g = grantID \<and> gr_OrgID g = orgID \<and> gr_RevokedAt g = None"

definition revokeRow :: "time \<Rightarrow> string \<Rightarrow> string \<Rightarrow> grant \<Rightarrow> grant" where
  "revokeRow now orgID grantID g =
     (if revocable orgID grantID g then g\<lparr>gr_RevokedAt := Some now\<rparr> else g)"

definition Revoke ::
  "(string \<Rightarrow> string) \<Rightarrow> time \<Rightarrow> faults \<Rightarrow> string \<Rightarrow> string \<Rightarrow> string \<Rightarrow> ledger \<Rightarrow> goerr option \<times> ledger" where
  "Revoke H now fault orgID grantID actor s =
     (case fault 0 of
        Some e \<Rightarrow> (Some e, s)
      | None \<Rightarrow>
     (case fault 1 of
        Some e \<Rightarrow> (Some e, s)
      | None \<Rightarrow>
     (let n = length (filter (revocable orgID grantID) (lg_grants s));
          s1 = s\<lparr>lg_grants := map (revokeRow now orgID grantID) (lg_grants s)\<rparr>
      in
     (if n = 0 then (Some ErrNotFound, s)
      else
     (case audit H now (fault 2) actor ''grant.revoke'' grantID ''deny'' ''user revocation'' (lg_audit s1) of
        (Some e, al) \<Rightarrow> (Some e, rollback s al)
      | (None, al) \<Rightarrow>
     (case fault 3 of
        Some e \<Rightarrow> (Some e, rollback s al)
      | None \<Rightarrow> (None, s1\<lparr>lg_audit := al\<rparr>)))))))"

definition active :: "time \<Rightarrow> grant \<Rightarrow> bool" where
  "active now g \<longleftrightarrow>
     gr_RevokedAt g = None \<and> (case gr_Expiry g of None \<Rightarrow> True | Some t \<Rightarrow> t > now)"

definition ActiveScopes :: "time \<Rightarrow> rows_io \<Rightarrow> string \<Rightarrow> string \<Rightarrow> ledger \<Rightarrow> string list result" where
  "ActiveScopes now io orgID userID s =
     queryRows io (remdups (map gr_Scope
       (filter (\<lambda>g. gr_OrgID g = orgID \<and> gr_UserID g = userID \<and> active now g) (lg_grants s))))"

lemma ActiveScopes_Inr:
  "ActiveScopes now io org user s = Inr scopes \<Longrightarrow>
   set scopes = gr_Scope ` {g \<in> set (lg_grants s). gr_OrgID g = org \<and> gr_UserID g = user \<and> active now g}"
  unfolding ActiveScopes_def by (drule queryRows_Inr) simp

section \<open>What each transaction can do\<close>

text \<open>A transaction that did not commit: same rows everywhere, ids possibly used up.\<close>

definition sameRows :: "ledger \<Rightarrow> ledger \<Rightarrow> bool" where
  "sameRows s t \<longleftrightarrow>
     lg_requests t = lg_requests s \<and> lg_grants t = lg_grants s \<and>
     al_rows (lg_audit t) = al_rows (lg_audit s) \<and> al_next (lg_audit s) \<le> al_next (lg_audit t)"

lemma sameRows_refl [simp]: "sameRows s s"
  by (simp add: sameRows_def)

lemma audit_next [simp]: "al_next (snd (audit H now None a b c d r al)) = al_next al + 1"
  by (simp add: audit_def auditWrite_def Let_def)

lemma audit_Some [simp]: "audit H now f a b c d e al = (Some err, al') \<longleftrightarrow> f = Some err \<and> al' = al"
  by (auto simp: audit_def auditWrite_def Let_def split: option.splits)

lemma sameRows_rollback: "al_next (lg_audit s) \<le> al_next al \<Longrightarrow> sameRows s (rollback s al)"
  by (simp add: sameRows_def rollback_def)

lemma audit_inv: "auditInv H al \<Longrightarrow> audit H now fault a b c d r al = (e, al') \<Longrightarrow> auditInv H al'"
  by (simp add: audit_def auditWrite_inv)

text \<open>The request as the decision leaves it.\<close>

definition decideRows :: "time \<Rightarrow> string \<Rightarrow> string \<Rightarrow> string \<Rightarrow> consent_request list \<Rightarrow> consent_request list" where
  "decideRows now reqID st decidedBy =
     map (\<lambda>x. if cr_ID x = reqID then decideRow now st decidedBy x else x)"

lemma audit_None [simp]:
  "audit H now f a b c d e al = (None, al') \<longleftrightarrow> f = None \<and> al' = snd (audit H now None a b c d e al)"
  by (auto simp: audit_def auditWrite_def Let_def split: option.splits)

lemma DecideConsent_Inl:
  assumes "DecideConsent H now newID fault orgID reqID approved decidedBy s = (Inl err, t)"
  shows "sameRows s t"
  using assms unfolding DecideConsent_def Let_def
  by (auto split: option.splits sum.splits if_splits prod.splits intro!: sameRows_rollback)

lemma DecideConsent_cases:
  assumes "DecideConsent H now newID fault orgID reqID approved decidedBy s = (r, t)"
  obtains (failed) err where "r = Inl err" "sameRows s t"
  | (denied) req where "\<not> approved" "r = Inr None"
      "find (\<lambda>r. cr_ID r = reqID \<and> cr_OrgID r = orgID) (lg_requests s) = Some req"
      "cr_Status req = ''pending''" "lg_requests t = decideRows now reqID ''denied'' decidedBy (lg_requests s)"
      "lg_grants t = lg_grants s"
      "audit H now None decidedBy ''consent.deny'' (cr_Resource req @ '':'' @ cr_Scope req) ''denied''
         (''request='' @ reqID) (lg_audit s) = (None, lg_audit t)"
  | (granted) req g al where "approved" "r = Inr (Some g)"
      "find (\<lambda>r. cr_ID r = reqID \<and> cr_OrgID r = orgID) (lg_requests s) = Some req"
      "cr_Status req = ''pending''" "lg_requests t = decideRows now reqID ''approved'' decidedBy (lg_requests s)"
      "newID \<notin> gr_ID ` set (lg_grants s)" "g = newGrant now newID orgID req reqID decidedBy"
      "lg_grants t = lg_grants s @ [g]"
      "audit H now None decidedBy ''consent.approve'' (cr_Resource req @ '':'' @ cr_Scope req) ''approved''
         (''request='' @ reqID) (lg_audit s) = (None, al)"
      "audit H now None decidedBy ''grant.create'' (cr_Resource req @ '':'' @ cr_Scope req) ''allow''
         (''grant='' @ newID) al = (None, lg_audit t)"
proof (cases r)
  case (Inl err)
  with assms show thesis by (auto intro: failed dest: DecideConsent_Inl)
next
  case (Inr v)
  show thesis
  proof (cases v)
    case None
    with Inr assms show thesis unfolding DecideConsent_def Let_def
      by (auto split: option.splits sum.splits if_splits prod.splits simp: decideRows_def
        intro!: denied)
  next
    case (Some g)
    with Inr assms show thesis unfolding DecideConsent_def Let_def
      by (auto split: option.splits sum.splits if_splits prod.splits simp: decideRows_def newGrant_def
        intro!: granted)
  qed
qed

lemma Revoke_cases:
  assumes "Revoke H now fault orgID grantID actor s = (r, t)"
  obtains (failed) err where "r = Some err" "sameRows s t"
  | (revoked) g where "r = None" "g \<in> set (lg_grants s)" "revocable orgID grantID g"
      "lg_requests t = lg_requests s" "lg_grants t = map (revokeRow now orgID grantID) (lg_grants s)"
      "audit H now None actor ''grant.revoke'' grantID ''deny'' ''user revocation'' (lg_audit s) = (None, lg_audit t)"
proof (cases r)
  case None
  with assms show thesis unfolding Revoke_def Let_def
    by (auto split: option.splits if_splits prod.splits simp: filter_empty_conv intro!: revoked)
next
  case (Some err)
  with assms have "sameRows s t" unfolding Revoke_def Let_def
    by (auto split: option.splits if_splits prod.splits intro!: sameRows_rollback)
  with Some show thesis by (rule failed)
qed

lemma RequestConsent_cases:
  assumes "RequestConsent newID fault orgID userID resource scope s = (r, t)"
  obtains (failed) err where "r = Inl err" "t = s"
  | (opened) q where "r = Inr q" "cr_ID q = newID" "cr_Status q = ''pending''" "newID \<notin> cr_ID ` set (lg_requests s)"
      "t = s\<lparr>lg_requests := lg_requests s @ [q]\<rparr>"
proof (cases r)
  case (Inl err)
  with assms have "t = s" by (auto simp: RequestConsent_def Let_def split: option.splits if_splits)
  with Inl show thesis by (rule failed)
next
  case (Inr q)
  with assms show thesis
    by (intro opened [OF Inr]) (auto simp: RequestConsent_def Let_def split: option.splits if_splits)
qed

section \<open>The ledger as a state machine\<close>

inductive ledgerStep :: "(string \<Rightarrow> string) \<Rightarrow> ledger \<Rightarrow> unit \<Rightarrow> ledger \<Rightarrow> bool" for H where
  ledger_request: "RequestConsent newID f orgID userID resource scope s = (r, t) \<Longrightarrow> ledgerStep H s () t"
| ledger_decide: "DecideConsent H now newID fault orgID reqID approved decidedBy s = (d, t) \<Longrightarrow> ledgerStep H s () t"
| ledger_revoke: "Revoke H now fault orgID grantID actor s = (e, t) \<Longrightarrow> ledgerStep H s () t"

definition ledgerInit :: "ledger \<Rightarrow> bool" where
  "ledgerInit s \<longleftrightarrow> lg_requests s = [] \<and> lg_grants s = [] \<and> al_rows (lg_audit s) = []"

text \<open>A grant's evidence: the approved request it was created from.\<close>

definition evidence :: "consent_request \<Rightarrow> grant \<Rightarrow> bool" where
  "evidence r g \<longleftrightarrow>
     fst (gr_Consent g) = cr_ID r \<and> cr_Status r = ''approved'' \<and> cr_DecidedBy r = Some (snd (gr_Consent g)) \<and>
     cr_OrgID r = gr_OrgID g \<and> cr_UserID r = gr_UserID g \<and> cr_Resource r = gr_Resource g \<and> cr_Scope r = gr_Scope g"

definition ledgerInv :: "(string \<Rightarrow> string) \<Rightarrow> ledger \<Rightarrow> bool" where
  "ledgerInv H s \<longleftrightarrow>
     auditInv H (lg_audit s) \<and> distinct (map cr_ID (lg_requests s)) \<and> distinct (map gr_ID (lg_grants s)) \<and>
     distinct (map (\<lambda>g. fst (gr_Consent g)) (lg_grants s)) \<and>
     (\<forall>g \<in> set (lg_grants s). \<exists>r \<in> set (lg_requests s). evidence r g)"

lemma auditInv_next: "auditInv H al \<Longrightarrow> al_rows al' = al_rows al \<Longrightarrow> al_next al \<le> al_next al' \<Longrightarrow> auditInv H al'"
  by (auto simp: auditInv_def)

lemma sameRows_inv: "ledgerInv H s \<Longrightarrow> sameRows s t \<Longrightarrow> ledgerInv H t"
  by (auto simp: ledgerInv_def sameRows_def intro: auditInv_next)

lemma decideRow_simps [simp]:
  "cr_ID (decideRow now st by r) = cr_ID r" "cr_OrgID (decideRow now st by r) = cr_OrgID r"
  "cr_UserID (decideRow now st by r) = cr_UserID r" "cr_Resource (decideRow now st by r) = cr_Resource r"
  "cr_Scope (decideRow now st by r) = cr_Scope r" "cr_Status (decideRow now st by r) = st"
  "cr_DecidedBy (decideRow now st by r) = Some by"
  by (simp_all add: decideRow_def)

lemma revokeRow_simps [simp]:
  "gr_ID (revokeRow now org i g) = gr_ID g" "gr_OrgID (revokeRow now org i g) = gr_OrgID g"
  "gr_Consent (revokeRow now org i g) = gr_Consent g" "evidence r (revokeRow now org i g) = evidence r g"
  by (simp_all add: revokeRow_def evidence_def)

lemma map_cr_ID_decideRows [simp]: "map cr_ID (decideRows now q st by rs) = map cr_ID rs"
  by (simp add: decideRows_def)

lemma found_request:
  assumes "find (\<lambda>r. cr_ID r = q \<and> cr_OrgID r = org) rs = Some r"
  shows "r \<in> set rs" "cr_ID r = q" "cr_OrgID r = org"
  using assms by (auto simp: find_Some_iff)

lemma same_request: "distinct (map cr_ID rs) \<Longrightarrow> r \<in> set rs \<Longrightarrow> x \<in> set rs \<Longrightarrow> cr_ID x = cr_ID r \<Longrightarrow> x = r"
  by (auto simp: distinct_map dest: inj_onD)

text \<open>A decision touches the one pending request it is about and no other.\<close>

lemma decideRows_decided:
  assumes "distinct (map cr_ID rs)" and "find (\<lambda>r. cr_ID r = q \<and> cr_OrgID r = org) rs = Some r"
    and "cr_Status r = ''pending''" and "x \<in> set rs" and "cr_Status x \<noteq> ''pending''"
  shows "x \<in> set (decideRows now q st by rs)"
proof -
  have "cr_ID x \<noteq> q"
    using same_request [OF assms(1) found_request(1) [OF assms(2)] assms(4)] found_request(2) [OF assms(2)]
      assms(3,5) by auto
  with assms(4) show ?thesis by (force simp: decideRows_def)
qed

lemma evidence_kept:
  assumes "ledgerInv H s" and "find (\<lambda>r. cr_ID r = q \<and> cr_OrgID r = org) (lg_requests s) = Some r"
    and "cr_Status r = ''pending''" and "g \<in> set (lg_grants s)"
  shows "\<exists>x \<in> set (decideRows now q st by (lg_requests s)). evidence x g"
proof -
  from assms(1,4) obtain x where x: "x \<in> set (lg_requests s)" "evidence x g" by (auto simp: ledgerInv_def)
  then have "cr_Status x \<noteq> ''pending''" by (auto simp: evidence_def)
  with decideRows_decided [OF _ assms(2,3) x(1)] assms(1) x(2) show ?thesis by (auto simp: ledgerInv_def)
qed

lemma pending_ungranted:
  assumes "ledgerInv H s" and "r \<in> set (lg_requests s)" and "cr_Status r = ''pending''" and "g \<in> set (lg_grants s)"
  shows "fst (gr_Consent g) \<noteq> cr_ID r"
proof
  assume eq: "fst (gr_Consent g) = cr_ID r"
  from assms(1,4) obtain x where x: "x \<in> set (lg_requests s)" "evidence x g" by (auto simp: ledgerInv_def)
  with eq assms(1,2) have "x = r" by (auto simp: ledgerInv_def evidence_def intro: same_request)
  with x assms(3) show False by (auto simp: evidence_def)
qed

lemma DecideConsent_inv:
  assumes inv: "ledgerInv H s" and "DecideConsent H now newID fault orgID reqID approved decidedBy s = (d, t)"
  shows "ledgerInv H t"
  using assms(2)
proof (cases rule: DecideConsent_cases)
  case failed
  with inv show ?thesis by (blast intro: sameRows_inv)
next
  case (denied req)
  have "auditInv H (lg_audit t)" using inv audit_inv [OF _ denied(7)] by (auto simp: ledgerInv_def)
  with denied inv evidence_kept [OF inv denied(3,4)] show ?thesis by (simp add: ledgerInv_def)
next
  case (granted req g al)
  note req = found_request [OF granted(3)]
  have "auditInv H (lg_audit t)"
    using inv audit_inv [OF audit_inv [OF _ granted(9)] granted(10)] by (auto simp: ledgerInv_def)
  moreover have "evidence (decideRow now ''approved'' decidedBy req) g"
    using req granted(7) by (simp add: evidence_def newGrant_def)
  moreover have "decideRow now ''approved'' decidedBy req \<in> set (lg_requests t)"
    using req granted(5) by (force simp: decideRows_def)
  moreover have "\<forall>h \<in> set (lg_grants s). fst (gr_Consent h) \<noteq> reqID"
    using pending_ungranted [OF inv req(1) granted(4)] req(2) by simp
  ultimately show ?thesis
    using granted inv evidence_kept [OF inv granted(3,4), where now = now and st = "''approved''"]
    by (auto simp: ledgerInv_def newGrant_def)
qed

lemma Revoke_inv:
  assumes inv: "ledgerInv H s" and "Revoke H now fault orgID grantID actor s = (e, t)"
  shows "ledgerInv H t"
  using assms(2)
proof (cases rule: Revoke_cases)
  case failed
  with inv show ?thesis by (blast intro: sameRows_inv)
next
  case (revoked g)
  have "auditInv H (lg_audit t)" using inv audit_inv [OF _ revoked(6)] by (auto simp: ledgerInv_def)
  with revoked inv show ?thesis by (simp add: ledgerInv_def comp_def)
qed

lemma RequestConsent_inv:
  assumes inv: "ledgerInv H s" and "RequestConsent newID f orgID userID resource scope s = (r, t)"
  shows "ledgerInv H t"
  using assms(2) by (cases rule: RequestConsent_cases) (use inv in \<open>auto simp: ledgerInv_def\<close>)

interpretation lg: transition_system ledgerInit "ledgerStep H" "ledgerInv H" for H
proof (unfold_locales, goal_cases)
  case (1 s)
  then show ?case by (simp add: ledgerInit_def ledgerInv_def auditInv_def)
next
  case (2 s e t)
  from 2(2,1) show ?case
    by cases (blast intro: RequestConsent_inv DecideConsent_inv Revoke_inv)+
qed

text \<open>What later steps keep: decided requests stay as they are and revoked grants stay revoked.\<close>

lemma step_decided:
  assumes "ledgerStep H s l t" and "ledgerInv H s" and "x \<in> set (lg_requests s)" and "cr_Status x \<noteq> ''pending''"
  shows "x \<in> set (lg_requests t)"
  using assms(1)
proof cases
  case ledger_request
  show ?thesis using ledger_request(2) by (cases rule: RequestConsent_cases) (use assms in auto)
next
  case ledger_decide
  show ?thesis using ledger_decide(2) by (cases rule: DecideConsent_cases)
    (use assms in \<open>auto simp: sameRows_def ledgerInv_def intro: decideRows_decided\<close>)
next
  case ledger_revoke
  show ?thesis using ledger_revoke(2) by (cases rule: Revoke_cases) (use assms in \<open>auto simp: sameRows_def\<close>)
qed

definition revokedIn :: "ledger \<Rightarrow> string \<Rightarrow> bool" where
  "revokedIn s i \<longleftrightarrow> i \<in> gr_ID ` set (lg_grants s) \<and> (\<forall>g \<in> set (lg_grants s). gr_ID g = i \<longrightarrow> gr_RevokedAt g \<noteq> None)"

lemma step_revoked:
  assumes "ledgerStep H s l t" and "revokedIn s i"
  shows "revokedIn t i"
  using assms(1)
proof cases
  case ledger_request
  show ?thesis using ledger_request(2)
    by (cases rule: RequestConsent_cases) (use assms in \<open>simp_all add: revokedIn_def\<close>)
next
  case ledger_decide
  from ledger_decide(2) show ?thesis
  proof (cases rule: DecideConsent_cases)
    case (granted req g al)
    with assms(2) show ?thesis by (auto simp: revokedIn_def newGrant_def)
  qed (use assms(2) in \<open>simp_all add: sameRows_def revokedIn_def\<close>)
next
  case ledger_revoke
  from ledger_revoke(2) show ?thesis
  proof (cases rule: Revoke_cases)
    case (revoked g)
    with assms(2) show ?thesis by (simp add: revokedIn_def image_image) (simp add: revokeRow_def)
  qed (use assms in \<open>simp add: sameRows_def revokedIn_def\<close>)
qed

text \<open>Everything that can happen to the ledger after it was in state \<open>s\<close>.\<close>

abbreviation later :: "(string \<Rightarrow> string) \<Rightarrow> ledger \<Rightarrow> ledger \<Rightarrow> bool" where
  "later H s \<equiv> reach (\<lambda>x. x = s) (ledgerStep H)"

lemma later_inv: "later H s t \<Longrightarrow> ledgerInv H s \<Longrightarrow> ledgerInv H t"
  by (induction rule: reach.induct) (auto intro: lg.inv_step)

lemma later_decided:
  "later H s t \<Longrightarrow> ledgerInv H s \<Longrightarrow> x \<in> set (lg_requests s) \<Longrightarrow> cr_Status x \<noteq> ''pending'' \<Longrightarrow> x \<in> set (lg_requests t)"
  by (induction rule: reach.induct) (auto intro: step_decided later_inv)

lemma later_revoked: "later H s t \<Longrightarrow> revokedIn s i \<Longrightarrow> revokedIn t i"
  by (induction rule: reach.induct) (auto intro: step_revoked)

lemma decided_row:
  assumes "DecideConsent H now newID fault orgID reqID approved decidedBy s = (Inr d, t)"
  shows "\<exists>x \<in> set (lg_requests t). cr_ID x = reqID \<and> cr_OrgID x = orgID \<and> cr_Status x \<noteq> ''pending''"
  using assms
proof (cases rule: DecideConsent_cases)
  case (denied req)
  from found_request [OF denied(3)] denied(5) show ?thesis
    by (intro bexI [of _ "decideRow now ''denied'' decidedBy req"]) (auto simp: decideRows_def)
next
  case (granted req g al)
  from found_request [OF granted(3)] granted(5) show ?thesis
    by (intro bexI [of _ "decideRow now ''approved'' decidedBy req"]) (auto simp: decideRows_def)
qed auto

lemma decide_again:
  assumes "ledgerInv H s" and "x \<in> set (lg_requests s)" and "cr_Status x \<noteq> ''pending''"
    and "DecideConsent H now newID fault orgID (cr_ID x) approved decidedBy s = (r, t)"
  shows "(\<exists>e. r = Inl e) \<and> sameRows s t"
  using assms(4)
proof (cases rule: DecideConsent_cases)
  case (denied req)
  from same_request [OF _ found_request(1) [OF denied(3)] assms(2)] found_request(2) [OF denied(3)] denied(4) assms(1,3)
  show ?thesis by (auto simp: ledgerInv_def)
next
  case (granted req g al)
  from same_request [OF _ found_request(1) [OF granted(3)] assms(2)] found_request(2) [OF granted(3)] granted(4) assms(1,3)
  show ?thesis by (auto simp: ledgerInv_def)
qed auto

lemma revoked_inactive:
  assumes "reach ledgerInit (ledgerStep H) s"
    and "Revoke H now fault orgID grantID actor s = (None, t)" and "later H t u"
  shows "\<forall>g \<in> set (lg_grants u). gr_ID g = grantID \<longrightarrow> \<not> active now' g"
proof -
  have "revokedIn t grantID"
    using assms(2)
  proof (cases rule: Revoke_cases)
    case (revoked g)
    have "g' = g" if "g' \<in> set (lg_grants s)" "gr_ID g' = grantID" for g'
      using lg.reach_inv [OF assms(1)] revoked(2,3) that
      by (auto simp: ledgerInv_def distinct_map revocable_def dest: inj_onD)
    with revoked(2,3,5) show ?thesis
      by (simp add: revokedIn_def image_image) (auto simp: revokeRow_def revocable_def)
  qed auto
  then have rev: "revokedIn u grantID" using assms(3) by (blast intro: later_revoked)
  then show ?thesis by (auto simp: revokedIn_def active_def)
qed

section \<open>The scope cache\<close>

record cache_entry =
  ce_scopes :: "string list"
  ce_loadedAt :: time

record scope_cache =
  sc_ttl :: duration
  sc_entries :: "string \<rightharpoonup> cache_entry"

definition NewScopeCache :: "duration \<Rightarrow> scope_cache" where
  "NewScopeCache ttl = \<lparr>sc_ttl = ttl, sc_entries = Map.empty\<rparr>"

definition cacheKey :: "string \<Rightarrow> string \<Rightarrow> string" where
  "cacheKey orgID userID = orgID @ ''/'' @ userID"

text \<open>
  A cached read takes the lock twice, so it is the composition of two atomic steps: a lookup, and,
  after the store was asked, a write of what the store answered.
\<close>

definition cacheLookup :: "time \<Rightarrow> string \<Rightarrow> string \<Rightarrow> scope_cache \<Rightarrow> string list option" where
  "cacheLookup now orgID userID c =
     (case sc_entries c (cacheKey orgID userID) of
        Some entry \<Rightarrow> if now - ce_loadedAt entry < sc_ttl c then Some (ce_scopes entry) else None
      | None \<Rightarrow> None)"

definition cacheStore :: "time \<Rightarrow> string \<Rightarrow> string \<Rightarrow> string list \<Rightarrow> scope_cache \<Rightarrow> scope_cache" where
  "cacheStore now orgID userID scopes c =
     c\<lparr>sc_entries := (sc_entries c)(cacheKey orgID userID \<mapsto> \<lparr>ce_scopes = scopes, ce_loadedAt = now\<rparr>)\<rparr>"

definition cachedActiveScopes ::
  "time \<Rightarrow> string list result \<Rightarrow> time \<Rightarrow> string \<Rightarrow> string \<Rightarrow> scope_cache \<Rightarrow> string list result \<times> scope_cache" where
  "cachedActiveScopes t0 answer t1 orgID userID c =
     (case cacheLookup t0 orgID userID c of
        Some scopes \<Rightarrow> (Inr scopes, c)
      | None \<Rightarrow>
          (case answer of
             Inl e \<Rightarrow> (Inl e, c)
           | Inr scopes \<Rightarrow> (Inr scopes, cacheStore t1 orgID userID scopes c)))"

definition Invalidate :: "string \<Rightarrow> string \<Rightarrow> scope_cache \<Rightarrow> scope_cache" where
  "Invalidate orgID userID c = c\<lparr>sc_entries := (sc_entries c)(cacheKey orgID userID := None)\<rparr>"

text \<open>Organisation ids are UUIDs and hold no separator, so the joined keys do not collide.\<close>

lemma cacheKey_inject:
  "CHR ''/'' \<notin> set a \<Longrightarrow> CHR ''/'' \<notin> set b \<Longrightarrow> cacheKey a u = cacheKey b v \<longleftrightarrow> a = b \<and> u = v"
proof (induction a arbitrary: b)
  case Nil
  then show ?case by (cases b) (auto simp: cacheKey_def)
next
  case (Cons x a)
  then show ?case by (cases b) (auto simp: cacheKey_def)
qed

text \<open>
  The cache in operation: \<open>truth org user t\<close> is what the store answers when it is asked at time
  \<open>t\<close>, and at most \<open>d\<close> passes between the store's answer and the write of it into the cache.
\<close>

type_synonym scope_history = "string \<Rightarrow> string \<Rightarrow> time \<Rightarrow> string list"

inductive cacheStep :: "scope_history \<Rightarrow> duration \<Rightarrow> scope_cache \<Rightarrow> unit \<Rightarrow> scope_cache \<Rightarrow> bool" for truth d where
  cache_fill: "CHR ''/'' \<notin> set org \<Longrightarrow> t \<le> t1 \<Longrightarrow> t1 \<le> t + d \<Longrightarrow>
     cacheStep truth d c () (cacheStore t1 org user (truth org user t) c)"
| cache_drop: "cacheStep truth d c () (Invalidate org user c)"

definition cacheInit :: "duration \<Rightarrow> scope_cache \<Rightarrow> bool" where
  "cacheInit ttl c \<longleftrightarrow> c = NewScopeCache ttl"

definition cacheInv :: "duration \<Rightarrow> scope_history \<Rightarrow> duration \<Rightarrow> scope_cache \<Rightarrow> bool" where
  "cacheInv ttl truth d c \<longleftrightarrow>
     sc_ttl c = ttl \<and>
     (\<forall>org user e. CHR ''/'' \<notin> set org \<longrightarrow> sc_entries c (cacheKey org user) = Some e \<longrightarrow>
        (\<exists>t. t \<le> ce_loadedAt e \<and> ce_loadedAt e \<le> t + d \<and> ce_scopes e = truth org user t))"

interpretation sc: transition_system "cacheInit ttl" "cacheStep truth d" "cacheInv ttl truth d" for ttl truth d
proof (unfold_locales, goal_cases)
  case (1 s)
  then show ?case by (simp add: cacheInit_def cacheInv_def NewScopeCache_def)
next
  case (2 s e t)
  from 2(2,1) show ?case
    by cases (auto simp: cacheInv_def cacheStore_def Invalidate_def cacheKey_inject)
qed

section \<open>Properties\<close>


definition exLedger :: ledger where
  "exLedger = \<lparr>lg_requests = [], lg_grants = [], lg_audit = \<lparr>al_rows = [], al_next = 1\<rparr>\<rparr>"

definition exPending :: ledger where
  "exPending = snd (RequestConsent ''q1'' None ''org-1'' ''user-1'' ''web'' ''net:fetch'' exLedger)"

definition exGranted :: ledger where
  "exGranted = snd (DecideConsent exHash 5 ''g1'' (\<lambda>_. None) ''org-1'' ''q1'' True ''user-1'' exPending)"

definition exGrant :: grant where
  "exGrant = \<lparr>gr_ID = ''g1'', gr_OrgID = ''org-1'', gr_UserID = ''user-1'', gr_Resource = ''web'', gr_Scope = ''net:fetch'',
     gr_Expiry = None, gr_RevokedAt = None, gr_CreatedAt = 5, gr_Consent = (''q1'', ''user-1'')\<rparr>"

lemma ex_pending: "lg_grants exPending = []"
  by (simp add: exPending_def RequestConsent_def exLedger_def Let_def)

lemma ex_decide:
  "DecideConsent exHash 5 ''g1'' (\<lambda>_. None) ''org-1'' ''q1'' True ''user-1'' exPending = (Inr (Some exGrant), exGranted)"
  "lg_grants exGranted = [exGrant]"
  by (simp_all add: exGranted_def DecideConsent_def exPending_def RequestConsent_def exLedger_def queryRow_def
      audit_def auditWrite_def newGrant_def exGrant_def Let_def)

lemma ex_reach:
  "reach ledgerInit (ledgerStep exHash) exPending" "reach ledgerInit (ledgerStep exHash) exGranted"
proof -
  have "reach ledgerInit (ledgerStep exHash) exLedger"
    by (rule reach_init) (simp add: ledgerInit_def exLedger_def)
  moreover have "ledgerStep exHash exLedger () exPending"
    unfolding exPending_def by (rule ledger_request) (rule prod.collapse [symmetric])
  ultimately show p: "reach ledgerInit (ledgerStep exHash) exPending" by (rule reach_step)
  show "reach ledgerInit (ledgerStep exHash) exGranted"
    by (rule reach_step [OF p]) (rule ledger_decide [OF ex_decide(1)])
qed


text \<open>
  C12. A consent request is decided at most once: after a decision went through, every later
  decision on the same request fails and changes no row, whatever happened in between, and without
  a database failure it fails with \<^verbatim>\<open>ErrAlreadyDecided\<close>.
\<close>

theorem decide_once:
  assumes "reach ledgerInit (ledgerStep H) s"
    and "DecideConsent H now newID fault orgID reqID approved decidedBy s = (Inr d, t)"
    and "later H t u"
    and "DecideConsent H now' newID' fault' orgID' reqID approved' decidedBy' u = (r, v)"
  shows "(\<exists>e. r = Inl e) \<and> sameRows u v \<and>
    (orgID' = orgID \<and> fault' 0 = None \<and> fault' 1 = None \<longrightarrow> r = Inl ErrAlreadyDecided)"
proof -
  have invt: "ledgerInv H t" using lg.reach_inv [OF assms(1)] assms(2) by (rule DecideConsent_inv)
  then have inv: "ledgerInv H u" using assms(3) by (blast intro: later_inv)
  from decided_row [OF assms(2)] obtain x where x: "x \<in> set (lg_requests t)" "cr_ID x = reqID"
    "cr_OrgID x = orgID" "cr_Status x \<noteq> ''pending''" by blast
  have xu: "x \<in> set (lg_requests u)" using later_decided [OF assms(3) invt x(1,4)] .
  with inv x have "find (\<lambda>r. cr_ID r = reqID \<and> cr_OrgID r = orgID) (lg_requests u) = Some x"
  proof (cases "find (\<lambda>r. cr_ID r = reqID \<and> cr_OrgID r = orgID) (lg_requests u)")
    case None
    with xu x show ?thesis by (auto simp: find_None_iff)
  next
    case (Some y)
    from found_request [OF Some] inv xu x(2) have "y = x"
      by (auto simp: ledgerInv_def intro: same_request)
    with Some show ?thesis by simp
  qed
  then have "orgID' = orgID \<and> fault' 0 = None \<and> fault' 1 = None \<longrightarrow> r = Inl ErrAlreadyDecided"
    using assms(4) x(4) by (auto simp: DecideConsent_def queryRow_def)
  with decide_again [OF inv xu x(4)] assms(4) x(2) show ?thesis by blast
qed

theorem decide_once_witness:
  "\<exists>v. DecideConsent exHash 9 ''g2'' (\<lambda>_. None) ''org-1'' ''q1'' False ''u2'' exGranted = (Inl ErrAlreadyDecided, v)
     \<and> sameRows exGranted v"
proof -
  obtain r v where rv: "DecideConsent exHash 9 ''g2'' (\<lambda>_. None) ''org-1'' ''q1'' False ''u2'' exGranted = (r, v)"
    by force
  have "later exHash exGranted exGranted" by (rule reach_init) simp
  from decide_once [OF ex_reach(1) ex_decide(1) this rv] rv show ?thesis by auto
qed

text \<open>
  A decision is all or nothing.  A failed one changes no row.  A denial marks the request denied
  and adds one audit entry.  An approval adds exactly the returned grant, with the request's owner,
  resource and scope, unexpired and unrevoked, and two audit entries.  Without database failures a
  pending request of the organisation is always decided, as asked.
\<close>

theorem decide_effect:
  assumes "DecideConsent H now newID fault orgID reqID approved decidedBy s = (r, t)"
  shows "(case r of
      Inl e \<Rightarrow> sameRows s t
    | Inr None \<Rightarrow> \<not> approved \<and> lg_grants t = lg_grants s \<and>
        length (al_rows (lg_audit t)) = length (al_rows (lg_audit s)) + 1
    | Inr (Some g) \<Rightarrow> approved \<and> lg_grants t = lg_grants s @ [g] \<and> gr_OrgID g = orgID \<and> gr_RevokedAt g = None \<and>
        active now g \<and> gr_Consent g = (reqID, decidedBy) \<and>
        (\<exists>q \<in> set (lg_requests s). cr_ID q = reqID \<and> cr_Status q = ''pending'' \<and> gr_UserID g = cr_UserID q \<and>
           gr_Resource g = cr_Resource q \<and> gr_Scope g = cr_Scope q) \<and>
        length (al_rows (lg_audit t)) = length (al_rows (lg_audit s)) + 2) \<and>
    (fault = (\<lambda>_. None) \<and> newID \<notin> gr_ID ` set (lg_grants s) \<and>
     (\<exists>q. find (\<lambda>r. cr_ID r = reqID \<and> cr_OrgID r = orgID) (lg_requests s) = Some q \<and> cr_Status q = ''pending'')
       \<longrightarrow> (\<exists>d. r = Inr d \<and> (approved \<longleftrightarrow> d \<noteq> None)))"
proof (rule conjI)
  have len: "length (al_rows (snd (audit H now None a b c d e al))) = length (al_rows al) + 1" for a b c d e al
    by (simp add: audit_def auditWrite_def Let_def)
  from assms show "case r of
      Inl e \<Rightarrow> sameRows s t
    | Inr None \<Rightarrow> \<not> approved \<and> lg_grants t = lg_grants s \<and>
        length (al_rows (lg_audit t)) = length (al_rows (lg_audit s)) + 1
    | Inr (Some g) \<Rightarrow> approved \<and> lg_grants t = lg_grants s @ [g] \<and> gr_OrgID g = orgID \<and> gr_RevokedAt g = None \<and>
        active now g \<and> gr_Consent g = (reqID, decidedBy) \<and>
        (\<exists>q \<in> set (lg_requests s). cr_ID q = reqID \<and> cr_Status q = ''pending'' \<and> gr_UserID g = cr_UserID q \<and>
           gr_Resource g = cr_Resource q \<and> gr_Scope g = cr_Scope q) \<and>
        length (al_rows (lg_audit t)) = length (al_rows (lg_audit s)) + 2"
    by (cases rule: DecideConsent_cases)
      (auto simp: len newGrant_def active_def dest: found_request intro!: bexI)
  show "fault = (\<lambda>_. None) \<and> newID \<notin> gr_ID ` set (lg_grants s) \<and>
     (\<exists>q. find (\<lambda>r. cr_ID r = reqID \<and> cr_OrgID r = orgID) (lg_requests s) = Some q \<and> cr_Status q = ''pending'')
       \<longrightarrow> (\<exists>d. r = Inr d \<and> (approved \<longleftrightarrow> d \<noteq> None))"
    using assms by (auto simp: DecideConsent_def queryRow_def audit_def auditWrite_def Let_def split: if_splits)
qed

theorem decide_effect_witness:
  "lg_grants exGranted = [] @ [exGrant] \<and> active 5 exGrant"
  using decide_effect [OF ex_decide(1)] by (simp add: ex_pending)

text \<open>
  C21. Revocation is immediate and final: once \<^verbatim>\<open>Revoke\<close> returned, the grant is never active again,
  and every scope a later \<^verbatim>\<open>ActiveScopes\<close> returns is backed by another, active grant of that user.
\<close>

theorem revoke_immediate:
  assumes "reach ledgerInit (ledgerStep H) s"
    and "Revoke H now fault orgID grantID actor s = (None, t)" and "later H t u"
  shows "(\<forall>g \<in> set (lg_grants u). gr_ID g = grantID \<longrightarrow> \<not> active now' g) \<and>
    (\<forall>org user scopes. ActiveScopes now' io org user u = Inr scopes \<longrightarrow>
       set scopes = gr_Scope ` {g \<in> set (lg_grants u). gr_ID g \<noteq> grantID \<and> gr_OrgID g = org \<and> gr_UserID g = user
                                                       \<and> active now' g})"
proof -
  have dead: "\<forall>g \<in> set (lg_grants u). gr_ID g = grantID \<longrightarrow> \<not> active now' g"
    using assms by (rule revoked_inactive)
  then have "{g \<in> set (lg_grants u). gr_ID g \<noteq> grantID \<and> gr_OrgID g = org \<and> gr_UserID g = user \<and> active now' g}
    = {g \<in> set (lg_grants u). gr_OrgID g = org \<and> gr_UserID g = user \<and> active now' g}" for org user
    by blast
  with dead show ?thesis by (simp add: ActiveScopes_Inr)
qed

definition exRevoked :: ledger where
  "exRevoked = snd (Revoke exHash 6 (\<lambda>_. None) ''org-1'' ''g1'' ''user-1'' exGranted)"

lemma ex_revoke_grant:
  "Revoke exHash 6 (\<lambda>_. None) ''org-1'' (gr_ID exGrant) ''user-1'' exGranted = (None, exRevoked)"
  "lg_grants exRevoked = [exGrant\<lparr>gr_RevokedAt := Some 6\<rparr>]"
  by (simp_all add: exRevoked_def Revoke_def Let_def ex_decide(2) revocable_def revokeRow_def exGrant_def
      audit_def auditWrite_def)

theorem revoke_immediate_witness:
  "ActiveScopes 6 noFault ''org-1'' ''user-1'' exGranted = Inr [''net:fetch''] \<and>
   ActiveScopes 6 noFault ''org-1'' ''user-1'' exRevoked = Inr []"
proof -
  have "later exHash exRevoked exRevoked" by (rule reach_init) simp
  note imm = revoke_immediate [OF ex_reach(2) ex_revoke_grant(1) this]
  obtain scopes where sc: "ActiveScopes 6 noFault ''org-1'' ''user-1'' exRevoked = Inr scopes"
    by (simp add: ActiveScopes_def)
  with imm have "set scopes = gr_Scope ` {g \<in> set (lg_grants exRevoked). gr_ID g \<noteq> gr_ID exGrant \<and> gr_OrgID g = ''org-1''
      \<and> gr_UserID g = ''user-1'' \<and> active 6 g}" by blast
  then have "set scopes = {}" by (simp add: ex_revoke_grant(2) exGrant_def Collect_conv_if)
  then have "scopes = []" by simp
  with sc show ?thesis by (simp add: ActiveScopes_def ex_decide(2) exGrant_def active_def)
qed

text \<open>
  A cached read is at most \<open>ttl + d\<close> old, where \<open>d\<close> bounds the time from the store's answer to
  its write into the cache: what it returns is what the store answered at a moment less than that
  long ago.  A read that starts after an invalidation returns the store's answer.
\<close>

theorem cache_read_fresh:
  assumes "reach (cacheInit ttl) (cacheStep truth d) c" and "CHR ''/'' \<notin> set org"
  shows "(\<forall>scopes. cacheLookup now org user c = Some scopes \<longrightarrow>
      (\<exists>t. now - t < ttl + d \<and> scopes = truth org user t)) \<and>
    fst (cachedActiveScopes t0 answer t1 org user (Invalidate org user c)) = answer"
proof (intro conjI allI impI)
  fix scopes assume "cacheLookup now org user c = Some scopes"
  then obtain e where e: "sc_entries c (cacheKey org user) = Some e" "now - ce_loadedAt e < sc_ttl c"
    "scopes = ce_scopes e" by (auto simp: cacheLookup_def split: option.splits if_splits)
  with sc.reach_inv [OF assms(1)] assms(2) obtain t where
    "ce_loadedAt e \<le> t + d" "ce_scopes e = truth org user t" "sc_ttl c = ttl"
    unfolding cacheInv_def by blast
  with e show "\<exists>t. now - t < ttl + d \<and> scopes = truth org user t" by (intro exI [of _ t]) simp
next
  show "fst (cachedActiveScopes t0 answer t1 org user (Invalidate org user c)) = answer"
    by (simp add: cachedActiveScopes_def cacheLookup_def Invalidate_def split: sum.splits)
qed

theorem cache_read_fresh_witness:
  "cacheLookup 12 ''org-1'' ''u'' (cacheStore 10 ''org-1'' ''u'' [''a''] (NewScopeCache 5)) = Some [''a''] \<and>
   (\<exists>t :: time. 12 - t < 5 + 1)"
proof -
  let ?c = "cacheStore 10 ''org-1'' ''u'' ((\<lambda>_ _ _. [''a'']) ''org-1'' ''u'' 9) (NewScopeCache 5)"
  have "reach (cacheInit 5) (cacheStep (\<lambda>_ _ _. [''a'']) 1) ?c"
    by (rule reach_step [OF reach_init], simp add: cacheInit_def, rule cache_fill [where t = 9]) simp_all
  from cache_read_fresh [OF this, of "''org-1''" 12 "''u''"] show ?thesis
    by (auto simp: cacheLookup_def cacheStore_def NewScopeCache_def)
qed

text \<open>
  An invalidation that falls between the store's answer to a concurrent reader and that
  reader's write into the cache is lost: reads that start after it are answered, for the whole
  lifetime of the entry, with the scopes from before the revocation.
\<close>

theorem invalidate_race:
  assumes "ActiveScopes t io org (gr_UserID g) before = Inr scopes"
    and "g \<in> set (lg_grants before)" and "gr_OrgID g = org" and "active t g"
    and "\<forall>h \<in> set (lg_grants before). gr_UserID h = gr_UserID g \<and> gr_Scope h = gr_Scope g \<longrightarrow> h = g"
    and "Revoke H t' fault org (gr_ID g) actor before = (None, after)"
    and "t2 - t1 < sc_ttl c"
  shows "\<exists>live. ActiveScopes t2 noFault org (gr_UserID g) after = Inr live \<and> gr_Scope g \<notin> set live \<and>
    gr_Scope g \<in> set scopes \<and>
    fst (cachedActiveScopes t2 (Inr live) t3 org (gr_UserID g)
      (cacheStore t1 org (gr_UserID g) scopes (Invalidate org (gr_UserID g) c))) = Inr scopes"
proof -
  have "gr_Scope g \<in> set scopes" using assms(1-4) by (auto simp: ActiveScopes_def)
  moreover have "\<not> active t2 (revokeRow t' org (gr_ID g) g)"
    using assms(3,4) by (simp add: active_def revokeRow_def revocable_def)
  moreover have "lg_grants after = map (revokeRow t' org (gr_ID g)) (lg_grants before)"
    using assms(6) by (cases rule: Revoke_cases) auto
  moreover have "gr_UserID (revokeRow t' org i h) = gr_UserID h" "gr_Scope (revokeRow t' org i h) = gr_Scope h" for h i
    by (simp_all add: revokeRow_def)
  ultimately show ?thesis using assms(5,7)
    by (auto simp: ActiveScopes_def cachedActiveScopes_def cacheLookup_def cacheStore_def Invalidate_def)
qed

theorem invalidate_race_witness:
  "fst (cachedActiveScopes 8 (Inr []) 8 ''org-1'' ''user-1''
      (cacheStore 7 ''org-1'' ''user-1'' [''net:fetch''] (Invalidate ''org-1'' ''user-1'' (NewScopeCache 5)))) = Inr [''net:fetch'']
   \<and> ActiveScopes 8 noFault ''org-1'' ''user-1'' exRevoked = Inr []"
proof -
  have live: "ActiveScopes 8 noFault ''org-1'' ''user-1'' exRevoked = Inr []"
    by (simp add: ActiveScopes_def ex_revoke_grant(2) active_def)
  have "ActiveScopes 5 noFault ''org-1'' (gr_UserID exGrant) exGranted = Inr [''net:fetch'']"
    by (simp add: ActiveScopes_def ex_decide(2) exGrant_def active_def)
  from invalidate_race [OF this _ _ _ _ ex_revoke_grant(1), of 8 7 "NewScopeCache 5" 8] show ?thesis
    by (simp add: ex_decide(2) exGrant_def active_def NewScopeCache_def live)
qed

end
