(* ===== verification/ConsentSpec.thy ===== *)
theory ConsentSpec
  imports Grants
begin

text \<open>
  What the permission ledger promises, without its tables: a consent is asked for, allowed or refused once, and an allowed one
  is live until it is revoked.  The ledger of \<^verbatim>\<open>internal/grants\<close> refines this, and the scopes it reports are those of the
  live consents.
\<close>

section \<open>The specification\<close>

record terms =
  tm_OrgID :: string
  tm_UserID :: string
  tm_Resource :: string
  tm_Scope :: string

datatype consent = Asked terms | Refused terms | Allowed terms bool

type_synonym consents = "string \<rightharpoonup> consent"

inductive consentSpec :: "consents \<Rightarrow> unit \<Rightarrow> consents \<Rightarrow> bool" where
  ask: "c i = None \<Longrightarrow> consentSpec c l (c(i \<mapsto> Asked x))"
| allow: "c i = Some (Asked x) \<Longrightarrow> consentSpec c l (c(i \<mapsto> Allowed x True))"
| refuse: "c i = Some (Asked x) \<Longrightarrow> consentSpec c l (c(i \<mapsto> Refused x))"
| withdraw: "c i = Some (Allowed x True) \<Longrightarrow> consentSpec c l (c(i \<mapsto> Allowed x False))"
| idle: "consentSpec c l c"

inductive_cases consentSpecE: "consentSpec c l c'"

definition liveScopes :: "string \<Rightarrow> string \<Rightarrow> consents \<Rightarrow> string set" where
  "liveScopes orgID userID c = {tm_Scope x |i x. c i = Some (Allowed x True) \<and> tm_OrgID x = orgID \<and> tm_UserID x = userID}"

section \<open>The ledger seen as consents\<close>

definition termsOf :: "consent_request \<Rightarrow> terms" where
  "termsOf r = \<lparr>tm_OrgID = cr_OrgID r, tm_UserID = cr_UserID r, tm_Resource = cr_Resource r, tm_Scope = cr_Scope r\<rparr>"

definition unrevoked :: "grant list \<Rightarrow> string \<Rightarrow> bool" where
  "unrevoked gs i \<longleftrightarrow> (\<exists>g \<in> set gs. fst (gr_Consent g) = i \<and> gr_RevokedAt g = None)"

definition consentOf :: "grant list \<Rightarrow> consent_request \<Rightarrow> consent" where
  "consentOf gs r =
     (if cr_Status r = ''pending'' then Asked (termsOf r)
      else if cr_Status r = ''approved'' then Allowed (termsOf r) (unrevoked gs (cr_ID r))
      else Refused (termsOf r))"

definition consents :: "ledger \<Rightarrow> consents" where
  "consents s i = map_option (consentOf (lg_grants s)) (find (\<lambda>r. cr_ID r = i) (lg_requests s))"

lemma termsOf_decideRow [simp]: "termsOf (decideRow now st by r) = termsOf r"
  by (simp add: termsOf_def)

lemma find_decideRows:
  "find (\<lambda>r. cr_ID r = i) (decideRows now q st by rs) =
   map_option (\<lambda>r. if cr_ID r = q then decideRow now st by r else r) (find (\<lambda>r. cr_ID r = i) rs)"
  by (induction rs) (auto simp: decideRows_def)

lemma find_request:
  assumes "distinct (map cr_ID rs)" "r \<in> set rs"
  shows "find (\<lambda>x. cr_ID x = cr_ID r) rs = Some r"
  using assms by (induction rs) auto

lemma consents_sameRows: "sameRows s t \<Longrightarrow> consents t = consents s"
  by (simp add: sameRows_def consents_def fun_eq_iff)

lemma unrevoked_append: "unrevoked (gs @ [g]) i \<longleftrightarrow> unrevoked gs i \<or> fst (gr_Consent g) = i \<and> gr_RevokedAt g = None"
  by (auto simp: unrevoked_def)

section \<open>Each operation is a step of the specification\<close>

lemma request_simulated:
  assumes "RequestConsent newID f orgID userID resource scope s = (r, t)"
  shows "consentSpec (consents s) l (consents t)"
  using assms
proof (cases rule: RequestConsent_cases)
  case (opened q)
  have none: "find (\<lambda>r. cr_ID r = newID) (lg_requests s) = None" using opened(4) by (auto simp: find_None_iff)
  have "find (\<lambda>r. cr_ID r = i) (rs @ [q]) = (case find (\<lambda>r. cr_ID r = i) rs of None \<Rightarrow> if cr_ID q = i then Some q else None | Some r \<Rightarrow> Some r)" for i rs
    by (induction rs) auto
  then have "consents t = (consents s)(newID \<mapsto> Asked (termsOf q))"
    using opened(2,3,5) none by (auto simp: fun_eq_iff consents_def consentOf_def split: option.split)
  moreover have "consents s newID = None" using none by (simp add: consents_def)
  ultimately show ?thesis by (simp add: ask)
qed (auto intro: idle)

lemma found_consent:
  assumes "ledgerInv H s" "find (\<lambda>r. cr_ID r = q \<and> cr_OrgID r = org) (lg_requests s) = Some r" "cr_Status r = ''pending''"
  shows "find (\<lambda>x. cr_ID x = q) (lg_requests s) = Some r" "consents s q = Some (Asked (termsOf r))"
proof -
  show f: "find (\<lambda>x. cr_ID x = q) (lg_requests s) = Some r"
    using find_request [OF _ found_request(1) [OF assms(2)]] found_request(2) [OF assms(2)] assms(1) by (simp add: ledgerInv_def)
  show "consents s q = Some (Asked (termsOf r))" using f assms(3) by (simp add: consents_def consentOf_def)
qed

lemma decide_simulated:
  assumes inv: "ledgerInv H s" and "DecideConsent H now newID fault orgID reqID approved decidedBy s = (d, t)"
  shows "consentSpec (consents s) l (consents t)"
  using assms(2)
proof (cases rule: DecideConsent_cases)
  case failed
  then show ?thesis by (simp add: consents_sameRows idle)
next
  case (denied req)
  note f = found_consent [OF inv denied(3,4)]
  have "consents t = (consents s)(reqID \<mapsto> Refused (termsOf req))"
    using denied(5,6) f(1) found_request(2) [OF denied(3)]
    by (auto simp: fun_eq_iff consents_def find_decideRows consentOf_def option.map_comp find_Some_iff intro!: option.map_cong)
  with f(2) show ?thesis by (simp add: refuse)
next
  case (granted req g al)
  note f = found_consent [OF inv granted(3,4)]
  have g: "fst (gr_Consent g) = reqID" "gr_RevokedAt g = None" using granted(7) by (simp_all add: newGrant_def)
  have "consents t = (consents s)(reqID \<mapsto> Allowed (termsOf req) True)"
    using granted(5,8) f(1) found_request(2) [OF granted(3)] g
    by (auto simp: fun_eq_iff consents_def find_decideRows consentOf_def option.map_comp find_Some_iff unrevoked_append intro!: option.map_cong)
  with f(2) show ?thesis by (simp add: allow)
qed

lemma revoke_simulated:
  assumes inv: "ledgerInv H s" and "Revoke H now fault orgID grantID actor s = (e, t)"
  shows "consentSpec (consents s) l (consents t)"
  using assms(2)
proof (cases rule: Revoke_cases)
  case failed
  then show ?thesis by (simp add: consents_sameRows idle)
next
  case (revoked g)
  let ?i = "fst (gr_Consent g)"
  from inv revoked(2) obtain r where r: "r \<in> set (lg_requests s)" "evidence r g" by (auto simp: ledgerInv_def)
  have f: "find (\<lambda>x. cr_ID x = ?i) (lg_requests s) = Some r"
    using find_request [OF _ r(1)] r(2) inv by (simp add: ledgerInv_def evidence_def)
  have uniq: "h = g" if "h \<in> set (lg_grants s)" "gr_ID h = gr_ID g \<or> fst (gr_Consent h) = ?i" for h
    using inv revoked(2) that by (auto simp: ledgerInv_def distinct_map dest: inj_onD)
  have rev: "revokeRow now orgID grantID h = (if h = g then h\<lparr>gr_RevokedAt := Some now\<rparr> else h)" if "h \<in> set (lg_grants s)" for h
    using uniq [OF that] revoked(3) by (auto simp: revokeRow_def revocable_def)
  have un: "unrevoked (lg_grants t) j \<longleftrightarrow> j \<noteq> ?i \<and> unrevoked (lg_grants s) j" for j
    using revoked(5) uniq rev by (auto simp: unrevoked_def split: if_splits)
  have "consents t = (consents s)(?i \<mapsto> Allowed (termsOf r) False)"
    using f revoked(4) r(2) un
    by (auto simp: fun_eq_iff consents_def consentOf_def evidence_def find_Some_iff intro!: option.map_cong)
  moreover have "consents s ?i = Some (Allowed (termsOf r) True)"
    using f r(2) revoked(2,3) by (auto simp: consents_def consentOf_def evidence_def unrevoked_def revocable_def)
  ultimately show ?thesis by (simp add: withdraw)
qed

lemma ledgerStep_simulated: "ledgerInv H s \<Longrightarrow> ledgerStep H s l t \<Longrightarrow> consentSpec (consents s) l (consents t)"
  by (erule ledgerStep.cases) (auto intro: request_simulated decide_simulated revoke_simulated)

interpretation cs: simulation ledgerInit "ledgerStep H" "ledgerInv H" consentSpec consents for H
  by unfold_locales (rule ledgerStep_simulated)

text \<open>No grant of the ledger has an expiry, so it is active exactly until it is revoked.\<close>

definition unexpiring :: "ledger \<Rightarrow> bool" where
  "unexpiring s \<longleftrightarrow> (\<forall>g \<in> set (lg_grants s). gr_Expiry g = None)"

lemma revokeRow_expiry [simp]: "gr_Expiry (revokeRow now og i g) = gr_Expiry g"
  by (simp add: revokeRow_def)

lemma unexpiring_step:
  assumes "unexpiring s" "ledgerStep H s l t"
  shows "unexpiring t"
  using assms(2)
proof cases
  case ledger_request
  from ledger_request(2) show ?thesis by (cases rule: RequestConsent_cases) (use assms(1) in \<open>auto simp: unexpiring_def\<close>)
next
  case ledger_decide
  from ledger_decide(2) show ?thesis
    by (cases rule: DecideConsent_cases) (use assms(1) in \<open>auto simp: unexpiring_def sameRows_def newGrant_def\<close>)
next
  case ledger_revoke
  from ledger_revoke(2) show ?thesis by (cases rule: Revoke_cases) (use assms(1) in \<open>auto simp: unexpiring_def sameRows_def\<close>)
qed

interpretation ux: transition_system ledgerInit "ledgerStep H" unexpiring for H
proof (unfold_locales, goal_cases)
  case (1 s)
  then show ?case by (simp add: ledgerInit_def unexpiring_def)
qed (rule unexpiring_step)

lemma consentOf_Allowed:
  "consentOf gs r = Allowed x b \<longleftrightarrow> cr_Status r = ''approved'' \<and> x = termsOf r \<and> b = unrevoked gs (cr_ID r)"
  unfolding consentOf_def by (cases "cr_Status r = ''pending''"; cases "cr_Status r = ''approved''") auto

lemma liveScopes_grants:
  assumes "ledgerInv H s" "unexpiring s"
  shows "liveScopes og u (consents s) = gr_Scope ` {g \<in> set (lg_grants s). gr_OrgID g = og \<and> gr_UserID g = u \<and> active now g}"
proof (intro equalityI subsetI)
  fix sc
  assume "sc \<in> liveScopes og u (consents s)"
  then obtain i x where x: "consents s i = Some (Allowed x True)" "tm_OrgID x = og" "tm_UserID x = u" "sc = tm_Scope x"
    by (auto simp: liveScopes_def)
  then obtain r where f: "find (\<lambda>r. cr_ID r = i) (lg_requests s) = Some r" and c: "consentOf (lg_grants s) r = Allowed x True"
    by (auto simp: consents_def)
  from f have id: "r \<in> set (lg_requests s)" "cr_ID r = i" by (auto simp: find_Some_iff)
  with c have r: "r \<in> set (lg_requests s)" "cr_ID r = i" "x = termsOf r" "unrevoked (lg_grants s) i"
    unfolding consentOf_Allowed by simp_all
  then obtain g where g: "g \<in> set (lg_grants s)" "fst (gr_Consent g) = i" "gr_RevokedAt g = None" by (auto simp: unrevoked_def)
  obtain r' where r': "r' \<in> set (lg_requests s)" "evidence r' g" using assms(1) g(1) by (auto simp: ledgerInv_def)
  have d: "distinct (map cr_ID (lg_requests s))" using assms(1) by (simp add: ledgerInv_def)
  have "cr_ID r' = cr_ID r" using r'(2) g(2) r(2) unfolding evidence_def by metis
  then have "r' = r" by (rule same_request [OF d r(1) r'(1)])
  with r' r(3) x g assms(2) have "gr_OrgID g = og" "gr_UserID g = u" "sc = gr_Scope g" "active now g"
    by (simp_all add: evidence_def termsOf_def active_def unexpiring_def)
  with g(1) show "sc \<in> gr_Scope ` {g \<in> set (lg_grants s). gr_OrgID g = og \<and> gr_UserID g = u \<and> active now g}" by blast
next
  fix sc
  assume "sc \<in> gr_Scope ` {g \<in> set (lg_grants s). gr_OrgID g = og \<and> gr_UserID g = u \<and> active now g}"
  then obtain g where g: "g \<in> set (lg_grants s)" "gr_OrgID g = og" "gr_UserID g = u" "gr_RevokedAt g = None" "sc = gr_Scope g"
    by (auto simp: active_def)
  obtain r where r: "r \<in> set (lg_requests s)" "evidence r g" using assms(1) g(1) by (auto simp: ledgerInv_def)
  have d: "distinct (map cr_ID (lg_requests s))" using assms(1) by (simp add: ledgerInv_def)
  have "find (\<lambda>x. cr_ID x = cr_ID r) (lg_requests s) = Some r" by (rule find_request [OF d r(1)])
  moreover have "unrevoked (lg_grants s) (cr_ID r)" using g(1,4) r(2) by (auto simp: unrevoked_def evidence_def)
  ultimately have "consents s (cr_ID r) = Some (Allowed (termsOf r) True)" using r(2) by (simp add: consents_def consentOf_def evidence_def)
  then show "sc \<in> liveScopes og u (consents s)" using r(2) g(2,3,5) by (force simp: liveScopes_def evidence_def termsOf_def)
qed

section \<open>Refinement\<close>



end
