(* ===== verification/Secrets.thy ===== *)
theory Secrets
  imports AuditLog
begin

text \<open>
  \<^verbatim>\<open>internal/secrets\<close>: envelope-encrypted secrets.  The root key of the environment wraps one data key per
  organisation and version, which encrypts the secrets; reads, writes, deletion and the rotation of data keys
  work on three tables.  AES-GCM, SHA-256 and the KMS client are parameters, as are the random bytes and the
  failures of the statements of a call.
\<close>

section \<open>Data\<close>

definition ErrSecretNotFound :: goerr where "ErrSecretNotFound = ErrNew ''secret not found''"
definition ErrWrongTenant :: goerr where "ErrWrongTenant = ErrNew ''secret does not belong to caller''"
definition ErrNoRootKey :: goerr where "ErrNoRootKey = ErrNew ''no root key for KEK version''"

record secret_row =
  sr_ID :: string
  sr_UserID :: string
  sr_OrgID :: string
  sr_Ciphertext :: string
  sr_DekVersion :: int

record dek_row =
  dk_OrgID :: string
  dk_Version :: int
  dk_Ciphertext :: string

record vault =
  vt_secrets :: "secret_row list"
  vt_deks :: "dek_row list"
  vt_audit :: audit_log

record crypto =
  cr_Seal :: "string \<Rightarrow> string \<Rightarrow> string \<Rightarrow> string \<Rightarrow> string"
  cr_Open :: "string \<Rightarrow> string \<Rightarrow> string \<Rightarrow> string \<Rightarrow> string result"
  cr_Sum256 :: "string \<Rightarrow> string"

record manager =
  sm_crypto :: crypto
  sm_RootKey :: "int \<Rightarrow> string result"
  sm_KEKVersion :: int

text \<open>The n-th read of random bytes of a call, of a given length.\<close>

type_synonym entropy = "nat \<Rightarrow> nat \<Rightarrow> string result"

section \<open>Root keys\<close>

definition staticRootKey :: "(int \<rightharpoonup> string) \<Rightarrow> int \<Rightarrow> string result" where
  "staticRootKey keys version = (case keys version of None \<Rightarrow> Inl ErrNoRootKey | Some k \<Rightarrow> Inr k)"

record kms_root_keys =
  km_Decrypt :: "string \<Rightarrow> string result"
  km_Ciphertexts :: "int \<rightharpoonup> string"
  km_cache :: "int \<rightharpoonup> string"

definition NewKMSRootKeys :: "(string \<Rightarrow> string result) \<Rightarrow> (int \<rightharpoonup> string) \<Rightarrow> kms_root_keys" where
  "NewKMSRootKeys decrypt ciphertexts = \<lparr>km_Decrypt = decrypt, km_Ciphertexts = ciphertexts, km_cache = Map.empty\<rparr>"

definition kmsRootKey :: "int \<Rightarrow> kms_root_keys \<Rightarrow> string result \<times> kms_root_keys" where
  "kmsRootKey version k =
     (case km_cache k version of
        Some plain \<Rightarrow> (Inr plain, k)
      | None \<Rightarrow>
     (case km_Ciphertexts k version of
        None \<Rightarrow> (Inl (ErrNew (''no KMS ciphertext configured for KEK v'' @ showInt version)), k)
      | Some ct \<Rightarrow>
     (case km_Decrypt k ct of
        Inl err \<Rightarrow> (Inl (ErrWrap (''kms decrypt v'' @ showInt version @ '': '' @ errText err) err), k)
      | Inr plain \<Rightarrow> (Inr plain, k\<lparr>km_cache := (km_cache k)(version \<mapsto> plain)\<rparr>))))"

section \<open>Encryption\<close>

definition deriveKEK :: "manager \<Rightarrow> string \<Rightarrow> string" where
  "deriveKEK m root = cr_Sum256 (sm_crypto m) root"

definition nonceSize :: nat where "nonceSize = 12"

definition keySizeError :: "string \<Rightarrow> goerr option" where
  "keySizeError key =
     (if length key = 16 \<or> length key = 24 \<or> length key = 32 then None
      else Some (ErrNew (''crypto/aes: invalid key size '' @ showNat (length key))))"

definition sealBox :: "manager \<Rightarrow> string result \<Rightarrow> string \<Rightarrow> string \<Rightarrow> string \<Rightarrow> string result" where
  "sealBox m nonce key plaintext aad =
     (case keySizeError key of
        Some err \<Rightarrow> Inl err
      | None \<Rightarrow> (case nonce of Inl err \<Rightarrow> Inl err | Inr n \<Rightarrow> Inr (n @ cr_Seal (sm_crypto m) key n plaintext aad)))"

definition openBox :: "manager \<Rightarrow> string \<Rightarrow> string \<Rightarrow> string \<Rightarrow> string result" where
  "openBox m key ciphertext aad =
     (case keySizeError key of
        Some err \<Rightarrow> Inl err
      | None \<Rightarrow>
          if length ciphertext < nonceSize then Inl (ErrNew ''ciphertext too short'')
          else cr_Open (sm_crypto m) key (take nonceSize ciphertext) (drop nonceSize ciphertext) aad)"

text \<open>Big-endian bytes of the version as a 32-bit unsigned integer.\<close>

definition versionBytes :: "int \<Rightarrow> string" where
  "versionBytes v = map (\<lambda>k. char_of (nat (v mod 2 ^ 32) div 256 ^ k)) [3, 2, 1, 0]"

section \<open>Data keys\<close>

definition kekFor :: "manager \<Rightarrow> goerr option \<Rightarrow> string \<Rightarrow> int \<Rightarrow> dek_row list \<Rightarrow> string result" where
  "kekFor m fault orgID dekVersion deks =
     (case queryRow fault (find (\<lambda>d. dk_OrgID d = orgID \<and> dk_Version d = dekVersion) deks) of
        Inl err \<Rightarrow> Inl (if errorsIs err ErrNoRows then ErrNew (''no DEK v'' @ showInt dekVersion @ '' for org'') else err)
      | Inr d \<Rightarrow>
     (case sm_RootKey m (sm_KEKVersion m) of
        Inl err \<Rightarrow> Inl err
      | Inr root \<Rightarrow> openBox m (deriveKEK m root) (dk_Ciphertext d) (orgID @ versionBytes dekVersion)))"

definition maxDek :: "string \<Rightarrow> dek_row list \<Rightarrow> int" where
  "maxDek orgID deks = fold max (map dk_Version (filter (\<lambda>d. dk_OrgID d = orgID) deks)) 0"

text \<open>
  A fresh data key of a given version, wrapped and inserted: the body that \<^verbatim>\<open>ensureDEK\<close> and \<^verbatim>\<open>RotateOrgDEK\<close> share.
\<close>

definition insertDEK ::
  "manager \<Rightarrow> entropy \<Rightarrow> goerr option \<Rightarrow> string \<Rightarrow> int \<Rightarrow> dek_row list \<Rightarrow> (string \<times> dek_row list) result" where
  "insertDEK m rnd fault orgID version deks =
     (case rnd 0 32 of
        Inl err \<Rightarrow> Inl err
      | Inr dek \<Rightarrow>
     (case sm_RootKey m (sm_KEKVersion m) of
        Inl err \<Rightarrow> Inl err
      | Inr root \<Rightarrow>
     (case sealBox m (rnd 1 nonceSize) (deriveKEK m root) dek (orgID @ versionBytes version) of
        Inl err \<Rightarrow> Inl err
      | Inr wrapped \<Rightarrow>
     (case (if (orgID, version) \<in> (\<lambda>d. (dk_OrgID d, dk_Version d)) ` set deks then Some ErrDuplicateKey else fault) of
        Some err \<Rightarrow> Inl err
      | None \<Rightarrow> Inr (dek, deks @ [\<lparr>dk_OrgID = orgID, dk_Version = version, dk_Ciphertext = wrapped\<rparr>])))))"

definition ensureDEK ::
  "manager \<Rightarrow> entropy \<Rightarrow> goerr option \<Rightarrow> goerr option \<Rightarrow> string \<Rightarrow> dek_row list \<Rightarrow> (int \<times> dek_row list) result" where
  "ensureDEK m rnd fault1 fault2 orgID deks =
     (case fault1 of
        Some err \<Rightarrow> Inl err
      | None \<Rightarrow>
          if maxDek orgID deks > 0 then Inr (maxDek orgID deks, deks)
          else (case insertDEK m rnd fault2 orgID 1 deks of Inl err \<Rightarrow> Inl err | Inr (dek, deks') \<Rightarrow> Inr (1, deks')))"

section \<open>Operations\<close>

text \<open>A transaction that is rolled back keeps the audit sequence it drew from.\<close>

definition rollbackVault :: "vault \<Rightarrow> audit_log \<Rightarrow> vault" where
  "rollbackVault v al = v\<lparr>vt_audit := (vt_audit v)\<lparr>al_next := al_next al\<rparr>\<rparr>"

definition PutSecret ::
  "manager \<Rightarrow> (string \<Rightarrow> string) \<Rightarrow> time \<Rightarrow> string \<Rightarrow> entropy \<Rightarrow> faults \<Rightarrow> string \<Rightarrow> string \<Rightarrow> string
   \<Rightarrow> vault \<Rightarrow> (string \<times> goerr option) \<times> vault" where
  "PutSecret m H now newID rnd fault orgID userID plaintext v =
     (case fault 0 of
        Some err \<Rightarrow> (([], Some err), v)
      | None \<Rightarrow>
     (case ensureDEK m rnd (fault 1) (fault 2) orgID (vt_deks v) of
        Inl err \<Rightarrow> (([], Some err), v)
      | Inr (version, deks) \<Rightarrow>
     (case kekFor m (fault 3) orgID version deks of
        Inl err \<Rightarrow> (([], Some err), v)
      | Inr dek \<Rightarrow>
     (case sealBox m (rnd 2 nonceSize) dek plaintext userID of
        Inl err \<Rightarrow> (([], Some err), v)
      | Inr ct \<Rightarrow>
     (case (if newID \<in> sr_ID ` set (vt_secrets v) then Some ErrDuplicateKey else fault 4) of
        Some err \<Rightarrow> (([], Some err), v)
      | None \<Rightarrow>
     (case auditWrite H now (fault 5) userID ''secret.put'' newID ''allow'' [] (vt_audit v) of
        (Some err, al) \<Rightarrow> (([], Some err), rollbackVault v al)
      | (None, al) \<Rightarrow>
     (case fault 6 of
        Some err \<Rightarrow> ((newID, Some err), rollbackVault v al)
      | None \<Rightarrow>
          ((newID, None),
           \<lparr>vt_secrets = vt_secrets v @ [\<lparr>sr_ID = newID, sr_UserID = userID, sr_OrgID = orgID, sr_Ciphertext = ct, sr_DekVersion = version\<rparr>],
            vt_deks = deks, vt_audit = al\<rparr>))))))))"

definition GetSecret ::
  "manager \<Rightarrow> (string \<Rightarrow> string) \<Rightarrow> time \<Rightarrow> faults \<Rightarrow> string \<Rightarrow> string \<Rightarrow> string \<Rightarrow> vault \<Rightarrow> string result \<times> vault" where
  "GetSecret m H now fault orgID userID secretID v =
     (let row = queryRow (fault 0) (find (\<lambda>r. sr_ID r = secretID \<and> sr_OrgID r = orgID) (vt_secrets v));
          denied = (case row of Inl err \<Rightarrow> errorsIs err ErrNoRows | Inr r \<Rightarrow> sr_UserID r \<noteq> userID)
      in if denied then
           (case auditWrite H now (fault 1) userID ''secret.get'' secretID ''deny'' ''not found or wrong tenant'' (vt_audit v) of
              (Some err, al) \<Rightarrow> (Inl err, v\<lparr>vt_audit := al\<rparr>)
            | (None, al) \<Rightarrow>
                (Inl (case row of Inr _ \<Rightarrow> ErrWrongTenant | Inl _ \<Rightarrow> ErrSecretNotFound), v\<lparr>vt_audit := al\<rparr>))
         else
           (case row of
              Inl err \<Rightarrow> (Inl err, v)
            | Inr r \<Rightarrow>
           (case kekFor m (fault 2) orgID (sr_DekVersion r) (vt_deks v) of
              Inl err \<Rightarrow> (Inl err, v)
            | Inr dek \<Rightarrow>
           (case openBox m dek (sr_Ciphertext r) (sr_UserID r) of
              Inl err \<Rightarrow> (Inl err, v)
            | Inr pt \<Rightarrow>
           (case auditWrite H now (fault 3) userID ''secret.get'' secretID ''allow'' [] (vt_audit v) of
              (Some err, al) \<Rightarrow> (Inl err, v\<lparr>vt_audit := al\<rparr>)
            | (None, al) \<Rightarrow> (Inr pt, v\<lparr>vt_audit := al\<rparr>))))))"

definition DeleteSecret ::
  "(string \<Rightarrow> string) \<Rightarrow> time \<Rightarrow> faults \<Rightarrow> string \<Rightarrow> string \<Rightarrow> string \<Rightarrow> vault \<Rightarrow> goerr option \<times> vault" where
  "DeleteSecret H now fault orgID userID secretID v =
     (case fault 0 of
        Some err \<Rightarrow> (Some err, v)
      | None \<Rightarrow>
          let hit = (\<lambda>r. sr_ID r = secretID \<and> sr_OrgID r = orgID \<and> sr_UserID r = userID);
              v' = v\<lparr>vt_secrets := filter (\<lambda>r. \<not> hit r) (vt_secrets v)\<rparr>
          in if filter hit (vt_secrets v) = [] then (Some ErrSecretNotFound, v')
             else (case auditWrite H now (fault 1) userID ''secret.delete'' secretID ''allow'' [] (vt_audit v') of
                     (e, al) \<Rightarrow> (e, v'\<lparr>vt_audit := al\<rparr>)))"

definition reencryptRow :: "string \<Rightarrow> string \<Rightarrow> int \<Rightarrow> secret_row \<Rightarrow> secret_row" where
  "reencryptRow rowID ct version x =
     (if sr_ID x = rowID then x\<lparr>sr_Ciphertext := ct, sr_DekVersion := version\<rparr> else x)"

fun reencrypt ::
  "manager \<Rightarrow> entropy \<Rightarrow> faults \<Rightarrow> string \<Rightarrow> string \<Rightarrow> int \<Rightarrow> nat \<Rightarrow> dek_row list \<Rightarrow> secret_row list \<Rightarrow> secret_row list
   \<Rightarrow> secret_row list result" where
  "reencrypt m rnd fault orgID newDEK version k deks [] rows = Inr rows"
| "reencrypt m rnd fault orgID newDEK version k deks (r # rs) rows =
     (case kekFor m (fault (4 + 2 * k)) orgID (sr_DekVersion r) deks of
        Inl err \<Rightarrow> Inl err
      | Inr oldDEK \<Rightarrow>
     (case openBox m oldDEK (sr_Ciphertext r) (sr_UserID r) of
        Inl err \<Rightarrow> Inl (ErrWrap (''re-encrypt '' @ sr_ID r @ '': '' @ errText err) err)
      | Inr pt \<Rightarrow>
     (case sealBox m (rnd (2 + k) nonceSize) newDEK pt (sr_UserID r) of
        Inl err \<Rightarrow> Inl err
      | Inr ct \<Rightarrow>
     (case fault (5 + 2 * k) of
        Some err \<Rightarrow> Inl err
      | None \<Rightarrow> reencrypt m rnd fault orgID newDEK version (Suc k) deks rs (map (reencryptRow (sr_ID r) ct version) rows)))))"

text \<open>
  The secrets are read row by row; a row whose scan fails ends the rotation, while a failure that ends the
  iteration early goes unnoticed: \<open>avail\<close> is the number of rows delivered.  \<open>auditFault\<close> and \<open>commitFault\<close> are the
  outcomes of the last two statements.
\<close>

definition RotateOrgDEK ::
  "manager \<Rightarrow> (string \<Rightarrow> string) \<Rightarrow> time \<Rightarrow> entropy \<Rightarrow> faults \<Rightarrow> (nat \<Rightarrow> goerr option) \<Rightarrow> nat \<Rightarrow> goerr option \<Rightarrow> goerr option
   \<Rightarrow> string \<Rightarrow> string \<Rightarrow> vault \<Rightarrow> (int \<times> goerr option) \<times> vault" where
  "RotateOrgDEK m H now rnd fault scan avail auditFault commitFault orgID actor v =
     (case fault 0 of
        Some err \<Rightarrow> ((0, Some err), v)
      | None \<Rightarrow>
     (case fault 1 of
        Some err \<Rightarrow> ((0, Some err), v)
      | None \<Rightarrow>
     (let nxt = maxDek orgID (vt_deks v) + 1 in
     (case insertDEK m rnd (fault 2) orgID nxt (vt_deks v) of
        Inl err \<Rightarrow> ((0, Some err), v)
      | Inr (newDEK, deks) \<Rightarrow>
     (case fault 3 of
        Some err \<Rightarrow> ((0, Some err), v)
      | None \<Rightarrow>
     (let batch = take avail (filter (\<lambda>r. sr_OrgID r = orgID) (vt_secrets v)) in
     (case find (\<lambda>k. scan k \<noteq> None) [0 ..< length batch] of
        Some k \<Rightarrow> ((0, scan k), v)
      | None \<Rightarrow>
     (case reencrypt m rnd fault orgID newDEK nxt 0 deks batch (vt_secrets v) of
        Inl err \<Rightarrow> ((0, Some err), v)
      | Inr rows \<Rightarrow>
     (case auditWrite H now auditFault actor ''secret.rotate_dek'' orgID ''allow''
             (''version='' @ showInt nxt @ '' secrets='' @ showInt (int (length batch))) (vt_audit v) of
        (Some err, al) \<Rightarrow> ((0, Some err), rollbackVault v al)
      | (None, al) \<Rightarrow>
     (case commitFault of
        Some err \<Rightarrow> ((nxt, Some err), rollbackVault v al)
      | None \<Rightarrow> ((nxt, None), \<lparr>vt_secrets = rows, vt_deks = deks, vt_audit = al\<rparr>)))))))))))"

section \<open>What a vault holds\<close>

text \<open>
  The facts about the cryptography: opening undoes sealing with the same key, nonce and associated data, and
  digests and random bytes have their lengths.
\<close>

definition crypto_ok :: "manager \<Rightarrow> bool" where
  "crypto_ok m \<longleftrightarrow>
     (\<forall>k n p a. length n = nonceSize \<longrightarrow> cr_Open (sm_crypto m) k n (cr_Seal (sm_crypto m) k n p a) a = Inr p) \<and>
     (\<forall>x. length (cr_Sum256 (sm_crypto m) x) = 32)"

definition entropy_ok :: "entropy \<Rightarrow> bool" where
  "entropy_ok rnd \<longleftrightarrow> (\<forall>i n b. rnd i n = Inr b \<longrightarrow> length b = n)"

definition plainOf :: "manager \<Rightarrow> dek_row list \<Rightarrow> secret_row \<Rightarrow> string option" where
  "plainOf m deks r =
     (case kekFor m None (sr_OrgID r) (sr_DekVersion r) deks of
        Inl _ \<Rightarrow> None
      | Inr dek \<Rightarrow> (case openBox m dek (sr_Ciphertext r) (sr_UserID r) of Inl _ \<Rightarrow> None | Inr pt \<Rightarrow> Some pt))"

text \<open>The abstraction: which organisation and user own a secret, and its plaintext.\<close>

type_synonym contents = "string \<rightharpoonup> string \<times> string \<times> string"

definition contentsOf :: "manager \<Rightarrow> dek_row list \<Rightarrow> secret_row list \<Rightarrow> contents" where
  "contentsOf m deks rows i =
     (case find (\<lambda>r. sr_ID r = i) rows of
        None \<Rightarrow> None
      | Some r \<Rightarrow> map_option (\<lambda>pt. (sr_OrgID r, sr_UserID r, pt)) (plainOf m deks r))"

abbreviation contents :: "manager \<Rightarrow> vault \<Rightarrow> contents" where
  "contents m v \<equiv> contentsOf m (vt_deks v) (vt_secrets v)"

definition vaultOK :: "manager \<Rightarrow> vault \<Rightarrow> bool" where
  "vaultOK m v \<longleftrightarrow> distinct (map sr_ID (vt_secrets v)) \<and> (\<forall>r \<in> set (vt_secrets v). plainOf m (vt_deks v) r \<noteq> None)"

section \<open>Facts about keys\<close>

lemma openBox_sealBox:
  assumes "crypto_ok m" and "entropy_ok rnd" and "sealBox m (rnd i nonceSize) key pt aad = Inr ct"
  shows "openBox m key ct aad = Inr pt"
proof -
  from assms(3) obtain n where n: "rnd i nonceSize = Inr n" "keySizeError key = None" "ct = n @ cr_Seal (sm_crypto m) key n pt aad"
    by (auto simp: sealBox_def split: option.splits sum.splits)
  with assms(2) have "length n = nonceSize" by (simp add: entropy_ok_def)
  with n assms(1) show ?thesis by (simp add: openBox_def crypto_ok_def)
qed

lemma kekFor_no_fault: "kekFor m fault og v deks = Inr k \<Longrightarrow> kekFor m None og v deks = Inr k"
  by (auto simp: kekFor_def queryRow_def split: option.splits sum.splits if_splits)

lemma find_append: "find P (xs @ ys) = (case find P xs of None \<Rightarrow> find P ys | Some x \<Rightarrow> Some x)"
  by (induction xs) simp_all

lemma kekFor_append: "kekFor m None og v deks = Inr k \<Longrightarrow> kekFor m None og v (deks @ ds) = Inr k"
  by (auto simp: kekFor_def queryRow_def find_append split: option.splits sum.splits if_splits)

lemma plainOf_append: "plainOf m deks r = Some pt \<Longrightarrow> plainOf m (deks @ ds) r = Some pt"
  by (auto simp: plainOf_def kekFor_append split: sum.splits)

lemma insertDEK_Inr:
  assumes "crypto_ok m" and "entropy_ok rnd" and "insertDEK m rnd fault og version deks = Inr (dek, deks')"
  shows "kekFor m None og version deks' = Inr dek" and "\<exists>d. deks' = deks @ [d]"
proof -
  from assms(3) obtain root wrapped where root: "sm_RootKey m (sm_KEKVersion m) = Inr root"
    and w: "sealBox m (rnd 1 nonceSize) (deriveKEK m root) dek (og @ versionBytes version) = Inr wrapped"
    and new: "(og, version) \<notin> (\<lambda>d. (dk_OrgID d, dk_Version d)) ` set deks"
    and d: "deks' = deks @ [\<lparr>dk_OrgID = og, dk_Version = version, dk_Ciphertext = wrapped\<rparr>]"
    by (auto simp: insertDEK_def split: sum.splits option.splits if_splits)
  from new have "find (\<lambda>d. dk_OrgID d = og \<and> dk_Version d = version) deks = None" by (auto simp: find_None_iff)
  with root openBox_sealBox [OF assms(1,2) w] show "kekFor m None og version deks' = Inr dek"
    by (simp add: kekFor_def queryRow_def find_append d)
  from d show "\<exists>d. deks' = deks @ [d]" by blast
qed

lemma ensureDEK_Inr:
  assumes "ensureDEK m rnd f1 f2 og deks = Inr (version, deks')"
  shows "\<exists>ds. deks' = deks @ ds"
  using assms by (auto simp: ensureDEK_def insertDEK_def split: option.splits sum.splits if_splits)

lemma plainOf_sealed:
  assumes "crypto_ok m" and "entropy_ok rnd" and "kekFor m None (sr_OrgID r) version deks = Inr dek"
    and "sealBox m (rnd i nonceSize) dek pt (sr_UserID r) = Inr ct"
  shows "plainOf m deks (r\<lparr>sr_Ciphertext := ct, sr_DekVersion := version\<rparr>) = Some pt"
  using assms(3) openBox_sealBox [OF assms(1,2,4)] by (simp add: plainOf_def)

section \<open>Facts about contents\<close>

lemma find_by_id:
  assumes "distinct (map sr_ID rows)" and "r \<in> set rows"
  shows "find (\<lambda>x. sr_ID x = sr_ID r) rows = Some r"
  using assms by (induction rows) (auto simp: rev_image_eqI)

lemma contentsOf_Some:
  assumes "distinct (map sr_ID rows)" and "r \<in> set rows" and "plainOf m deks r = Some pt"
  shows "contentsOf m deks rows (sr_ID r) = Some (sr_OrgID r, sr_UserID r, pt)"
  using assms by (simp add: contentsOf_def find_by_id)

text \<open>Rows that agree on the owner and decrypt alike hold the same.\<close>

definition sameSecret :: "manager \<Rightarrow> dek_row list \<Rightarrow> dek_row list \<Rightarrow> secret_row \<Rightarrow> secret_row \<Rightarrow> bool" where
  "sameSecret m deks deks' x y \<longleftrightarrow> sr_ID x = sr_ID y \<and> sr_OrgID x = sr_OrgID y \<and> sr_UserID x = sr_UserID y \<and>
     plainOf m deks x = plainOf m deks' y"

lemma sameSecret_contents:
  "list_all2 (sameSecret m deks deks') rows rows' \<Longrightarrow> contentsOf m deks rows = contentsOf m deks' rows' \<and> map sr_ID rows = map sr_ID rows'"
  by (induction rule: list_all2_induct) (auto simp: contentsOf_def sameSecret_def fun_eq_iff)

lemma same_after_append:
  assumes "\<forall>r \<in> set rows. plainOf m deks r \<noteq> None"
  shows "list_all2 (sameSecret m deks (deks @ ds)) rows rows"
  using assms plainOf_append by (auto simp: list_all2_same sameSecret_def)

lemma list_all2_sameSecret_trans:
  "list_all2 (sameSecret m d1 d2) xs ys \<Longrightarrow> list_all2 (sameSecret m d2 d3) ys zs \<Longrightarrow> list_all2 (sameSecret m d1 d3) xs zs"
  by (rule list_all2_trans [of "sameSecret m d1 d2" "sameSecret m d2 d3"]) (auto simp: sameSecret_def)

lemma list_all2_sameSecret_plain:
  "list_all2 (sameSecret m deks deks') rows rows' \<Longrightarrow> \<forall>r \<in> set rows. plainOf m deks r \<noteq> None \<Longrightarrow> \<forall>r \<in> set rows'. plainOf m deks' r \<noteq> None"
  by (induction rule: list_all2_induct) (auto simp: sameSecret_def)

text \<open>The re-encryption of one row, then of a batch.\<close>

lemma reencryptRow_same:
  assumes "crypto_ok m" and "entropy_ok rnd" and "distinct (map sr_ID rows)" and "r \<in> set rows" and "sr_OrgID r = og"
    and "kekFor m None og version deks = Inr dek" and "plainOf m deks r = Some pt"
    and "sealBox m (rnd i nonceSize) dek pt (sr_UserID r) = Inr ct"
  shows "list_all2 (sameSecret m deks deks) rows (map (reencryptRow (sr_ID r) ct version) rows)"
proof -
  have "plainOf m deks (r\<lparr>sr_Ciphertext := ct, sr_DekVersion := version\<rparr>) = Some pt"
    using assms(1,2,5,6,8) by (intro plainOf_sealed) auto
  moreover have "x = r" if "x \<in> set rows" "sr_ID x = sr_ID r" for x
    using assms(3,4) that by (auto simp: distinct_map inj_on_def)
  ultimately have "sameSecret m deks deks x (reencryptRow (sr_ID r) ct version x)" if "x \<in> set rows" for x
    using that assms(7) by (cases "x = r") (auto simp: sameSecret_def reencryptRow_def)
  then show ?thesis by (simp add: list_all2_map2 list_all2_same)
qed

lemma reencrypt_same:
  assumes "crypto_ok m" and "entropy_ok rnd" and "kekFor m None og version deks = Inr dek"
  shows "reencrypt m rnd fault og dek version k deks batch rows = Inr rows' \<Longrightarrow> distinct (map sr_ID rows) \<Longrightarrow>
    distinct (map sr_ID batch) \<Longrightarrow> set batch \<subseteq> set rows \<Longrightarrow> \<forall>r \<in> set batch. sr_OrgID r = og \<Longrightarrow>
    list_all2 (sameSecret m deks deks) rows rows'"
proof (induction batch arbitrary: k rows)
  case Nil
  then show ?case by (simp add: list_all2_same sameSecret_def)
next
  case (Cons r rs)
  from Cons.prems(1) obtain old pt ct where old: "kekFor m None og (sr_DekVersion r) deks = Inr old"
    and pt: "openBox m old (sr_Ciphertext r) (sr_UserID r) = Inr pt"
    and ct: "sealBox m (rnd (2 + k) nonceSize) dek pt (sr_UserID r) = Inr ct"
    and rest: "reencrypt m rnd fault og dek version (Suc k) deks rs (map (reencryptRow (sr_ID r) ct version) rows) = Inr rows'"
    by (auto dest: kekFor_no_fault split: sum.splits option.splits)
  let ?rows = "map (reencryptRow (sr_ID r) ct version) rows"
  have r: "sr_OrgID r = og" "r \<in> set rows" using Cons.prems by auto
  have "plainOf m deks r = Some pt" using old pt r by (simp add: plainOf_def)
  then have same: "list_all2 (sameSecret m deks deks) rows ?rows"
    using reencryptRow_same [OF assms(1,2) Cons.prems(2) r(2,1) assms(3) _ ct] by blast
  have ids: "map sr_ID ?rows = map sr_ID rows" using sameSecret_contents [OF same] by simp
  have "x \<in> set ?rows" if "x \<in> set rs" for x
  proof -
    have "sr_ID x \<in> sr_ID ` set rs" using that by (rule imageI)
    with Cons.prems(3) have "sr_ID x \<noteq> sr_ID r" by auto
    then have "reencryptRow (sr_ID r) ct version x = x" by (simp add: reencryptRow_def)
    moreover have "x \<in> set rows" using that Cons.prems(4) by auto
    ultimately show ?thesis by force
  qed
  then have sub: "set rs \<subseteq> set ?rows" by blast
  have d: "distinct (map sr_ID ?rows)" unfolding ids by (rule Cons.prems)
  have rs: "distinct (map sr_ID rs)" "\<forall>r \<in> set rs. sr_OrgID r = og" using Cons.prems(3,5) by simp_all
  have "list_all2 (sameSecret m deks deks) ?rows rows'" by (rule Cons.IH [OF rest d rs(1) sub rs(2)])
  with same show ?case by (rule list_all2_sameSecret_trans)
qed

section \<open>The operations against the contents\<close>

lemma contents_rollback [simp]: "contents m (rollbackVault v al) = contents m v"
  by (simp add: rollbackVault_def)

lemma vaultOK_rollback [simp]: "vaultOK m (rollbackVault v al) = vaultOK m v"
  by (simp add: rollbackVault_def vaultOK_def)

lemma vaultOK_audit [simp]: "vaultOK m (v\<lparr>vt_audit := al\<rparr>) = vaultOK m v"
  by (simp add: vaultOK_def)

lemma PutSecret_failed:
  assumes "PutSecret m H now newID rnd fault og u pt v = ((i, Some e), v')"
  shows "v' = v \<or> (\<exists>al. v' = rollbackVault v al)"
  using assms by (auto simp: PutSecret_def split: option.splits sum.splits prod.splits if_splits)

lemma PutSecret_ok:
  assumes m: "crypto_ok m" "entropy_ok rnd" and v: "vaultOK m v" and put: "PutSecret m H now newID rnd fault og u pt v = ((i, None), v')"
  shows "vaultOK m v'" and "i = newID" and "contents m v i = None" and "contents m v' = (contents m v)(i \<mapsto> (og, u, pt))"
proof -
  have "\<exists>version deks dek ct al. ensureDEK m rnd (fault 1) (fault 2) og (vt_deks v) = Inr (version, deks) \<and>
      kekFor m (fault 3) og version deks = Inr dek \<and> sealBox m (rnd 2 nonceSize) dek pt u = Inr ct \<and>
      newID \<notin> sr_ID ` set (vt_secrets v) \<and> i = newID \<and>
      v' = \<lparr>vt_secrets = vt_secrets v @ [\<lparr>sr_ID = newID, sr_UserID = u, sr_OrgID = og, sr_Ciphertext = ct, sr_DekVersion = version\<rparr>],
            vt_deks = deks, vt_audit = al\<rparr>"
    using put by (auto simp: PutSecret_def split: option.splits sum.splits prod.splits if_splits)
  then obtain version deks dek ct al where en: "ensureDEK m rnd (fault 1) (fault 2) og (vt_deks v) = Inr (version, deks)"
    and kek: "kekFor m (fault 3) og version deks = Inr dek" and ct: "sealBox m (rnd 2 nonceSize) dek pt u = Inr ct"
    and new: "newID \<notin> sr_ID ` set (vt_secrets v)" and i: "i = newID"
    and v': "v' = \<lparr>vt_secrets = vt_secrets v @ [\<lparr>sr_ID = newID, sr_UserID = u, sr_OrgID = og, sr_Ciphertext = ct, sr_DekVersion = version\<rparr>],
            vt_deks = deks, vt_audit = al\<rparr>" by (elim exE conjE)
  let ?r = "\<lparr>sr_ID = newID, sr_UserID = u, sr_OrgID = og, sr_Ciphertext = ct, sr_DekVersion = version\<rparr>"
  from ensureDEK_Inr [OF en] obtain ds where ds: "deks = vt_deks v @ ds" by blast
  have plain: "plainOf m deks ?r = Some pt"
    using kekFor_no_fault [OF kek] openBox_sealBox [OF m ct] by (simp add: plainOf_def)
  have same: "list_all2 (sameSecret m (vt_deks v) deks) (vt_secrets v) (vt_secrets v)"
    unfolding ds using v by (intro same_after_append) (simp add: vaultOK_def)
  show "i = newID" by (rule i)
  have none: "find (\<lambda>r. sr_ID r = newID) (vt_secrets v) = None" using new by (auto simp: find_None_iff)
  show "contents m v i = None" by (simp add: contentsOf_def none i)
  show "vaultOK m v'"
    using v new plain list_all2_sameSecret_plain [OF same] by (auto simp: vaultOK_def v')
  have "contentsOf m deks (vt_secrets v @ [?r]) = (contentsOf m deks (vt_secrets v))(newID \<mapsto> (og, u, pt))"
    using none plain by (auto simp: contentsOf_def find_append fun_eq_iff split: option.split)
  then show "contents m v' = (contents m v)(i \<mapsto> (og, u, pt))"
    using sameSecret_contents [OF same] by (simp add: v' i)
qed

lemma GetSecret_vault: "GetSecret m H now fault og u i v = (r, v') \<Longrightarrow> v' = v \<or> (\<exists>al. v' = v\<lparr>vt_audit := al\<rparr>)"
  by (auto simp: GetSecret_def Let_def split: option.splits sum.splits prod.splits if_splits)

lemma find_id_org:
  assumes "distinct (map sr_ID rows)" and "find (\<lambda>r. sr_ID r = i \<and> sr_OrgID r = og) rows = Some r"
  shows "r \<in> set rows" and "sr_ID r = i" and "sr_OrgID r = og"
  using assms(2) by (auto simp: find_Some_iff)

lemma find_id_org_eq:
  assumes "distinct (map sr_ID rows)" and "r \<in> set rows"
  shows "find (\<lambda>x. sr_ID x = sr_ID r \<and> sr_OrgID x = sr_OrgID r) rows = Some r"
  using assms by (induction rows) (auto simp: rev_image_eqI)

lemma GetSecret_ok:
  assumes "vaultOK m v" and "GetSecret m H now fault og u i v = (Inr pt, v')"
  shows "contents m v i = Some (og, u, pt)"
proof -
  from assms(2) obtain r dek where r: "find (\<lambda>r. sr_ID r = i \<and> sr_OrgID r = og) (vt_secrets v) = Some r" "sr_UserID r = u"
    and dek: "kekFor m (fault 2) og (sr_DekVersion r) (vt_deks v) = Inr dek" and pt: "openBox m dek (sr_Ciphertext r) (sr_UserID r) = Inr pt"
    by (cases "queryRow (fault 0) (find (\<lambda>r. sr_ID r = i \<and> sr_OrgID r = og) (vt_secrets v))")
      (auto simp: GetSecret_def Let_def split: option.splits sum.splits prod.splits if_splits)
  have d: "distinct (map sr_ID (vt_secrets v))" using assms(1) by (simp add: vaultOK_def)
  note f = find_id_org [OF d r(1)]
  have "plainOf m (vt_deks v) r = Some pt" using kekFor_no_fault [OF dek] pt f by (simp add: plainOf_def)
  from contentsOf_Some [OF d f(1) this] f r(2) show ?thesis by simp
qed

lemma DeleteSecret_cases:
  assumes "vaultOK m v" and "DeleteSecret H now fault og u i v = (e, v')"
  shows "vaultOK m v'" and "vt_secrets v' \<noteq> vt_secrets v \<Longrightarrow> \<exists>pt. contents m v i = Some (og, u, pt) \<and> contents m v' = (contents m v)(i := None)"
proof -
  let ?hit = "\<lambda>r. sr_ID r = i \<and> sr_OrgID r = og \<and> sr_UserID r = u"
  have rows: "vt_deks v' = vt_deks v \<and> (vt_secrets v' = vt_secrets v \<or> vt_secrets v' = filter (\<lambda>r. \<not> ?hit r) (vt_secrets v))"
    using assms(2) by (auto simp: DeleteSecret_def Let_def split: option.splits prod.splits if_splits)
  then show "vaultOK m v'" using assms(1) by (auto simp: vaultOK_def distinct_map_filter)
  assume ne: "vt_secrets v' \<noteq> vt_secrets v"
  with rows have s': "vt_secrets v' = filter (\<lambda>r. \<not> ?hit r) (vt_secrets v)" "vt_deks v' = vt_deks v" by auto
  with ne obtain r where r: "r \<in> set (vt_secrets v)" "?hit r" by (auto simp: filter_id_conv)
  have d: "distinct (map sr_ID (vt_secrets v))" using assms(1) by (simp add: vaultOK_def)
  obtain pt where "plainOf m (vt_deks v) r = Some pt" using assms(1) r(1) by (auto simp: vaultOK_def)
  from contentsOf_Some [OF d r(1) this] r(2) have old: "contents m v i = Some (og, u, pt)" by simp
  have only: "?hit x \<longleftrightarrow> sr_ID x = i" if "x \<in> set (vt_secrets v)" for x
    using d r that by (auto simp: distinct_map inj_on_def)
  have filt: "vt_secrets v' = filter (\<lambda>r. sr_ID r \<noteq> i) (vt_secrets v)" unfolding s' using only by (intro filter_cong) auto
  have "find (\<lambda>r. sr_ID r = j) (filter (\<lambda>r. sr_ID r \<noteq> i) xs) = (if j = i then None else find (\<lambda>r. sr_ID r = j) xs)" for j and xs :: "secret_row list"
    by (induction xs) auto
  then have "contentsOf m deks (filter (\<lambda>r. sr_ID r \<noteq> i) xs) j = ((contentsOf m deks xs)(i := None)) j" for deks xs j
    unfolding contentsOf_def by (simp only: fun_upd_apply split: if_split) simp
  then have "contents m v' = (contents m v)(i := None)" unfolding filt s'(2) by (rule ext)
  with old show "\<exists>pt. contents m v i = Some (og, u, pt) \<and> contents m v' = (contents m v)(i := None)" by blast
qed

lemma RotateOrgDEK_failed:
  assumes "RotateOrgDEK m H now rnd fault scan avail af cf og actor v = ((n, Some e), v')"
  shows "v' = v \<or> (\<exists>al. v' = rollbackVault v al)"
  using assms by (auto simp: RotateOrgDEK_def Let_def split: option.splits sum.splits prod.splits)

lemma RotateOrgDEK_ok:
  assumes m: "crypto_ok m" "entropy_ok rnd" and v: "vaultOK m v" and rot: "RotateOrgDEK m H now rnd fault scan avail af cf og actor v = ((n, None), v')"
  shows "vaultOK m v'" and "contents m v' = contents m v"
proof -
  let ?batch = "take avail (filter (\<lambda>r. sr_OrgID r = og) (vt_secrets v))" and ?n = "maxDek og (vt_deks v) + 1"
  have "\<exists>newDEK deks rows al. insertDEK m rnd (fault 2) og ?n (vt_deks v) = Inr (newDEK, deks) \<and>
      reencrypt m rnd fault og newDEK ?n 0 deks ?batch (vt_secrets v) = Inr rows \<and> v' = \<lparr>vt_secrets = rows, vt_deks = deks, vt_audit = al\<rparr>"
    using rot by (auto simp: RotateOrgDEK_def Let_def find_Some_iff split: option.splits sum.splits prod.splits)
  then obtain newDEK deks rows al where ins: "insertDEK m rnd (fault 2) og ?n (vt_deks v) = Inr (newDEK, deks)"
    and re: "reencrypt m rnd fault og newDEK ?n 0 deks ?batch (vt_secrets v) = Inr rows" and v': "v' = \<lparr>vt_secrets = rows, vt_deks = deks, vt_audit = al\<rparr>"
    by blast
  note kek = insertDEK_Inr [OF m ins]
  have d: "distinct (map sr_ID (vt_secrets v))" and plain: "\<forall>r \<in> set (vt_secrets v). plainOf m (vt_deks v) r \<noteq> None"
    using v by (simp_all add: vaultOK_def)
  have batch: "distinct (map sr_ID ?batch)" "set ?batch \<subseteq> set (vt_secrets v)" "\<forall>r \<in> set ?batch. sr_OrgID r = og"
    using d by (auto simp: take_map [symmetric] distinct_map_filter dest: in_set_takeD)
  have "list_all2 (sameSecret m (vt_deks v) deks) (vt_secrets v) (vt_secrets v)"
    using kek(2) same_after_append [OF plain] by auto
  moreover have "list_all2 (sameSecret m deks deks) (vt_secrets v) rows"
    by (rule reencrypt_same [OF m kek(1) re d batch])
  ultimately have same: "list_all2 (sameSecret m (vt_deks v) deks) (vt_secrets v) rows" by (rule list_all2_sameSecret_trans)
  from sameSecret_contents [OF this] d list_all2_sameSecret_plain [OF this plain] show "vaultOK m v'" and "contents m v' = contents m v"
    by (simp_all add: vaultOK_def v')
qed

section \<open>Refinement\<close>

text \<open>
  The abstract store: a partial map from secret ids to owner and plaintext.  A secret is put under a fresh
  id, read and deleted by its owner only; rotating keys and failing change nothing.
\<close>

datatype secret_op =
    SPut string string string string
  | SGot string string string string
  | SDeleted string string string
  | SRotated string
  | SFailed

inductive secretSpec :: "contents \<Rightarrow> secret_op \<Rightarrow> contents \<Rightarrow> bool" where
  spec_put: "c i = None \<Longrightarrow> secretSpec c (SPut og u i pt) (c(i \<mapsto> (og, u, pt)))"
| spec_get: "c i = Some (og, u, pt) \<Longrightarrow> secretSpec c (SGot og u i pt) c"
| spec_delete: "c i = Some (og, u, pt) \<Longrightarrow> secretSpec c (SDeleted og u i) (c(i := None))"
| spec_rotate: "secretSpec c (SRotated og) c"
| spec_fail: "secretSpec c SFailed c"

text \<open>The calls of the manager, each with any entropy, clock and failures.\<close>

inductive vaultStep :: "manager \<Rightarrow> vault \<Rightarrow> secret_op \<Rightarrow> vault \<Rightarrow> bool" for m :: manager where
  vs_put: "entropy_ok rnd \<Longrightarrow> PutSecret m H now newID rnd fault og u pt v = ((i, None), v') \<Longrightarrow> vaultStep m v (SPut og u i pt) v'"
| vs_put_failed: "PutSecret m H now newID rnd fault og u pt v = ((i, Some e), v') \<Longrightarrow> vaultStep m v SFailed v'"
| vs_get: "GetSecret m H now fault og u i v = (Inr pt, v') \<Longrightarrow> vaultStep m v (SGot og u i pt) v'"
| vs_get_failed: "GetSecret m H now fault og u i v = (Inl e, v') \<Longrightarrow> vaultStep m v SFailed v'"
| vs_delete: "DeleteSecret H now fault og u i v = (e, v') \<Longrightarrow> vaultStep m v (if vt_secrets v' = vt_secrets v then SFailed else SDeleted og u i) v'"
| vs_rotate: "entropy_ok rnd \<Longrightarrow> RotateOrgDEK m H now rnd fault scan avail af cf og actor v = ((n, None), v') \<Longrightarrow> vaultStep m v (SRotated og) v'"
| vs_rotate_failed: "RotateOrgDEK m H now rnd fault scan avail af cf og actor v = ((n, Some e), v') \<Longrightarrow> vaultStep m v SFailed v'"

lemma DeleteSecret_deks: "DeleteSecret H now fault og u i v = (e, v') \<Longrightarrow> vt_deks v' = vt_deks v"
  by (auto simp: DeleteSecret_def Let_def split: option.splits prod.splits if_splits)

lemma vaultStep_refines:
  assumes m: "crypto_ok m" and v: "vaultOK m v" and st: "vaultStep m v l v'"
  shows "vaultOK m v' \<and> secretSpec (contents m v) l (contents m v')"
  using st
proof cases
  case (vs_put rnd H now newID fault og u pt i)
  note ok = PutSecret_ok [OF m vs_put(2) v vs_put(3)]
  then show ?thesis unfolding vs_put(1) ok(4) by (blast intro: spec_put)
next
  case (vs_put_failed H now newID rnd fault og u pt i e)
  from PutSecret_failed [OF vs_put_failed(2)] v show ?thesis unfolding vs_put_failed(1) by (auto intro: spec_fail)
next
  case (vs_get H now fault og u i pt)
  from GetSecret_vault [OF vs_get(2)] GetSecret_ok [OF v vs_get(2)] v show ?thesis
    unfolding vs_get(1) by (auto intro: spec_get)
next
  case (vs_get_failed H now fault og u i e)
  from GetSecret_vault [OF vs_get_failed(2)] v show ?thesis unfolding vs_get_failed(1) by (auto intro: spec_fail)
next
  case (vs_delete H now fault og u i e)
  note del = DeleteSecret_cases [OF v vs_delete(2)]
  show ?thesis
  proof (cases "vt_secrets v' = vt_secrets v")
    case True
    with del(1) DeleteSecret_deks [OF vs_delete(2)] show ?thesis unfolding vs_delete(1) by (simp add: spec_fail)
  next
    case False
    from del(2) [OF False] obtain pt where "contents m v i = Some (og, u, pt)" and "contents m v' = (contents m v)(i := None)" by blast
    with del(1) False show ?thesis unfolding vs_delete(1) by (simp add: spec_delete)
  qed
next
  case (vs_rotate rnd H now fault scan avail af cf og actor n)
  from RotateOrgDEK_ok [OF m vs_rotate(2) v vs_rotate(3)] show ?thesis unfolding vs_rotate(1) by (simp add: spec_rotate)
next
  case (vs_rotate_failed H now rnd fault scan avail af cf og actor n e)
  from RotateOrgDEK_failed [OF vs_rotate_failed(2)] v show ?thesis unfolding vs_rotate_failed(1) by (auto intro: spec_fail)
qed

interpretation vs: transition_system "\<lambda>v. vt_secrets v = []" "vaultStep m" "\<lambda>v. crypto_ok m \<longrightarrow> vaultOK m v" for m
proof (unfold_locales, goal_cases)
  case (1 s)
  then show ?case by (simp add: vaultOK_def)
next
  case (2 s e t)
  then show ?case using vaultStep_refines by blast
qed

section \<open>Properties\<close>

inductive_cases secretSpecE: "secretSpec c l c'"

interpretation vr: simulation "\<lambda>v. vt_secrets v = []" "\<lambda>v l v'. crypto_ok m \<and> vaultStep m v l v'" "vaultOK m" secretSpec "contents m" for m
proof (unfold_locales, goal_cases)
  case (1 s)
  then show ?case by (simp add: vaultOK_def)
qed (use vaultStep_refines in blast)+

lemma secretSpec_keeps1: "secretSpec c l c' \<Longrightarrow> c i = Some (og, u, pt) \<Longrightarrow> l \<noteq> SDeleted og u i \<Longrightarrow> c' i = Some (og, u, pt)"
  by (erule secretSpecE; cases "l"; auto split: if_splits)

lemma secretSpec_keeps:
  "stepPath secretSpec c ops c' \<Longrightarrow> c i = Some (og, u, pt) \<Longrightarrow> SDeleted og u i \<notin> set ops \<Longrightarrow> c' i = Some (og, u, pt)"
  by (induction rule: stepPath.induct) (auto dest: secretSpec_keeps1)

text \<open>
  C5. The vault refines the abstract store: from an empty vault on, every sequence of calls of the manager, with whatever
  failures, is a run of the map from secret ids to owner and plaintext.  In particular a read returns the plaintext that was put,
  to its owner only, and a secret keeps its plaintext, whatever keys are rotated, until its owner deletes it.
\<close>

theorem vault_refines_store:
  assumes "crypto_ok m" and "reach (\<lambda>v. vt_secrets v = []) (vaultStep m) v" and "stepPath (vaultStep m) v ops v'"
  shows "stepPath secretSpec (contents m v) ops (contents m v') \<and>
    (\<forall>i og u pt. contents m v i = Some (og, u, pt) \<and> SDeleted og u i \<notin> set ops \<longrightarrow> contents m v' i = Some (og, u, pt))"
proof -
  have "stepPath secretSpec (contents m v) ops (contents m v')"
    using vr.path_simulated [of m v ops v'] vs.reach_inv [OF assms(2)] assms(1,3) by simp
  then show ?thesis by (blast intro: secretSpec_keeps)
qed

lemma GetSecret_no_fault:
  assumes ok: "vaultOK m v" and "\<And>n. fault n = None"
  shows "contents m v i = Some (og, u, pt) \<Longrightarrow> fst (GetSecret m H now fault og u i v) = Inr pt"
    and "(\<And>pt. contents m v i \<noteq> Some (og, u, pt)) \<Longrightarrow> \<exists>e \<in> {ErrWrongTenant, ErrSecretNotFound}. fst (GetSecret m H now fault og u i v) = Inl e"
proof -
  from ok have d: "distinct (map sr_ID (vt_secrets v))" by (simp add: vaultOK_def)
  let ?find = "find (\<lambda>r. sr_ID r = i \<and> sr_OrgID r = og) (vt_secrets v)"
  {
    assume "contents m v i = Some (og, u, pt)"
    then obtain r where f: "find (\<lambda>r. sr_ID r = i) (vt_secrets v) = Some r" and r: "sr_OrgID r = og" "sr_UserID r = u"
      and p: "plainOf m (vt_deks v) r = Some pt" by (auto simp: contentsOf_def split: option.splits)
    from f have "r \<in> set (vt_secrets v)" "sr_ID r = i" by (auto simp: find_Some_iff)
    with r have "?find = Some r" using find_id_org_eq [OF d, of r] by simp
    moreover from p obtain dek where "kekFor m None og (sr_DekVersion r) (vt_deks v) = Inr dek" "openBox m dek (sr_Ciphertext r) u = Inr pt"
      using r by (auto simp: plainOf_def split: sum.splits)
    ultimately show "fst (GetSecret m H now fault og u i v) = Inr pt"
      using r assms(2) by (simp add: GetSecret_def queryRow_def auditWrite_def Let_def)
  next
    assume no: "\<And>pt. contents m v i \<noteq> Some (og, u, pt)"
    show "\<exists>e \<in> {ErrWrongTenant, ErrSecretNotFound}. fst (GetSecret m H now fault og u i v) = Inl e"
    proof (cases ?find)
      case None
      then show ?thesis using assms(2) by (simp add: GetSecret_def queryRow_def auditWrite_def Let_def)
    next
      case (Some r)
      note f = find_id_org [OF d Some]
      obtain pt where "plainOf m (vt_deks v) r = Some pt" using ok f(1) by (auto simp: vaultOK_def)
      from contentsOf_Some [OF d f(1) this] f no have "sr_UserID r \<noteq> u" by metis
      then show ?thesis using Some assms(2) by (simp add: GetSecret_def queryRow_def auditWrite_def Let_def)
    qed
  }
qed

text \<open>
  C34. Reads succeed: in every state a vault can reach, the owner of a secret reads its plaintext when the
  statements of the call do not fail; anyone else is refused.
\<close>

theorem secret_readable_by_owner:
  assumes "crypto_ok m" and "reach (\<lambda>v. vt_secrets v = []) (vaultStep m) v" and "\<And>n. fault n = None"
  shows "(\<forall>pt. contents m v i = Some (og, u, pt) \<longrightarrow> fst (GetSecret m H now fault og u i v) = Inr pt) \<and>
    ((\<forall>pt. contents m v i \<noteq> Some (og, u, pt)) \<longrightarrow> (\<exists>e \<in> {ErrWrongTenant, ErrSecretNotFound}. fst (GetSecret m H now fault og u i v) = Inl e))"
proof -
  have "vaultOK m v" using vs.reach_inv [OF assms(2)] assms(1) by blast
  from GetSecret_no_fault [OF this, of fault] assms(3) show ?thesis by blast
qed

text \<open>The lookups of a provider in order.\<close>

fun kmsRootKeys :: "int list \<Rightarrow> kms_root_keys \<Rightarrow> string result list" where
  "kmsRootKeys [] k = []"
| "kmsRootKeys (v # vs) k = (case kmsRootKey v k of (r, k') \<Rightarrow> r # kmsRootKeys vs k')"

definition cacheOK :: "kms_root_keys \<Rightarrow> bool" where
  "cacheOK k \<longleftrightarrow> (\<forall>v p. km_cache k v = Some p \<longrightarrow> (\<exists>ct. km_Ciphertexts k v = Some ct \<and> km_Decrypt k ct = Inr p))"

lemma kmsRootKey_cacheOK:
  assumes "cacheOK k"
  shows "fst (kmsRootKey v k) = fst (kmsRootKey v (k\<lparr>km_cache := Map.empty\<rparr>))"
    and "cacheOK (snd (kmsRootKey v k)) \<and> (snd (kmsRootKey v k))\<lparr>km_cache := Map.empty\<rparr> = k\<lparr>km_cache := Map.empty\<rparr>"
proof -
  show "fst (kmsRootKey v k) = fst (kmsRootKey v (k\<lparr>km_cache := Map.empty\<rparr>))"
  proof (cases "km_cache k v")
    case None
    then show ?thesis by (simp add: kmsRootKey_def split: option.split sum.split)
  next
    case (Some p)
    with assms obtain ct where "km_Ciphertexts k v = Some ct" "km_Decrypt k ct = Inr p" unfolding cacheOK_def by blast
    with Some show ?thesis by (simp add: kmsRootKey_def)
  qed
  show "cacheOK (snd (kmsRootKey v k)) \<and> (snd (kmsRootKey v k))\<lparr>km_cache := Map.empty\<rparr> = k\<lparr>km_cache := Map.empty\<rparr>"
    using assms by (auto simp: kmsRootKey_def cacheOK_def split: option.splits sum.splits)
qed

text \<open>
  The KMS provider's cache is transparent: any sequence of lookups gives what an uncached provider gives,
  which decrypts the configured ciphertext each time.
\<close>

theorem kms_cache_transparent:
  "kmsRootKeys vs (NewKMSRootKeys decrypt cts) = map (\<lambda>v. fst (kmsRootKey v (NewKMSRootKeys decrypt cts))) vs"
proof -
  have "cacheOK k \<Longrightarrow> k\<lparr>km_cache := Map.empty\<rparr> = NewKMSRootKeys decrypt cts \<Longrightarrow>
      kmsRootKeys vs k = map (\<lambda>v. fst (kmsRootKey v (NewKMSRootKeys decrypt cts))) vs" for k
  proof (induction vs arbitrary: k)
    case (Cons v vs)
    note kv = kmsRootKey_cacheOK [OF Cons.prems(1), of v]
    with Cons.prems have "kmsRootKeys vs (snd (kmsRootKey v k)) = map (\<lambda>v. fst (kmsRootKey v (NewKMSRootKeys decrypt cts))) vs"
      by (intro Cons.IH) simp_all
    with kv(1) Cons.prems(2) show ?case by (simp add: split_beta)
  qed simp
  then show ?thesis by (simp add: cacheOK_def NewKMSRootKeys_def)
qed

section \<open>Concrete runs\<close>

text \<open>A cipher that prefixes the key, and fixed entropy.\<close>

definition ex_crypto :: crypto where
  "ex_crypto = \<lparr>cr_Seal = \<lambda>k n p a. k @ p, cr_Open = \<lambda>k n c a. if take (length k) c = k then Inr (drop (length k) c) else Inl (ErrNew ''cipher: message authentication failed''),
     cr_Sum256 = \<lambda>x. take 32 (x @ replicate 32 (CHR ''0''))\<rparr>"

definition ex_manager :: "int \<Rightarrow> manager" where
  "ex_manager version = \<lparr>sm_crypto = ex_crypto, sm_RootKey = staticRootKey [1 \<mapsto> ''root-1'', 2 \<mapsto> ''root-2''], sm_KEKVersion = version\<rparr>"

definition ex_entropy :: entropy where "ex_entropy i n = Inr (replicate n (CHR ''n''))"

lemma ex_crypto_ok: "crypto_ok (ex_manager version)" "entropy_ok ex_entropy"
  by (auto simp add: crypto_ok_def entropy_ok_def ex_manager_def ex_crypto_def ex_entropy_def nonceSize_def)

definition ex_vault0 :: vault where "ex_vault0 = \<lparr>vt_secrets = [], vt_deks = [], vt_audit = \<lparr>al_rows = [], al_next = 1\<rparr>\<rparr>"

definition ex_vault :: vault where
  "ex_vault = snd (PutSecret (ex_manager 1) exHash 0 ''id-1'' ex_entropy (\<lambda>n. None) ''o'' ''u'' ''pw'' ex_vault0)"

lemma ex_keys:
  "sm_crypto (ex_manager version) = ex_crypto" "sm_KEKVersion (ex_manager version) = version"
  "sm_RootKey (ex_manager version) = staticRootKey [1 \<mapsto> ''root-1'', 2 \<mapsto> ''root-2'']"
  by (simp_all add: ex_manager_def)

lemma ex_put: "PutSecret (ex_manager 1) exHash 0 ''id-1'' ex_entropy (\<lambda>n. None) ''o'' ''u'' ''pw'' ex_vault0 = ((''id-1'', None), ex_vault)"
proof -
  have "fst (PutSecret (ex_manager 1) exHash 0 ''id-1'' ex_entropy (\<lambda>n. None) ''o'' ''u'' ''pw'' ex_vault0) = (''id-1'', None)"
    by (simp add: PutSecret_def ensureDEK_def insertDEK_def maxDek_def kekFor_def queryRow_def sealBox_def openBox_def keySizeError_def
        ex_keys ex_vault0_def ex_entropy_def ex_crypto_def staticRootKey_def deriveKEK_def nonceSize_def auditWrite_def)
  then show ?thesis unfolding ex_vault_def by (metis prod.collapse)
qed

lemma ex_step: "vaultStep (ex_manager 1) ex_vault0 (SPut ''o'' ''u'' ''id-1'' ''pw'') ex_vault"
  by (rule vs_put [OF ex_crypto_ok(2) ex_put])

lemma ex_reach0: "reach (\<lambda>v. vt_secrets v = []) (vaultStep (ex_manager 1)) ex_vault0"
  by (rule reach_init) (simp add: ex_vault0_def)

theorem vault_refines_store_witness:
  "stepPath secretSpec (contents (ex_manager 1) ex_vault0) [SPut ''o'' ''u'' ''id-1'' ''pw''] (contents (ex_manager 1) ex_vault)"
proof -
  have "stepPath (vaultStep (ex_manager 1)) ex_vault0 [SPut ''o'' ''u'' ''id-1'' ''pw''] ex_vault"
    unfolding path_Cons_iff using ex_step by auto
  from vault_refines_store [OF ex_crypto_ok(1) ex_reach0 this] show ?thesis by blast
qed

lemma ex_contents: "contents (ex_manager 1) ex_vault ''id-1'' = Some (''o'', ''u'', ''pw'')"
proof -
  have "vaultOK (ex_manager 1) ex_vault0" by (simp add: vaultOK_def ex_vault0_def)
  from PutSecret_ok(4) [OF ex_crypto_ok this ex_put] show ?thesis by simp
qed

theorem secret_readable_by_owner_witness:
  "fst (GetSecret (ex_manager 1) exHash 5 (\<lambda>n. None) ''o'' ''u'' ''id-1'' ex_vault) = Inr ''pw''"
proof -
  have r: "reach (\<lambda>v. vt_secrets v = []) (vaultStep (ex_manager 1)) ex_vault" by (rule reach_step [where step = "vaultStep (ex_manager 1)", OF ex_reach0 ex_step])
  note w = secret_readable_by_owner [where fault = "\<lambda>n. None" and H = exHash and now = 5 and i = "''id-1''" and og = "''o''" and u = "''u''",
      OF ex_crypto_ok(1) r refl, THEN conjunct1, THEN spec]
  show ?thesis by (rule w [of "''pw''", THEN mp]) (rule ex_contents)
qed

text \<open>
  The key version is not stored with a data key: once the manager is configured with another version, the
  data keys that the old one wrapped, and with them all secrets, cannot be opened.
\<close>

theorem kek_version_change_loses_secrets:
  "\<exists>e. fst (GetSecret (ex_manager 2) exHash 5 (\<lambda>n. None) ''o'' ''u'' ''id-1'' ex_vault) = Inl e"
proof -
  have "\<exists>ct wrapped. vt_secrets ex_vault = [\<lparr>sr_ID = ''id-1'', sr_UserID = ''u'', sr_OrgID = ''o'', sr_Ciphertext = ct, sr_DekVersion = 1\<rparr>] \<and>
      vt_deks ex_vault = [\<lparr>dk_OrgID = ''o'', dk_Version = 1, dk_Ciphertext = replicate 12 (CHR ''n'') @ take 32 (''root-1'' @ replicate 32 (CHR ''0'')) @ wrapped\<rparr>]"
    by (simp add: ex_vault_def PutSecret_def ensureDEK_def insertDEK_def maxDek_def kekFor_def queryRow_def sealBox_def openBox_def keySizeError_def
        ex_keys ex_vault0_def ex_entropy_def ex_crypto_def staticRootKey_def deriveKEK_def nonceSize_def auditWrite_def)
  then obtain ct wrapped where "vt_secrets ex_vault = [\<lparr>sr_ID = ''id-1'', sr_UserID = ''u'', sr_OrgID = ''o'', sr_Ciphertext = ct, sr_DekVersion = 1\<rparr>]"
    and "vt_deks ex_vault = [\<lparr>dk_OrgID = ''o'', dk_Version = 1, dk_Ciphertext = replicate 12 (CHR ''n'') @ take 32 (''root-1'' @ replicate 32 (CHR ''0'')) @ wrapped\<rparr>]" by blast
  then show ?thesis
    by (simp add: GetSecret_def kekFor_def queryRow_def openBox_def keySizeError_def ex_keys staticRootKey_def deriveKEK_def ex_crypto_def nonceSize_def Let_def)
qed

end
