(* ===== verification/Policy.thy ===== *)
theory Policy
  imports Prelude
begin

text \<open>
  \<^verbatim>\<open>internal/policy\<close>: the permission broker.  The embedded Rego module is translated; the OPA
  library (compilation, evaluation failures and the \<^verbatim>\<open>glob.match\<close> builtin) is a parameter.
  Reasons are structured values in place of their rendered text.
\<close>

section \<open>Data\<close>

record policy_request =
  pr_OrgID :: string
  pr_UserID :: string
  pr_Action :: string
  pr_Resource :: string
  pr_RequiredScope :: string
  pr_Consents :: "string list"
  pr_AgentScopes :: "string list"

datatype reason =
    EvalError goerr
  | DeniedByOrg string string
  | AllowedByOrg
  | MissingConsent string
  | NotDeclared string
  | AllowedByAll

primrec reasonText :: "reason \<Rightarrow> string" where
  "reasonText (EvalError e) = ''policy evaluation error: '' @ errText e"
| "reasonText (DeniedByOrg a r) = ''denied by org policy for '' @ a @ '':'' @ r"
| "reasonText AllowedByOrg = ''allowed by org policy''"
| "reasonText (MissingConsent s) = ''missing user consent for scope '' @ goQuote s"
| "reasonText (NotDeclared s) = ''scope '' @ goQuote s @ '' not declared in agent spec''"
| "reasonText AllowedByAll = ''allowed: org policy + consent + agent spec all grant scope''"

record decision =
  dc_Allowed :: bool
  dc_Reason :: reason

record policy_input =
  pi_org :: string
  pi_user :: string
  pi_action :: string
  pi_resource :: string

text \<open>
  What the engine uses of OPA: whether the modules compile with a given pattern list, whether an
  evaluation fails, and \<^verbatim>\<open>glob.match(pattern, delimiters, subject)\<close>.
\<close>

record opa =
  opa_prepare :: "string list \<Rightarrow> goerr option"
  opa_fail :: "string list \<Rightarrow> policy_input \<Rightarrow> goerr option"
  opa_glob :: "string \<Rightarrow> string list \<Rightarrow> string \<Rightarrow> bool"

text \<open>A prepared query is determined by the patterns compiled into it.\<close>

record engine =
  en_query :: "string list"
  en_patterns :: "string list"

section \<open>The policy module\<close>

definition orgAllows :: "opa \<Rightarrow> string list \<Rightarrow> policy_input \<Rightarrow> bool" where
  "orgAllows rg patterns inp =
     list_ex (\<lambda>pattern. opa_glob rg pattern ['':''] (pi_action inp @ '':'' @ pi_resource inp)) patterns"

text \<open>The value of \<^verbatim>\<open>data.authz.allow\<close>, defined in every evaluation because of its default.\<close>

definition evalAllow :: "opa \<Rightarrow> string list \<Rightarrow> policy_input \<Rightarrow> bool list result" where
  "evalAllow rg patterns inp =
     (case opa_fail rg patterns inp of
        Some e \<Rightarrow> Inl e
      | None \<Rightarrow> Inr [orgAllows rg patterns inp])"

section \<open>Operations\<close>

definition cleanPatterns :: "string list \<Rightarrow> string list" where
  "cleanPatterns patterns = filter (\<lambda>p. p \<noteq> []) (map TrimSpace patterns)"

definition SetOrgPatterns :: "opa \<Rightarrow> string list \<Rightarrow> engine \<Rightarrow> goerr option \<times> engine" where
  "SetOrgPatterns rg patterns e =
     (let clean = cleanPatterns patterns in
      case opa_prepare rg clean of
        Some err \<Rightarrow> (Some (ErrWrap (''compile policies: '' @ errText err) err), e)
      | None \<Rightarrow> (None, e\<lparr>en_query := clean, en_patterns := clean\<rparr>))"

definition NewEngine :: "opa \<Rightarrow> engine result" where
  "NewEngine rg =
     (case SetOrgPatterns rg [] \<lparr>en_query = [], en_patterns = []\<rparr> of
        (Some err, _) \<Rightarrow> Inl err
      | (None, e) \<Rightarrow> Inr e)"

fun inSet :: "string \<Rightarrow> string list \<Rightarrow> bool" where
  "inSet x [] = False"
| "inSet x (s # ss) = (if s = x then True else inSet x ss)"

definition requestInput :: "policy_request \<Rightarrow> policy_input" where
  "requestInput rq =
     \<lparr>pi_org = pr_OrgID rq, pi_user = pr_UserID rq, pi_action = pr_Action rq,
      pi_resource = pr_Resource rq\<rparr>"

definition Can :: "opa \<Rightarrow> engine \<Rightarrow> policy_request \<Rightarrow> decision" where
  "Can rg e rq =
     (case evalAllow rg (en_query e) (requestInput rq) of
        Inl err \<Rightarrow> \<lparr>dc_Allowed = False, dc_Reason = EvalError err\<rparr>
      | Inr rs \<Rightarrow>
          if rs = [] \<or> hd rs \<noteq> True
          then \<lparr>dc_Allowed = False, dc_Reason = DeniedByOrg (pr_Action rq) (pr_Resource rq)\<rparr>
          else if pr_RequiredScope rq = []
          then \<lparr>dc_Allowed = True, dc_Reason = AllowedByOrg\<rparr>
          else if \<not> inSet (pr_RequiredScope rq) (pr_Consents rq)
          then \<lparr>dc_Allowed = False, dc_Reason = MissingConsent (pr_RequiredScope rq)\<rparr>
          else if \<not> inSet (pr_RequiredScope rq) (pr_AgentScopes rq)
          then \<lparr>dc_Allowed = False, dc_Reason = NotDeclared (pr_RequiredScope rq)\<rparr>
          else \<lparr>dc_Allowed = True, dc_Reason = AllowedByAll\<rparr>)"

section \<open>The broker's contract\<close>

lemma inSet_iff [simp]: "inSet x ss \<longleftrightarrow> x \<in> set ss"
  by (induction ss) auto

text \<open>The organisation layer: evaluation succeeds and some pattern matches.\<close>

definition orgLayer :: "opa \<Rightarrow> engine \<Rightarrow> policy_input \<Rightarrow> bool" where
  "orgLayer rg e inp \<longleftrightarrow> opa_fail rg (en_query e) inp = None \<and> orgAllows rg (en_query e) inp"

lemma Can_allowed_iff:
  "dc_Allowed (Can rg e rq) \<longleftrightarrow>
     orgLayer rg e (requestInput rq) \<and>
     (pr_RequiredScope rq = [] \<or>
      pr_RequiredScope rq \<in> set (pr_Consents rq) \<inter> set (pr_AgentScopes rq))"
  by (auto simp: Can_def evalAllow_def orgLayer_def split: option.splits)

text \<open>
  What the gateways rely on: a decision is the conjunction of an organisation layer that does not
  look at scopes and of the membership of the required scope in both scope lists.
\<close>

locale permission_broker =
  fixes can :: "policy_request \<Rightarrow> decision"
    and org :: "policy_input \<Rightarrow> bool"
  assumes can_iff:
    "dc_Allowed (can rq) \<longleftrightarrow>
       org (requestInput rq) \<and>
       (pr_RequiredScope rq = [] \<or>
        pr_RequiredScope rq \<in> set (pr_Consents rq) \<inter> set (pr_AgentScopes rq))"
begin

lemma missing_consent_denied:
  "pr_RequiredScope rq \<noteq> [] \<Longrightarrow> pr_RequiredScope rq \<notin> set (pr_Consents rq) \<Longrightarrow> \<not> dc_Allowed (can rq)"
  by (simp add: can_iff)

lemma undeclared_denied:
  "pr_RequiredScope rq \<noteq> [] \<Longrightarrow> pr_RequiredScope rq \<notin> set (pr_AgentScopes rq) \<Longrightarrow> \<not> dc_Allowed (can rq)"
  by (simp add: can_iff)

lemma consents_mono:
  "dc_Allowed (can rq) \<Longrightarrow> set (pr_Consents rq) \<subseteq> set cs \<Longrightarrow> dc_Allowed (can (rq\<lparr>pr_Consents := cs\<rparr>))"
  by (auto simp: can_iff requestInput_def)

lemma allowed_scope:
  "dc_Allowed (can rq) \<Longrightarrow> pr_RequiredScope rq \<noteq> [] \<Longrightarrow>
   pr_RequiredScope rq \<in> set (pr_Consents rq) \<and> pr_RequiredScope rq \<in> set (pr_AgentScopes rq)"
  by (simp add: can_iff)

lemma allowed_org: "dc_Allowed (can rq) \<Longrightarrow> org (requestInput rq)"
  by (simp add: can_iff)

end

interpretation pe: permission_broker "Can rg e" "orgLayer rg e" for rg e
  by unfold_locales (rule Can_allowed_iff)

section \<open>Properties\<close>

lemma SetOrgPatterns_ok:
  "SetOrgPatterns rg pats e = (None, e') \<Longrightarrow> en_query e' = cleanPatterns pats \<and> en_patterns e' = cleanPatterns pats"
  by (auto simp: SetOrgPatterns_def Let_def split: option.splits)

text \<open>
  After a successful \<^verbatim>\<open>SetOrgPatterns\<close>, a request is allowed exactly when evaluation succeeds,
  some given pattern that is not blank matches \<^verbatim>\<open>action:resource\<close> once trimmed, and the required
  scope, when there is one, is both consented to and declared by the agent.
\<close>

theorem can_after_set_patterns:
  assumes "SetOrgPatterns rg pats e = (None, e')"
  shows "dc_Allowed (Can rg e' rq) \<longleftrightarrow>
    opa_fail rg (cleanPatterns pats) (requestInput rq) = None \<and>
    (\<exists>p. p \<in> set pats \<and> TrimSpace p \<noteq> [] \<and>
       opa_glob rg (TrimSpace p) ['':''] (pr_Action rq @ '':'' @ pr_Resource rq)) \<and>
    (pr_RequiredScope rq = [] \<or>
     (pr_RequiredScope rq \<in> set (pr_Consents rq) \<and> pr_RequiredScope rq \<in> set (pr_AgentScopes rq)))"
  using SetOrgPatterns_ok [OF assms]
  by (auto simp: pe.can_iff orgLayer_def orgAllows_def cleanPatterns_def requestInput_def
      list_ex_iff)

definition exOpa :: opa where
  "exOpa = \<lparr>opa_prepare = (\<lambda>_. None), opa_fail = (\<lambda>_ _. None), opa_glob = (\<lambda>p _ s. p = s)\<rparr>"

definition exPolicyRequest :: policy_request where
  "exPolicyRequest =
     \<lparr>pr_OrgID = ''org-1'', pr_UserID = ''user-1'', pr_Action = ''tool.call'', pr_Resource = ''http_request'',
      pr_RequiredScope = ''net:fetch'', pr_Consents = [''net:fetch''], pr_AgentScopes = [''net:fetch'', ''x'']\<rparr>"

definition exEngine :: engine where
  "exEngine = \<lparr>en_query = [''tool.call:http_request''], en_patterns = [''tool.call:http_request'']\<rparr>"

lemma ex_set_patterns:
  "SetOrgPatterns exOpa [''tool.call:http_request'', ''''] \<lparr>en_query = [], en_patterns = []\<rparr> = (None, exEngine)"
  by (simp add: SetOrgPatterns_def exOpa_def exEngine_def cleanPatterns_def TrimSpace_plain plainByte_def Let_def)

theorem can_after_set_patterns_witness:
  "SetOrgPatterns exOpa [''tool.call:http_request'', ''''] \<lparr>en_query = [], en_patterns = []\<rparr> = (None, exEngine) \<and>
   dc_Allowed (Can exOpa exEngine exPolicyRequest)"
proof
  have "TrimSpace ''tool.call:http_request'' = ''tool.call:http_request''"
    by (simp add: TrimSpace_plain plainByte_def)
  then have "\<exists>p. p \<in> set [''tool.call:http_request'', ''''] \<and> TrimSpace p \<noteq> [] \<and>
      TrimSpace p = ''tool.call:http_request''"
    by (intro exI [of _ "''tool.call:http_request''"]) simp
  then show "dc_Allowed (Can exOpa exEngine exPolicyRequest)"
    unfolding can_after_set_patterns [OF ex_set_patterns]
    by (simp add: exOpa_def exPolicyRequest_def)
qed (rule ex_set_patterns)

text \<open>
  Deny by default: a new engine denies every request, and a pattern update that fails to
  compile leaves the engine as it was.
\<close>

theorem deny_by_default:
  "(NewEngine rg = Inr e \<longrightarrow> \<not> dc_Allowed (Can rg e rq)) \<and>
   (SetOrgPatterns rg pats e0 = (Some err, e1) \<longrightarrow> e1 = e0)"
proof (intro conjI impI)
  assume "NewEngine rg = Inr e"
  then have "en_query e = []"
    by (auto simp: NewEngine_def cleanPatterns_def dest: SetOrgPatterns_ok split: prod.splits option.splits)
  then show "\<not> dc_Allowed (Can rg e rq)"
    by (simp add: pe.can_iff orgLayer_def orgAllows_def)
next
  assume "SetOrgPatterns rg pats e0 = (Some err, e1)"
  then show "e1 = e0" by (auto simp: SetOrgPatterns_def Let_def split: option.splits)
qed

theorem deny_by_default_witness:
  "NewEngine exOpa = Inr \<lparr>en_query = [], en_patterns = []\<rparr> \<and>
   \<not> dc_Allowed (Can exOpa \<lparr>en_query = [], en_patterns = []\<rparr> exPolicyRequest)"
proof -
  have "NewEngine exOpa = Inr \<lparr>en_query = [], en_patterns = []\<rparr>"
    by (simp add: NewEngine_def SetOrgPatterns_def exOpa_def cleanPatterns_def)
  with deny_by_default [of exOpa "\<lparr>en_query = [], en_patterns = []\<rparr>" exPolicyRequest] show ?thesis
    by blast
qed

end
