(* ===== verification/Egress.thy ===== *)
theory Egress
  imports RunToken
begin

text \<open>
  The rule every gateway promises, "no token, no egress", as an interface: an operation that is
  given a run token, may act on a world \<open>'w\<close>, and does nothing when the token service rejects the
  token.  The tool gateway, the MCP proxy, the credential exchange and the git facade interpret it.
\<close>

locale run_token_gate =
  fixes svc :: "'w \<Rightarrow> 'r service" and now :: time and r :: 'r
    and call :: "string \<Rightarrow> 'w \<Rightarrow> 'v result \<times> 'w"
  assumes rejected: "Validate (svc w) now r token = Inl e \<Longrightarrow> \<exists>e'. call token w = (Inl e', w)"
begin

lemma success_needs_token:
  assumes "call token w = (Inr v, w')"
  obtains c where "Validate (svc w) now r token = Inr c"
  using assms rejected [where token = token and w = w] by (cases "Validate (svc w) now r token") auto

lemma effect_needs_token:
  assumes "call token w = (res, w')" and "w' \<noteq> w"
  obtains c where "Validate (svc w) now r token = Inr c"
  using assms rejected [where token = token and w = w] by (cases "Validate (svc w) now r token") auto

lemma expired_no_effect:
  assumes "decode (svc w) token = Inr c" and "Unix now \<ge> cl_ExpiresAt c"
  shows "\<exists>e. call token w = (Inl e, w)"
  by (rule rejected [where e = ErrExpired]) (simp add: Validate_def assms)

end

end
