(* ===== verification/CredExchange.thy ===== *)
theory CredExchange
  imports Secrets Policy Egress
begin

text \<open>
  \<^verbatim>\<open>internal/credexchange\<close>: a run token and a credential reference against a short-lived credential, over HTTP,
  and the git credential helper that asks for one.  The JSON codecs and the HTTP client are parameters; the
  world of the exchange is the vault.
\<close>

section \<open>The exchange\<close>

definition ErrUnauthorized :: goerr where "ErrUnauthorized = ErrNew ''run token not authorized for this credential''"
definition ErrCredentialNotFound :: goerr where "ErrCredentialNotFound = ErrNew ''credential not found''"

record exchanged =
  xc_CredentialRef :: string
  xc_Username :: string
  xc_Secret :: string
  xc_ExpiresAt :: time

definition SecretTTL :: duration where "SecretTTL = 5 * Minute"

record 'r exchange_service =
  xs_Tokens :: "'r service"
  xs_Secret :: manager
  xs_Policy :: engine

definition credentialRequest :: "claims \<Rightarrow> string \<Rightarrow> policy_request" where
  "credentialRequest c credentialRef =
     \<lparr>pr_OrgID = cl_OrgID c, pr_UserID = cl_UserID c, pr_Action = ''credential.read'', pr_Resource = credentialRef,
      pr_RequiredScope = ''credentials:read'', pr_Consents = cl_Grants c, pr_AgentScopes = cl_Grants c\<rparr>"

text \<open>The clock is read by the token check, by the audit and for the expiry; \<open>fault\<close> is that of the vault's statements.\<close>

definition Exchange ::
  "opa \<Rightarrow> time \<Rightarrow> 'r \<Rightarrow> (string \<Rightarrow> string) \<Rightarrow> time \<Rightarrow> time \<Rightarrow> faults \<Rightarrow> 'r exchange_service \<Rightarrow> string \<Rightarrow> string \<Rightarrow> vault
   \<Rightarrow> exchanged result \<times> vault" where
  "Exchange rg t r H t1 t2 fault svc credentialRef runToken v =
     (case Validate (xs_Tokens svc) t r runToken of
        Inl err \<Rightarrow> (Inl (wrapV ErrUnauthorized (errText err)), v)
      | Inr c \<Rightarrow>
     (let d = Can rg (xs_Policy svc) (credentialRequest c credentialRef) in
      if \<not> dc_Allowed d then (Inl (wrapV ErrUnauthorized (reasonText (dc_Reason d))), v)
      else
     (case GetSecret (xs_Secret svc) H t1 fault (cl_OrgID c) (cl_UserID c) credentialRef v of
        (Inl err, v') \<Rightarrow>
          (Inl (if errorsIs err ErrSecretNotFound \<or> errorsIs err ErrWrongTenant then ErrCredentialNotFound else err), v')
      | (Inr pt, v') \<Rightarrow>
          (Inr \<lparr>xc_CredentialRef = credentialRef, xc_Username = ''x-access-token'', xc_Secret = pt, xc_ExpiresAt = t2 + SecretTTL\<rparr>, v'))))"

section \<open>The endpoint\<close>

datatype exchange_body = ExchangeError string | ExchangeOK exchanged

text \<open>\<open>decodeReq\<close> reads the two fields of a request body.\<close>

definition exchangeHandler ::
  "(string \<Rightarrow> (string \<times> string) result) \<Rightarrow> (string \<Rightarrow> string \<Rightarrow> vault \<Rightarrow> exchanged result \<times> vault)
   \<Rightarrow> string \<Rightarrow> string \<Rightarrow> vault \<Rightarrow> (int \<times> exchange_body) \<times> vault" where
  "exchangeHandler decodeReq exchange httpMethod body v =
     (if httpMethod \<noteq> ''POST'' then ((405, ExchangeError ''method not allowed''), v)
      else
        (case decodeReq body of
           Inl err \<Rightarrow> ((400, ExchangeError ''runToken and credentialRef required''), v)
         | Inr (runToken, credentialRef) \<Rightarrow>
             if runToken = [] \<or> credentialRef = [] then ((400, ExchangeError ''runToken and credentialRef required''), v)
             else
               (case exchange credentialRef runToken v of
                  (Inl err, v') \<Rightarrow>
                    ((if errorsIs err ErrCredentialNotFound then (404, ExchangeError (errText err))
                      else if errorsIs err ErrUnauthorized then (403, ExchangeError (errText err))
                      else (500, ExchangeError ''exchange failed'')), v')
                | (Inr ex, v') \<Rightarrow> ((200, ExchangeOK ex), v'))))"

section \<open>The git credential helper\<close>

record helper_config =
  hc_ExchangeURL :: string
  hc_RunToken :: string
  hc_CredentialRef :: string

definition helperBody :: "helper_config \<Rightarrow> string" where
  "helperBody cfg =
     ''{'' @ goQuote ''runToken'' @ '':'' @ goQuote (hc_RunToken cfg) @ '','' @ goQuote ''credentialRef'' @ '':''
     @ goQuote (hc_CredentialRef cfg) @ ''}''"

text \<open>
  \<open>post\<close> sends a body to a URL (an error if the request cannot be built or sent) and gives the status and the
  body of the response; \<open>decodeResp\<close> reads the user name and the secret.  Git's request on standard input
  is read and not used.
\<close>

definition GitCredentialGet ::
  "(string \<Rightarrow> string \<Rightarrow> 'w \<Rightarrow> (int \<times> 'b) result \<times> 'w) \<Rightarrow> ('b \<Rightarrow> (string \<times> string) result) \<Rightarrow> helper_config \<Rightarrow> 'w
   \<Rightarrow> (string result) \<times> 'w" where
  "GitCredentialGet post decodeResp cfg w =
     (case post (hc_ExchangeURL cfg) (helperBody cfg) w of
        (Inl err, w') \<Rightarrow> (Inl err, w')
      | (Inr (code, body), w') \<Rightarrow>
          if code \<noteq> 200 then (Inl (ErrNew (''credential exchange: status '' @ showInt code)), w')
          else
            (case decodeResp body of
               Inl err \<Rightarrow> (Inl err, w')
             | Inr (username, secret) \<Rightarrow>
                 (Inr (''username='' @ username @ [CHR 0x0A] @ ''password='' @ secret @ [CHR 0x0A]), w')))"

text \<open>
  \<^verbatim>\<open>cmd/git-credential-darkfactory\<close>: the process that git starts, with its environment and arguments (the program's name first).
  It ends with what it printed, or in \<^verbatim>\<open>log.Fatal\<close>.
\<close>

datatype helper_exit = HelperPrinted string | HelperFatal string

definition helperConfig :: "(string \<Rightarrow> string) \<Rightarrow> helper_config" where
  "helperConfig env =
     \<lparr>hc_ExchangeURL = env ''DARKFACTORY_EXCHANGE_URL'', hc_RunToken = env ''DARKFACTORY_RUN_TOKEN'',
      hc_CredentialRef = env ''DARKFACTORY_CREDENTIAL_REF''\<rparr>"

definition helperMain ::
  "(string \<Rightarrow> string \<Rightarrow> 'w \<Rightarrow> (int \<times> 'b) result \<times> 'w) \<Rightarrow> ('b \<Rightarrow> (string \<times> string) result) \<Rightarrow> (string \<Rightarrow> string) \<Rightarrow> string list \<Rightarrow> 'w
   \<Rightarrow> helper_exit \<times> 'w" where
  "helperMain post decodeResp env args w =
     (let op = (if 1 < length args then args ! 1 else ''get'') in
      if op = ''get'' then
        (case GitCredentialGet post decodeResp (helperConfig env) w of
           (Inl err, w') \<Rightarrow> (HelperFatal (errText err), w')
         | (Inr out, w') \<Rightarrow> (HelperPrinted out, w'))
      else if op = ''store'' \<or> op = ''erase'' then (HelperPrinted [], w)
      else (HelperFatal (''unknown operation '' @ goQuote op), w))"

section \<open>Properties\<close>

interpretation cx: run_token_gate "\<lambda>v. xs_Tokens svc" t r "Exchange rg t r H t1 t2 fault svc credentialRef"
  for svc t r rg H t1 t2 fault credentialRef
  by unfold_locales (simp add: Exchange_def)

text \<open>
  C15. A credential is released only to a run whose token is valid and carries the credential scope, for which
  an organisation pattern admits the credential, and only if the secret belongs to the token's user in the
  token's organisation; what is released is its plaintext, for five minutes.
\<close>

theorem exchange_releases_own_secret:
  assumes "crypto_ok (xs_Secret svc)" and "reach (\<lambda>v. vt_secrets v = []) (vaultStep (xs_Secret svc)) v"
    and "Exchange rg t r H t1 t2 fault svc credentialRef runToken v = (Inr ex, v')"
  shows "\<exists>c. Validate (xs_Tokens svc) t r runToken = Inr c \<and> ''credentials:read'' \<in> set (cl_Grants c) \<and>
    orgLayer rg (xs_Policy svc) (requestInput (credentialRequest c credentialRef)) \<and>
    contents (xs_Secret svc) v credentialRef = Some (cl_OrgID c, cl_UserID c, xc_Secret ex) \<and>
    contents (xs_Secret svc) v' = contents (xs_Secret svc) v \<and> xc_ExpiresAt ex = t2 + SecretTTL"
proof -
  from assms(3) obtain c where c: "Validate (xs_Tokens svc) t r runToken = Inr c" by (rule cx.success_needs_token)
  with assms(3) have al: "dc_Allowed (Can rg (xs_Policy svc) (credentialRequest c credentialRef))"
    by (auto simp: Exchange_def Let_def split: if_splits)
  obtain g v1 where g: "GetSecret (xs_Secret svc) H t1 fault (cl_OrgID c) (cl_UserID c) credentialRef v = (g, v1)" by (rule prod.exhaust)
  with assms(3) c al have ex: "g = Inr (xc_Secret ex)" "v1 = v'" "xc_ExpiresAt ex = t2 + SecretTTL"
    by (auto simp: Exchange_def Let_def split: sum.splits)
  have ok: "vaultOK (xs_Secret svc) v" using vs.reach_inv [OF assms(2)] assms(1) by blast
  from pe.allowed_scope [OF al] pe.allowed_org [OF al]
  have "''credentials:read'' \<in> set (cl_Grants c)" "orgLayer rg (xs_Policy svc) (requestInput (credentialRequest c credentialRef))"
    by (simp_all add: credentialRequest_def)
  moreover have "contents (xs_Secret svc) v credentialRef = Some (cl_OrgID c, cl_UserID c, xc_Secret ex)"
    by (rule GetSecret_ok [OF ok g [unfolded ex(1)]])
  moreover have "contents (xs_Secret svc) v' = contents (xs_Secret svc) v" using GetSecret_vault [OF g] ex(2) by auto
  ultimately show ?thesis using c ex(3) by blast
qed

text \<open>
  The statuses of the endpoint.  Success is reported exactly when the exchange succeeds; a caller who may
  not have the credential learns nothing about whether it exists: a secret of another user and one that
  does not exist give the same answer.
\<close>

theorem endpoint_hides_foreign_secrets:
  assumes "\<And>n. fault n = None" and "Validate (xs_Tokens svc) t r runToken = Inr c"
    and "dc_Allowed (Can rg (xs_Policy svc) (credentialRequest c credentialRef))"
    and "decodeReq body = Inr (runToken, credentialRef)" and "runToken \<noteq> []" and "credentialRef \<noteq> []"
    and "crypto_ok (xs_Secret svc)" and "reach (\<lambda>v. vt_secrets v = []) (vaultStep (xs_Secret svc)) v"
    and "\<And>pt. contents (xs_Secret svc) v credentialRef \<noteq> Some (cl_OrgID c, cl_UserID c, pt)"
  shows "fst (exchangeHandler decodeReq (Exchange rg t r H t1 t2 fault svc) ''POST'' body v) = (404, ExchangeError ''credential not found'')"
proof -
  have ok: "vaultOK (xs_Secret svc) v" using vs.reach_inv [OF assms(8)] assms(7) by blast
  obtain g v1 where g: "GetSecret (xs_Secret svc) H t1 fault (cl_OrgID c) (cl_UserID c) credentialRef v = (g, v1)" by (rule prod.exhaust)
  from GetSecret_no_fault(2) [where fault = fault and H = H and now = t1, OF ok assms(1) assms(9)] g
  obtain e where e: "e \<in> {ErrWrongTenant, ErrSecretNotFound}" "g = Inl e" by auto
  then have "errorsIs e ErrSecretNotFound \<or> errorsIs e ErrWrongTenant" by auto
  with e g assms(2,3) have "Exchange rg t r H t1 t2 fault svc credentialRef runToken v = (Inl ErrCredentialNotFound, v1)"
    by (simp add: Exchange_def Let_def)
  with assms(4-6) show ?thesis by (simp add: exchangeHandler_def) (simp add: ErrCredentialNotFound_def)
qed

text \<open>
  The helper against the endpoint: it prints a credential exactly when the exchange for its token and its
  reference succeeds, and then prints the one that was released.
\<close>

theorem helper_prints_released_credential:
  assumes "\<And>url body v. post url body v = (case exchangeHandler decodeReq exchange ''POST'' body v of (resp, v') \<Rightarrow> (Inr resp, v'))"
    and "decodeReq (helperBody cfg) = Inr (hc_RunToken cfg, hc_CredentialRef cfg)" and "hc_RunToken cfg \<noteq> []" and "hc_CredentialRef cfg \<noteq> []"
    and "\<And>ex. decodeResp (ExchangeOK ex) = Inr (xc_Username ex, xc_Secret ex)"
  shows "GitCredentialGet post decodeResp cfg v = (Inr out, v') \<longleftrightarrow>
    (\<exists>ex. exchange (hc_CredentialRef cfg) (hc_RunToken cfg) v = (Inr ex, v') \<and>
       out = ''username='' @ xc_Username ex @ [CHR 0x0A] @ ''password='' @ xc_Secret ex @ [CHR 0x0A])"
proof -
  obtain g v1 where g: "exchange (hc_CredentialRef cfg) (hc_RunToken cfg) v = (g, v1)" by (rule prod.exhaust)
  show ?thesis
  proof (cases g)
    case (Inl err)
    with g assms(2-4) have "\<exists>code b. code \<noteq> 200 \<and> exchangeHandler decodeReq exchange ''POST'' (helperBody cfg) v = ((code, b), v1)"
      by (simp add: exchangeHandler_def)
    then show ?thesis using g Inl by (auto simp: GitCredentialGet_def assms(1))
  next
    case (Inr ex)
    with g assms(2-4) have "exchangeHandler decodeReq exchange ''POST'' (helperBody cfg) v = ((200, ExchangeOK ex), v1)"
      by (simp add: exchangeHandler_def)
    then show ?thesis using g Inr assms(5) by (auto simp: GitCredentialGet_def assms(1))
  qed
qed

text \<open>
  The process asks the exchange only when git asks for a credential, and prints nothing but a credential that the exchange
  released for its own token and reference; storing and erasing do nothing.
\<close>

theorem helper_process_prints_only_released:
  assumes "\<And>url body v. post url body v = (case exchangeHandler decodeReq exchange ''POST'' body v of (resp, v') \<Rightarrow> (Inr resp, v'))"
    and "decodeReq (helperBody (helperConfig env)) = Inr (env ''DARKFACTORY_RUN_TOKEN'', env ''DARKFACTORY_CREDENTIAL_REF'')"
    and "env ''DARKFACTORY_RUN_TOKEN'' \<noteq> []" and "env ''DARKFACTORY_CREDENTIAL_REF'' \<noteq> []"
    and "\<And>ex. decodeResp (ExchangeOK ex) = Inr (xc_Username ex, xc_Secret ex)"
    and run: "helperMain post decodeResp env args v = (e, v')"
  shows "(v' \<noteq> v \<or> (\<exists>out. e = HelperPrinted out \<and> out \<noteq> []) \<longrightarrow> length args \<le> 1 \<or> args ! 1 = ''get'') \<and>
    (\<forall>out. e = HelperPrinted out \<longrightarrow> out \<noteq> [] \<longrightarrow>
       (\<exists>ex. exchange (env ''DARKFACTORY_CREDENTIAL_REF'') (env ''DARKFACTORY_RUN_TOKEN'') v = (Inr ex, v') \<and>
          out = ''username='' @ xc_Username ex @ [CHR 0x0A] @ ''password='' @ xc_Secret ex @ [CHR 0x0A]))"
proof -
  have cfg: "hc_RunToken (helperConfig env) = env ''DARKFACTORY_RUN_TOKEN''" "hc_CredentialRef (helperConfig env) = env ''DARKFACTORY_CREDENTIAL_REF''"
    by (simp_all add: helperConfig_def)
  note released = helper_prints_released_credential [of post decodeReq exchange "helperConfig env" decodeResp, unfolded cfg, OF assms(1-5)]
  show ?thesis
  proof (cases "length args \<le> 1 \<or> args ! 1 = ''get''")
    case True
    then have op: "(if 1 < length args then args ! 1 else ''get'') = ''get''" by auto
    have "(case GitCredentialGet post decodeResp (helperConfig env) v of
        (Inl err, w') \<Rightarrow> (HelperFatal (errText err), w') | (Inr out, w') \<Rightarrow> (HelperPrinted out, w')) = (e, v')"
      using run unfolding helperMain_def Let_def op by simp
    then have "GitCredentialGet post decodeResp (helperConfig env) v = (Inr out, v')" if "e = HelperPrinted out" for out
      using that by (auto split: prod.splits sum.splits)
    with True released show ?thesis by blast
  next
    case False
    then have op: "(if 1 < length args then args ! 1 else ''get'') = args ! 1" "args ! 1 \<noteq> ''get''" by auto
    have "v' = v" "e = HelperPrinted [] \<or> (\<exists>m. e = HelperFatal m)"
      using run op(2) unfolding helperMain_def Let_def op(1) by (auto split: if_splits)
    then show ?thesis by auto
  qed
qed

section \<open>Concrete runs\<close>

definition ex_cred_claims :: claims where
  "ex_cred_claims = (exClaims 0 900)\<lparr>cl_OrgID := ''o'', cl_UserID := ''u'', cl_Grants := [''credentials:read'']\<rparr>"

definition ex_cred_tokens :: "(string \<rightharpoonup> string \<times> time) service" where
  "ex_cred_tokens = exService\<lparr>sv_marshal := \<lambda>c. ''c'', sv_unmarshal := \<lambda>s. Some ex_cred_claims, sv_revoke := None\<rparr>"

definition ex_exchange :: "(string \<rightharpoonup> string \<times> time) exchange_service" where
  "ex_exchange = \<lparr>xs_Tokens = ex_cred_tokens, xs_Secret = ex_manager 1, xs_Policy = \<lparr>en_query = [''p''], en_patterns = [''p'']\<rparr>\<rparr>"

definition ex_allow :: opa where
  "ex_allow = \<lparr>opa_prepare = \<lambda>ps. None, opa_fail = \<lambda>ps inp. None, opa_glob = \<lambda>p ds subject. True\<rparr>"

lemma ex_cred_validate: "Validate ex_cred_tokens (5 * Second) r (encode ex_cred_tokens ex_cred_claims) = Inr ex_cred_claims"
proof -
  have "sv_unmarshal ex_cred_tokens (sv_marshal ex_cred_tokens ex_cred_claims) = Some ex_cred_claims" by (simp add: ex_cred_tokens_def)
  from decode_encode [OF this] show ?thesis
    by (simp add: Validate_def) (simp add: ex_cred_tokens_def ex_cred_claims_def exClaims_def Unix_def Second_def)
qed

lemma ex_cred_allowed: "dc_Allowed (Can ex_allow (xs_Policy ex_exchange) (credentialRequest ex_cred_claims i))"
  by (simp add: Can_allowed_iff orgLayer_def orgAllows_def ex_allow_def ex_exchange_def credentialRequest_def ex_cred_claims_def)

lemma ex_exchange_simps: "xs_Tokens ex_exchange = ex_cred_tokens" "xs_Secret ex_exchange = ex_manager 1"
  by (simp_all add: ex_exchange_def)

lemma ex_vault_reach: "reach (\<lambda>v. vt_secrets v = []) (vaultStep (xs_Secret ex_exchange)) ex_vault"
  unfolding ex_exchange_simps by (rule reach_step [where step = "vaultStep (ex_manager 1)", OF ex_reach0 ex_step])

definition ex_tok :: string where "ex_tok = encode ex_cred_tokens ex_cred_claims"

theorem exchange_releases_own_secret_witness:
  "\<exists>ex v'. Exchange ex_allow (5 * Second) Map.empty exHash 5 5 (\<lambda>n. None) ex_exchange ''id-1'' ex_tok ex_vault = (Inr ex, v') \<and> xc_Secret ex = ''pw''"
proof -
  obtain g v1 where g: "GetSecret (ex_manager 1) exHash 5 (\<lambda>n. None) ''o'' ''u'' ''id-1'' ex_vault = (g, v1)" by (rule prod.exhaust)
  have "vaultOK (ex_manager 1) ex_vault0" by (simp add: vaultOK_def ex_vault0_def)
  from PutSecret_ok(1) [OF ex_crypto_ok this ex_put] have ok: "vaultOK (ex_manager 1) ex_vault" .
  from GetSecret_no_fault(1) [where fault = "\<lambda>n. None", OF ok refl ex_contents, of exHash 5] g have "g = Inr ''pw''" by simp
  with g ex_cred_allowed [of "''id-1''"] have "\<exists>ex. Exchange ex_allow (5 * Second) Map.empty exHash 5 5 (\<lambda>n. None) ex_exchange ''id-1'' ex_tok ex_vault = (Inr ex, v1)"
    by (simp add: Exchange_def ex_exchange_simps ex_tok_def ex_cred_validate Let_def) (simp add: ex_cred_claims_def)
  then obtain ex where ex: "Exchange ex_allow (5 * Second) Map.empty exHash 5 5 (\<lambda>n. None) ex_exchange ''id-1'' ex_tok ex_vault = (Inr ex, v1)" by blast
  from exchange_releases_own_secret [OF _ ex_vault_reach ex] ex_crypto_ok(1) ex_contents ex show ?thesis
    by (auto simp: ex_exchange_simps)
qed

theorem endpoint_hides_foreign_secrets_witness:
  "fst (exchangeHandler (\<lambda>b. Inr (ex_tok, ''id-2'')) (Exchange ex_allow (5 * Second) Map.empty exHash 5 5 (\<lambda>n. None) ex_exchange) ''POST'' [] ex_vault) =
     (404, ExchangeError ''credential not found'')"
proof -
  have "vaultOK (ex_manager 1) ex_vault0" by (simp add: vaultOK_def ex_vault0_def)
  from PutSecret_ok(4) [OF ex_crypto_ok this ex_put] have none: "contents (ex_manager 1) ex_vault ''id-2'' = None"
    by (simp add: contentsOf_def ex_vault0_def)
  have tok: "ex_tok \<noteq> []" by (simp add: ex_tok_def encode_def Let_def)
  show ?thesis
    by (rule endpoint_hides_foreign_secrets [where runToken = ex_tok and credentialRef = "''id-2''" and c = ex_cred_claims])
      (simp_all only: ex_exchange_simps ex_tok_def ex_cred_validate ex_cred_allowed ex_crypto_ok ex_vault_reach [unfolded ex_exchange_simps] none
        tok [unfolded ex_tok_def] list.distinct option.distinct simp_thms)
qed

end
