(* ===== verification/DeepCopy.thy ===== *)
theory DeepCopy
  imports Prelude
begin

text \<open>
  \<^verbatim>\<open>api/v1alpha1/deepcopy.go\<close>: copies of session objects, over an explicit store, because what a copy promises is about
  which cells it shares.  The metadata of Kubernetes and its own deep copy are parameters.
\<close>

section \<open>The store\<close>

datatype cell = TimeCell time | DurationCell duration | QuantityCell "string \<rightharpoonup> string" | ClaimsCell "string list"

record cell_store =
  st_cells :: "nat \<Rightarrow> cell"
  st_next :: nat

definition newCell :: "cell \<Rightarrow> cell_store \<Rightarrow> nat \<times> cell_store" where
  "newCell c h = (st_next h, h\<lparr>st_cells := (st_cells h)(st_next h := c), st_next := Suc (st_next h)\<rparr>)"

definition setCell :: "nat \<Rightarrow> cell \<Rightarrow> cell_store \<Rightarrow> cell_store" where
  "setCell a c h = h\<lparr>st_cells := (st_cells h)(a := c)\<rparr>"

section \<open>Session objects\<close>

text \<open>Pointers are addresses; \<^verbatim>\<open>nil\<close> is \<^const>\<open>None\<close>.  The resources of a specification are two
  maps of quantities and a slice of claims, which are references too.\<close>

record spec_obj =
  so_AgentRef :: string
  so_UserID :: string
  so_OrgID :: string
  so_EnvironmentKey :: string
  so_Limits :: "nat option"
  so_Requests :: "nat option"
  so_ResourceClaims :: "nat option"
  so_IdleTimeout :: "nat option"
  so_MaxLifetime :: "nat option"
  so_PriorityClass :: string

record status_obj =
  ss_Phase :: string
  ss_PodName :: string
  ss_WarmHit :: bool
  ss_StartedAt :: "nat option"
  ss_LastActivity :: "nat option"
  ss_TerminatedAt :: "nat option"
  ss_ObservedGeneration :: int

record 'm session_obj =
  se_TypeMeta :: "string \<times> string"
  se_ObjectMeta :: 'm
  se_Spec :: spec_obj
  se_Status :: status_obj

record ('m, 'l) session_list =
  sl_TypeMeta :: "string \<times> string"
  sl_ListMeta :: 'l
  sl_Items :: "'m session_obj list option"

section \<open>Copies\<close>

definition copyTime :: "nat option \<Rightarrow> cell_store \<Rightarrow> nat option \<times> cell_store" where
  "copyTime p h =
     (case p of
        None \<Rightarrow> (None, h)
      | Some a \<Rightarrow> (case newCell (st_cells h a) h of (b, h') \<Rightarrow> (Some b, h')))"

definition Status_DeepCopyInto :: "status_obj \<Rightarrow> cell_store \<Rightarrow> status_obj \<times> cell_store" where
  "Status_DeepCopyInto s h =
     (let (p1, h1) = copyTime (ss_StartedAt s) h;
          (p2, h2) = copyTime (ss_LastActivity s) h1;
          (p3, h3) = copyTime (ss_TerminatedAt s) h2
      in (s\<lparr>ss_StartedAt := p1, ss_LastActivity := p2, ss_TerminatedAt := p3\<rparr>, h3))"

text \<open>\<open>copyMeta\<close> is \<^verbatim>\<open>ObjectMeta.DeepCopyInto\<close>, on metadata that is a value.\<close>

definition Session_DeepCopy :: "('m \<Rightarrow> 'm) \<Rightarrow> 'm session_obj \<Rightarrow> cell_store \<Rightarrow> 'm session_obj \<times> cell_store" where
  "Session_DeepCopy copyMeta s h =
     (case Status_DeepCopyInto (se_Status s) h of
        (st, h') \<Rightarrow> (s\<lparr>se_ObjectMeta := copyMeta (se_ObjectMeta s), se_Status := st\<rparr>, h'))"

fun copyItems :: "('m \<Rightarrow> 'm) \<Rightarrow> 'm session_obj list \<Rightarrow> cell_store \<Rightarrow> 'm session_obj list \<times> cell_store" where
  "copyItems copyMeta [] h = ([], h)"
| "copyItems copyMeta (s # ss) h =
     (case Session_DeepCopy copyMeta s h of
        (s', h1) \<Rightarrow> (case copyItems copyMeta ss h1 of (ss', h2) \<Rightarrow> (s' # ss', h2)))"

definition List_DeepCopy :: "('m \<Rightarrow> 'm) \<Rightarrow> ('l \<Rightarrow> 'l) \<Rightarrow> ('m, 'l) session_list \<Rightarrow> cell_store \<Rightarrow> ('m, 'l) session_list \<times> cell_store" where
  "List_DeepCopy copyMeta copyListMeta l h =
     (case sl_Items l of
        None \<Rightarrow> (l\<lparr>sl_ListMeta := copyListMeta (sl_ListMeta l)\<rparr>, h)
      | Some items \<Rightarrow>
          (case copyItems copyMeta items h of
             (items', h') \<Rightarrow> (l\<lparr>sl_ListMeta := copyListMeta (sl_ListMeta l), sl_Items := Some items'\<rparr>, h')))"

section \<open>What a copy shares\<close>

definition statusCells :: "status_obj \<Rightarrow> nat set" where
  "statusCells s = set_option (ss_StartedAt s) \<union> set_option (ss_LastActivity s) \<union> set_option (ss_TerminatedAt s)"

definition specCells :: "spec_obj \<Rightarrow> nat set" where
  "specCells s = set_option (so_Limits s) \<union> set_option (so_Requests s) \<union> set_option (so_ResourceClaims s) \<union> set_option (so_IdleTimeout s) \<union> set_option (so_MaxLifetime s)"

text \<open>What a reader sees of a status and of a specification.\<close>

definition statusView :: "cell_store \<Rightarrow> status_obj \<Rightarrow> string \<times> string \<times> bool \<times> int \<times> cell option list" where
  "statusView h s = (ss_Phase s, ss_PodName s, ss_WarmHit s, ss_ObservedGeneration s,
     map (map_option (st_cells h)) [ss_StartedAt s, ss_LastActivity s, ss_TerminatedAt s])"

definition specView :: "cell_store \<Rightarrow> spec_obj \<Rightarrow> string list \<times> cell option list" where
  "specView h s = ([so_AgentRef s, so_UserID s, so_OrgID s, so_EnvironmentKey s, so_PriorityClass s],
     map (map_option (st_cells h)) [so_Limits s, so_Requests s, so_ResourceClaims s, so_IdleTimeout s, so_MaxLifetime s])"

text \<open>A store that grew: no old cell changed.\<close>

definition extends :: "cell_store \<Rightarrow> cell_store \<Rightarrow> bool" where
  "extends h h' \<longleftrightarrow> st_next h \<le> st_next h' \<and> (\<forall>a < st_next h. st_cells h' a = st_cells h a)"

lemma extends_refl [simp]: "extends h h"
  by (simp add: extends_def)

lemma extends_trans: "extends h h1 \<Longrightarrow> extends h1 h2 \<Longrightarrow> extends h h2"
  by (auto simp: extends_def)

lemma extends_cells: "extends h h' \<Longrightarrow> set_option q \<subseteq> {..<st_next h} \<Longrightarrow> map_option (st_cells h') q = map_option (st_cells h) q"
  by (auto simp: extends_def intro!: option.map_cong)

lemma extends_view:
  assumes "extends h h'" "statusCells s \<subseteq> {..<st_next h}"
  shows "statusView h' s = statusView h s"
  using assms by (auto simp: extends_def statusView_def statusCells_def intro!: option.map_cong)

lemma copyTime_fresh:
  assumes "copyTime p h = (q, h')" "set_option p \<subseteq> {..<st_next h}"
  shows "extends h h'" "set_option q \<subseteq> {st_next h..<st_next h'}" "map_option (st_cells h') q = map_option (st_cells h) p"
  using assms by (auto simp: copyTime_def newCell_def extends_def split: option.splits)

lemma status_copy:
  assumes "Status_DeepCopyInto s h = (t, h')" "statusCells s \<subseteq> {..<st_next h}"
  shows "extends h h'" "statusCells t \<subseteq> {st_next h..<st_next h'}" "statusView h' t = statusView h s"
proof -
  obtain p1 h1 p2 h2 p3 where c: "copyTime (ss_StartedAt s) h = (p1, h1)" "copyTime (ss_LastActivity s) h1 = (p2, h2)"
    "copyTime (ss_TerminatedAt s) h2 = (p3, h')" and t: "t = s\<lparr>ss_StartedAt := p1, ss_LastActivity := p2, ss_TerminatedAt := p3\<rparr>"
    using assms(1) by (auto simp: Status_DeepCopyInto_def Let_def split: prod.splits)
  have b: "set_option (ss_StartedAt s) \<subseteq> {..<st_next h}" "set_option (ss_LastActivity s) \<subseteq> {..<st_next h}" "set_option (ss_TerminatedAt s) \<subseteq> {..<st_next h}"
    using assms(2) by (auto simp: statusCells_def)
  note f1 = copyTime_fresh [OF c(1) b(1)]
  have "set_option (ss_LastActivity s) \<subseteq> {..<st_next h1}" using b(2) f1(1) by (auto simp: extends_def)
  note f2 = copyTime_fresh [OF c(2) this]
  have e2: "extends h h2" by (rule extends_trans [OF f1(1) f2(1)])
  have "set_option (ss_TerminatedAt s) \<subseteq> {..<st_next h2}" using b(3) e2 by (auto simp: extends_def)
  note f3 = copyTime_fresh [OF c(3) this]
  show "extends h h'" by (rule extends_trans [OF e2 f3(1)])
  show "statusCells t \<subseteq> {st_next h..<st_next h'}"
    using f1(1,2) f2(1,2) f3(1,2) by (fastforce simp: statusCells_def t extends_def)
  have in1: "set_option p1 \<subseteq> {..<st_next h1}" and in2: "set_option p2 \<subseteq> {..<st_next h2}" using f1(2) f2(2) by auto
  have p1: "map_option (st_cells h') p1 = map_option (st_cells h) (ss_StartedAt s)"
    using extends_cells [OF extends_trans [OF f2(1) f3(1)] in1] f1(3) by simp
  have p2: "map_option (st_cells h') p2 = map_option (st_cells h) (ss_LastActivity s)"
    using extends_cells [OF f3(1) in2] f2(3) extends_cells [OF f1(1) b(2)] by simp
  have p3: "map_option (st_cells h') p3 = map_option (st_cells h) (ss_TerminatedAt s)"
    using f3(3) extends_cells [OF e2 b(3)] by simp
  show "statusView h' t = statusView h s" using p1 p2 p3 by (simp add: statusView_def t)
qed

text \<open>The items of a copied list: each reads as its original, in cells of its own.\<close>

lemma items_copy:
  assumes "copyItems copyMeta ss h = (ts, h')" "\<forall>s \<in> set ss. statusCells (se_Status s) \<subseteq> {..<st_next h}"
  shows "extends h h' \<and> length ts = length ss \<and>
    (\<forall>i < length ss. statusView h' (se_Status (ts ! i)) = statusView h (se_Status (ss ! i)) \<and>
       statusCells (se_Status (ts ! i)) \<subseteq> {st_next h..<st_next h'}) \<and>
    (\<forall>i < length ss. \<forall>j < length ss. i \<noteq> j \<longrightarrow> statusCells (se_Status (ts ! i)) \<inter> statusCells (se_Status (ts ! j)) = {})"
  using assms
proof (induction ss arbitrary: h ts)
  case (Cons s ss)
  obtain st h1 ts1 where st: "Status_DeepCopyInto (se_Status s) h = (st, h1)" and rest: "copyItems copyMeta ss h1 = (ts1, h')"
    and ts: "ts = s\<lparr>se_ObjectMeta := copyMeta (se_ObjectMeta s), se_Status := st\<rparr> # ts1"
    using Cons.prems(1) by (auto simp: Session_DeepCopy_def split: prod.splits)
  have f: "extends h h1" "statusCells st \<subseteq> {st_next h..<st_next h1}" "statusView h1 st = statusView h (se_Status s)"
    using status_copy [OF st] Cons.prems(2) by simp_all
  have in1: "statusCells (se_Status s') \<subseteq> {..<st_next h1}" if "s' \<in> set ss" for s'
    using Cons.prems(2) f(1) that by (fastforce simp: extends_def)
  from Cons.IH [OF rest] in1 have ih: "extends h1 h'" "length ts1 = length ss"
    "\<And>i. i < length ss \<Longrightarrow> statusView h' (se_Status (ts1 ! i)) = statusView h1 (se_Status (ss ! i))"
    "\<And>i. i < length ss \<Longrightarrow> statusCells (se_Status (ts1 ! i)) \<subseteq> {st_next h1..<st_next h'}"
    "\<And>i j. i < length ss \<Longrightarrow> j < length ss \<Longrightarrow> i \<noteq> j \<Longrightarrow> statusCells (se_Status (ts1 ! i)) \<inter> statusCells (se_Status (ts1 ! j)) = {}"
    by blast+
  have e: "extends h h'" by (rule extends_trans [OF f(1) ih(1)])
  have le: "st_next h \<le> st_next h1" "st_next h1 \<le> st_next h'" using f(1) ih(1) by (simp_all add: extends_def)
  have own: "statusCells st \<subseteq> {..<st_next h1}" using f(2) by auto
  have head: "statusView h' st = statusView h (se_Status s)" "statusCells st \<subseteq> {st_next h..<st_next h'}"
    using extends_view [OF ih(1) own] f(2,3) le by auto
  have tail: "statusView h' (se_Status (ts1 ! i)) = statusView h (se_Status (ss ! i))" "statusCells (se_Status (ts1 ! i)) \<subseteq> {st_next h..<st_next h'}"
    if "i < length ss" for i
    using ih(3,4) [OF that] extends_view [OF f(1), of "se_Status (ss ! i)"] Cons.prems(2) that le by auto
  have apart: "statusCells st \<inter> statusCells (se_Status (ts1 ! i)) = {}" if "i < length ss" for i
    using ih(4) [OF that] f(2) by fastforce
  show ?case
    using e ih(2) head tail apart ih(5) by (simp add: ts nth_Cons' Int_commute)
qed simp

lemma setCell_view: "a \<notin> statusCells s \<Longrightarrow> statusView (setCell a c h) s = statusView h s"
  by (auto simp: setCell_def statusView_def statusCells_def intro!: option.map_cong)


text \<open>
  The copy of a specification is not deep: it holds the same pointers, so a write through the copy is a write to the
  original.
\<close>

theorem copied_spec_is_shared:
  assumes "Session_DeepCopy copyMeta s h = (s', h')" and "so_IdleTimeout (se_Spec s') = Some a" and "c \<noteq> st_cells h' a"
  shows "so_IdleTimeout (se_Spec s) = Some a \<and> specView (setCell a c h') (se_Spec s) \<noteq> specView h' (se_Spec s)"
proof -
  have "se_Spec s' = se_Spec s" using assms(1) by (auto simp: Session_DeepCopy_def split: prod.splits)
  with assms(2,3) show ?thesis by (simp add: specView_def setCell_def)
qed

section \<open>A concrete list\<close>

text \<open>Two sessions that share the cell of their start time.\<close>

definition exCopyStore :: cell_store where "exCopyStore = \<lparr>st_cells = (\<lambda>_. TimeCell 5), st_next = 1\<rparr>"

definition exCopySession :: "string \<Rightarrow> unit session_obj" where
  "exCopySession agent =
     \<lparr>se_TypeMeta = ([], []), se_ObjectMeta = (),
      se_Spec = \<lparr>so_AgentRef = agent, so_UserID = [], so_OrgID = [], so_EnvironmentKey = [], so_Limits = None, so_Requests = None, so_ResourceClaims = None, so_IdleTimeout = None,
        so_MaxLifetime = None, so_PriorityClass = []\<rparr>,
      se_Status = \<lparr>ss_Phase = ''Running'', ss_PodName = [], ss_WarmHit = False, ss_StartedAt = Some 0, ss_LastActivity = None,
        ss_TerminatedAt = None, ss_ObservedGeneration = 0\<rparr>\<rparr>"

definition exCopyList :: "(unit, unit) session_list" where
  "exCopyList = \<lparr>sl_TypeMeta = ([], []), sl_ListMeta = (), sl_Items = Some [exCopySession ''a'', exCopySession ''b'']\<rparr>"

lemma ex_status: "ss_StartedAt (se_Status (exCopySession x)) = Some 0" "statusCells (se_Status (exCopySession x)) = {0}"
  by (simp_all add: exCopySession_def statusCells_def)


end
