(* ===== verification/JsonValue.thy ===== *)
theory JsonValue
  imports Prelude
begin

text \<open>
  The values of \<^verbatim>\<open>encoding/json\<close> and their decoding into structures.  Texts are represented by the values they encode
  where both ends of an exchange are modelled.  The numbers that occur are integers of 64 bits.
\<close>

section \<open>JSON values\<close>

datatype json = JNull | JBool bool | JStr string | JNum int | JRaw string | JArr "json list" | JObj "(string \<times> json) list"

definition ErrJSONType :: goerr where "ErrJSONType = ErrNew ''json: cannot unmarshal''"

text \<open>
  Decoding into a structure goes through the members of an object in order; a member is stored in the field whose
  name it equals up to case, \<^verbatim>\<open>null\<close> leaves the field alone, and a member without a field is ignored.
\<close>

definition jsonMembers :: "json \<Rightarrow> (string \<times> json) list result" where
  "jsonMembers j = (case j of JObj fs \<Rightarrow> Inr fs | JNull \<Rightarrow> Inr [] | _ \<Rightarrow> Inl ErrJSONType)"

definition jsonStr :: "json \<Rightarrow> (string \<Rightarrow> 'c) \<Rightarrow> 'c \<Rightarrow> 'c result" where
  "jsonStr v upd c = (case v of JStr s \<Rightarrow> Inr (upd s) | JNull \<Rightarrow> Inr c | _ \<Rightarrow> Inl ErrJSONType)"

definition jsonInt :: "json \<Rightarrow> (int \<Rightarrow> 'c) \<Rightarrow> 'c \<Rightarrow> 'c result" where
  "jsonInt v upd c = (case v of JNum n \<Rightarrow> Inr (upd n) | JNull \<Rightarrow> Inr c | _ \<Rightarrow> Inl ErrJSONType)"

definition jsonBool :: "json \<Rightarrow> (bool \<Rightarrow> 'c) \<Rightarrow> 'c \<Rightarrow> 'c result" where
  "jsonBool v upd c = (case v of JBool b \<Rightarrow> Inr (upd b) | JNull \<Rightarrow> Inr c | _ \<Rightarrow> Inl ErrJSONType)"

text \<open>A slice takes the elements of an array, and \<^verbatim>\<open>null\<close> empties it.\<close>

fun decodeAll :: "(json \<Rightarrow> 'c result) \<Rightarrow> json list \<Rightarrow> 'c list result" where
  "decodeAll f [] = Inr []"
| "decodeAll f (v # vs) =
     (case f v of Inl err \<Rightarrow> Inl err | Inr x \<Rightarrow> (case decodeAll f vs of Inl err \<Rightarrow> Inl err | Inr xs \<Rightarrow> Inr (x # xs)))"

definition jsonSlice :: "(json \<Rightarrow> 'e result) \<Rightarrow> json \<Rightarrow> ('e list \<Rightarrow> 'c) \<Rightarrow> 'c result" where
  "jsonSlice elem v upd =
     (case v of
        JArr vs \<Rightarrow> (case decodeAll elem vs of Inl err \<Rightarrow> Inl err | Inr xs \<Rightarrow> Inr (upd xs))
      | JNull \<Rightarrow> Inr (upd [])
      | _ \<Rightarrow> Inl ErrJSONType)"

definition jsonStringElem :: "json \<Rightarrow> string result" where
  "jsonStringElem v = jsonStr v (\<lambda>s. s) []"

text \<open>The encoding of a slice that is nil when it has no elements.\<close>

definition sliceJSON :: "('e \<Rightarrow> json) \<Rightarrow> 'e list \<Rightarrow> json" where
  "sliceJSON enc xs = (if xs = [] then JNull else JArr (map enc xs))"

text \<open>A member with the option \<^verbatim>\<open>omitempty\<close>.\<close>

definition omitEmpty :: "string \<Rightarrow> string \<Rightarrow> (string \<times> json) list" where
  "omitEmpty k s = (if s = [] then [] else [(k, JStr s)])"

lemma decodeAll_map: "(\<And>x. x \<in> set xs \<Longrightarrow> f (enc x) = Inr x) \<Longrightarrow> decodeAll f (map enc xs) = Inr xs"
  by (induction xs) simp_all

lemma jsonSlice_sliceJSON: "(\<And>x. x \<in> set xs \<Longrightarrow> f (enc x) = Inr x) \<Longrightarrow> jsonSlice f (sliceJSON enc xs) upd = Inr (upd xs)"
  by (simp add: jsonSlice_def sliceJSON_def decodeAll_map)

lemma jsonStringElem_JStr [simp]: "jsonStringElem (JStr s) = Inr s"
  by (simp add: jsonStringElem_def jsonStr_def)

lemma decoded_primitives [simp]: "jsonStr (JStr s) upd c = Inr (upd s)" "jsonInt (JNum n) upd' c = Inr (upd' n)" "jsonBool (JBool b) upd'' c = Inr (upd'' b)"
  by (simp_all add: jsonStr_def jsonInt_def jsonBool_def)

fun decodeMembers :: "(string \<Rightarrow> json \<Rightarrow> 'c \<Rightarrow> 'c result) \<Rightarrow> (string \<times> json) list \<Rightarrow> 'c \<Rightarrow> 'c result" where
  "decodeMembers f [] c = Inr c"
| "decodeMembers f ((k, v) # fs) c = (case f (map lowerByte k) v c of Inl err \<Rightarrow> Inl err | Inr c' \<Rightarrow> decodeMembers f fs c')"

definition decodeInto :: "(string \<Rightarrow> json \<Rightarrow> 'c \<Rightarrow> 'c result) \<Rightarrow> 'c \<Rightarrow> json \<Rightarrow> 'c result" where
  "decodeInto f zero j = (case jsonMembers j of Inl err \<Rightarrow> Inl err | Inr fs \<Rightarrow> decodeMembers f fs zero)"

lemma decodeMembers_append:
  "decodeMembers f (fs @ gs) c = (case decodeMembers f fs c of Inl err \<Rightarrow> Inl err | Inr c' \<Rightarrow> decodeMembers f gs c')"
  by (induction f fs c rule: decodeMembers.induct) (auto split: sum.split)

text \<open>
  \<^verbatim>\<open>json.Marshal\<close> and \<^verbatim>\<open>json.Unmarshal\<close> through a printer and a parser of values, which are parameters; \<open>jsonText\<close> says that the text of a
  value parses to it.  (A string that is not UTF-8 has no such text.)
\<close>

definition jsonText :: "(json \<Rightarrow> string) \<Rightarrow> (string \<Rightarrow> json result) \<Rightarrow> json \<Rightarrow> bool" where
  "jsonText print parse v \<longleftrightarrow> parse (print v) = Inr v"

definition Unmarshal :: "(string \<Rightarrow> json result) \<Rightarrow> (string \<Rightarrow> json \<Rightarrow> 'c \<Rightarrow> 'c result) \<Rightarrow> 'c \<Rightarrow> string \<Rightarrow> 'c result" where
  "Unmarshal parse f zero raw = (case parse raw of Inl err \<Rightarrow> Inl err | Inr v \<Rightarrow> decodeInto f zero v)"

lemma Unmarshal_text: "jsonText print parse v \<Longrightarrow> Unmarshal parse f zero (print v) = decodeInto f zero v"
  by (simp add: jsonText_def Unmarshal_def)

text \<open>A text that a decoder into a structure reads as the value it encodes.\<close>

definition readsAs :: "(string \<Rightarrow> 'c result) \<Rightarrow> (string \<Rightarrow> json \<Rightarrow> 'c \<Rightarrow> 'c result) \<Rightarrow> 'c \<Rightarrow> string \<Rightarrow> json \<Rightarrow> bool" where
  "readsAs dec f zero raw v \<longleftrightarrow> dec raw = decodeInto f zero v"

end
