(* ===== verification/StateCodec.thy ===== *)
theory StateCodec
  imports Harness JsonValue
begin

text \<open>
  The state of a run as it is checkpointed: the JSON of \<^verbatim>\<open>harness.RunState\<close> (\<^verbatim>\<open>harness/harness.go\<close>), written and read by the
  checkpointer of \<^verbatim>\<open>adapters/adapters.go\<close>.
\<close>

section \<open>Encoding\<close>

definition messageJSON :: "message \<Rightarrow> json" where
  "messageJSON m = JObj [(''role'', JStr (ms_Role m)), (''content'', JStr (ms_Content m))]"

text \<open>An empty list of the model is a nil slice; an empty one that is not nil is read back alike.\<close>

definition runStateJSON :: "run_state \<Rightarrow> json" where
  "runStateJSON s =
     JObj ([(''runId'', JStr (rs_RunID s)), (''sessionId'', JStr (rs_SessionID s)), (''agentRef'', JStr (rs_AgentRef s)),
            (''messages'', sliceJSON messageJSON (rs_Messages s)), (''step'', JNum (rs_Step s)), (''status'', JStr (rs_Status s))] @
           omitEmpty ''pendingTool'' (rs_PendingTool s) @ omitEmpty ''pendingInput'' (rs_PendingInput s) @ omitEmpty ''finalText'' (rs_FinalText s) @
           [(''grantedTools'', sliceJSON JStr (rs_GrantedTools s))])"

section \<open>Decoding\<close>

definition messageField :: "string \<Rightarrow> json \<Rightarrow> message \<Rightarrow> message result" where
  "messageField k v m =
     (if k = ''role'' then jsonStr v (\<lambda>s. m\<lparr>ms_Role := s\<rparr>) m
      else if k = ''content'' then jsonStr v (\<lambda>s. m\<lparr>ms_Content := s\<rparr>) m
      else Inr m)"

definition zeroMessage :: message where
  "zeroMessage = \<lparr>ms_Role = [], ms_Content = []\<rparr>"

definition zeroRunState :: run_state where
  "zeroRunState =
     \<lparr>rs_RunID = [], rs_SessionID = [], rs_AgentRef = [], rs_Messages = [], rs_Step = 0, rs_Status = [], rs_PendingTool = [],
      rs_PendingInput = [], rs_FinalText = [], rs_GrantedTools = []\<rparr>"

definition runStateField :: "string \<Rightarrow> json \<Rightarrow> run_state \<Rightarrow> run_state result" where
  "runStateField k v s =
     (if k = ''runid'' then jsonStr v (\<lambda>x. s\<lparr>rs_RunID := x\<rparr>) s
      else if k = ''sessionid'' then jsonStr v (\<lambda>x. s\<lparr>rs_SessionID := x\<rparr>) s
      else if k = ''agentref'' then jsonStr v (\<lambda>x. s\<lparr>rs_AgentRef := x\<rparr>) s
      else if k = ''messages'' then jsonSlice (decodeInto messageField zeroMessage) v (\<lambda>xs. s\<lparr>rs_Messages := xs\<rparr>)
      else if k = ''step'' then jsonInt v (\<lambda>n. s\<lparr>rs_Step := n\<rparr>) s
      else if k = ''status'' then jsonStr v (\<lambda>x. s\<lparr>rs_Status := x\<rparr>) s
      else if k = ''pendingtool'' then jsonStr v (\<lambda>x. s\<lparr>rs_PendingTool := x\<rparr>) s
      else if k = ''pendinginput'' then jsonStr v (\<lambda>x. s\<lparr>rs_PendingInput := x\<rparr>) s
      else if k = ''finaltext'' then jsonStr v (\<lambda>x. s\<lparr>rs_FinalText := x\<rparr>) s
      else if k = ''grantedtools'' then jsonSlice jsonStringElem v (\<lambda>xs. s\<lparr>rs_GrantedTools := xs\<rparr>)
      else Inr s)"

section \<open>Round trip\<close>

lemma state_keys:
  "map lowerByte ''role'' = ''role''" "map lowerByte ''content'' = ''content''" "map lowerByte ''runId'' = ''runid''"
  "map lowerByte ''sessionId'' = ''sessionid''" "map lowerByte ''agentRef'' = ''agentref''" "map lowerByte ''messages'' = ''messages''"
  "map lowerByte ''step'' = ''step''" "map lowerByte ''status'' = ''status''" "map lowerByte ''pendingTool'' = ''pendingtool''"
  "map lowerByte ''pendingInput'' = ''pendinginput''" "map lowerByte ''finalText'' = ''finaltext''" "map lowerByte ''grantedTools'' = ''grantedtools''"
  by code_simp+

lemma message_decoded: "decodeInto messageField zeroMessage (messageJSON m) = Inr m"
  unfolding decodeInto_def jsonMembers_def messageJSON_def
  by (cases m) (simp add: messageField_def zeroMessage_def state_keys del: list.map)

lemma optional_members:
  "decodeMembers runStateField (omitEmpty ''pendingTool'' x) s = Inr (if x = [] then s else s\<lparr>rs_PendingTool := x\<rparr>)"
  "decodeMembers runStateField (omitEmpty ''pendingInput'' x) s = Inr (if x = [] then s else s\<lparr>rs_PendingInput := x\<rparr>)"
  "decodeMembers runStateField (omitEmpty ''finalText'' x) s = Inr (if x = [] then s else s\<lparr>rs_FinalText := x\<rparr>)"
  by (simp_all add: omitEmpty_def runStateField_def state_keys del: list.map)

lemma state_slices:
  "jsonSlice (decodeInto messageField zeroMessage) (sliceJSON messageJSON ms) upd = Inr (upd ms)"
  "jsonSlice jsonStringElem (sliceJSON JStr xs) upd' = Inr (upd' xs)"
  by (simp_all add: jsonSlice_sliceJSON message_decoded)

theorem runState_decoded: "decodeInto runStateField zeroRunState (runStateJSON s) = Inr s"
  unfolding decodeInto_def [of runStateField] jsonMembers_def runStateJSON_def
  by (cases s) (simp add: decodeMembers_append optional_members state_slices runStateField_def zeroRunState_def state_keys del: list.map)

end
