(* ===== verification/DurableRuns.thy ===== *)
theory DurableRuns
  imports Adapters StateCodec
begin

text \<open>
  Runs that pause for an approval and are resumed from a durable checkpoint: the composition of the agent loop with a
  checkpoint store, and with the store over DynamoDB that \<^verbatim>\<open>internal/adapters\<close> provides.
\<close>

section \<open>What a pause keeps\<close>

text \<open>The identity and the grants of a run do not change while the loop turns.\<close>

definition sameRun :: "run_state \<Rightarrow> run_state \<Rightarrow> bool" where
  "sameRun s t \<longleftrightarrow> rs_RunID t = rs_RunID s \<and> rs_SessionID t = rs_SessionID s \<and> rs_AgentRef t = rs_AgentRef s \<and>
     rs_GrantedTools t = rs_GrantedTools s \<and> prefix (rs_Messages s) (rs_Messages t)"

lemma sameRun_refl [simp]: "sameRun s s"
  by (simp add: sameRun_def)

lemma sameRun_trans: "sameRun s t \<Longrightarrow> sameRun t u \<Longrightarrow> sameRun s u"
  using prefix_order.trans unfolding sameRun_def by metis

lemma sameRun_updates [simp]:
  "sameRun s (finished s x)" "sameRun s (awaiting s resp)" "sameRun s (stepped s resp)"
  "sameRun (finished s x) t \<longleftrightarrow> sameRun s t"
  by (simp_all add: sameRun_def finished_def awaiting_def stepped_def)

lemma executeAndAppend_sameRun: "executeAndAppend s t i w = (s', w') \<Longrightarrow> sameRun s s'"
  by (auto simp: executeAndAppend_def sameRun_def Let_def split: prod.splits)

lemma runPass_sameRun:
  assumes "runPass h gts model s w = (p, evs)"
  shows "case p of Return s' err w' \<Rightarrow> sameRun s s' | Again s' w' \<Rightarrow> sameRun s s'"
proof -
  have stp: "sameRun s (finished (stepped s resp) x)" "sameRun s (awaiting (stepped s resp) resp)" for resp x
    by (rule sameRun_trans [where t = "stepped s resp"]; simp)+
  have ex: "sameRun s s'" if "executeAndAppend (stepped s resp) t i w1 = (s', w2)" for resp t i w1 s' w2
    by (rule sameRun_trans [OF _ executeAndAppend_sameRun [OF that]]) simp
  show ?thesis
    using assms unfolding runPass_def
    by (auto simp: Let_def stp dest: ex split: if_splits sum.splits option.splits prod.splits)
qed

lemma runLoop_sameRun:
  assumes "runLoop h gts model s w = ((s', err, w'), evs)"
  shows "sameRun s s'"
  using assms
proof (induction rule: runLoop_induct)
  case (last s w evs)
  from runPass_sameRun [OF last] show ?case by simp
next
  case (more s w s1 w1 evs1 evs2)
  from runPass_sameRun [OF more(1)] more(3) show ?case by (auto intro: sameRun_trans)
qed

text \<open>Every completion that is answered is a step.\<close>

lemma runLoop_steps:
  assumes "runLoop h gts model s w = ((s', err, w'), evs)"
  shows "int (length (filter isCompleted evs)) \<le> rs_Step s' - rs_Step s + (if err = None then 0 else 1)"
  using assms
proof (induction rule: runLoop_induct)
  case (last s w evs)
  then show ?case by (cases rule: runPass_cases) (auto simp: finished_def stepped_def awaiting_def)
next
  case (more s w s1 w1 evs1 evs2)
  from more(1) show ?case by (cases rule: runPass_cases) (use more(3) in auto)
qed

section \<open>Resuming from a checkpoint store\<close>

text \<open>
  What the loop relies on of its checkpointer: on the checkpoints \<open>cps\<close> of a world, a save that succeeds stores a storable
  state under its run, and a load that succeeds gives what is stored and changes nothing.
\<close>

locale checkpoint_store =
  fixes ck :: "'w checkpointer" and cps :: "'w \<Rightarrow> string \<rightharpoonup> run_state" and storable :: "run_state \<Rightarrow> bool"
  assumes save_stores: "ck_Save ck runID s w = (None, w') \<Longrightarrow> storable s \<Longrightarrow> cps w' runID = Some s"
    and load_reads: "ck_Load ck runID w = (Inr s, w') \<Longrightarrow> cps w runID = Some s \<and> cps w' = cps w"
begin

lemma load_saved:
  assumes "ck_Save ck runID s w = (None, w1)" "storable s" "cps w2 runID = cps w1 runID" "ck_Load ck runID w2 = (Inr l, w3)"
  shows "l = s"
  using save_stores [OF assms(1,2)] load_reads [OF assms(4)] assms(3) by simp

text \<open>An approved resume of a paused run: the pending call first, and then the loop, with the grants of the run.\<close>

lemma paused_run_resumes:
  assumes h: "h = NewHarness completer tools maxSteps ck" and run: "Run h state gts model w = ((s', err, w'), evs)"
    and st: "rs_Status s' = ''awaiting_approval''" and sv: "ck_Save ck (rs_RunID s') s' w1 = (None, w')" "storable s'"
    and kept: "cps w2 (rs_RunID s') = cps w' (rs_RunID s')" and load: "ck_Load ck (rs_RunID s') w2 = (Inr l, w3)"
    and res: "Resume h (rs_RunID s') True model w2 = ((r, err2, w4), evs2)"
  shows "\<exists>s1 r2 evs3. r = Some r2 \<and> evs2 = Executed (rs_PendingTool s') (rs_PendingInput s') # Saved s1 # evs3 \<and>
    sameRun s' s1 \<and> rs_Step s1 = rs_Step s' \<and> rs_PendingTool s1 = [] \<and> (\<exists>w5. Run h s1 gts model w5 = ((r2, err2, w4), evs3))"
proof -
  have l: "l = s'" by (rule load_saved [OF sv kept load])
  have aw: "rs_PendingTool s' \<in> set gts" "\<exists>t. hn_tools h (rs_PendingTool s') = Some t \<and> tl_RequiresApproval t"
    using runLoop_awaiting [OF run [unfolded Run_def] st] by simp_all
  then obtain t where t: "hn_tools h (rs_PendingTool s') = Some t" by blast
  have gts: "rs_GrantedTools s' = gts" using runLoop_sameRun [OF run [unfolded Run_def]] by (simp add: sameRun_def)
  have ck: "hn_checkpoints h = ck" by (simp add: h NewHarness_def)
  obtain s0 w5 where x: "executeAndAppend (approvedNote s') t (rs_PendingInput s') w3 = (s0, w5)" by fastforce
  let ?s = "s0\<lparr>rs_PendingTool := [], rs_PendingInput := []\<rparr>"
  have same: "sameRun s' ?s \<and> rs_Step ?s = rs_Step s'"
    using executeAndAppend_sameRun [OF x] executeAndAppend_step [OF x]
    by (auto simp: sameRun_def approvedNote_def dest: append_prefixD)
  obtain r2 e w6 evs3 where r: "Run h ?s (grantedFromState ?s) model (save h ?s w5) = ((r2, e, w6), evs3)" by (metis surj_pair)
  have g: "grantedFromState ?s = gts" using same gts by (simp add: grantedFromState_def sameRun_def)
  from res have "r = Some r2 \<and> err2 = e \<and> w4 = w6 \<and> evs2 = Executed (rs_PendingTool s') (rs_PendingInput s') # Saved ?s # evs3"
    using load l st t x r by (auto simp: Resume_def ck Let_def)
  with same r [unfolded g] show ?thesis by (intro exI [of _ ?s] exI [of _ r2] exI [of _ evs3]) auto
qed

text \<open>A pause gives no new steps and no new grants: the run before it and the run after it share one budget.\<close>

lemma paused_run_within_budget:
  assumes h: "h = NewHarness completer tools maxSteps ck" and run: "Run h state gts model w = ((s', err, w'), evs)"
    and st: "rs_Status s' = ''awaiting_approval''" and sv: "ck_Save ck (rs_RunID s') s' w1 = (None, w')" "storable s'"
    and kept: "cps w2 (rs_RunID s') = cps w' (rs_RunID s')" and load: "ck_Load ck (rs_RunID s') w2 = (Inr l, w3)"
    and res: "Resume h (rs_RunID s') True model w2 = ((r, err2, w4), evs2)"
  shows "\<exists>s1 evs3. evs2 = Executed (rs_PendingTool s') (rs_PendingInput s') # Saved s1 # evs3 \<and> sameRun s' s1 \<and>
    int (length (filter isCompleted (evs @ evs2))) \<le> max 0 (maxSteps - rs_Step state) \<and>
    (\<forall>n i. Executed n i \<in> set evs3 \<longrightarrow> n \<in> set gts \<and> (\<exists>t. hn_tools h n = Some t \<and> \<not> tl_RequiresApproval t))"
proof -
  from paused_run_resumes [OF assms] obtain s1 r2 evs3 w5 where
    evs2: "evs2 = Executed (rs_PendingTool s') (rs_PendingInput s') # Saved s1 # evs3" and same: "sameRun s' s1" "rs_Step s1 = rs_Step s'"
    and run2: "Run h s1 gts model w5 = ((r2, err2, w4), evs3)" by blast
  have err: "err = None" using runLoop_awaiting [OF run [unfolded Run_def] st] by simp
  have max: "hn_maxSteps h = maxSteps" by (simp add: h NewHarness_def)
  have "int (length (filter isCompleted evs)) \<le> rs_Step s' - rs_Step state" "rs_Step s' \<le> max (rs_Step state) maxSteps"
    using runLoop_steps [OF run [unfolded Run_def]] runLoop_budget [OF run [unfolded Run_def]] err max by simp_all
  moreover have "int (length (filter isCompleted evs3)) \<le> max 0 (maxSteps - rs_Step s')"
    using runLoop_budget [OF run2 [unfolded Run_def]] same(2) max by simp
  moreover have "int (length (filter isCompleted (evs @ evs2))) = int (length (filter isCompleted evs)) + int (length (filter isCompleted evs3))"
    by (simp add: evs2)
  ultimately have "int (length (filter isCompleted (evs @ evs2))) \<le> max 0 (maxSteps - rs_Step state)" by linarith
  moreover have "n \<in> set gts \<and> (\<exists>t. hn_tools h n = Some t \<and> \<not> tl_RequiresApproval t)" if "Executed n i \<in> set evs3" for n i
    using Run_permitted [OF h run2] that by (auto simp: permitted_def)
  ultimately show ?thesis using evs2 same(1) by blast
qed

end

section \<open>Checkpoints in DynamoDB\<close>

definition ddCheckpoints :: "('w \<Rightarrow> string \<Rightarrow> item \<rightharpoonup> item) \<Rightarrow> (string \<Rightarrow> run_state result) \<Rightarrow> 'w \<Rightarrow> string \<rightharpoonup> run_state" where
  "ddCheckpoints rows unmarshal w runID =
     (case rows w tableCheckpoints [''runId'' \<mapsto> S runID] of
        None \<Rightarrow> None
      | Some it \<Rightarrow>
          (case it ''state'' of
             Some (B raw) \<Rightarrow> (case unmarshal raw of Inl _ \<Rightarrow> None | Inr s \<Rightarrow> Some s)
           | _ \<Rightarrow> None))"

definition readsBack :: "(run_state \<Rightarrow> string result) \<Rightarrow> (string \<Rightarrow> run_state result) \<Rightarrow> run_state \<Rightarrow> bool" where
  "readsBack marshal unmarshal s \<longleftrightarrow> (\<exists>raw. marshal s = Inr raw \<and> unmarshal raw = Inr s)"

locale dynamo_store =
  fixes st :: "'w store" and rows :: "'w \<Rightarrow> string \<Rightarrow> item \<rightharpoonup> item" and settled :: "'w \<Rightarrow> bool"
  assumes tables: "dynamo (st_client st) rows settled"

sublocale dynamo_store \<subseteq> cp: checkpoint_store "HarnessCheckpointer st marshal unmarshal" "ddCheckpoints rows unmarshal" "readsBack marshal unmarshal"
  for marshal unmarshal
proof (unfold_locales, goal_cases)
  case (1 runID s w w')
  then obtain raw where raw: "marshal s = Inr raw" "unmarshal raw = Inr s" by (auto simp: readsBack_def)
  with 1 have "dd_PutItem (st_client st) tableCheckpoints [''runId'' \<mapsto> S runID, ''state'' \<mapsto> B raw] w = (None, w')"
    by (simp add: HarnessCheckpointer_def HarnessCheckpointer_Save_def SaveCheckpoint_def)
  from dynamoD(1) [OF tables this, unfolded checkpoint_key] raw show ?case by (simp add: ddCheckpoints_def)
next
  case (2 runID w s w')
  then obtain raw where load: "LoadCheckpoint st runID w = (Inr raw, w')" and raw: "unmarshal raw = Inr s"
    by (auto simp: HarnessCheckpointer_def HarnessCheckpointer_Load_def split: prod.splits sum.splits)
  then obtain it where "dd_GetItem (st_client st) tableCheckpoints [''runId'' \<mapsto> S runID] True w = (Inr (Some it), w')" "it ''state'' = Some (B raw)"
    by (auto simp: LoadCheckpoint_def split: prod.splits sum.splits option.splits attribute.splits)
  then have "rows w tableCheckpoints [''runId'' \<mapsto> S runID] = Some it" "rows w' = rows w" "it ''state'' = Some (B raw)"
    using dynamoD(2) [OF tables] by simp_all
  with raw show ?case by (simp add: ddCheckpoints_def fun_eq_iff)
qed

context dynamo_store begin

lemmas paused_run_in_tables = cp.paused_run_within_budget

end

interpretation mdb: dynamo_store ex_st ex_rows "\<lambda>w. True"
  by unfold_locales (rule ex_st_dynamo)

text \<open>The checkpointer with the JSON of \<^verbatim>\<open>RunState\<close>, over a printer and a parser of JSON texts.\<close>

definition stateMarshal :: "(json \<Rightarrow> string) \<Rightarrow> run_state \<Rightarrow> string result" where
  "stateMarshal print s = Inr (print (runStateJSON s))"

definition stateUnmarshal :: "(string \<Rightarrow> json result) \<Rightarrow> string \<Rightarrow> run_state result" where
  "stateUnmarshal parse = Unmarshal parse runStateField zeroRunState"

lemma state_readsBack: "jsonText print parse (runStateJSON s) \<Longrightarrow> readsBack (stateMarshal print) (stateUnmarshal parse) s"
  by (simp add: readsBack_def stateMarshal_def stateUnmarshal_def Unmarshal_text runState_decoded)

text \<open>
  C7. An approval survives the process: a run that paused with its state saved in DynamoDB is resumed, after any other
  operations on the store, by exactly the pending call, on the same conversation; before and after the pause together it asks
  the model at most as often as the steps allow, and afterwards it executes only tools that it was granted at its start and
  that need no approval.
\<close>

theorem approval_survives_restart:
  assumes "dynamo (st_client st) rows settled"
    and "h = NewHarness completer tools maxSteps (HarnessCheckpointer st (stateMarshal print) (stateUnmarshal parse))"
    and "Run h state gts model w = ((s', err, w'), evs)" and "rs_Status s' = ''awaiting_approval''"
    and "HarnessCheckpointer_Save st (stateMarshal print) (rs_RunID s') s' w1 = (None, w')" and "jsonText print parse (runStateJSON s')"
    and "(otherOp st (rs_RunID s'))\<^sup>*\<^sup>* w' w2"
    and "dd_GetItem (st_client st) tableCheckpoints [''runId'' \<mapsto> S (rs_RunID s')] True w2 = (Inr out, w3)"
    and "Resume h (rs_RunID s') True model w2 = ((r, err2, w4), evs2)"
  shows "\<exists>s1 evs3. evs2 = Executed (rs_PendingTool s') (rs_PendingInput s') # Saved s1 # evs3 \<and> sameRun s' s1 \<and>
    int (length (filter isCompleted (evs @ evs2))) \<le> max 0 (maxSteps - rs_Step state) \<and>
    (\<forall>n i. Executed n i \<in> set evs3 \<longrightarrow> n \<in> set gts \<and> (\<exists>t. hn_tools h n = Some t \<and> \<not> tl_RequiresApproval t))"
proof -
  let ?ck = "HarnessCheckpointer st (stateMarshal print) (stateUnmarshal parse)"
  have rb: "readsBack (stateMarshal print) (stateUnmarshal parse) s'" by (rule state_readsBack [OF assms(6)])
  have sv: "ck_Save ?ck (rs_RunID s') s' w1 = (None, w')" using assms(5) by (simp add: HarnessCheckpointer_def)
  have ld: "ck_Load ?ck (rs_RunID s') w2 = (Inr s', w3)"
    using harness_checkpoint_roundtrip [OF assms(1) _ sv assms(7,8)] rb by (auto simp: readsBack_def)
  have kept: "ddCheckpoints rows (stateUnmarshal parse) w2 (rs_RunID s') = ddCheckpoints rows (stateUnmarshal parse) w' (rs_RunID s')"
    using otherOps_keep [OF assms(1,7)] by (simp add: ddCheckpoints_def)
  show ?thesis
    using dynamo_store.intro [OF assms(1)]
    by (rule dynamo_store.paused_run_in_tables [OF _ assms(2,3,4) sv rb kept ld assms(9)])
qed

section \<open>A concrete pause\<close>

definition exPauseReply :: completion where
  "exPauseReply = \<lparr>cp_Text = [], cp_StopReason = ''tool_use'', cp_ToolName = ''deploy'', cp_ToolInput = ''{}'', cp_InputTokens = 0, cp_OutputTok = 0\<rparr>"

definition exPaused :: run_state where
  "exPaused = awaiting (stepped (exState\<lparr>rs_GrantedTools := [''deploy''], rs_Status := ''running''\<rparr>) exPauseReply) exPauseReply"

definition exDeploy :: "ex_db tool" where
  "exDeploy = \<lparr>tl_Name = ''deploy'', tl_Description = [], tl_InputSchema = [], tl_RequiresApproval = True, tl_Execute = (\<lambda>i w. (Inr ''ok'', w))\<rparr>"

text \<open>A printer and a parser that know this state's text.\<close>

definition exPrint :: "json \<Rightarrow> string" where "exPrint v = ''x''"

definition exParse :: "string \<Rightarrow> json result" where "exParse raw = Inr (runStateJSON exPaused)"

lemma ex_json: "jsonText exPrint exParse (runStateJSON exPaused)"
  by (simp add: jsonText_def exParse_def)

definition exDurable :: "ex_db harness" where
  "exDurable = NewHarness (\<lambda>req w. (Inr exPauseReply, w)) [exDeploy] 5 (HarnessCheckpointer ex_st (stateMarshal exPrint) (stateUnmarshal exParse))"

lemma exDurable_simps:
  "hn_completer exDurable req w = (Inr exPauseReply, w)" "hn_tools exDurable ''deploy'' = Some exDeploy" "hn_maxSteps exDurable = 5"
  by (simp_all add: exDurable_def NewHarness_def exDeploy_def)

lemma ex_paused_run:
  "Run exDurable exState [''deploy''] ''m'' w =
     ((exPaused, None, save exDurable exPaused w), [Completed (buildRequest exDurable (exState\<lparr>rs_GrantedTools := [''deploy''], rs_Status := ''running''\<rparr>) [''deploy''] ''m''), Saved exPaused])"
  by (simp add: Run_def runLoop.simps runPass_def exDurable_simps exPaused_def exState_def exPauseReply_def exDeploy_def Let_def)

lemma ex_paused_save: "HarnessCheckpointer_Save ex_st (stateMarshal exPrint) (rs_RunID exPaused) exPaused w = (None, save exDurable exPaused w)"
  by (simp add: save_def exDurable_def NewHarness_def HarnessCheckpointer_def HarnessCheckpointer_Save_def SaveCheckpoint_def ex_dd_def stateMarshal_def)

theorem approval_survives_restart_witness:
  "\<exists>s1 evs3. snd (Resume exDurable ''r'' True ''m'' (save exDurable exPaused ex_empty)) = Executed ''deploy'' ''{}'' # Saved s1 # evs3 \<and> sameRun exPaused s1"
proof -
  let ?w = "save exDurable exPaused ex_empty"
  have id: "rs_RunID exPaused = ''r''" "rs_PendingTool exPaused = ''deploy''" "rs_PendingInput exPaused = ''{}''" "rs_Status exPaused = ''awaiting_approval''"
    by (simp_all add: exPaused_def exState_def exPauseReply_def awaiting_def stepped_def)
  obtain r err2 w4 evs2 where res: "Resume exDurable (rs_RunID exPaused) True ''m'' ?w = ((r, err2, w4), evs2)" by (metis surj_pair)
  have get: "dd_GetItem (st_client ex_st) tableCheckpoints [''runId'' \<mapsto> S (rs_RunID exPaused)] True ?w = (Inr (ex_rows ?w tableCheckpoints [''runId'' \<mapsto> S (rs_RunID exPaused)]), ?w)"
    by simp
  from approval_survives_restart [OF ex_st_dynamo exDurable_def ex_paused_run id(4) ex_paused_save ex_json rtranclp.rtrancl_refl get res] res id
  show ?thesis by auto
qed

end
