(* ===== verification/FakeClock.thy ===== *)
theory FakeClock
  imports Prelude
begin

text \<open>
  \<^verbatim>\<open>internal/testutil/clock.go\<close>: the clock that tests inject into the services and advance by hand.  Channels are buffers of
  capacity one in an explicit store; a send to a full one blocks, with the clock's mutex held, and is \<^const>\<open>None\<close>.
\<close>

section \<open>Channels\<close>

type_synonym channels = "time list list"

definition makeChan :: "channels \<Rightarrow> nat \<times> channels" where
  "makeChan cs = (length cs, cs @ [[]])"

definition sendTo :: "nat \<Rightarrow> time \<Rightarrow> channels \<Rightarrow> channels option" where
  "sendTo c v cs = (if cs ! c = [] then Some (cs[c := [v]]) else None)"

text \<open>A receive that does not wait.\<close>

definition receive :: "nat \<Rightarrow> channels \<Rightarrow> (time \<times> channels) option" where
  "receive c cs = (case cs ! c of [] \<Rightarrow> None | v # vs \<Rightarrow> Some (v, cs[c := vs]))"

section \<open>The clock\<close>

record fake_timer =
  ft_at :: time
  ft_ch :: nat
  ft_fired :: bool

record fake_clock =
  fc_now :: time
  fc_timers :: "fake_timer list"

definition NewFakeClock :: "time \<Rightarrow> fake_clock" where
  "NewFakeClock start = \<lparr>fc_now = start, fc_timers = []\<rparr>"

definition Now :: "fake_clock \<Rightarrow> time" where
  "Now f = fc_now f"

definition After :: "duration \<Rightarrow> fake_clock \<times> channels \<Rightarrow> (nat \<times> fake_clock \<times> channels) option" where
  "After d s =
     (case s of (f, cs) \<Rightarrow>
      case makeChan cs of (ch, cs1) \<Rightarrow>
      let deadline = fc_now f + d in
      if \<not> fc_now f < deadline then map_option (\<lambda>cs2. (ch, f, cs2)) (sendTo ch (fc_now f) cs1)
      else Some (ch, f\<lparr>fc_timers := fc_timers f @ [\<lparr>ft_at = deadline, ft_ch = ch, ft_fired = False\<rparr>]\<rparr>, cs1))"

text \<open>\<^verbatim>\<open>Time.Sub\<close> saturates.\<close>

definition Sub :: "time \<Rightarrow> time \<Rightarrow> duration" where
  "Sub t u = max (- (2 ^ 63)) (min (2 ^ 63 - 1) (t - u))"

definition Since :: "time \<Rightarrow> fake_clock \<Rightarrow> duration" where
  "Since t f = Sub (Now f) t"

fun fireTimers :: "time \<Rightarrow> fake_timer list \<Rightarrow> channels \<Rightarrow> (fake_timer list \<times> channels) option" where
  "fireTimers now [] cs = Some ([], cs)"
| "fireTimers now (t # ts) cs =
     (if \<not> ft_fired t \<and> \<not> now < ft_at t then
        (case sendTo (ft_ch t) now cs of
           None \<Rightarrow> None
         | Some cs1 \<Rightarrow> map_option (\<lambda>(ts', cs2). (t\<lparr>ft_fired := True\<rparr> # ts', cs2)) (fireTimers now ts cs1))
      else map_option (\<lambda>(ts', cs2). (t # ts', cs2)) (fireTimers now ts cs))"

definition Advance :: "duration \<Rightarrow> fake_clock \<times> channels \<Rightarrow> (fake_clock \<times> channels) option" where
  "Advance d s =
     (case s of (f, cs) \<Rightarrow>
      map_option (\<lambda>(ts, cs'). (\<lparr>fc_now = fc_now f + d, fc_timers = ts\<rparr>, cs')) (fireTimers (fc_now f + d) (fc_timers f) cs))"

section \<open>The clock in use\<close>

datatype clock_event = CAfter duration nat | CAdvance duration | CReceive nat time

inductive clockStep :: "fake_clock \<times> channels \<Rightarrow> clock_event \<Rightarrow> fake_clock \<times> channels \<Rightarrow> bool" where
  "After d s = Some (ch, s') \<Longrightarrow> clockStep s (CAfter d ch) s'"
| "Advance d s = Some s' \<Longrightarrow> clockStep s (CAdvance d) s'"
| "receive ch cs = Some (v, cs') \<Longrightarrow> ch < length cs \<Longrightarrow> clockStep (f, cs) (CReceive ch v) (f, cs')"

inductive_simps clockStep_iff: "clockStep s (CAfter d ch) s'" "clockStep s (CAdvance d) s'" "clockStep s (CReceive ch v) s'"

definition clockInit :: "fake_clock \<times> channels \<Rightarrow> bool" where
  "clockInit s \<longleftrightarrow> (\<exists>start. s = (NewFakeClock start, []))"

text \<open>Every timer has a channel of its own; one that has not fired is due later and has an empty channel.\<close>

definition clockInv :: "fake_clock \<times> channels \<Rightarrow> bool" where
  "clockInv s \<longleftrightarrow>
     (case s of (f, cs) \<Rightarrow>
      distinct (map ft_ch (fc_timers f)) \<and>
      (\<forall>t \<in> set (fc_timers f). ft_ch t < length cs \<and> (\<not> ft_fired t \<longrightarrow> fc_now f < ft_at t \<and> cs ! ft_ch t = [])))"

abbreviation due :: "time \<Rightarrow> fake_timer \<Rightarrow> bool" where
  "due now t \<equiv> \<not> ft_fired t \<and> \<not> now < ft_at t"

definition fireDue :: "time \<Rightarrow> fake_timer \<Rightarrow> fake_timer" where
  "fireDue now t = (if due now t then t\<lparr>ft_fired := True\<rparr> else t)"

lemma fireDue_simps [simp]:
  "ft_ch (fireDue now t) = ft_ch t" "ft_at (fireDue now t) = ft_at t" "ft_fired (fireDue now t) \<longleftrightarrow> ft_fired t \<or> \<not> now < ft_at t"
  by (simp_all add: fireDue_def)

text \<open>The loop of \<^verbatim>\<open>Advance\<close> against what it means to do: mark the due timers and put the time into their channels.\<close>

lemma fireTimers_spec:
  assumes "distinct (map ft_ch ts)" and "\<forall>t \<in> set ts. ft_ch t < length cs \<and> (\<not> ft_fired t \<longrightarrow> cs ! ft_ch t = [])"
  shows "\<exists>cs'. fireTimers now ts cs = Some (map (fireDue now) ts, cs') \<and>
    length cs' = length cs \<and>
    (\<forall>c < length cs. cs' ! c = (if \<exists>t \<in> set ts. ft_ch t = c \<and> due now t then [now] else cs ! c))"
  using assms
proof (induction ts arbitrary: cs)
  case (Cons t ts)
  show ?case
  proof (cases "due now t")
    case True
    let ?cs = "cs[ft_ch t := [now]]"
    have own: "ft_ch t \<notin> ft_ch ` set ts" and c: "ft_ch t < length cs" using Cons.prems by auto
    have "\<forall>u \<in> set ts. ft_ch u < length ?cs \<and> (\<not> ft_fired u \<longrightarrow> ?cs ! ft_ch u = [])"
      using Cons.prems own by (metis (no_types) image_eqI length_list_update list.set_intros(2) nth_list_update_neq)
    with Cons.IH [of ?cs] Cons.prems(1) obtain cs' where
      cs': "fireTimers now ts ?cs = Some (map (fireDue now) ts, cs')" "length cs' = length cs"
      "\<forall>d < length cs. cs' ! d = (if \<exists>u \<in> set ts. ft_ch u = d \<and> due now u then [now] else ?cs ! d)"
      by auto
    have "sendTo (ft_ch t) now cs = Some ?cs" using Cons.prems(2) True by (simp add: sendTo_def)
    then show ?thesis using True cs' c by (intro exI [of _ cs']) (auto simp: nth_list_update fireDue_def)
  next
    case False
    with Cons.IH [of cs] Cons.prems show ?thesis by (fastforce simp: fireDue_def)
  qed
qed simp

text \<open>Advancing is total on the states that occur, and its effect.\<close>

lemma Advance_total:
  assumes "clockInv (f, cs)"
  shows "\<exists>cs'. Advance d (f, cs) =
      Some (\<lparr>fc_now = fc_now f + d, fc_timers = map (fireDue (fc_now f + d)) (fc_timers f)\<rparr>, cs') \<and>
    length cs' = length cs \<and>
    (\<forall>c < length cs. cs' ! c = (if \<exists>t \<in> set (fc_timers f). ft_ch t = c \<and> due (fc_now f + d) t then [fc_now f + d] else cs ! c))"
  using fireTimers_spec [of "fc_timers f" cs "fc_now f + d"] assms by (auto simp: clockInv_def Advance_def)

lemma After_total:
  "After d (f, cs) =
     Some (length cs,
       if d \<le> 0 then (f, cs @ [[fc_now f]])
       else (f\<lparr>fc_timers := fc_timers f @ [\<lparr>ft_at = fc_now f + d, ft_ch = length cs, ft_fired = False\<rparr>]\<rparr>, cs @ [[]]))"
  by (simp add: After_def makeChan_def sendTo_def Let_def)

lemma clockInv_After: "clockInv (f, cs) \<Longrightarrow> After d (f, cs) = Some (ch, s') \<Longrightarrow> clockInv s'"
  by (fastforce simp: After_total clockInv_def nth_append split: if_splits)

lemma clockInv_Advance:
  assumes "clockInv (f, cs)" "Advance d (f, cs) = Some s'"
  shows "clockInv s'"
proof -
  obtain cs' where s': "s' = (\<lparr>fc_now = fc_now f + d, fc_timers = map (fireDue (fc_now f + d)) (fc_timers f)\<rparr>, cs')" and len: "length cs' = length cs" and
    nth: "\<And>c. c < length cs \<Longrightarrow> cs' ! c = (if \<exists>t \<in> set (fc_timers f). ft_ch t = c \<and> due (fc_now f + d) t then [fc_now f + d] else cs ! c)"
    using Advance_total [OF assms(1), of d] assms(2) by auto
  have dist: "distinct (map ft_ch (fc_timers f))"
    and old: "\<And>t. t \<in> set (fc_timers f) \<Longrightarrow> ft_ch t < length cs \<and> (\<not> ft_fired t \<longrightarrow> fc_now f < ft_at t \<and> cs ! ft_ch t = [])"
    using assms(1) by (simp_all add: clockInv_def)
  have same: "u = t" if "t \<in> set (fc_timers f)" "u \<in> set (fc_timers f)" "ft_ch u = ft_ch t" for t u
    using dist that by (auto simp: distinct_map inj_on_def)
  have "cs' ! ft_ch t = []" if "t \<in> set (fc_timers f)" "\<not> ft_fired t" "fc_now f + d < ft_at t" for t
    using old [OF that(1)] nth [of "ft_ch t"] same [OF that(1)] that by auto
  with old dist len show ?thesis by (auto simp: s' clockInv_def comp_def)
qed

lemma clockInv_receive:
  assumes "clockInv (f, cs)" "receive ch cs = Some (v, cs')" "ch < length cs"
  shows "clockInv (f, cs')"
  using assms by (fastforce simp: clockInv_def receive_def nth_list_update split: list.splits)

interpretation ck: transition_system clockInit clockStep clockInv
proof (unfold_locales, goal_cases)
  case (1 s)
  then show ?case by (auto simp: clockInit_def clockInv_def NewFakeClock_def)
next
  case (2 s e t)
  obtain f cs where s: "s = (f, cs)" by (rule prod.exhaust)
  from 2(2,1) show ?case
    unfolding s by cases (auto intro: clockInv_After clockInv_Advance clockInv_receive)
qed

section \<open>Timers\<close>

text \<open>What was received from a channel, and the first time at which an advance reaches a deadline.\<close>

fun received :: "nat \<Rightarrow> clock_event list \<Rightarrow> time list" where
  "received c [] = []"
| "received c (CReceive ch v # es) = (if ch = c then v # received c es else received c es)"
| "received c (e # es) = received c es"

fun firstDue :: "time \<Rightarrow> time \<Rightarrow> clock_event list \<Rightarrow> time list" where
  "firstDue deadline now [] = []"
| "firstDue deadline now (CAdvance d # es) = (if deadline \<le> now + d then [now + d] else firstDue deadline (now + d) es)"
| "firstDue deadline now (e # es) = firstDue deadline now es"

text \<open>A channel whose timer has fired, or that never had one, gets nothing more.\<close>

definition spent :: "nat \<Rightarrow> fake_clock \<times> channels \<Rightarrow> bool" where
  "spent c s \<longleftrightarrow> c < length (snd s) \<and> (\<forall>t \<in> set (fc_timers (fst s)). ft_ch t = c \<longrightarrow> ft_fired t)"

definition armed :: "nat \<Rightarrow> time \<Rightarrow> fake_clock \<times> channels \<Rightarrow> bool" where
  "armed c deadline s \<longleftrightarrow> (\<exists>t \<in> set (fc_timers (fst s)). ft_ch t = c \<and> \<not> ft_fired t \<and> ft_at t = deadline)"

lemma spent_step:
  assumes "clockStep s e t" "clockInv s" "spent c s"
  shows "spent c t" "received c [e] @ snd t ! c = snd s ! c"
proof -
  obtain f cs where s: "s = (f, cs)" by (rule prod.exhaust)
  from assms(1) have "spent c t \<and> received c [e] @ snd t ! c = snd s ! c"
  proof cases
    case (1 d ch)
    then show ?thesis using assms(3) by (auto simp: s After_total spent_def nth_append split: if_splits)
  next
    case (2 d)
    then show ?thesis using Advance_total [OF assms(2) [unfolded s], of d] assms(3) by (auto simp: s spent_def)
  next
    case (3 ch cs0 v cs' f0)
    then show ?thesis using assms(3) by (auto simp: spent_def receive_def nth_list_update split: list.splits)
  qed
  then show "spent c t" "received c [e] @ snd t ! c = snd s ! c" by simp_all
qed

lemma received_Cons: "received c (e # es) = received c [e] @ received c es"
  by (cases e) simp_all

lemma spent_path: "stepPath clockStep s es t \<Longrightarrow> clockInv s \<Longrightarrow> spent c s \<Longrightarrow> received c es @ snd t ! c = snd s ! c"
proof (induction rule: stepPath.induct)
  case (path_Cons s e t es u)
  have "received c es @ snd u ! c = snd t ! c"
    by (rule path_Cons.IH [OF ck.inv_step [OF path_Cons.prems(1) path_Cons.hyps(1)] spent_step(1) [OF path_Cons.hyps(1) path_Cons.prems]])
  with spent_step(2) [OF path_Cons.hyps(1) path_Cons.prems] show ?case by (subst received_Cons) (simp del: received.simps)
qed simp

lemma armed_step:
  assumes "clockStep s e t" "clockInv s" "armed c deadline s"
  shows "(\<exists>d. e = CAdvance d \<and> deadline \<le> fc_now (fst s) + d \<and> spent c t \<and> snd t ! c = [fc_now (fst s) + d]) \<or>
    armed c deadline t \<and> received c [e] = [] \<and> firstDue deadline (fc_now (fst s)) (e # es) = firstDue deadline (fc_now (fst t)) es"
proof -
  obtain f cs where s: "s = (f, cs)" by (rule prod.exhaust)
  obtain tm where tm: "tm \<in> set (fc_timers f)" "ft_ch tm = c" "\<not> ft_fired tm" "ft_at tm = deadline" using assms(3) by (auto simp: armed_def s)
  have inv: "c < length cs" "cs ! c = []" "distinct (map ft_ch (fc_timers f))" using assms(2) tm by (auto simp: s clockInv_def)
  from assms(1) show ?thesis
  proof cases
    case (1 d ch)
    then show ?thesis using tm by (auto simp: s After_total armed_def split: if_splits)
  next
    case (2 d)
    obtain cs' where t: "t = (\<lparr>fc_now = fc_now f + d, fc_timers = map (fireDue (fc_now f + d)) (fc_timers f)\<rparr>, cs')" and len: "length cs' = length cs" and
      nth: "\<And>c. c < length cs \<Longrightarrow> cs' ! c = (if \<exists>t \<in> set (fc_timers f). ft_ch t = c \<and> due (fc_now f + d) t then [fc_now f + d] else cs ! c)"
      using Advance_total [OF assms(2) [unfolded s], of d] 2(2) s by auto
    show ?thesis
    proof (cases "deadline \<le> fc_now f + d")
      case True
      have "ft_at u = deadline" if "u \<in> set (fc_timers f)" "ft_ch u = c" for u
        using inv(3) tm(1,2,4) that by (auto simp: distinct_map inj_on_def)
      then have "ft_fired (fireDue (fc_now f + d) u)" if "u \<in> set (fc_timers f)" "ft_ch u = c" for u
        using True that by (simp add: not_less)
      then have "spent c t" using inv(1) by (simp add: spent_def t len)
      moreover have "snd t ! c = [fc_now f + d]" using True nth [OF inv(1)] tm by (auto simp: t)
      ultimately show ?thesis using True 2(1) by (simp add: s)
    next
      case False
      have "armed c deadline t" unfolding armed_def t using tm False by (auto simp: not_le)
      with False 2(1) show ?thesis by (simp add: s t)
    qed
  next
    case (3 ch cs0 v cs' f0)
    then show ?thesis using assms(3) inv s by (auto simp: armed_def receive_def split: list.splits)
  qed
qed

lemma armed_path:
  "stepPath clockStep s es t \<Longrightarrow> clockInv s \<Longrightarrow> armed c deadline s \<Longrightarrow> received c es @ snd t ! c = firstDue deadline (fc_now (fst s)) es"
proof (induction rule: stepPath.induct)
  case (path_Nil s)
  then show ?case by (auto simp: armed_def clockInv_def split: prod.splits)
next
  case (path_Cons s e t es u)
  have inv: "clockInv t" by (rule ck.inv_step [OF path_Cons.prems(1) path_Cons.hyps(1)])
  from armed_step [OF path_Cons.hyps(1) path_Cons.prems, of es] show ?case
  proof (elim disjE exE conjE)
    fix d assume "e = CAdvance d" "deadline \<le> fc_now (fst s) + d" "spent c t" "snd t ! c = [fc_now (fst s) + d]"
    with spent_path [OF path_Cons.hyps(2) inv, of c] show ?thesis by simp
  next
    assume "armed c deadline t" "received c [e] = []" "firstDue deadline (fc_now (fst s)) (e # es) = firstDue deadline (fc_now (fst t)) es"
    with path_Cons.IH [OF inv] show ?thesis by (subst received_Cons) simp
  qed
qed

text \<open>
  A channel of the fake clock delivers exactly once: at once if the duration is not positive, and otherwise the time of the
  first advance that reaches the deadline.  This holds whatever else is scheduled, advanced and received in between, and no
  advance blocks.
\<close>

theorem timer_delivers_once_when_due:
  assumes "reach clockInit clockStep (f, cs)" and "After d (f, cs) = Some (c, s)" and "stepPath clockStep s es t"
  shows "received c es @ snd t ! c = (if d \<le> 0 then [fc_now f] else firstDue (fc_now f + d) (fc_now f) es) \<and>
    (\<exists>t'. Advance d' t = Some t')"
proof -
  have inv: "clockInv (f, cs)" by (rule ck.reach_inv [OF assms(1)])
  have inv': "clockInv s" by (rule clockInv_After [OF inv assms(2)])
  have c: "c = length cs" using assms(2) by (simp add: After_total)
  have old: "ft_ch u < length cs" if "u \<in> set (fc_timers f)" for u using inv that by (simp add: clockInv_def)
  have "received c es @ snd t ! c = (if d \<le> 0 then [fc_now f] else firstDue (fc_now f + d) (fc_now f) es)"
  proof (cases "d \<le> 0")
    case True
    then have s: "s = (f, cs @ [[fc_now f]])" using assms(2) by (simp add: After_total)
    have "spent c s" using old by (force simp: spent_def s c)
    from spent_path [OF assms(3) inv' this] True show ?thesis by (simp add: s c)
  next
    case False
    then have s: "s = (f\<lparr>fc_timers := fc_timers f @ [\<lparr>ft_at = fc_now f + d, ft_ch = length cs, ft_fired = False\<rparr>]\<rparr>, cs @ [[]])"
      using assms(2) by (auto simp: After_total)
    have "armed c (fc_now f + d) s" by (simp add: armed_def s c)
    from armed_path [OF assms(3) inv' this] False show ?thesis by (simp add: s)
  qed
  moreover obtain f' cs' where t: "t = (f', cs')" by (rule prod.exhaust)
  have "reach clockInit clockStep s" by (rule reach_step [OF assms(1)]) (rule clockStep.intros(1) [OF assms(2)])
  from ck.reach_inv [OF reach_path [OF assms(3) this]] have "\<exists>t'. Advance d' t = Some t'"
    unfolding t using Advance_total by blast
  ultimately show ?thesis ..
qed

theorem timer_delivers_once_when_due_witness:
  "\<exists>s t. After 5 (NewFakeClock 0, []) = Some (0, s) \<and> stepPath clockStep s [CAdvance 3, CAdvance 4, CReceive 0 7] t \<and>
    received 0 [CAdvance 3, CAdvance 4, CReceive 0 7] @ snd t ! 0 = [7]"
proof -
  have "reach clockInit clockStep (NewFakeClock 0, [])" by (rule reach_init) (auto simp: clockInit_def)
  moreover have "After 5 (NewFakeClock 0, []) = Some (0, \<lparr>fc_now = 0, fc_timers = [\<lparr>ft_at = 5, ft_ch = 0, ft_fired = False\<rparr>]\<rparr>, [[]])" (is "_ = Some (0, ?s)")
    by (simp add: After_total NewFakeClock_def)
  moreover have "stepPath clockStep ?s [CAdvance 3, CAdvance 4, CReceive 0 7] (\<lparr>fc_now = 7, fc_timers = [\<lparr>ft_at = 5, ft_ch = 0, ft_fired = True\<rparr>]\<rparr>, [[]])"
    by (simp add: path_Cons_iff clockStep_iff Advance_def sendTo_def receive_def)
  ultimately show ?thesis
    using timer_delivers_once_when_due [of "NewFakeClock 0" "[]" 5 0 ?s "[CAdvance 3, CAdvance 4, CReceive 0 7]"]
    by (intro exI [of _ ?s] exI [of _ "(\<lparr>fc_now = 7, fc_timers = [\<lparr>ft_at = 5, ft_ch = 0, ft_fired = True\<rparr>]\<rparr>, [[]])"]) (simp add: NewFakeClock_def)
qed

end
