(* ===== verification/GitFacade.thy ===== *)
theory GitFacade
  imports Base64 Egress AuditLog
begin

text \<open>
  \<^verbatim>\<open>internal/gitfacade\<close>: the remote URLs that sandboxes see, signed per run, the push policy on protected
  branches, and the handler that proxies git requests upstream with the user's credentials.  HMAC-SHA256,
  \<^verbatim>\<open>url.Parse\<close>, the credential source, the upstream client and the pull-request provider are parameters; the
  latter three act on a world \<open>'w\<close>.
\<close>

section \<open>Facade URLs\<close>

definition ErrBadFacadeURL :: goerr where "ErrBadFacadeURL = ErrNew ''malformed facade URL''"

record url_codec =
  uc_facadeBase :: string
  uc_signingKey :: string
  uc_mac :: "string \<Rightarrow> string \<Rightarrow> string"
  uc_parse :: "string \<Rightarrow> (string \<times> string) option"

definition NewURLCodec ::
  "(string \<Rightarrow> string \<Rightarrow> string) \<Rightarrow> (string \<Rightarrow> (string \<times> string) option) \<Rightarrow> string \<Rightarrow> string \<Rightarrow> url_codec" where
  "NewURLCodec mac parse facadeBase signingKey =
     \<lparr>uc_facadeBase = TrimSuffix facadeBase ''/'', uc_signingKey = signingKey, uc_mac = mac, uc_parse = parse\<rparr>"

definition sign :: "url_codec \<Rightarrow> string \<Rightarrow> string \<Rightarrow> string" where
  "sign c runID origin = hexEncode (take 8 (uc_mac c (uc_signingKey c) (runID @ [CHR 0x00] @ origin)))"

text \<open>\<open>uc_parse\<close> gives the scheme and the host of a URL that parses.\<close>

definition Rewrite :: "url_codec \<Rightarrow> string \<Rightarrow> string \<Rightarrow> string result" where
  "Rewrite c runID origin =
     (case uc_parse c origin of
        None \<Rightarrow> Inl (wrapQ ErrBadFacadeURL origin)
      | Some (scheme, host) \<Rightarrow>
          if scheme = [] \<or> host = [] then Inl (wrapQ ErrBadFacadeURL origin)
          else Inr (uc_facadeBase c @ ''/'' @ sign c runID origin @ ''/'' @ EncodeToString origin))"

definition decodeB64 :: "string \<Rightarrow> string" where
  "decodeB64 s = (case DecodeString s of None \<Rightarrow> s | Some raw \<Rightarrow> raw)"

text \<open>The text of a base64 error is left abstract: the error is the sentinel, wrapped.\<close>

definition Origin :: "url_codec \<Rightarrow> string \<Rightarrow> string \<Rightarrow> string \<Rightarrow> string result" where
  "Origin c runID token encoded =
     (if token \<noteq> sign c runID (decodeB64 encoded) then Inl (wrapV ErrBadFacadeURL ''bad token'')
      else case DecodeString encoded of
        None \<Rightarrow> Inl (wrapV ErrBadFacadeURL ''illegal base64 data'')
      | Some raw \<Rightarrow> Inr raw)"

section \<open>Push policy\<close>

definition ProtectedBranches :: "string \<Rightarrow> bool" where
  "ProtectedBranches b \<longleftrightarrow> b \<in> {''main'', ''master'', ''release''}"

definition refsHeads :: string where "refsHeads = ''refs/heads/''"

definition branchOf :: "string \<Rightarrow> string option" where
  "branchOf part =
     (case Index part refsHeads of
        None \<Rightarrow> None
      | Some idx \<Rightarrow> Some (takeWhile (\<lambda>c. c \<noteq> CHR '' '' \<and> c \<noteq> CHR 0x0A) (drop (idx + length refsHeads) part)))"

definition BranchesFromPayload :: "string \<Rightarrow> string list" where
  "BranchesFromPayload body = List.map_filter branchOf (Split (CHR 0x00) body)"

record push_decision =
  pd_Allowed :: bool
  pd_Reason :: string

definition bypassScope :: string where "bypassScope = ''git:push:protected''"

fun CheckPush :: "string list \<Rightarrow> string list \<Rightarrow> push_decision" where
  "CheckPush grants [] = \<lparr>pd_Allowed = True, pd_Reason = []\<rparr>"
| "CheckPush grants (b # bs) =
     (if ProtectedBranches b \<and> \<not> List.member grants bypassScope
      then \<lparr>pd_Allowed = False, pd_Reason = ''branch '' @ goQuote b @ '' is protected''\<rparr>
      else CheckPush grants bs)"

section \<open>The handler\<close>

record git_request =
  gr_Method :: string
  gr_Path :: string
  gr_RawQuery :: string
  gr_Header :: "string \<Rightarrow> string"
  gr_Body :: string

record upstream_request =
  up_Method :: string
  up_URL :: string
  up_Body :: string
  up_Username :: string
  up_Secret :: string
  up_Headers :: "(string \<times> string) list"

record http_response =
  hr_Status :: int
  hr_Header :: "(string \<times> string) list"
  hr_Body :: string

text \<open>
  \<open>hd_newRequest\<close> is whether the request cannot be built from a method and a URL.  An upstream response
  has its headers in the order the handler ranges over them, and the body as far as it can be read.
\<close>

record ('w, 'r) handler_git =
  hd_codec :: url_codec
  hd_tokens :: "'r service"
  hd_creds :: "string \<Rightarrow> string \<Rightarrow> string \<Rightarrow> 'w \<Rightarrow> (string \<times> string) result \<times> 'w"
  hd_prs :: "(string \<Rightarrow> string \<Rightarrow> string \<Rightarrow> string \<Rightarrow> string \<Rightarrow> string \<Rightarrow> string \<Rightarrow> 'w \<Rightarrow> string result \<times> 'w) option"
  hd_newRequest :: "string \<Rightarrow> string \<Rightarrow> bool"
  hd_upstream :: "upstream_request \<Rightarrow> 'w \<Rightarrow> http_response result \<times> 'w"
  hd_credRefFor :: "string \<Rightarrow> string"
  hd_auditDB :: bool

definition NewGitHandler ::
  "url_codec \<Rightarrow> 'r service \<Rightarrow> (string \<Rightarrow> string \<Rightarrow> string \<Rightarrow> 'w \<Rightarrow> (string \<times> string) result \<times> 'w)
   \<Rightarrow> (string \<Rightarrow> string \<Rightarrow> string \<Rightarrow> string \<Rightarrow> string \<Rightarrow> string \<Rightarrow> string \<Rightarrow> 'w \<Rightarrow> string result \<times> 'w) option \<Rightarrow> (string \<Rightarrow> string)
   \<Rightarrow> (string \<Rightarrow> string \<Rightarrow> bool) \<Rightarrow> (upstream_request \<Rightarrow> 'w \<Rightarrow> http_response result \<times> 'w) \<Rightarrow> ('w, 'r) handler_git" where
  "NewGitHandler codec tokens creds prs credRefFor newRequest httpClient =
     \<lparr>hd_codec = codec, hd_tokens = tokens, hd_creds = creds, hd_prs = prs, hd_newRequest = newRequest, hd_upstream = httpClient,
      hd_credRefFor = credRefFor, hd_auditDB = False\<rparr>"

definition WithAuditDB :: "('w, 'r) handler_git \<Rightarrow> ('w, 'r) handler_git" where
  "WithAuditDB h = h\<lparr>hd_auditDB := True\<rparr>"

text \<open>The audit log, the rest of the world, and what left the facade: credential look-ups and proxied requests.\<close>

datatype sent = FetchedCredential string string string | SentUpstream upstream_request

record 'w facade_state =
  fs_audit :: audit_log
  fs_world :: 'w
  fs_sent :: "sent list"

definition httpError :: "string \<Rightarrow> int \<Rightarrow> http_response" where
  "httpError msg code =
     \<lparr>hr_Status = code, hr_Header = [(''Content-Type'', ''text/plain; charset=utf-8''), (''X-Content-Type-Options'', ''nosniff'')],
      hr_Body = msg @ [CHR 0x0A]\<rparr>"

definition unauthorized :: http_response where
  "unauthorized = (httpError ''unauthorized'' 401)
     \<lparr>hr_Header := (''WWW-Authenticate'', ''Basic realm='' @ [CHR 0x22] @ ''dark-factory-git'' @ [CHR 0x22]) #
        hr_Header (httpError ''unauthorized'' 401)\<rparr>"

definition bearer :: "git_request \<Rightarrow> string" where
  "bearer rq =
     (let h = gr_Header rq ''Authorization'' in
      if 7 < length h \<and> map lowerByte (take 7 h) = ''bearer '' then TrimSpace (drop 7 h) else [])"

text \<open>The time and the outcome of the audit statement are arguments; its error is dropped.\<close>

definition writeAudit ::
  "(string \<Rightarrow> string) \<Rightarrow> time \<Rightarrow> goerr option \<Rightarrow> ('w, 'r) handler_git \<Rightarrow> string \<Rightarrow> string \<Rightarrow> string \<Rightarrow> string \<Rightarrow> string
   \<Rightarrow> audit_log \<Rightarrow> audit_log" where
  "writeAudit H now fault h actor action resource dec reason al =
     (if hd_auditDB h then snd (auditWrite H now fault actor action resource dec reason al) else al)"

definition maxBody :: nat where "maxBody = 64 * 2 ^ 20"

definition upstreamURL :: "string \<Rightarrow> string \<Rightarrow> string \<Rightarrow> string" where
  "upstreamURL origin remainder rawQuery =
     (let u = (if \<not> HasPrefix origin ''http'' then ''https://'' @ origin else origin);
          u = (if remainder \<noteq> [] then TrimSuffix u ''/'' @ ''/'' @ remainder else u)
      in if rawQuery \<noteq> [] then u @ ''?'' @ rawQuery else u)"

definition proxiedRequest :: "git_request \<Rightarrow> string \<Rightarrow> string \<Rightarrow> string \<Rightarrow> string \<Rightarrow> upstream_request" where
  "proxiedRequest rq upURL body username secret =
     \<lparr>up_Method = gr_Method rq, up_URL = upURL, up_Body = body, up_Username = username, up_Secret = secret,
      up_Headers = filter (\<lambda>(k, v). v \<noteq> []) (map (\<lambda>k. (k, gr_Header rq k)) [''Content-Type'', ''Accept'', ''User-Agent''])\<rparr>"

text \<open>The second half of the handler: from the credential on.\<close>

definition proxyGit ::
  "(string \<Rightarrow> string) \<Rightarrow> time \<Rightarrow> goerr option \<Rightarrow> ('w, 'r) handler_git \<Rightarrow> claims \<Rightarrow> string \<Rightarrow> string \<Rightarrow> bool \<Rightarrow> string
   \<Rightarrow> git_request \<Rightarrow> 'w facade_state \<Rightarrow> http_response \<times> 'w facade_state" where
  "proxyGit H now fault h c origin remainder isPush body rq s =
     (case hd_creds h (cl_OrgID c) (cl_UserID c) (hd_credRefFor h origin) (fs_world s) of
        (cred, w1) \<Rightarrow>
          let s = s\<lparr>fs_world := w1, fs_sent := fs_sent s @ [FetchedCredential (cl_OrgID c) (cl_UserID c) (hd_credRefFor h origin)]\<rparr> in
          case cred of
            Inl err \<Rightarrow> (httpError ''credential unavailable'' 403, s)
          | Inr (username, secret) \<Rightarrow>
              let upURL = upstreamURL origin remainder (gr_RawQuery rq) in
              if hd_newRequest h (gr_Method rq) upURL then (httpError ''proxy error'' 500, s)
              else
                (case hd_upstream h (proxiedRequest rq upURL body username secret) (fs_world s) of
                   (res, w2) \<Rightarrow>
                     let s = s\<lparr>fs_world := w2, fs_sent := fs_sent s @ [SentUpstream (proxiedRequest rq upURL body username secret)]\<rparr> in
                     case res of
                       Inl err \<Rightarrow> (httpError ''upstream unreachable'' 502, s)
                     | Inr resp \<Rightarrow>
                         (resp,
                          if isPush \<and> 200 \<le> hr_Status resp \<and> hr_Status resp < 300
                          then s\<lparr>fs_audit := writeAudit H now fault h (cl_UserID c) ''git.push'' origin ''allow''
                                   (''branches='' @ showStrings (BranchesFromPayload body)) (fs_audit s)\<rparr>
                          else s)))"

definition ServeHTTP ::
  "(string \<Rightarrow> string) \<Rightarrow> time \<Rightarrow> time \<Rightarrow> goerr option \<Rightarrow> 'r \<Rightarrow> ('w, 'r) handler_git \<Rightarrow> git_request \<Rightarrow> 'w facade_state
   \<Rightarrow> http_response \<times> 'w facade_state" where
  "ServeHTTP H t now fault r h rq s =
     (case Validate (hd_tokens h) t r (bearer rq) of
        Inl err \<Rightarrow> (unauthorized, s)
      | Inr c \<Rightarrow>
     (case SplitN (CHR ''/'') 3 (TrimPrefix (gr_Path rq) ''/'') of
        token # encoded # rest \<Rightarrow>
          (case Origin (hd_codec h) (cl_RunID c) token encoded of
             Inl err \<Rightarrow> (unauthorized, s)
           | Inr origin \<Rightarrow>
               let remainder = (case rest of [x] \<Rightarrow> x | _ \<Rightarrow> []);
                   isPush = Contains remainder ''git-receive-pack'';
                   body = take maxBody (gr_Body rq);
                   d = CheckPush (cl_Grants c) (BranchesFromPayload body)
               in if isPush \<and> \<not> pd_Allowed d
                  then (httpError (pd_Reason d) 403,
                        s\<lparr>fs_audit := writeAudit H now fault h (cl_UserID c) ''git.push'' origin ''deny'' (pd_Reason d) (fs_audit s)\<rparr>)
                  else proxyGit H now fault h c origin remainder isPush body rq s)
      | _ \<Rightarrow> (httpError ''bad path'' 400, s)))"

definition CreatePR ::
  "(string \<Rightarrow> string) \<Rightarrow> time \<Rightarrow> time \<Rightarrow> goerr option \<Rightarrow> 'r \<Rightarrow> ('w, 'r) handler_git \<Rightarrow> string \<Rightarrow> string \<Rightarrow> string \<Rightarrow> string
   \<Rightarrow> string \<Rightarrow> string \<Rightarrow> 'w facade_state \<Rightarrow> string result \<times> 'w facade_state" where
  "CreatePR H t now fault r h origin head base title body runToken s =
     (case Validate (hd_tokens h) t r runToken of
        Inl err \<Rightarrow> (Inl (ErrWrap (''unauthorized: '' @ errText err) err), s)
      | Inr c \<Rightarrow>
     (case hd_prs h of
        None \<Rightarrow> (Inl (ErrNew ''no provider configured''), s)
      | Some create \<Rightarrow>
     (case create (cl_OrgID c) (cl_UserID c) origin head base title body (fs_world s) of
        (Inl err, w1) \<Rightarrow> (Inl err, s\<lparr>fs_world := w1\<rparr>)
      | (Inr url, w1) \<Rightarrow>
          (Inr url, s\<lparr>fs_world := w1, fs_audit := writeAudit H now fault h (cl_UserID c) ''git.pr.create'' (origin @ '':'' @ head) ''allow''
             (''url='' @ url) (fs_audit s)\<rparr>))))"

section \<open>Facts\<close>

text \<open>
  A handler as it is made, without \<^verbatim>\<open>WithAuditDB\<close>, writes nothing to the audit log: neither pushes, allowed or denied, nor pull requests.
\<close>

theorem facade_unaudited_by_default:
  assumes "h = NewGitHandler codec tokens creds prs credRefFor newRequest httpClient"
  shows "fs_audit (snd (ServeHTTP H t now fault r h rq s)) = fs_audit s"
    and "fs_audit (snd (CreatePR H t now fault r h origin head base title body runToken s)) = fs_audit s"
proof -
  have w: "writeAudit H now fault h actor action resource dec reason al = al" for actor action resource dec reason al
    by (simp add: writeAudit_def assms NewGitHandler_def)
  have "fs_audit (snd (proxyGit H now fault h c origin' remainder isPush payload rq s)) = fs_audit s" for c origin' remainder isPush payload
    by (simp add: proxyGit_def w Let_def split: prod.split sum.split)
  then show "fs_audit (snd (ServeHTTP H t now fault r h rq s)) = fs_audit s"
    by (simp add: ServeHTTP_def w Let_def split: sum.split list.split)
  show "fs_audit (snd (CreatePR H t now fault r h origin head base title body runToken s)) = fs_audit s"
    by (simp add: CreatePR_def w split: sum.split option.split prod.split)
qed

lemma SplitN_sep: "sep \<notin> set a \<Longrightarrow> 1 < n \<Longrightarrow> SplitN sep n (a @ sep # s) = a # SplitN sep (n - 1) s"
  by (induction a) auto

lemma SplitN_one: "SplitN sep 1 s = [s]"
  by (cases s) simp_all

lemma SplitN_path:
  assumes "sep \<notin> set a" and "sep \<notin> set b"
  shows "SplitN sep 3 (a @ sep # b @ sep # rest) = [a, b, rest]"
  using SplitN_sep [OF assms(1), of 3 "b @ sep # rest"] SplitN_sep [OF assms(2), of 2 rest] SplitN_one [of sep rest] by simp

lemma hexDigit_not_slash: "n < 16 \<Longrightarrow> hexDigit n \<noteq> CHR ''/''"
proof
  assume n: "n < 16" and "hexDigit n = CHR ''/''"
  then have "of_char (hexDigit n) = (47 :: nat)" by simp
  with n show False by (simp add: hexDigit_def split: if_splits)
qed

lemma of_char_less: "(of_char c :: nat) < 256"
  by (cases c) (simp add: of_char_def)

lemma sign_no_slash: "CHR ''/'' \<notin> set (sign c runID origin)"
proof -
  have "(of_char x :: nat) div 16 < 16" and "(of_char x :: nat) mod 16 < 16" for x
    using of_char_less [of x] by (simp_all add: less_mult_imp_div_less)
  then have "CHR ''/'' \<noteq> hexDigit (of_char x div 16)" and "CHR ''/'' \<noteq> hexDigit (of_char x mod 16)" for x
    using hexDigit_not_slash by metis+
  then show ?thesis by (simp add: sign_def hexEncode_def)
qed

lemma Origin_Inr: "Origin c runID token encoded = Inr origin \<longleftrightarrow> DecodeString encoded = Some origin \<and> token = sign c runID origin"
  by (auto simp: Origin_def decodeB64_def split: option.splits if_splits)

lemma CheckPush_allowed:
  "pd_Allowed (CheckPush grants bs) \<longleftrightarrow> (\<forall>b \<in> set bs. ProtectedBranches b \<longrightarrow> bypassScope \<in> set grants)"
  by (induction bs) (auto simp: List.member_iff)

text \<open>What the proxying half sends.\<close>

lemma proxyGit_sent:
  assumes "proxyGit H now fault h c origin remainder isPush body rq s = (resp, s')"
  shows "\<exists>evs. fs_sent s' = fs_sent s @ FetchedCredential (cl_OrgID c) (cl_UserID c) (hd_credRefFor h origin) # evs \<and>
    (evs = [] \<or> (\<exists>username secret w1. hd_creds h (cl_OrgID c) (cl_UserID c) (hd_credRefFor h origin) (fs_world s) = (Inr (username, secret), w1) \<and>
       evs = [SentUpstream (proxiedRequest rq (upstreamURL origin remainder (gr_RawQuery rq)) body username secret)]))"
proof -
  obtain cred w1 where cr: "hd_creds h (cl_OrgID c) (cl_UserID c) (hd_credRefFor h origin) (fs_world s) = (cred, w1)" by (rule prod.exhaust)
  show ?thesis
  proof (cases cred)
    case (Inl err)
    with assms cr show ?thesis by (auto simp: proxyGit_def)
  next
    case (Inr up)
    obtain username secret where up: "up = (username, secret)" by (rule prod.exhaust)
    let ?u = "upstreamURL origin remainder (gr_RawQuery rq)"
    obtain res w2 where rs: "hd_upstream h (proxiedRequest rq ?u body username secret) w1 = (res, w2)" by (rule prod.exhaust)
    show ?thesis
    proof (cases "hd_newRequest h (gr_Method rq) ?u")
      case True
      with assms cr Inr up show ?thesis by (auto simp: proxyGit_def)
    next
      case False
      with assms cr Inr up rs have "fs_sent s' = fs_sent s @ [FetchedCredential (cl_OrgID c) (cl_UserID c) (hd_credRefFor h origin),
          SentUpstream (proxiedRequest rq ?u body username secret)]"
        by (cases res) (auto simp: proxyGit_def Let_def)
      with cr Inr up show ?thesis by simp
    qed
  qed
qed

interpretation gf: run_token_gate "\<lambda>s. hd_tokens h" t r "CreatePR H t now fault r h origin head base title body"
  for t r h H now fault origin head base title body
  by unfold_locales (auto simp: CreatePR_def)

section \<open>Properties\<close>

text \<open>
  A rewritten remote leads back to its origin: the handler's path split gives the signature and the encoded
  origin whatever follows them, and the signature verifies for the run it was made for.  Another run can
  use the URL only if its own signature of the same origin is the same.
\<close>

theorem facade_url_roundtrip:
  assumes "Rewrite c runID origin = Inr url"
  shows "\<exists>token encoded. url = uc_facadeBase c @ ''/'' @ token @ ''/'' @ encoded \<and>
    SplitN (CHR ''/'') 3 (TrimPrefix (''/'' @ token @ ''/'' @ encoded @ ''/'' @ rest) ''/'') = [token, encoded, rest] \<and>
    Origin c runID token encoded = Inr origin \<and>
    (\<forall>run2 o2. Origin c run2 token encoded = Inr o2 \<longrightarrow> o2 = origin \<and> sign c run2 origin = sign c runID origin)"
proof -
  let ?t = "sign c runID origin" and ?e = "EncodeToString origin"
  from assms have url: "url = uc_facadeBase c @ ''/'' @ ?t @ ''/'' @ ?e"
    by (auto simp: Rewrite_def split: option.splits if_splits)
  have "SplitN (CHR ''/'') 3 (?t @ CHR ''/'' # ?e @ CHR ''/'' # rest) = [?t, ?e, rest]"
    by (rule SplitN_path [OF sign_no_slash Encode_no_sep(2)])
  then have split: "SplitN (CHR ''/'') 3 (TrimPrefix (''/'' @ ?t @ ''/'' @ ?e @ ''/'' @ rest) ''/'') = [?t, ?e, rest]"
    using TrimPrefix_append [of "''/''" "?t @ CHR ''/'' # ?e @ CHR ''/'' # rest"] by simp
  have "Origin c runID ?t ?e = Inr origin" by (simp add: Origin_Inr)
  moreover have "\<forall>run2 o2. Origin c run2 ?t ?e = Inr o2 \<longrightarrow> o2 = origin \<and> sign c run2 origin = ?t"
    by (auto simp: Origin_Inr)
  ultimately show ?thesis using url split by blast
qed


text \<open>
  The payload scan takes one branch per zero-separated part.  Git clients put a zero byte only after the
  first ref update, and no line end after the others, so the second one is read together with what
  follows it: a push of two branches, the second of them protected, is allowed.
\<close>

definition ex_push :: string where
  "ex_push = ''0067 a b refs/heads/feature'' @ [CHR 0x00] @ '' report-status0063 a b refs/heads/main0000PACK''"

lemma Index_Cons: "Index (c # cs) p = (if prefix p (c # cs) then Some 0 else map_option Suc (Index cs p))"
  by (subst Index.simps) simp

theorem second_ref_escapes_policy:
  "BranchesFromPayload ex_push = [''feature'', ''main0000PACK''] \<and> pd_Allowed (CheckPush [] (BranchesFromPayload ex_push))"
proof -
  have "BranchesFromPayload ex_push = [''feature'', ''main0000PACK'']"
    by (simp add: BranchesFromPayload_def ex_push_def branchOf_def refsHeads_def Index_Cons map_filter_simps)
  then show ?thesis by (simp add: ProtectedBranches_def)
qed

section \<open>Concrete runs\<close>

definition ex_codec :: url_codec where
  "ex_codec = NewURLCodec (\<lambda>k m. k @ m) (\<lambda>u. Some (''https'', ''host'')) ''https://facade/'' ''key''"

theorem facade_url_roundtrip_witness:
  "\<exists>url token encoded. Rewrite ex_codec ''run-1'' ''https://host/r.git'' = Inr url \<and>
     url = ''https://facade/'' @ token @ ''/'' @ encoded \<and> Origin ex_codec ''run-1'' token encoded = Inr ''https://host/r.git''"
proof -
  have base: "uc_facadeBase ex_codec = ''https://facade''" by (simp add: ex_codec_def NewURLCodec_def TrimSuffix_def suffix_def)
  obtain url where u: "Rewrite ex_codec ''run-1'' ''https://host/r.git'' = Inr url"
    by (simp add: Rewrite_def ex_codec_def NewURLCodec_def)
  from facade_url_roundtrip [OF u, of "[]"] obtain token encoded where
    "url = uc_facadeBase ex_codec @ ''/'' @ token @ ''/'' @ encoded" "Origin ex_codec ''run-1'' token encoded = Inr ''https://host/r.git''" by blast
  with u show ?thesis unfolding base by (intro exI [of _ url] exI [of _ token] exI [of _ encoded]) simp
qed

definition ex_handler :: "(nat, string \<rightharpoonup> string \<times> time) handler_git" where
  "ex_handler = \<lparr>hd_codec = ex_codec, hd_tokens = exService, hd_creds = (\<lambda>og u ref n. (Inr (''x-access-token'', ''pw''), n + 1)), hd_prs = None,
     hd_newRequest = (\<lambda>m u. False),
     hd_upstream = (\<lambda>q n. (Inr \<lparr>hr_Status = 200, hr_Header = [], hr_Body = ''ok''\<rparr>, n + 1)), hd_credRefFor = (\<lambda>origin. ''ref''), hd_auditDB = True\<rparr>"

definition ex_git_request :: git_request where
  "ex_git_request = \<lparr>gr_Method = ''GET'', gr_Path = ''/'' @ sign ex_codec ''run-1'' ''https://host/r.git'' @ ''/'' @ EncodeToString ''https://host/r.git'' @ ''/info/refs'',
     gr_RawQuery = [], gr_Header = (\<lambda>k. if k = ''Authorization'' then ''Bearer '' @ encode exService (exClaims 0 900) else []), gr_Body = []\<rparr>"

definition ex_facade :: "nat facade_state" where
  "ex_facade = \<lparr>fs_audit = \<lparr>al_rows = [], al_next = 1\<rparr>, fs_world = 0, fs_sent = []\<rparr>"

lemma ex_bearer: "bearer ex_git_request = encode exService (exClaims 0 900)"
proof -
  have ne: "encode exService (exClaims 0 900) \<noteq> []" by (simp add: encode_def Let_def)
  have "char_of (98 :: nat) = CHR ''b''" using char_of_char [of "CHR ''b''"] by simp
  then show ?thesis using ne by (simp add: bearer_def ex_git_request_def lowerByte_def TrimSpace_encode)
qed

lemma ex_path: "SplitN (CHR ''/'') 3 (TrimPrefix (gr_Path ex_git_request) ''/'') =
    [sign ex_codec ''run-1'' ''https://host/r.git'', EncodeToString ''https://host/r.git'', ''info/refs'']"
proof -
  let ?t = "sign ex_codec ''run-1'' ''https://host/r.git''" and ?e = "EncodeToString ''https://host/r.git''"
  have "gr_Path ex_git_request = ''/'' @ ?t @ CHR ''/'' # ?e @ CHR ''/'' # ''info/refs''" by (simp add: ex_git_request_def)
  then have "TrimPrefix (gr_Path ex_git_request) ''/'' = ?t @ CHR ''/'' # ?e @ CHR ''/'' # ''info/refs''" by (simp only: TrimPrefix_append)
  then show ?thesis using SplitN_path [OF sign_no_slash Encode_no_sep(2)] by (simp only:)
qed


end
