(* ===== verification/Health.thy ===== *)
theory Health
  imports Prelude
begin

text \<open>
  \<^verbatim>\<open>internal/health\<close>: the liveness and readiness endpoints.  A checker reads a world \<open>'w\<close>; the readiness handler
  takes its copy of the checkers in the order in which the map is iterated.
\<close>

type_synonym 'w checker = "'w \<Rightarrow> goerr option"

record 'w health_handler =
  hh_checkers :: "string \<rightharpoonup> 'w checker"

datatype health_body = StatusOK | StatusUnavailable "string \<rightharpoonup> string" | NoSuchPage

definition NewHandler :: "'w health_handler" where
  "NewHandler = \<lparr>hh_checkers = Map.empty\<rparr>"

definition RegisterCheck :: "string \<Rightarrow> 'w checker \<Rightarrow> 'w health_handler \<Rightarrow> 'w health_handler" where
  "RegisterCheck name c h = h\<lparr>hh_checkers := (hh_checkers h)(name \<mapsto> c)\<rparr>"

definition DeregisterCheck :: "string \<Rightarrow> 'w health_handler \<Rightarrow> 'w health_handler" where
  "DeregisterCheck name h = h\<lparr>hh_checkers := (hh_checkers h)(name := None)\<rparr>"

definition liveness :: "int \<times> health_body" where
  "liveness = (200, StatusOK)"

fun runChecks :: "'w \<Rightarrow> (string \<times> 'w checker) list \<Rightarrow> (string \<rightharpoonup> string) \<Rightarrow> (string \<rightharpoonup> string)" where
  "runChecks w [] failed = failed"
| "runChecks w ((name, check) # cs) failed =
     runChecks w cs (case check w of None \<Rightarrow> failed | Some err \<Rightarrow> failed(name \<mapsto> errText err))"

definition readiness :: "'w \<Rightarrow> (string \<times> 'w checker) list \<Rightarrow> int \<times> health_body" where
  "readiness w checkers =
     (let failed = runChecks w checkers Map.empty
      in if failed = Map.empty then (200, StatusOK) else (503, StatusUnavailable failed))"

definition healthServe :: "'w \<Rightarrow> (string \<times> 'w checker) list \<Rightarrow> string \<Rightarrow> int \<times> health_body" where
  "healthServe w checkers path =
     (if path = ''/healthz'' then liveness
      else if path = ''/readyz'' then readiness w checkers
      else (404, NoSuchPage))"

section \<open>Readiness\<close>

text \<open>The list is an iteration over the handler's map: each entry once.\<close>

definition iterates :: "(string \<times> 'w checker) list \<Rightarrow> 'w health_handler \<Rightarrow> bool" where
  "iterates cs h \<longleftrightarrow> distinct (map fst cs) \<and> map_of cs = hh_checkers h"

lemma runChecks_apply:
  assumes "distinct (map fst cs)"
  shows "runChecks w cs failed name =
    (case map_of cs name of None \<Rightarrow> failed name | Some c \<Rightarrow> (case c w of None \<Rightarrow> failed name | Some err \<Rightarrow> Some (errText err)))"
  using assms
proof (induction cs arbitrary: failed)
  case (Cons x cs)
  obtain n c where x: "x = (n, c)" by fastforce
  have "map_of cs n = None" using Cons.prems by (simp add: x map_of_eq_None_iff)
  then show ?case using Cons by (simp add: x split: option.split)
qed simp

text \<open>
  The answer does not depend on the order of the iteration: a service is ready exactly when no registered checker fails, and
  otherwise exactly the failing ones are named, with their errors.
\<close>

theorem readiness_reports_failures:
  assumes "iterates cs h"
  shows "readiness w cs =
    (if \<forall>c \<in> ran (hh_checkers h). c w = None then (200, StatusOK)
     else (503, StatusUnavailable (\<lambda>name. case hh_checkers h name of None \<Rightarrow> None | Some c \<Rightarrow> map_option errText (c w))))"
proof -
  let ?f = "\<lambda>name. case hh_checkers h name of None \<Rightarrow> None | Some c \<Rightarrow> map_option errText (c w)"
  have f: "runChecks w cs Map.empty = ?f"
    using assms by (auto simp: fun_eq_iff iterates_def runChecks_apply split: option.split)
  have "?f = Map.empty \<longleftrightarrow> (\<forall>c \<in> ran (hh_checkers h). c w = None)"
    by (auto simp: fun_eq_iff ran_def split: option.splits)
  with f show ?thesis by (simp add: readiness_def)
qed

end
