(* ===== verification/Sorting.thy ===== *)
theory Sorting
  imports Prelude "HOL-Library.List_Lexorder" "HOL-Library.Multiset"
begin

text \<open>
  \<^verbatim>\<open>sort.Strings\<close> is \<^const>\<open>sort\<close> in the lexicographic order of byte strings; what it gives depends only on which strings
  there are.
\<close>

lemma sort_eq_mset: "sort xs = sort ys \<longleftrightarrow> mset xs = mset ys"
  by (metis mset_sort properties_for_sort sorted_sort)

lemma sort_distinct_eq: "distinct xs \<Longrightarrow> distinct ys \<Longrightarrow> set xs = set ys \<Longrightarrow> sort xs = sort ys"
  by (simp add: sort_eq_mset set_eq_iff_mset_eq_distinct)

end
