(* ===== verification/ImageBuilder.thy ===== *)
theory ImageBuilder
  imports Sorting
begin

text \<open>
  \<^verbatim>\<open>internal/environments/builder.go\<close> and \<^verbatim>\<open>trivy.go\<close>: the acquisition of images, with the allowlist, size and scan
  gates.  SHA-256, JSON, the puller, the build backend and the scanner's process are parameters.
\<close>

section \<open>Build requests\<close>

definition ErrScanBlocked :: goerr where "ErrScanBlocked = ErrNew ''image blocked by vulnerability scan''"
definition ErrBuildTimeout :: goerr where "ErrBuildTimeout = ErrNew ''build exceeded time budget''"
definition ErrAllowlist :: goerr where "ErrAllowlist = ErrNew ''base image outside network allowlist''"
definition ErrInvalidRequest :: goerr where "ErrInvalidRequest = ErrNew ''invalid build request''"

text \<open>The build arguments, a Go map, are its entries in the order of one iteration.\<close>

record build_request =
  br_Type :: string
  br_Ref :: string
  br_Dockerfile :: string
  br_BuildArgs :: "(string \<times> string) list"
  br_BaseDigest :: string
  br_MaxSizeMB :: int

text \<open>The structure that is hashed, in the order of its JSON fields.\<close>

record digest_payload =
  dp_Type :: string
  dp_Ref :: string
  dp_Dockerfile :: string
  dp_SortedArgs :: "string list"
  dp_BaseDigest :: string

record hasher =
  hs_Sum256 :: "string \<Rightarrow> string"
  hs_Marshal :: "digest_payload \<Rightarrow> string"

definition payloadOf :: "build_request \<Rightarrow> digest_payload" where
  "payloadOf r =
     \<lparr>dp_Type = br_Type r, dp_Ref = br_Ref r, dp_Dockerfile = br_Dockerfile r,
      dp_SortedArgs = sort (map (\<lambda>(k, v). k @ ''='' @ v) (br_BuildArgs r)), dp_BaseDigest = br_BaseDigest r\<rparr>"

definition validRequest :: "build_request \<Rightarrow> bool" where
  "validRequest r \<longleftrightarrow>
     (if br_Type r = ''docker-ref'' then TrimSpace (br_Ref r) \<noteq> []
      else if br_Type r = ''dockerfile'' then TrimSpace (br_Dockerfile r) \<noteq> []
      else False)"

definition Digest :: "hasher \<Rightarrow> build_request \<Rightarrow> string result" where
  "Digest h r =
     (if \<not> validRequest r then Inl ErrInvalidRequest
      else Inr (''sha256:'' @ hexEncode (hs_Sum256 h (hs_Marshal h (payloadOf r)))))"

section \<open>Scanners\<close>

record vulnerability =
  vu_ID :: string
  vu_Severity :: string

definition staticScan :: "(string \<Rightarrow> vulnerability list) \<Rightarrow> string \<Rightarrow> vulnerability list result" where
  "staticScan findings digest = Inr (findings digest)"

text \<open>
  \<^verbatim>\<open>trivy.go\<close>: the process gives its output and an error, which is a non-zero exit or a failure to run; the report
  is the list of its results, each a list of identifiers and severities.
\<close>

datatype exec_error = ExitError | ExecFailure goerr

record trivy_scanner =
  tv_Binary :: string
  tv_RefFor :: "(string \<Rightarrow> string) option"

definition trivyBinary :: "trivy_scanner \<Rightarrow> string" where
  "trivyBinary s = (if tv_Binary s = [] then ''trivy'' else tv_Binary s)"

definition trivyScan ::
  "(string \<Rightarrow> string list \<Rightarrow> string \<times> exec_error option) \<Rightarrow> (string \<Rightarrow> (string \<times> string) list list result) \<Rightarrow> trivy_scanner \<Rightarrow> string
   \<Rightarrow> vulnerability list result" where
  "trivyScan run unmarshal s digest =
     (let ref = (case tv_RefFor s of None \<Rightarrow> ''unknown'' | Some f \<Rightarrow> f digest) in
      case run (trivyBinary s) [''image'', ''--format'', ''json'', ''--scanners'', ''vuln'', ''--quiet'', ref] of
        (out, Some (ExecFailure err)) \<Rightarrow> Inl (ErrWrap (''trivy: '' @ errText err) err)
      | (out, _) \<Rightarrow>
     (case unmarshal out of
        Inl err \<Rightarrow> Inl (ErrWrap (''trivy output: '' @ errText err) err)
      | Inr results \<Rightarrow> Inr (map (\<lambda>(i, sev). \<lparr>vu_ID = i, vu_Severity = sev\<rparr>) (concat results))))"

section \<open>The allowlist\<close>

text \<open>\<^verbatim>\<open>strings.Fields\<close>: the parts between runs of white space.\<close>

function fieldsFrom :: "string \<Rightarrow> string \<Rightarrow> string list" where
  "fieldsFrom cur s =
     (case s of
        [] \<Rightarrow> (if cur = [] then [] else [rev cur])
      | c # cs \<Rightarrow>
     (case find (\<lambda>p. p \<noteq> [] \<and> prefix p s) goSpaces of
        None \<Rightarrow> fieldsFrom (c # cur) cs
      | Some p \<Rightarrow> (if cur = [] then [] else [rev cur]) @ fieldsFrom [] (drop (length p) s)))"
  by pat_completeness auto
termination
proof (relation "measure (\<lambda>(cur, s). length s)", goal_cases)
  case (3 cur s c cs p)
  then have "p \<noteq> []" by (auto simp: find_Some_iff)
  with 3 show ?case by simp
qed simp_all

declare fieldsFrom.simps [simp del]

definition Fields :: "string \<Rightarrow> string list" where "Fields s = fieldsFrom [] s"

text \<open>
  One line: \<^verbatim>\<open>ToUpper\<close> turns into one of the letters of \<^verbatim>\<open>FROM\<close> only these letters, so its prefix test is one on
  ASCII bytes.
\<close>

definition fromLine :: "string \<Rightarrow> bool" where
  "fromLine line \<longleftrightarrow> map lowerByte (take 5 line) = ''from ''"

definition lineRefused :: "string \<Rightarrow> string \<Rightarrow> bool" where
  "lineRefused baseDigest raw \<longleftrightarrow>
     (let line = TrimSpace raw; fields = Fields line in
      fromLine line \<and> 2 \<le> length fields \<and> Contains (fields ! 1) ''@'' \<and> \<not> HasSuffix (fields ! 1) baseDigest)"

definition checkDockerfileAllowlist :: "string \<Rightarrow> string \<Rightarrow> goerr option" where
  "checkDockerfileAllowlist dockerfile baseDigest =
     (if baseDigest = [] then None
      else if list_ex (lineRefused baseDigest) (Split (CHR 0x0A) dockerfile)
      then Some (ErrWrap (errText ErrAllowlist @ '': FROM pinned to unexpected digest'') ErrAllowlist)
      else None)"

section \<open>Acquisition\<close>

record builder_service =
  bs_hasPuller :: bool
  bs_Timeout :: duration
  bs_MaxSizeMB :: int

definition NewBuilderService :: "bool \<Rightarrow> duration \<Rightarrow> int \<Rightarrow> builder_service" where
  "NewBuilderService puller timeout maxSizeMB =
     \<lparr>bs_hasPuller = puller, bs_Timeout = (if timeout = 0 then 10 * Minute else timeout),
      bs_MaxSizeMB = (if maxSizeMB = 0 then 2048 else maxSizeMB)\<rparr>"

text \<open>The image store, by digest; what one acquisition meets outside it.\<close>

type_synonym image_store = "string \<rightharpoonup> string"

record build_env =
  be_Pull :: "string \<Rightarrow> string \<Rightarrow> string result"
  be_Build :: "build_request \<Rightarrow> string result"
  be_deadline :: bool  \<comment> \<open>the context ended by its deadline\<close>
  be_Scan :: "string \<Rightarrow> vulnerability list result"
  be_PutErr :: "goerr option"

definition critical :: "vulnerability \<Rightarrow> bool" where
  "critical v \<longleftrightarrow> map lowerByte (vu_Severity v) = ''critical''"

text \<open>The blob, from the puller or the build backend.\<close>

definition obtainBlob :: "builder_service \<Rightarrow> build_env \<Rightarrow> build_request \<Rightarrow> string \<Rightarrow> string result" where
  "obtainBlob s e req digest =
     (if br_Type req = ''docker-ref'' then
        (if \<not> bs_hasPuller s
         then Inl (ErrWrap (errText ErrInvalidRequest @ '': no pull-through cache configured'') ErrInvalidRequest)
         else (case be_Pull e (br_Ref req) digest of
                 Inl err \<Rightarrow> Inl (if be_deadline e then ErrBuildTimeout else err)
               | Inr blob \<Rightarrow> Inr blob))
      else
        (case checkDockerfileAllowlist (br_Dockerfile req) (br_BaseDigest req) of
           Some err \<Rightarrow> Inl err
         | None \<Rightarrow>
        (case be_Build e req of
           Inl err \<Rightarrow> Inl (if be_deadline e then ErrBuildTimeout else err)
         | Inr blob \<Rightarrow> Inr blob)))"

definition Acquire :: "hasher \<Rightarrow> builder_service \<Rightarrow> build_env \<Rightarrow> build_request \<Rightarrow> image_store \<Rightarrow> string result \<times> image_store" where
  "Acquire h s e req st =
     (case Digest h req of
        Inl err \<Rightarrow> (Inl err, st)
      | Inr digest \<Rightarrow>
          if st digest \<noteq> None then (Inr digest, st)
          else
     (case obtainBlob s e req digest of
        Inl err \<Rightarrow> (Inl err, st)
      | Inr blob \<Rightarrow>
          if int (length blob) > wrap64 (bs_MaxSizeMB s * 2 ^ 20)
          then (Inl (ErrNew (''image '' @ showNat (length blob) @ '' bytes exceeds cap '' @ showInt (bs_MaxSizeMB s) @ '' MB'')), st)
          else
     (case be_Scan e digest of
        Inl err \<Rightarrow> (Inl err, st)
      | Inr vulns \<Rightarrow>
     (case find critical vulns of
        Some v \<Rightarrow> (Inl (ErrWrap (errText ErrScanBlocked @ '': '' @ vu_ID v @ '' ('' @ vu_Severity v @ '')'') ErrScanBlocked), st)
      | None \<Rightarrow>
     (case be_PutErr e of
        Some err \<Rightarrow> (Inl err, st)
      | None \<Rightarrow> (Inr digest, st(digest \<mapsto> blob)))))))"

section \<open>What a digest identifies\<close>

abbreviation argStrings :: "build_request \<Rightarrow> string list" where
  "argStrings r \<equiv> map (\<lambda>(k, v). k @ ''='' @ v) (br_BuildArgs r)"

text \<open>
  Two requests are hashed alike exactly when they agree on type, reference, Dockerfile and base digest and have the same
  build arguments, whatever the order in which the map was read.
\<close>

theorem payload_identity:
  "payloadOf r = payloadOf r' \<longleftrightarrow>
     br_Type r = br_Type r' \<and> br_Ref r = br_Ref r' \<and> br_Dockerfile r = br_Dockerfile r' \<and> br_BaseDigest r = br_BaseDigest r' \<and>
     mset (argStrings r) = mset (argStrings r')"
  by (auto simp: payloadOf_def sort_eq_mset)

text \<open>The equals sign of an argument is not escaped, so different arguments can give one digest.\<close>

theorem digest_confuses_arguments:
  "Digest h (r\<lparr>br_BuildArgs := [(''a'', ''b=c'')]\<rparr>) = Digest h (r\<lparr>br_BuildArgs := [(''a=b'', ''c'')]\<rparr>)"
  by (simp add: Digest_def validRequest_def payloadOf_def)

section \<open>The gates\<close>

text \<open>One acquisition, with a scanner whose findings for a digest do not change.\<close>

record acquire_call =
  ac_env :: build_env
  ac_req :: build_request

definition acquireStep ::
  "hasher \<Rightarrow> builder_service \<Rightarrow> (string \<Rightarrow> vulnerability list) \<Rightarrow> image_store \<Rightarrow> acquire_call \<Rightarrow> image_store \<Rightarrow> bool" where
  "acquireStep h s findings st a st' \<longleftrightarrow>
     (\<forall>d vs. be_Scan (ac_env a) d = Inr vs \<longrightarrow> vs = findings d) \<and> st' = snd (Acquire h s (ac_env a) (ac_req a) st)"

definition gated :: "builder_service \<Rightarrow> (string \<Rightarrow> vulnerability list) \<Rightarrow> image_store \<Rightarrow> bool" where
  "gated s findings st \<longleftrightarrow>
     (\<forall>d blob. st d = Some blob \<longrightarrow> int (length blob) \<le> wrap64 (bs_MaxSizeMB s * 2 ^ 20) \<and> (\<forall>v \<in> set (findings d). \<not> critical v))"

lemma Acquire_cases:
  assumes "Acquire h s e req st = (out, st')"
  obtains (same) "st' = st"
  | (stored) d blob vs where "Digest h req = Inr d" "out = Inr d" "st' = st(d \<mapsto> blob)" "obtainBlob s e req d = Inr blob"
      "int (length blob) \<le> wrap64 (bs_MaxSizeMB s * 2 ^ 20)" "be_Scan e d = Inr vs" "find critical vs = None"
  using assms by (auto simp: Acquire_def not_less split: sum.splits option.splits if_splits)

interpretation img: transition_system "\<lambda>st. st = Map.empty" "acquireStep h s findings" "gated s findings" for h s findings
proof (unfold_locales, goal_cases)
  case (1 st)
  then show ?case by (simp add: gated_def)
next
  case (2 st a st')
  obtain out where "Acquire h s (ac_env a) (ac_req a) st = (out, st')"
    using 2(2) by (metis acquireStep_def prod.collapse)
  then show ?case
  proof (cases rule: Acquire_cases)
    case (stored d blob vs)
    then have "vs = findings d" using 2(2) by (simp add: acquireStep_def)
    with stored 2(1) show ?thesis by (auto simp: gated_def find_None_iff)
  qed (use 2(1) in simp)
qed


text \<open>A request that succeeded is served from the store from then on, without pulling, building or scanning.\<close>

lemma Acquire_idempotent:
  assumes "Acquire h s e req st = (Inr d, st')"
  shows "Acquire h s' e' req st' = (Inr d, st')"
  using assms by (auto simp: Acquire_def split: sum.splits option.splits if_splits)

text \<open>A Dockerfile gate that a flag defeats: the second field of the line is not the image.\<close>

lemma Contains_char: "Contains s [c] \<longleftrightarrow> c \<in> set s"
  unfolding Contains_def by (induction s) (subst Index.simps, simp, subst Index.simps, auto)

lemma fieldsFrom_plain: "plainByte c \<Longrightarrow> fieldsFrom cur (c # cs) = fieldsFrom (c # cur) cs"
proof -
  assume "plainByte c"
  then have "find (\<lambda>p. p \<noteq> [] \<and> prefix p (c # cs)) goSpaces = None"
    by (fastforce simp: find_None_iff prefix_Cons dest: goSpaces_ends)
  then show ?thesis by (subst fieldsFrom.simps) simp
qed

lemma fieldsFrom_space: "fieldsFrom cur (CHR '' '' # cs) = (if cur = [] then [] else [rev cur]) @ fieldsFrom [] cs"
proof -
  have "find (\<lambda>p. p \<noteq> [] \<and> prefix p (CHR '' '' # cs)) goSpaces = Some '' ''" by (simp add: goSpaces_def char_of_eq_iff take_bit_eq_mod)
  then show ?thesis by (subst fieldsFrom.simps) simp
qed

lemma fieldsFrom_Nil: "fieldsFrom cur [] = (if cur = [] then [] else [rev cur])"
  by (subst fieldsFrom.simps) simp

lemmas fields_eval = Fields_def fieldsFrom_plain fieldsFrom_space fieldsFrom_Nil plainByte_def

theorem platform_flag_evades_allowlist:
  "checkDockerfileAllowlist ''FROM --platform=linux/amd64 evil@sha256:bad'' ''sha256:good'' = None"
proof -
  let ?l = "''FROM --platform=linux/amd64 evil@sha256:bad''"
  have "TrimSpace ?l = ?l" by (simp add: TrimSpace_plain plainByte_def)
  moreover have "Fields ?l = [''FROM'', ''--platform=linux/amd64'', ''evil@sha256:bad'']" by (simp add: fields_eval)
  ultimately have "\<not> lineRefused ''sha256:good'' ?l" by (simp add: lineRefused_def Let_def Contains_char)
  moreover have "Split (CHR 0x0A) ?l = [?l]" by simp
  ultimately show ?thesis by (simp only: checkDockerfileAllowlist_def list_ex_iff) simp
qed

theorem unpinned_image_is_accepted:
  "checkDockerfileAllowlist ''FROM evil/image:latest'' ''sha256:good'' = None"
proof -
  let ?l = "''FROM evil/image:latest''"
  have "TrimSpace ?l = ?l" by (simp add: TrimSpace_plain plainByte_def)
  moreover have "Fields ?l = [''FROM'', ''evil/image:latest'']" by (simp add: fields_eval)
  ultimately have "\<not> lineRefused ''sha256:good'' ?l" by (simp add: lineRefused_def Let_def Contains_char)
  moreover have "Split (CHR 0x0A) ?l = [?l]" by simp
  ultimately show ?thesis by (simp only: checkDockerfileAllowlist_def list_ex_iff) simp
qed

text \<open>The size limit of a request has no effect.\<close>

theorem request_size_limit_ignored:
  assumes "br_Type req = ''docker-ref''"
  shows "Acquire h s e (req\<lparr>br_MaxSizeMB := n\<rparr>) st = Acquire h s e req st"
proof -
  have "obtainBlob s e (req\<lparr>br_MaxSizeMB := n\<rparr>) d = obtainBlob s e req d" for d using assms by (simp add: obtainBlob_def)
  moreover have "Digest h (req\<lparr>br_MaxSizeMB := n\<rparr>) = Digest h req" by (simp add: Digest_def validRequest_def payloadOf_def)
  ultimately show ?thesis unfolding Acquire_def by (simp only:)
qed

text \<open>A scan that exits with an error is taken for its output: an empty report is a clean image.\<close>

theorem failed_scan_is_clean:
  assumes "run (trivyBinary s) [''image'', ''--format'', ''json'', ''--scanners'', ''vuln'', ''--quiet'', ''unknown''] = (out, Some ExitError)"
    and "unmarshal out = Inr []" and "tv_RefFor s = None"
  shows "trivyScan run unmarshal s digest = Inr []"
  using assms by (simp add: trivyScan_def)

section \<open>A concrete acquisition\<close>

definition exHasher :: hasher where
  "exHasher = \<lparr>hs_Sum256 = (\<lambda>_. ''h''), hs_Marshal = (\<lambda>_. ''p'')\<rparr>"

definition exBuilder :: builder_service where "exBuilder = NewBuilderService True 0 1"

definition exCall :: acquire_call where
  "exCall = \<lparr>ac_env = \<lparr>be_Pull = (\<lambda>_ _. Inr ''blob''), be_Build = (\<lambda>_. Inr ''blob''), be_deadline = False,
       be_Scan = (\<lambda>_. Inr [\<lparr>vu_ID = ''CVE-1'', vu_Severity = ''HIGH''\<rparr>]), be_PutErr = None\<rparr>,
     ac_req = \<lparr>br_Type = ''docker-ref'', br_Ref = ''img'', br_Dockerfile = [], br_BuildArgs = [], br_BaseDigest = [], br_MaxSizeMB = 0\<rparr>\<rparr>"

definition exDigest :: string where "exDigest = ''sha256:'' @ hexEncode ''h''"

definition exFindings :: "string \<Rightarrow> vulnerability list" where
  "exFindings d = [\<lparr>vu_ID = ''CVE-1'', vu_Severity = ''HIGH''\<rparr>]"

lemma ex_acquire:
  "snd (Acquire exHasher exBuilder (ac_env exCall) (ac_req exCall) Map.empty) = [exDigest \<mapsto> ''blob'']"
proof -
  have "TrimSpace ''img'' = ''img''" by (simp add: TrimSpace_plain plainByte_def)
  then show ?thesis
    by (simp add: Acquire_def Digest_def validRequest_def exCall_def exHasher_def exBuilder_def NewBuilderService_def obtainBlob_def
        wrap64_def critical_def lowerByte_def exDigest_def)
qed


end
