(* ===== verification/ModelGateway.thy ===== *)
theory ModelGateway
  imports Prelude
begin

text \<open>
  \<^verbatim>\<open>internal/modelgw/router.go\<close>: completions routed to a primary provider and ordered fallbacks, with retries, rate
  limits and metering.  The providers, the token buckets, the clock and the request's context are parameters, and
  so are the operations on \<^verbatim>\<open>float64\<close>.
\<close>

section \<open>Data\<close>

definition ErrNoProvider :: goerr where "ErrNoProvider = ErrNew ''no provider configured for model''"
definition ErrAllProviders :: goerr where "ErrAllProviders = ErrNew ''all providers failed''"
definition ErrRateLimited :: goerr where "ErrRateLimited = ErrNew ''rate limited''"

record message =
  mg_Role :: string
  mg_Content :: string

record completion_request =
  cq_Model :: string
  cq_Messages :: "message list"
  cq_MaxTokens :: int
  cq_RunID :: string
  cq_Agent :: string
  cq_UserID :: string
  cq_OrgID :: string

record completion_response =
  cs_Content :: string
  cs_StopReason :: string
  cs_InputTokens :: int
  cs_OutputTokens :: int
  cs_Provider :: string

record 'f usage_record =
  us_RunID :: string
  us_Agent :: string
  us_UserID :: string
  us_OrgID :: string
  us_Provider :: string
  us_Model :: string
  us_InputTokens :: int
  us_OutputTokens :: int
  us_CostUSD :: 'f
  us_At :: time

record provider =
  pv_Name :: string
  pv_ServesModel :: "string \<Rightarrow> bool"

record 'f float_ops =
  fl_int :: "int \<Rightarrow> 'f"
  fl_div :: "'f \<Rightarrow> 'f \<Rightarrow> 'f"
  fl_mul :: "'f \<Rightarrow> 'f \<Rightarrow> 'f"
  fl_add :: "'f \<Rightarrow> 'f \<Rightarrow> 'f"

text \<open>\<^verbatim>\<open>MemoryMeter\<close> collects the records; without a meter nothing is kept.\<close>

record router =
  rt_primary :: provider
  rt_fallback :: "provider list"
  rt_retries :: int
  rt_backoff :: "int \<Rightarrow> duration"
  rt_metered :: bool

text \<open>
  What attempt \<open>k\<close> on candidate \<open>i\<close> meets: the limiter's verdict, the provider's answer, the state of the context after a
  failure, and the clock after a success.
\<close>

record weather =
  wx_wait :: "nat \<Rightarrow> nat \<Rightarrow> goerr option"
  wx_complete :: "nat \<Rightarrow> nat \<Rightarrow> completion_request \<Rightarrow> completion_response result"
  wx_ctxErr :: "nat \<Rightarrow> nat \<Rightarrow> goerr option"
  wx_now :: "nat \<Rightarrow> nat \<Rightarrow> time"

text \<open>The effects of a call: attempts made on the providers, time slept, and the meter's contents.\<close>

record 'f gateway_log =
  gw_calls :: "(nat \<times> nat) list"
  gw_slept :: "duration list"
  gw_Recorded :: "'f usage_record list"

section \<open>Operations\<close>

definition Record :: "'f usage_record \<Rightarrow> 'f gateway_log \<Rightarrow> 'f gateway_log" where
  "Record u g = g\<lparr>gw_Recorded := gw_Recorded g @ [u]\<rparr>"

definition Snapshot :: "'f gateway_log \<Rightarrow> 'f usage_record list" where
  "Snapshot g = gw_Recorded g"

text \<open>\<^verbatim>\<open>DefaultPrices\<close>, in USD per million tokens of input and output.\<close>

definition DefaultPrices :: "string \<rightharpoonup> (int \<times> int)" where
  "DefaultPrices = [''claude-sonnet-4-5'' \<mapsto> (3, 15)]"

definition cost :: "'f float_ops \<Rightarrow> string \<Rightarrow> int \<Rightarrow> int \<Rightarrow> 'f" where
  "cost fl model inTokens outTokens =
     (case DefaultPrices model of
        None \<Rightarrow> fl_int fl 0
      | Some (inputPerM, outputPerM) \<Rightarrow>
          fl_add fl (fl_mul fl (fl_div fl (fl_int fl inTokens) (fl_int fl 1000000)) (fl_int fl inputPerM))
                    (fl_mul fl (fl_div fl (fl_int fl outTokens) (fl_int fl 1000000)) (fl_int fl outputPerM)))"

definition NewRouter :: "provider option \<Rightarrow> provider list \<Rightarrow> router result" where
  "NewRouter primary fallbacks =
     (case primary of
        None \<Rightarrow> Inl ErrNoProvider
      | Some p \<Rightarrow> Inr \<lparr>rt_primary = p, rt_fallback = fallbacks, rt_retries = 2, rt_backoff = (\<lambda>_. Second), rt_metered = False\<rparr>)"

definition SetMeter :: "router \<Rightarrow> router" where "SetMeter r = r\<lparr>rt_metered := True\<rparr>"
definition SetRetries :: "int \<Rightarrow> router \<Rightarrow> router" where "SetRetries n r = r\<lparr>rt_retries := n\<rparr>"
definition SetBackoff :: "(int \<Rightarrow> duration) \<Rightarrow> router \<Rightarrow> router" where "SetBackoff f r = r\<lparr>rt_backoff := f\<rparr>"

definition usageOf :: "'f float_ops \<Rightarrow> completion_request \<Rightarrow> completion_response \<Rightarrow> time \<Rightarrow> 'f usage_record" where
  "usageOf fl req resp now =
     \<lparr>us_RunID = cq_RunID req, us_Agent = cq_Agent req, us_UserID = cq_UserID req, us_OrgID = cq_OrgID req,
      us_Provider = cs_Provider resp, us_Model = cq_Model req, us_InputTokens = cs_InputTokens resp,
      us_OutputTokens = cs_OutputTokens resp, us_CostUSD = cost fl (cq_Model req) (cs_InputTokens resp) (cs_OutputTokens resp), us_At = now\<rparr>"

text \<open>The inner loop: the attempts on one candidate.  It returns from the function, or leaves the last error.\<close>

datatype attempts_end = Returned "completion_response result" | Exhausted "goerr option"

fun tryProvider ::
  "'f float_ops \<Rightarrow> router \<Rightarrow> weather \<Rightarrow> completion_request \<Rightarrow> nat \<Rightarrow> provider \<Rightarrow> nat \<Rightarrow> nat \<Rightarrow> goerr option \<Rightarrow> 'f gateway_log
   \<Rightarrow> attempts_end \<times> 'f gateway_log" where
  "tryProvider fl r w req i cand 0 attempt lastErr g = (Exhausted lastErr, g)"
| "tryProvider fl r w req i cand (Suc left) attempt lastErr g =
     (case wx_wait w i attempt of
        Some err \<Rightarrow> (Returned (Inl (wrapV ErrRateLimited (errText err))), g)
      | None \<Rightarrow>
          let g1 = g\<lparr>gw_calls := gw_calls g @ [(i, attempt)]\<rparr> in
     (case wx_complete w i attempt req of
        Inr resp \<Rightarrow>
          let resp1 = resp\<lparr>cs_Provider := pv_Name cand\<rparr>;
              g2 = (if rt_metered r then Record (usageOf fl req resp1 (wx_now w i attempt)) g1 else g1)
          in (Returned (Inr resp1), g2)
      | Inl err \<Rightarrow>
     (case wx_ctxErr w i attempt of
        Some cerr \<Rightarrow> (Returned (Inl cerr), g1)
      | None \<Rightarrow>
          tryProvider fl r w req i cand left (Suc attempt) (Some err) (g1\<lparr>gw_slept := gw_slept g1 @ [rt_backoff r (int attempt)]\<rparr>))))"

fun walkProviders ::
  "'f float_ops \<Rightarrow> router \<Rightarrow> weather \<Rightarrow> completion_request \<Rightarrow> nat \<Rightarrow> provider list \<Rightarrow> goerr option \<Rightarrow> 'f gateway_log
   \<Rightarrow> completion_response result \<times> 'f gateway_log" where
  "walkProviders fl r w req i [] lastErr g =
     (Inl (case lastErr of None \<Rightarrow> ErrNoProvider | Some err \<Rightarrow> wrapV ErrAllProviders (''last error: '' @ errText err)), g)"
| "walkProviders fl r w req i (cand # cands) lastErr g =
     (if \<not> pv_ServesModel cand (cq_Model req) then walkProviders fl r w req (Suc i) cands lastErr g
      else (case tryProvider fl r w req i cand (nat (rt_retries r + 1)) 0 lastErr g of
              (Returned out, g') \<Rightarrow> (out, g')
            | (Exhausted e, g') \<Rightarrow> walkProviders fl r w req (Suc i) cands e g'))"

definition Complete ::
  "'f float_ops \<Rightarrow> router \<Rightarrow> weather \<Rightarrow> completion_request \<Rightarrow> 'f gateway_log \<Rightarrow> completion_response result \<times> 'f gateway_log" where
  "Complete fl r w req g = walkProviders fl r w req 0 (rt_primary r # rt_fallback r) None g"

section \<open>The attempts in order\<close>

text \<open>
  The order the router promises, as a list: every attempt on the primary, then every attempt on each fallback, leaving
  out the providers that do not serve the model.  The router makes them until one of them decides the call.
\<close>

definition candidates :: "router \<Rightarrow> provider list" where
  "candidates r = rt_primary r # rt_fallback r"

definition attemptsOn :: "router \<Rightarrow> completion_request \<Rightarrow> nat \<Rightarrow> provider \<Rightarrow> (nat \<times> nat) list" where
  "attemptsOn r req i cand = (if pv_ServesModel cand (cq_Model req) then map (Pair i) [0 ..< nat (rt_retries r + 1)] else [])"

fun attemptsFrom :: "router \<Rightarrow> completion_request \<Rightarrow> nat \<Rightarrow> provider list \<Rightarrow> (nat \<times> nat) list" where
  "attemptsFrom r req i [] = []"
| "attemptsFrom r req i (cand # cands) = attemptsOn r req i cand @ attemptsFrom r req (Suc i) cands"

definition attempts :: "router \<Rightarrow> completion_request \<Rightarrow> (nat \<times> nat) list" where
  "attempts r req = attemptsFrom r req 0 (candidates r)"

text \<open>What one attempt decides.\<close>

definition decides :: "router \<Rightarrow> weather \<Rightarrow> completion_request \<Rightarrow> nat \<times> nat \<Rightarrow> completion_response result option" where
  "decides r w req a =
     (case a of (i, k) \<Rightarrow>
       (case wx_wait w i k of
          Some err \<Rightarrow> Some (Inl (wrapV ErrRateLimited (errText err)))
        | None \<Rightarrow>
       (case wx_complete w i k req of
          Inr resp \<Rightarrow> Some (Inr (resp\<lparr>cs_Provider := pv_Name (candidates r ! i)\<rparr>))
        | Inl err \<Rightarrow> map_option Inl (wx_ctxErr w i k))))"

definition failure :: "weather \<Rightarrow> completion_request \<Rightarrow> nat \<times> nat \<Rightarrow> goerr" where
  "failure w req a = (case a of (i, k) \<Rightarrow> (case wx_complete w i k req of Inl err \<Rightarrow> err | Inr _ \<Rightarrow> ErrNoProvider))"

text \<open>The reference: the first attempt that decides, or else the error of the last one.\<close>

fun firstDecided :: "router \<Rightarrow> weather \<Rightarrow> completion_request \<Rightarrow> (nat \<times> nat) list \<Rightarrow> goerr option \<Rightarrow> completion_response result" where
  "firstDecided r w req [] lastErr =
     Inl (case lastErr of None \<Rightarrow> ErrNoProvider | Some err \<Rightarrow> wrapV ErrAllProviders (''last error: '' @ errText err))"
| "firstDecided r w req (a # as) lastErr =
     (case decides r w req a of Some out \<Rightarrow> out | None \<Rightarrow> firstDecided r w req as (Some (failure w req a)))"

lemma firstDecided_find:
  "firstDecided r w req as lastErr =
     (case find (\<lambda>a. decides r w req a \<noteq> None) as of
        Some a \<Rightarrow> the (decides r w req a)
      | None \<Rightarrow>
          (case (if as = [] then lastErr else Some (failure w req (last as))) of
             None \<Rightarrow> Inl ErrNoProvider
           | Some err \<Rightarrow> Inl (wrapV ErrAllProviders (''last error: '' @ errText err))))"
  by (induction r w req as lastErr rule: firstDecided.induct) (auto split: option.splits)

lemma upt_shift: "map (Pair i) [k ..< k + Suc left] = (i, k) # map (Pair i) [Suc k ..< Suc k + left]"
  by (subst upt_conv_Cons) simp_all

lemma tryProvider_decided:
  assumes "tryProvider fl r w req i cand left k lastErr g = (res, g')" and "candidates r ! i = cand"
  shows "firstDecided r w req (map (Pair i) [k ..< k + left] @ rest) lastErr =
    (case res of Returned out \<Rightarrow> out | Exhausted e \<Rightarrow> firstDecided r w req rest e)"
  using assms
proof (induction left arbitrary: k lastErr g)
  case (Suc left)
  show ?case
  proof (cases "wx_wait w i k")
    case (Some err)
    with Suc.prems show ?thesis unfolding upt_shift by (auto simp: decides_def)
  next
    case wait: None
    show ?thesis
    proof (cases "wx_complete w i k req")
      case (Inr resp)
      with wait Suc.prems show ?thesis unfolding upt_shift by (auto simp: decides_def Let_def)
    next
      case fail: (Inl err)
      show ?thesis
      proof (cases "wx_ctxErr w i k")
        case (Some e)
        with wait fail Suc.prems show ?thesis unfolding upt_shift by (auto simp: decides_def Let_def)
      next
        case None
        with wait fail Suc.prems(1) obtain g1 where "tryProvider fl r w req i cand left (Suc k) (Some err) g1 = (res, g')"
          by (auto simp: Let_def)
        from Suc.IH [OF this Suc.prems(2)] wait fail None show ?thesis
          unfolding upt_shift by (simp add: decides_def failure_def)
      qed
    qed
  qed
qed auto

lemma walkProviders_decided:
  assumes "drop i (candidates r) = cands"
  shows "fst (walkProviders fl r w req i cands lastErr g) = firstDecided r w req (attemptsFrom r req i cands) lastErr"
  using assms
proof (induction cands arbitrary: i lastErr g)
  case (Cons cand cands)
  have c: "candidates r ! i = cand" "drop (Suc i) (candidates r) = cands"
    using Cons.prems by (metis hd_drop_conv_nth drop_eq_Nil list.distinct(1) list.sel(1) not_le) (metis Cons.prems drop_Suc drop_tl list.sel(3))
  show ?case
  proof (cases "pv_ServesModel cand (cq_Model req)")
    case True
    obtain res g' where t: "tryProvider fl r w req i cand (nat (rt_retries r + 1)) 0 lastErr g = (res, g')" by fastforce
    show ?thesis
      using tryProvider_decided [OF t c(1), of "attemptsFrom r req (Suc i) cands"] Cons.IH [OF c(2)] True t
      by (simp add: attemptsOn_def split: attempts_end.splits)
  next
    case False
    with Cons.IH [OF c(2)] show ?thesis by (simp add: attemptsOn_def)
  qed
qed simp

text \<open>
  C30. The nested loops compute the reference: the answer is what the first deciding attempt decides (a success, a rate-limit
  error or the context's error), in the order primary, then fallbacks; if no attempt decides, the error names the
  failure of the last one, and if there is none to make, that no provider is configured.
\<close>

theorem complete_is_first_decision:
  "fst (Complete fl r w req g) =
     (case find (\<lambda>a. decides r w req a \<noteq> None) (attempts r req) of
        Some a \<Rightarrow> the (decides r w req a)
      | None \<Rightarrow>
          if attempts r req = [] then Inl ErrNoProvider
          else Inl (wrapV ErrAllProviders (''last error: '' @ errText (failure w req (last (attempts r req))))))"
  unfolding Complete_def attempts_def candidates_def [symmetric]
  by (subst walkProviders_decided) (auto simp: firstDecided_find split: option.splits)

section \<open>Effects\<close>

text \<open>The attempts made are an initial part of the list, so their number is bounded.\<close>

lemma tryProvider_calls:
  assumes "tryProvider fl r w req i cand left k lastErr g = (res, g')"
  shows "\<exists>n. gw_calls g' = gw_calls g @ take n (map (Pair i) [k ..< k + left]) \<and> ((\<exists>e. res = Exhausted e) \<longrightarrow> n \<ge> left)"
  using assms
proof (induction left arbitrary: k lastErr g)
  case 0
  then show ?case by auto
next
  case (Suc left)
  show ?case
  proof (cases "wx_wait w i k")
    case (Some err)
    with Suc.prems show ?thesis by (intro exI [of _ 0]) auto
  next
    case wait: None
    show ?thesis
    proof (cases "(\<exists>resp. wx_complete w i k req = Inr resp) \<or> wx_ctxErr w i k \<noteq> None")
      case True
      with wait Suc.prems show ?thesis unfolding upt_shift
        by (intro exI [of _ 1]) (auto simp: Let_def Record_def split: sum.splits)
    next
      case False
      then obtain err where e: "wx_complete w i k req = Inl err" "wx_ctxErr w i k = None" by (cases "wx_complete w i k req") auto
      let ?g = "g\<lparr>gw_calls := gw_calls g @ [(i, k)], gw_slept := gw_slept g @ [rt_backoff r (int k)]\<rparr>"
      have "tryProvider fl r w req i cand left (Suc k) (Some err) ?g = (res, g')" using Suc.prems wait e by (simp add: Let_def)
      from Suc.IH [OF this] obtain n where "gw_calls g' = gw_calls ?g @ take n (map (Pair i) [Suc k ..< Suc k + left])"
        "(\<exists>e. res = Exhausted e) \<longrightarrow> n \<ge> left" by blast
      then show ?thesis unfolding upt_shift by (intro exI [of _ "Suc n"]) simp
    qed
  qed
qed

lemma walkProviders_calls:
  "\<exists>n. gw_calls (snd (walkProviders fl r w req i cands lastErr g)) = gw_calls g @ take n (attemptsFrom r req i cands)"
proof (induction cands arbitrary: i lastErr g)
  case (Cons cand cands)
  show ?case
  proof (cases "pv_ServesModel cand (cq_Model req)")
    case True
    let ?m = "nat (rt_retries r + 1)"
    obtain res g' where t: "tryProvider fl r w req i cand ?m 0 lastErr g = (res, g')" by fastforce
    obtain n where n: "gw_calls g' = gw_calls g @ take n (attemptsOn r req i cand)" "(\<exists>e. res = Exhausted e) \<longrightarrow> n \<ge> ?m"
      using tryProvider_calls [OF t] True by (auto simp: attemptsOn_def)
    show ?thesis
    proof (cases res)
      case (Returned out)
      then show ?thesis using n(1) True t
        by (intro exI [of _ "min n (length (attemptsOn r req i cand))"]) (auto simp: min_def)
    next
      case (Exhausted e)
      obtain m where "gw_calls (snd (walkProviders fl r w req (Suc i) cands e g')) = gw_calls g' @ take m (attemptsFrom r req (Suc i) cands)"
        using Cons.IH by blast
      then show ?thesis using n Exhausted True t
        by (intro exI [of _ "length (attemptsOn r req i cand) + m"]) (auto simp: attemptsOn_def)
    qed
  next
    case False
    with Cons.IH show ?thesis by (simp add: attemptsOn_def)
  qed
qed simp

lemma attemptsFrom_length:
  "length (attemptsFrom r req i cands) = nat (rt_retries r + 1) * length (filter (\<lambda>p. pv_ServesModel p (cq_Model req)) cands)"
  by (induction cands arbitrary: i) (simp_all add: attemptsOn_def)

text \<open>
  The providers are called in the promised order, each serving one at most \<open>retries + 1\<close> times, and a provider that does
  not serve the model never: the calls made are an initial part of the list of attempts.
\<close>

theorem complete_calls_bounded:
  "(\<exists>n. gw_calls (snd (Complete fl r w req g)) = gw_calls g @ take n (attempts r req)) \<and>
   length (gw_calls (snd (Complete fl r w req g))) \<le>
     length (gw_calls g) + nat (rt_retries r + 1) * length (filter (\<lambda>p. pv_ServesModel p (cq_Model req)) (candidates r))"
proof -
  obtain n where n: "gw_calls (snd (Complete fl r w req g)) = gw_calls g @ take n (attempts r req)"
    using walkProviders_calls [of fl r w req 0 "rt_primary r # rt_fallback r" None g]
    unfolding Complete_def attempts_def candidates_def by blast
  then have "length (gw_calls (snd (Complete fl r w req g))) \<le> length (gw_calls g) + length (attempts r req)" by simp
  with n show ?thesis by (auto simp: attempts_def attemptsFrom_length)
qed

text \<open>One record per success, none for a failure.\<close>

definition metering :: "'f float_ops \<Rightarrow> router \<Rightarrow> completion_request \<Rightarrow> completion_response result \<Rightarrow> 'f usage_record list \<Rightarrow> bool" where
  "metering fl r req out us \<longleftrightarrow>
     (case out of Inl _ \<Rightarrow> us = [] | Inr resp \<Rightarrow> if rt_metered r then (\<exists>now. us = [usageOf fl req resp now]) else us = [])"

lemma tryProvider_metered:
  assumes "tryProvider fl r w req i cand left k lastErr g = (res, g')"
  shows "case res of Returned out \<Rightarrow> (\<exists>us. gw_Recorded g' = gw_Recorded g @ us \<and> metering fl r req out us) \<and> (\<forall>resp. out = Inr resp \<longrightarrow> cs_Provider resp = pv_Name cand)
    | Exhausted e \<Rightarrow> gw_Recorded g' = gw_Recorded g"
  using assms
proof (induction left arbitrary: k lastErr g)
  case (Suc left)
  show ?case
  proof (cases "wx_wait w i k = None \<and> wx_ctxErr w i k = None \<and> (\<exists>err. wx_complete w i k req = Inl err)")
    case True
    then obtain err where e: "wx_complete w i k req = Inl err" by blast
    let ?g = "g\<lparr>gw_calls := gw_calls g @ [(i, k)], gw_slept := gw_slept g @ [rt_backoff r (int k)]\<rparr>"
    have "tryProvider fl r w req i cand left (Suc k) (Some err) ?g = (res, g')" using Suc.prems True e by (simp add: Let_def)
    from Suc.IH [OF this] show ?thesis by (simp split: attempts_end.splits)
  next
    case False
    with Suc.prems show ?thesis
      by (auto simp: Let_def metering_def Record_def split: option.splits sum.splits)
  qed
qed auto

lemma walkProviders_metered:
  "\<exists>us. gw_Recorded (snd (walkProviders fl r w req i cands lastErr g)) = gw_Recorded g @ us \<and>
     metering fl r req (fst (walkProviders fl r w req i cands lastErr g)) us \<and>
     (\<forall>resp. fst (walkProviders fl r w req i cands lastErr g) = Inr resp \<longrightarrow>
        (\<exists>p \<in> set cands. pv_ServesModel p (cq_Model req) \<and> cs_Provider resp = pv_Name p))"
proof (induction cands arbitrary: i lastErr g)
  case (Cons cand cands)
  show ?case
  proof (cases "pv_ServesModel cand (cq_Model req)")
    case True
    obtain res g' where t: "tryProvider fl r w req i cand (nat (rt_retries r + 1)) 0 lastErr g = (res, g')" by fastforce
    show ?thesis
    proof (cases res)
      case (Returned out)
      with tryProvider_metered [OF t] t True show ?thesis by auto
    next
      case (Exhausted e)
      with tryProvider_metered [OF t] have "gw_Recorded g' = gw_Recorded g" by simp
      with Cons.IH [of "Suc i" e g'] Exhausted t True show ?thesis by auto
    qed
  next
    case False
    with Cons.IH [of "Suc i" lastErr g] show ?thesis by auto
  qed
qed (simp add: metering_def)

text \<open>
  Only successful completions are metered, each exactly once, under the run, agent, user and organisation of the request
  and the provider that served it, which is a configured provider of the model.
\<close>

theorem complete_meters_success:
  assumes "Complete fl r w req g = (out, g')"
  shows "case out of
      Inl _ \<Rightarrow> gw_Recorded g' = gw_Recorded g
    | Inr resp \<Rightarrow> (\<exists>p \<in> set (candidates r). pv_ServesModel p (cq_Model req) \<and> cs_Provider resp = pv_Name p) \<and>
        (\<exists>now. gw_Recorded g' = gw_Recorded g @ (if rt_metered r then [usageOf fl req resp now] else []))"
  using walkProviders_metered [of fl r w req 0 "candidates r" None g] assms
  unfolding Complete_def candidates_def [symmetric] by (auto simp: metering_def split: sum.splits if_splits)

section \<open>A concrete call\<close>

text \<open>A primary whose first attempt fails and whose second succeeds.\<close>

definition exRouter :: router where
  "exRouter = \<lparr>rt_primary = \<lparr>pv_Name = ''p'', pv_ServesModel = (\<lambda>m. m = ''m'')\<rparr>, rt_fallback = [], rt_retries = 2, rt_backoff = (\<lambda>_. 0), rt_metered = True\<rparr>"

definition exResponse :: completion_response where
  "exResponse = \<lparr>cs_Content = ''hi'', cs_StopReason = ''end_turn'', cs_InputTokens = 3, cs_OutputTokens = 4, cs_Provider = []\<rparr>"

definition exWeather :: weather where
  "exWeather = \<lparr>wx_wait = (\<lambda>i k. None), wx_complete = (\<lambda>i k q. if k = 0 then Inl (ErrNew ''busy'') else Inr exResponse), wx_ctxErr = (\<lambda>i k. None), wx_now = (\<lambda>i k. 9)\<rparr>"

definition exCompletion :: completion_request where
  "exCompletion = \<lparr>cq_Model = ''m'', cq_Messages = [], cq_MaxTokens = 5, cq_RunID = ''r'', cq_Agent = ''a'', cq_UserID = ''u'', cq_OrgID = ''o''\<rparr>"

definition exFloat :: "int float_ops" where
  "exFloat = \<lparr>fl_int = (\<lambda>n. n), fl_div = (div), fl_mul = (*), fl_add = (+)\<rparr>"

definition exGateway :: "int gateway_log" where
  "exGateway = \<lparr>gw_calls = [], gw_slept = [], gw_Recorded = []\<rparr>"

lemma ex_complete:
  "Complete exFloat exRouter exWeather exCompletion exGateway =
     (Inr (exResponse\<lparr>cs_Provider := ''p''\<rparr>),
      \<lparr>gw_calls = [(0, 0), (0, 1)], gw_slept = [0], gw_Recorded = [usageOf exFloat exCompletion (exResponse\<lparr>cs_Provider := ''p''\<rparr>) 9]\<rparr>)"
proof -
  have "nat (rt_retries exRouter + 1) = Suc (Suc (Suc 0))" by (simp add: exRouter_def)
  then show ?thesis
    by (simp add: Complete_def) (simp add: exRouter_def exWeather_def exCompletion_def exGateway_def Record_def Let_def)
qed

theorem complete_meters_success_witness:
  "(\<exists>p. p \<in> set (candidates exRouter) \<and> pv_ServesModel p ''m'' \<and> pv_Name p = ''p'') \<and>
   (\<exists>now. [usageOf exFloat exCompletion (exResponse\<lparr>cs_Provider := ''p''\<rparr>) 9] = [usageOf exFloat exCompletion (exResponse\<lparr>cs_Provider := ''p''\<rparr>) now])"
  using complete_meters_success [OF ex_complete] by (auto simp: exRouter_def exCompletion_def exGateway_def)

end
