(* ===== verification/ToolGateway.thy ===== *)
theory ToolGateway
  imports Egress Policy Grants
begin

text \<open>
  \<^verbatim>\<open>internal/toolgw\<close>: the tool registry, the call pipeline (token, lookup, policy, rate limit,
  execution, output filtering) and the built-in executors.  Executors act on a world \<open>'w\<close>, so a
  call that leaves the world unchanged for every executor did not reach one.  The rate limiter
  (\<^verbatim>\<open>golang.org/x/time/rate\<close>) and the JSON decoding of tool inputs are parameters.
\<close>

section \<open>Data\<close>

record tool_def =
  td_Name :: string
  td_Description :: string
  td_InputSchema :: string
  td_RequiredScope :: string

type_synonym 'w executor = "string \<Rightarrow> 'w \<Rightarrow> string result \<times> 'w"
type_synonym 'w injector = "string \<Rightarrow> 'w \<Rightarrow> (string \<times> string) result \<times> 'w"

record ('w, 'l) registered_tool =
  rt_Def :: tool_def
  rt_Exec :: "'w executor"
  rt_Injector :: "'w injector option"
  rt_Limiter :: 'l

record ('w, 'l) registry =
  rg_tools :: "string \<rightharpoonup> ('w, 'l) registered_tool"
  rg_filters :: "(string \<Rightarrow> string) list"
  rg_maxOut :: int

record ('q, 'l) rate_lib =
  rl_New :: "'q \<Rightarrow> nat \<Rightarrow> 'l"
  rl_Wait :: "time \<Rightarrow> 'l \<Rightarrow> goerr option \<times> 'l"

text \<open>\<^verbatim>\<open>LiveScopes\<close> is an interface value that may be nil.\<close>

type_synonym live_scopes = "string \<Rightarrow> string \<Rightarrow> string list result"

record ('w, 'l, 'r) gateway =
  gw_reg :: "('w, 'l) registry"
  gw_policy :: engine
  gw_tokens :: "'r service"
  gw_live :: "live_scopes option"

record call_result =
  res_Output :: string
  res_Duration :: duration

definition ErrNoToken :: goerr where "ErrNoToken = ErrNew ''missing or invalid run token''"
definition ErrUnknownTool :: goerr where "ErrUnknownTool = ErrNew ''unknown tool''"
definition ErrPolicyDenied :: goerr where "ErrPolicyDenied = ErrNew ''denied by policy''"
definition ErrRateLimited :: goerr where "ErrRateLimited = ErrNew ''tool rate limited''"
definition ErrEgressBlocked :: goerr where "ErrEgressBlocked = ErrNew ''egress target not allowlisted''"

section \<open>Registry\<close>

definition NewRegistry :: "int \<Rightarrow> ('w, 'l) registry" where
  "NewRegistry maxOutputBytes = \<lparr>rg_tools = Map.empty, rg_filters = [], rg_maxOut = maxOutputBytes\<rparr>"

definition Register ::
  "('q, 'l) rate_lib \<Rightarrow> tool_def \<Rightarrow> 'w executor \<Rightarrow> 'w injector option \<Rightarrow> 'q \<Rightarrow> ('w, 'l) registry \<Rightarrow> ('w, 'l) registry" where
  "Register rl td exec injector qps reg =
     reg\<lparr>rg_tools := (rg_tools reg)(td_Name td \<mapsto>
       \<lparr>rt_Def = td, rt_Exec = exec, rt_Injector = injector, rt_Limiter = rl_New rl qps 5\<rparr>)\<rparr>"

definition AddFilter :: "(string \<Rightarrow> string) \<Rightarrow> ('w, 'l) registry \<Rightarrow> ('w, 'l) registry" where
  "AddFilter f reg = reg\<lparr>rg_filters := rg_filters reg @ [f]\<rparr>"

definition get_tool :: "string \<Rightarrow> ('w, 'l) registry \<Rightarrow> ('w, 'l) registered_tool option" where
  "get_tool name reg = rg_tools reg name"

text \<open>The catalogue in map iteration order: any order, so the set of definitions.\<close>

definition Catalog :: "('w, 'l) registry \<Rightarrow> tool_def set" where
  "Catalog reg = rt_Def ` ran (rg_tools reg)"

definition NewGateway :: "('w, 'l) registry \<Rightarrow> engine \<Rightarrow> 'r service \<Rightarrow> ('w, 'l, 'r) gateway" where
  "NewGateway reg pol tokens = \<lparr>gw_reg = reg, gw_policy = pol, gw_tokens = tokens, gw_live = None\<rparr>"

definition SetLiveScopes :: "live_scopes \<Rightarrow> ('w, 'l, 'r) gateway \<Rightarrow> ('w, 'l, 'r) gateway" where
  "SetLiveScopes ls g = g\<lparr>gw_live := Some ls\<rparr>"

section \<open>The call pipeline\<close>

definition consentScopes :: "live_scopes option \<Rightarrow> claims \<Rightarrow> string list" where
  "consentScopes live c =
     (case live of
        None \<Rightarrow> cl_Grants c
      | Some ls \<Rightarrow> (case ls (cl_OrgID c) (cl_UserID c) of Inl _ \<Rightarrow> cl_Grants c | Inr scopes \<Rightarrow> scopes))"

definition toolRequest :: "claims \<Rightarrow> string list \<Rightarrow> string \<Rightarrow> tool_def \<Rightarrow> policy_request" where
  "toolRequest c consents toolName td =
     \<lparr>pr_OrgID = cl_OrgID c, pr_UserID = cl_UserID c, pr_Action = ''tool.call'', pr_Resource = toolName,
      pr_RequiredScope = td_RequiredScope td, pr_Consents = consents, pr_AgentScopes = cl_Grants c\<rparr>"

definition capOutput :: "int \<Rightarrow> string \<Rightarrow> string" where
  "capOutput maxOut output =
     (if maxOut > 0 \<and> int (length output) > maxOut
      then take (nat maxOut) output @ [CHR 0x0A] @ ''[truncated]'' else output)"

definition applyFilters :: "(string \<Rightarrow> string) list \<Rightarrow> string \<Rightarrow> string" where
  "applyFilters fs output = fold (\<lambda>f out. f out) fs output"

text \<open>
  The clock is read at the start (\<open>t0\<close>), in \<^verbatim>\<open>Validate\<close> (\<open>t1\<close>), by the limiter (\<open>t2\<close>) and at the
  end (\<open>t3\<close>); \<open>r\<close> is the state of the revocation list.  The limiter is shared through the registry,
  so its state is written back there.
\<close>

definition Call ::
  "('q, 'l) rate_lib \<Rightarrow> opa \<Rightarrow> time \<Rightarrow> time \<Rightarrow> time \<Rightarrow> time \<Rightarrow> 'r \<Rightarrow> string \<Rightarrow> string \<Rightarrow> string
   \<Rightarrow> ('w, 'l, 'r) gateway \<Rightarrow> 'w \<Rightarrow> call_result result \<times> ('w, 'l, 'r) gateway \<times> 'w" where
  "Call rl rg t0 t1 t2 t3 r runToken toolName input g w =
     (case Validate (gw_tokens g) t1 r runToken of
        Inl err \<Rightarrow> (Inl (wrapV ErrNoToken (errText err)), g, w)
      | Inr c \<Rightarrow>
     (case get_tool toolName (gw_reg g) of
        None \<Rightarrow> (Inl (wrapQ ErrUnknownTool toolName), g, w)
      | Some rt \<Rightarrow>
     (let d = Can rg (gw_policy g) (toolRequest c (consentScopes (gw_live g) c) toolName (rt_Def rt)) in
      if \<not> dc_Allowed d then (Inl (wrapV ErrPolicyDenied (reasonText (dc_Reason d))), g, w)
      else
     (let (limited, l') = rl_Wait rl t2 (rt_Limiter rt);
          g' = g\<lparr>gw_reg := (gw_reg g)\<lparr>rg_tools := (rg_tools (gw_reg g))(toolName \<mapsto> rt\<lparr>rt_Limiter := l'\<rparr>)\<rparr>\<rparr>
      in case limited of
        Some err \<Rightarrow> (Inl (wrapV ErrRateLimited (errText err)), g', w)
      | None \<Rightarrow>
     (case rt_Exec rt input w of
        (Inl err, w') \<Rightarrow> (Inl (ErrWrap (''tool error: '' @ errText err) err), g', w')
      | (Inr output, w') \<Rightarrow>
          (Inr \<lparr>res_Output = applyFilters (rg_filters (gw_reg g)) (capOutput (rg_maxOut (gw_reg g)) output),
                res_Duration = t3 - t0\<rparr>, g', w'))))))"

section \<open>Built-in tools\<close>

definition cutAt :: "string \<Rightarrow> string \<Rightarrow> string" where
  "cutAt sep s = (case Index s sep of Some i \<Rightarrow> take i s | None \<Rightarrow> s)"

definition extractHost :: "string \<Rightarrow> string" where
  "extractHost rawURL =
     cutAt '':'' (cutAt ''/'' (TrimPrefix (TrimPrefix rawURL ''https://'') ''http://''))"

fun hostAllowed :: "string \<Rightarrow> string list \<Rightarrow> bool" where
  "hostAllowed host [] = False"
| "hostAllowed host (allowed # rest) =
     (if host = allowed \<or> HasSuffix host (''.'' @ allowed) then True else hostAllowed host rest)"

definition wouldFetch :: "string \<Rightarrow> string" where
  "wouldFetch host =
     ''{'' @ goQuote ''status'' @ '':'' @ goQuote ''would-fetch'' @ '','' @ goQuote ''host'' @ '':'' @ goQuote host @ ''}''"

text \<open>\<open>parseURL\<close> is \<^verbatim>\<open>json.Unmarshal\<close> into the request structure, giving its \<^verbatim>\<open>url\<close> member.\<close>

definition HTTPRequestTool :: "(string \<Rightarrow> string result) \<Rightarrow> string list \<Rightarrow> 'w executor" where
  "HTTPRequestTool parseURL allowlist input w =
     (case parseURL input of
        Inl err \<Rightarrow> (Inl (ErrWrap (''invalid input: '' @ errText err) err), w)
      | Inr url \<Rightarrow>
          (let host = extractHost url in
           if host = [] then (Inl (ErrNew ''missing url''), w)
           else if hostAllowed host allowlist then (Inr (wouldFetch host), w)
           else (Inl ErrEgressBlocked, w)))"

definition WebSearchTool :: "'w injector option \<Rightarrow> 'w executor" where
  "WebSearchTool injector input w =
     (Inr (''{'' @ goQuote ''results'' @ '':[{'' @ goQuote ''title'' @ '':'' @ goQuote ''example'' @ '',''
           @ goQuote ''url'' @ '':'' @ goQuote ''https://example.com'' @ ''}]}''), w)"

definition CodeInterpreterTool :: "(string \<Rightarrow> string result) \<Rightarrow> 'w injector option \<Rightarrow> 'w executor" where
  "CodeInterpreterTool parseCode injector input w =
     (let (injected, w1) = (case injector of None \<Rightarrow> (None, w)
                            | Some f \<Rightarrow> (case f ''code-interpreter'' w of (Inl e, w') \<Rightarrow> (Some e, w') | (Inr _, w') \<Rightarrow> (None, w')))
      in case injected of
        Some e \<Rightarrow> (Inl e, w1)
      | None \<Rightarrow>
          (case parseCode input of
             Inl e \<Rightarrow> (Inl e, w1)
           | Inr code \<Rightarrow>
               (Inr (''{'' @ goQuote ''executed'' @ '':true,'' @ goQuote ''bytes'' @ '':'' @ showNat (length code) @ ''}''), w1)))"

section \<open>Facts about the pipeline\<close>

lemma Call_cases:
  assumes "Call rl rg t0 t1 t2 t3 r runToken toolName input g w = (res, g', w')"
  obtains (no_token) err where "Validate (gw_tokens g) t1 r runToken = Inl err"
      "res = Inl (wrapV ErrNoToken (errText err))" "g' = g" "w' = w"
  | (unknown) c where "Validate (gw_tokens g) t1 r runToken = Inr c" "get_tool toolName (gw_reg g) = None"
      "res = Inl (wrapQ ErrUnknownTool toolName)" "g' = g" "w' = w"
  | (denied) c rt d where "Validate (gw_tokens g) t1 r runToken = Inr c" "get_tool toolName (gw_reg g) = Some rt"
      "d = Can rg (gw_policy g) (toolRequest c (consentScopes (gw_live g) c) toolName (rt_Def rt))" "\<not> dc_Allowed d"
      "res = Inl (wrapV ErrPolicyDenied (reasonText (dc_Reason d)))" "g' = g" "w' = w"
  | (limited) c rt l' err where "Validate (gw_tokens g) t1 r runToken = Inr c" "get_tool toolName (gw_reg g) = Some rt"
      "dc_Allowed (Can rg (gw_policy g) (toolRequest c (consentScopes (gw_live g) c) toolName (rt_Def rt)))"
      "rl_Wait rl t2 (rt_Limiter rt) = (Some err, l')" "res = Inl (wrapV ErrRateLimited (errText err))" "w' = w"
  | (executed) c rt l' out where "Validate (gw_tokens g) t1 r runToken = Inr c" "get_tool toolName (gw_reg g) = Some rt"
      "dc_Allowed (Can rg (gw_policy g) (toolRequest c (consentScopes (gw_live g) c) toolName (rt_Def rt)))"
      "rl_Wait rl t2 (rt_Limiter rt) = (None, l')" "rt_Exec rt input w = (out, w')"
      "res = (case out of Inl err \<Rightarrow> Inl (ErrWrap (''tool error: '' @ errText err) err)
              | Inr output \<Rightarrow> Inr \<lparr>res_Output = applyFilters (rg_filters (gw_reg g)) (capOutput (rg_maxOut (gw_reg g)) output),
                                  res_Duration = t3 - t0\<rparr>)"
proof (cases "Validate (gw_tokens g) t1 r runToken")
  case (Inl err)
  with assms show thesis by (intro no_token [OF Inl]) (auto simp: Call_def)
next
  case (Inr c)
  show thesis
  proof (cases "get_tool toolName (gw_reg g)")
    case None
    with Inr assms show thesis by (intro unknown [OF Inr None]) (auto simp: Call_def)
  next
    case (Some rt)
    obtain lim l' where lim: "rl_Wait rl t2 (rt_Limiter rt) = (lim, l')" by force
    obtain out w1 where out: "rt_Exec rt input w = (out, w1)" by force
    let ?d = "Can rg (gw_policy g) (toolRequest c (consentScopes (gw_live g) c) toolName (rt_Def rt))"
    show thesis
    proof (cases "dc_Allowed ?d")
      case False
      with Inr Some assms show thesis by (intro denied [OF Inr Some refl]) (auto simp: Call_def Let_def)
    next
      case True
      show thesis
      proof (cases lim)
        case None
        with True Inr Some assms lim out have "w' = w1"
          by (auto simp: Call_def Let_def split: sum.splits)
        with None True Inr Some assms lim out show thesis
          by (intro executed [OF Inr Some True]) (auto simp: Call_def Let_def split: sum.splits)
      next
        case (Some err)
        with True Inr \<open>get_tool toolName (gw_reg g) = Some rt\<close> assms lim show thesis
          by (intro limited [OF Inr \<open>get_tool toolName (gw_reg g) = Some rt\<close> True]) (auto simp: Call_def Let_def)
      qed
    qed
  qed
qed

text \<open>The gateway behind the "no token, no egress" rule; its own state is part of the world.\<close>

interpretation tg: run_token_gate "\<lambda>(g, w). gw_tokens g" t1 r
    "\<lambda>token (g, w). Call rl rg t0 t1 t2 t3 r token toolName input g w"
  for t1 r rl rg t0 t2 t3 toolName input
  by unfold_locales (auto simp: Call_def)

lemma capOutput_length: "maxOut > 0 \<Longrightarrow> int (length (capOutput maxOut out)) \<le> maxOut + 12"
  by (auto simp: capOutput_def)

section \<open>Properties\<close>

text \<open>
  C1. A tool runs only behind every gate.  If a call succeeds or changes the world at all, then the
  token is valid, the tool is registered, an organisation pattern admits it, its required scope (if
  any) is both consented and declared in the token, and the rate limiter admitted it; and then the
  executor ran exactly once on the given input, the world is what it left, and its output was
  capped and filtered.
\<close>

theorem call_gated:
  assumes "Call rl rg t0 t1 t2 t3 r runToken toolName input g w = (res, g', w')"
    and "w' \<noteq> w \<or> (\<exists>v. res = Inr v)"
  shows "\<exists>c rt l' out. Validate (gw_tokens g) t1 r runToken = Inr c \<and> rg_tools (gw_reg g) toolName = Some rt \<and>
    orgLayer rg (gw_policy g) \<lparr>pi_org = cl_OrgID c, pi_user = cl_UserID c, pi_action = ''tool.call'', pi_resource = toolName\<rparr> \<and>
    (td_RequiredScope (rt_Def rt) = [] \<or>
     td_RequiredScope (rt_Def rt) \<in> set (consentScopes (gw_live g) c) \<inter> set (cl_Grants c)) \<and>
    rl_Wait rl t2 (rt_Limiter rt) = (None, l') \<and> rt_Exec rt input w = (out, w') \<and>
    (\<forall>v. res = Inr v \<longrightarrow> (\<exists>output. out = Inr output \<and>
       res_Output v = applyFilters (rg_filters (gw_reg g)) (capOutput (rg_maxOut (gw_reg g)) output)))"
  using assms(1)
proof (cases rule: Call_cases)
  case (executed c rt l' out)
  from executed(3) have "orgLayer rg (gw_policy g)
      \<lparr>pi_org = cl_OrgID c, pi_user = cl_UserID c, pi_action = ''tool.call'', pi_resource = toolName\<rparr>"
    and "td_RequiredScope (rt_Def rt) = [] \<or>
      td_RequiredScope (rt_Def rt) \<in> set (consentScopes (gw_live g) c) \<inter> set (cl_Grants c)"
    by (simp_all add: Can_allowed_iff toolRequest_def requestInput_def)
  moreover have "\<forall>v. res = Inr v \<longrightarrow> (\<exists>output. out = Inr output \<and>
       res_Output v = applyFilters (rg_filters (gw_reg g)) (capOutput (rg_maxOut (gw_reg g)) output))"
    using executed(6) by (auto split: sum.splits)
  ultimately show ?thesis using executed(1,2,4,5) unfolding get_tool_def by blast
qed (use assms(2) in auto)

definition exTool :: "(nat, unit) registered_tool" where
  "exTool = \<lparr>rt_Def = \<lparr>td_Name = ''http_request'', td_Description = [], td_InputSchema = [], td_RequiredScope = ''net:fetch''\<rparr>,
     rt_Exec = (\<lambda>input n. (Inr ''done'', Suc n)), rt_Injector = None, rt_Limiter = ()\<rparr>"

definition exRate :: "(nat, unit) rate_lib" where
  "exRate = \<lparr>rl_New = (\<lambda>_ _. ()), rl_Wait = (\<lambda>_ l. (None, l))\<rparr>"

definition exGateway :: "(nat, unit, string \<rightharpoonup> string \<times> time) gateway" where
  "exGateway = NewGateway (Register exRate (rt_Def exTool) (rt_Exec exTool) None 10 (NewRegistry 100)) exEngine exService"

lemma ex_tool_simps:
  "td_RequiredScope (rt_Def exTool) = ''net:fetch''" "rt_Exec exTool input n = (Inr ''done'', Suc n)"
  "rl_Wait exRate t l = (None, l)"
  by (simp_all add: exTool_def exRate_def)

lemma ex_gateway_simps:
  "gw_tokens exGateway = exService" "gw_live exGateway = None" "gw_policy exGateway = exEngine"
  "get_tool ''http_request'' (gw_reg exGateway) = Some exTool" "rg_filters (gw_reg exGateway) = []"
  "rg_maxOut (gw_reg exGateway) = 100"
  by (simp_all add: exGateway_def NewGateway_def Register_def NewRegistry_def exTool_def exRate_def get_tool_def)

lemma ex_allowed:
  "dc_Allowed (Can exOpa exEngine (toolRequest (exClaims 0 900) (consentScopes None (exClaims 0 900)) ''http_request'' (rt_Def exTool)))"
  by (simp add: Can_def evalAllow_def exOpa_def orgAllows_def exEngine_def toolRequest_def requestInput_def
      consentScopes_def exClaims_def exTool_def)

lemma ex_call:
  "\<exists>g'. Call exRate exOpa 0 (5 * Second) 0 7 Map.empty (encode exService (exClaims 0 900)) ''http_request'' [] exGateway 3
     = (Inr \<lparr>res_Output = ''done'', res_Duration = 7\<rparr>, g', 4)"
  using ex_allowed
  by (simp add: Call_def ex_gateway_simps ex_validate ex_tool_simps capOutput_def applyFilters_def)

theorem call_gated_witness:
  "\<exists>c out. Validate exService (5 * Second) Map.empty (encode exService (exClaims 0 900)) = Inr c \<and>
     rt_Exec exTool [] 3 = (out, 4)"
proof -
  from ex_call obtain g' where
    "Call exRate exOpa 0 (5 * Second) 0 7 Map.empty (encode exService (exClaims 0 900)) ''http_request'' [] exGateway 3
     = (Inr \<lparr>res_Output = ''done'', res_Duration = 7\<rparr>, g', 4)" by blast
  from call_gated [OF this] show ?thesis
    using ex_gateway_simps(1,4) by (auto simp: get_tool_def)
qed



section \<open>The egress allowlist\<close>

lemma cutAt_char: "cutAt [c] s = takeWhile (\<lambda>x. x \<noteq> c) s"
proof (induction s)
  case Nil
  then show ?case by (simp add: cutAt_def Index.simps)
next
  case (Cons x xs)
  have "Index (x # xs) [c] = (if x = c then Some 0 else map_option Suc (Index xs [c]))"
    by (subst Index.simps) simp
  with Cons show ?case by (auto simp: cutAt_def split: option.splits)
qed

lemma hostAllowed_iff: "hostAllowed host as \<longleftrightarrow> (\<exists>a \<in> set as. host = a \<or> suffix (''.'' @ a) host)"
  by (induction as) (auto simp: HasSuffix_def)

lemma takeWhile_stop: "c \<notin> set xs \<Longrightarrow> rest = [] \<or> hd rest = c \<Longrightarrow> takeWhile (\<lambda>x. x \<noteq> c) (xs @ rest) = xs"
  by (cases rest) (auto simp: takeWhile_append)

lemma extractHost_https:
  assumes "\<not> prefix ''http://'' s"
  shows "extractHost (''https://'' @ s) = takeWhile (\<lambda>x. x \<noteq> CHR '':'') (takeWhile (\<lambda>x. x \<noteq> CHR ''/'') s)"
proof -
  have "TrimPrefix (''https://'' @ s) ''https://'' = s" by (rule TrimPrefix_append)
  with assms show ?thesis by (simp add: extractHost_def cutAt_char) (simp add: TrimPrefix_def)
qed

lemma takeWhile_none: "c \<notin> set xs \<Longrightarrow> takeWhile (\<lambda>x. x \<noteq> c) (xs @ ys) = xs @ takeWhile (\<lambda>x. x \<noteq> c) ys"
  by (rule takeWhile_append2) auto

text \<open>What may follow the host of an absolute URL: nothing, a path, or a port and then a path.\<close>

definition afterHost :: "string \<Rightarrow> bool" where
  "afterHost rest \<longleftrightarrow> rest = [] \<or> hd rest = CHR ''/'' \<or>
     (\<exists>port path. rest = '':'' @ port @ path \<and> port \<noteq> [] \<and> CHR ''/'' \<notin> set port \<and> (path = [] \<or> hd path = CHR ''/''))"

lemma afterHost_not_scheme:
  assumes "CHR '':'' \<notin> set host" and "CHR ''/'' \<notin> set host" and "afterHost rest"
  shows "\<not> prefix ''http://'' (host @ rest)"
proof
  assume "prefix ''http://'' (host @ rest)"
  then obtain z where z: "host @ rest = ''http://'' @ z" by (auto simp: prefix_def)
  have "rest \<noteq> []" using z assms(1) by auto
  moreover have "hd rest \<noteq> CHR ''/''"
  proof
    assume "hd rest = CHR ''/''"
    with \<open>rest \<noteq> []\<close> have "host = takeWhile (\<lambda>x. x \<noteq> CHR ''/'') (host @ rest)"
      using assms(2) by (simp add: takeWhile_stop)
    also have "\<dots> = ''http:''" unfolding z by simp
    finally show False using assms(1) by simp
  qed
  ultimately obtain port path where p: "rest = '':'' @ port @ path" "port \<noteq> []" "CHR ''/'' \<notin> set port"
    using assms(3) by (auto simp: afterHost_def)
  have "host = takeWhile (\<lambda>x. x \<noteq> CHR '':'') (host @ rest)"
    using assms(1) p(1) by (simp add: takeWhile_none)
  also have "\<dots> = ''http''" unfolding z by simp
  finally show False using z p by (cases port) auto
qed

lemma extractHost_afterHost:
  assumes "CHR '':'' \<notin> set host" and "CHR ''/'' \<notin> set host" and "afterHost rest"
  shows "extractHost (''https://'' @ host @ rest) = host"
proof -
  from assms(3) consider "rest = []" | "rest \<noteq> []" "hd rest = CHR ''/''"
    | port path where "rest = '':'' @ port @ path" "CHR ''/'' \<notin> set port" "path = [] \<or> hd path = CHR ''/''"
    by (auto simp: afterHost_def)
  then have "takeWhile (\<lambda>x. x \<noteq> CHR '':'') (takeWhile (\<lambda>x. x \<noteq> CHR ''/'') (host @ rest)) = host"
  proof cases
    case 1
    with assms(1,2) show ?thesis by (metis append_Nil2 takeWhile_stop)
  next
    case 2
    with takeWhile_stop [OF assms(1), of "[]"] takeWhile_stop [OF assms(2), of rest] show ?thesis by simp
  next
    case 3
    with assms(1,2) takeWhile_stop [of "CHR ''/''" port path] show ?thesis by (simp add: takeWhile_none)
  qed
  with extractHost_https [OF afterHost_not_scheme [OF assms]] show ?thesis by simp
qed

text \<open>
  For a URL made of a scheme, a host and then an end, a port or a path, the built-in HTTP tool
  admits the request exactly when the host is on the allowlist or a subdomain of an entry, and
  answers \<^verbatim>\<open>ErrEgressBlocked\<close> otherwise.
\<close>

theorem http_tool_allowlist:
  assumes "parseURL input = Inr (''https://'' @ host @ rest)"
    and "host \<noteq> []" and "CHR '':'' \<notin> set host" and "CHR ''/'' \<notin> set host" and "afterHost rest"
  shows "HTTPRequestTool parseURL allowlist input w =
    (if \<exists>a \<in> set allowlist. host = a \<or> suffix (''.'' @ a) host then Inr (wouldFetch host) else Inl ErrEgressBlocked, w)"
  using assms(1,2) extractHost_afterHost [OF assms(3-5)]
  unfolding HTTPRequestTool_def hostAllowed_iff by (simp only: sum.case Let_def if_False) simp

theorem http_tool_allowlist_witness:
  "HTTPRequestTool Inr [''github.com''] ''https://api.github.com:443/x'' (0 :: nat) = (Inr (wouldFetch ''api.github.com''), 0) \<and>
   HTTPRequestTool Inr [''github.com''] ''https://evilgithub.com'' (0 :: nat) = (Inl ErrEgressBlocked, 0)"
proof -
  have "afterHost '':443/x''" unfolding afterHost_def
    by (intro disjI2 exI [of _ "''443''"] exI [of _ "''/x''"]) simp
  moreover have "afterHost []" by (simp add: afterHost_def)
  ultimately show ?thesis
    using http_tool_allowlist [of Inr "''https://api.github.com:443/x''" "''api.github.com''" "'':443/x''" "[''github.com'']" "0::nat"]
      http_tool_allowlist [of Inr "''https://evilgithub.com''" "''evilgithub.com''" "[]" "[''github.com'']" "0::nat"]
    by (simp add: suffix_def Cons_eq_append_conv)
qed

text \<open>
  The allowlist check looks at the text before the first slash and colon and not at the host of
  the URL: a query string that ends in an allowlisted domain and a user name that equals one are
  both admitted, whatever the host.
\<close>

theorem http_tool_allowlist_bypass:
  assumes "a \<noteq> []" and "CHR '':'' \<notin> set a" and "CHR ''/'' \<notin> set a" and "a \<in> set allowlist"
    and "CHR '':'' \<notin> set evil" and "CHR ''/'' \<notin> set evil"
    and "parseURL i1 = Inr (''https://'' @ evil @ ''?.'' @ a)"
    and "parseURL i2 = Inr (''https://'' @ a @ '':x@'' @ evil)"
  shows "fst (HTTPRequestTool parseURL allowlist i1 w) = Inr (wouldFetch (evil @ ''?.'' @ a)) \<and>
    fst (HTTPRequestTool parseURL allowlist i2 w) = Inr (wouldFetch a)"
proof -
  have "extractHost (''https://'' @ (evil @ ''?.'' @ a) @ []) = evil @ ''?.'' @ a"
    by (rule extractHost_afterHost) (use assms(2,3,5,6) in \<open>simp_all add: afterHost_def\<close>)
  moreover have "afterHost ('':x@'' @ evil)" unfolding afterHost_def
    using assms(6) by (intro disjI2 exI [of _ "''x@'' @ evil"] exI [of _ "[]"]) simp
  then have "extractHost (''https://'' @ a @ '':x@'' @ evil) = a"
    by (intro extractHost_afterHost assms(2,3))
  moreover have "suffix (''.'' @ a) (evil @ ''?.'' @ a)" by (rule suffixI [of _ "evil @ ''?''"]) simp
  then have "hostAllowed (evil @ ''?.'' @ a) allowlist" "hostAllowed a allowlist"
    using assms(4) by (auto simp: hostAllowed_iff)
  ultimately show ?thesis
    using assms(1,7,8) by (simp add: HTTPRequestTool_def Let_def)
qed

theorem http_tool_allowlist_bypass_witness:
  "fst (HTTPRequestTool Inr [''github.com''] ''https://evil.example?.github.com'' (0 :: nat)) = Inr (wouldFetch ''evil.example?.github.com'') \<and>
   fst (HTTPRequestTool Inr [''github.com''] ''https://github.com:x@evil.example'' (0 :: nat)) = Inr (wouldFetch ''github.com'')"
  using http_tool_allowlist_bypass [of "''github.com''" "[''github.com'']" "''evil.example''" Inr
      "''https://evil.example?.github.com''" "''https://github.com:x@evil.example''" "0 :: nat"]
  by simp

end
