(* ===== verification/InternalGateway.thy ===== *)
theory InternalGateway
  imports ModelGateway ToolGateway
begin

text \<open>
  \<^verbatim>\<open>internal/registry/internal_gateway.go\<close> and \<^verbatim>\<open>scripted.go\<close>: the HTTP routes through which session pods reach the
  model and the tools, and the scripted model of local runs.  The decoders of the request bodies are parameters.
\<close>

section \<open>The scripted model\<close>

record scripted_completer =
  sc_responses :: "completion_response list"
  sc_calls :: nat

definition plainResponse :: "string \<Rightarrow> string \<Rightarrow> completion_response" where
  "plainResponse content stopReason =
     \<lparr>cs_Content = content, cs_StopReason = stopReason, cs_InputTokens = 0, cs_OutputTokens = 0, cs_Provider = []\<rparr>"

definition NewScriptedCompleter :: "completion_response list \<Rightarrow> scripted_completer" where
  "NewScriptedCompleter responses =
     \<lparr>sc_responses = (if responses = [] then [plainResponse ''Acknowledged. No scripted responses configured.'' ''end_turn''] else responses),
      sc_calls = 0\<rparr>"

text \<open>The file's entries as they are left by the decoder, whose error is dropped; \<open>None\<close> is a file that cannot be read.\<close>

definition NewScriptedCompleterFromEnv :: "string option \<Rightarrow> (string \<Rightarrow> (string \<times> string) list) \<Rightarrow> scripted_completer" where
  "NewScriptedCompleterFromEnv file unmarshal =
     (let entries = (case file of None \<Rightarrow> [] | Some data \<Rightarrow> unmarshal data)
      in NewScriptedCompleter (map (\<lambda>(content, stopReason). plainResponse content stopReason) entries))"

definition scriptedComplete :: "completion_request \<Rightarrow> scripted_completer \<Rightarrow> completion_response result \<times> scripted_completer" where
  "scriptedComplete req s =
     (let i = (if sc_calls s \<ge> length (sc_responses s) then length (sc_responses s) - 1 else sc_calls s)
      in (Inr (sc_responses s ! i), s\<lparr>sc_calls := sc_calls s + 1\<rparr>))"

section \<open>The gateway\<close>

record complete_body =
  cb_RunID :: string
  cb_Agent :: string
  cb_UserID :: string
  cb_OrgID :: string
  cb_Model :: string
  cb_Messages :: "message list"
  cb_MaxTokens :: int

record tool_body =
  tb_RunToken :: string
  tb_Tool :: string
  tb_Input :: string

datatype internal_body =
    InternalError string
  | InternalCompletion completion_response
  | InternalResult call_result
  | InternalCatalog "tool_def set"

text \<open>The states behind the routes: of the model, of the tool gateway, and the world its tools act on.\<close>

type_synonym ('m, 'w, 'l, 'r) planes = "'m \<times> ('w, 'l, 'r) gateway \<times> 'w"

type_synonym 'm completer = "completion_request \<Rightarrow> 'm \<Rightarrow> completion_response result \<times> 'm"

definition internalBearer :: "string \<Rightarrow> string" where
  "internalBearer h =
     (if 7 < length h \<and> (take 7 h = ''Bearer '' \<or> take 7 h = ''bearer '') then TrimSpace (drop 7 h) else [])"

definition authRoute ::
  "'r service \<Rightarrow> time \<Rightarrow> 'r \<Rightarrow> string \<Rightarrow> ('s \<Rightarrow> (int \<times> internal_body) \<times> 's) \<Rightarrow> 's \<Rightarrow> (int \<times> internal_body) \<times> 's" where
  "authRoute tokens t r token next s =
     (case Validate tokens t r token of Inl _ \<Rightarrow> ((401, InternalError ''invalid run token''), s) | Inr _ \<Rightarrow> next s)"

definition completionRequestOf :: "complete_body \<Rightarrow> completion_request" where
  "completionRequestOf b =
     \<lparr>cq_Model = cb_Model b, cq_Messages = cb_Messages b, cq_MaxTokens = cb_MaxTokens b, cq_RunID = cb_RunID b, cq_Agent = cb_Agent b,
      cq_UserID = cb_UserID b, cq_OrgID = cb_OrgID b\<rparr>"

definition completeRoute ::
  "(string \<Rightarrow> complete_body result) \<Rightarrow> 'm completer \<Rightarrow> string \<Rightarrow> ('m, 'w, 'l, 'r) planes \<Rightarrow> (int \<times> internal_body) \<times> ('m, 'w, 'l, 'r) planes" where
  "completeRoute unmarshal model body s =
     (case unmarshal body of
        Inl _ \<Rightarrow> ((400, InternalError ''bad body''), s)
      | Inr b \<Rightarrow>
     (case s of (m, g, w) \<Rightarrow>
       (case model (completionRequestOf b) m of
          (Inl err, m') \<Rightarrow> ((502, InternalError (errText err)), m', g, w)
        | (Inr resp, m') \<Rightarrow> ((200, InternalCompletion resp), m', g, w))))"

text \<open>The four readings of the clock by \<^const>\<open>Call\<close>, and its rate limiter and policy library.\<close>

record ('q, 'l) call_env =
  ce_rate :: "('q, 'l) rate_lib"
  ce_opa :: opa
  ce_times :: "nat \<Rightarrow> time"

definition callToolRoute ::
  "(string \<Rightarrow> tool_body result) \<Rightarrow> ('q, 'l) call_env \<Rightarrow> 'r \<Rightarrow> string \<Rightarrow> ('m, 'w, 'l, 'r) planes
   \<Rightarrow> (int \<times> internal_body) \<times> ('m, 'w, 'l, 'r) planes" where
  "callToolRoute unmarshal e r body s =
     (case unmarshal body of
        Inl _ \<Rightarrow> ((400, InternalError ''bad body''), s)
      | Inr b \<Rightarrow>
     (case s of (m, g, w) \<Rightarrow>
       (case Call (ce_rate e) (ce_opa e) (ce_times e 0) (ce_times e 1) (ce_times e 2) (ce_times e 3) r (tb_RunToken b) (tb_Tool b) (tb_Input b) g w of
          (Inl err, g', w') \<Rightarrow> ((403, InternalError (errText err)), m, g', w')
        | (Inr res, g', w') \<Rightarrow> ((200, InternalResult res), m, g', w'))))"

definition catalogRoute :: "('m, 'w, 'l, 'r) planes \<Rightarrow> (int \<times> internal_body) \<times> ('m, 'w, 'l, 'r) planes" where
  "catalogRoute s = ((200, InternalCatalog (Catalog (gw_reg (fst (snd s))))), s)"

definition internalServe ::
  "'r service \<Rightarrow> (string \<Rightarrow> complete_body result) \<Rightarrow> (string \<Rightarrow> tool_body result) \<Rightarrow> 'm completer \<Rightarrow> ('q, 'l) call_env \<Rightarrow> time \<Rightarrow> 'r
   \<Rightarrow> string \<Rightarrow> string \<Rightarrow> string \<Rightarrow> ('m, 'w, 'l, 'r) planes \<Rightarrow> (int \<times> internal_body) \<times> ('m, 'w, 'l, 'r) planes" where
  "internalServe tokens dc dt model e t r path body token s =
     (if path = ''/internal/llm/complete'' then authRoute tokens t r token (completeRoute dc model body) s
      else if path = ''/internal/tools/call'' then authRoute tokens t r token (callToolRoute dt e r body) s
      else if path = ''/internal/tools/catalog'' then authRoute tokens t r token catalogRoute s
      else ((404, InternalError ''404 page not found''), s))"

section \<open>Facts\<close>

text \<open>The routes behind the "no token, no egress" rule: a response other than 200 counts as an error.\<close>

definition asResult :: "(int \<times> internal_body) \<times> 's \<Rightarrow> internal_body result \<times> 's" where
  "asResult out = (case out of ((code, b), s) \<Rightarrow> ((if code = 200 then Inr b else Inl (ErrNew ''refused'')), s))"

interpretation ig: run_token_gate "\<lambda>_. tokens" t r "\<lambda>token s. asResult (internalServe tokens dc dt model e t r path body token s)"
  for tokens t r dc dt model e path body
  by unfold_locales (auto simp: internalServe_def authRoute_def asResult_def)

lemma completeRoute_world:
  "completeRoute dc model body (m, g, w) = (out, m', g', w') \<Longrightarrow> g' = g \<and> w' = w"
  by (auto simp: completeRoute_def split: sum.splits prod.splits)

text \<open>
  No route acts without a valid run token in the request's header.  Tools are reached through the tool route only, and
  then the run token of the body is valid as well, the tool is registered, the policy admits it for that token's claims,
  and its executor is what acted; the answer is 200 exactly if it succeeded.
\<close>

theorem internal_routes_gated:
  assumes "internalServe tokens dc dt model e t r path body (internalBearer hdr) (m, g, w) = ((code, out), m', g', w')"
  shows "(code = 200 \<or> (m', g', w') \<noteq> (m, g, w) \<longrightarrow> (\<exists>c. Validate tokens t r (internalBearer hdr) = Inr c)) \<and>
    (w' \<noteq> w \<longrightarrow> path = ''/internal/tools/call'' \<and>
      (\<exists>b c rt res. dt body = Inr b \<and> Validate (gw_tokens g) (ce_times e 1) r (tb_RunToken b) = Inr c \<and>
        get_tool (tb_Tool b) (gw_reg g) = Some rt \<and>
        dc_Allowed (Can (ce_opa e) (gw_policy g) (toolRequest c (consentScopes (gw_live g) c) (tb_Tool b) (rt_Def rt))) \<and>
        rt_Exec rt (tb_Input b) w = (res, w') \<and> (code = 200 \<longleftrightarrow> (\<exists>v. res = Inr v))))"
proof (rule conjI; intro impI)
  assume act: "code = 200 \<or> (m', g', w') \<noteq> (m, g, w)"
  show "\<exists>c. Validate tokens t r (internalBearer hdr) = Inr c"
  proof (cases "Validate tokens t r (internalBearer hdr)")
    case (Inl err)
    from ig.rejected [OF this, of dc dt model e path body "(m, g, w)"] assms act show ?thesis by (auto simp: asResult_def split: if_splits)
  qed blast
next
  assume ne: "w' \<noteq> w"
  have path: "path = ''/internal/tools/call''"
  proof (rule ccontr)
    assume "path \<noteq> ''/internal/tools/call''"
    then have "w' = w"
      using assms completeRoute_world [of dc model body m g w]
      by (auto simp: internalServe_def authRoute_def catalogRoute_def split: if_splits sum.splits)
    with ne show False by simp
  qed
  have call: "callToolRoute dt e r body (m, g, w) = ((code, out), m', g', w')"
    using assms path ne by (auto simp: internalServe_def authRoute_def split: sum.splits)
  then obtain b where b: "dt body = Inr b" using ne by (auto simp: callToolRoute_def split: sum.splits)
  obtain res g1 w1 where cl: "Call (ce_rate e) (ce_opa e) (ce_times e 0) (ce_times e 1) (ce_times e 2) (ce_times e 3) r (tb_RunToken b) (tb_Tool b) (tb_Input b) g w
      = (res, g1, w1)" using prod_cases3 by blast
  have w1: "w1 = w'" "code = 200 \<longleftrightarrow> (\<exists>v. res = Inr v)" using call b cl by (auto simp: callToolRoute_def split: sum.splits)
  from cl show "path = ''/internal/tools/call'' \<and>
      (\<exists>b c rt res. dt body = Inr b \<and> Validate (gw_tokens g) (ce_times e 1) r (tb_RunToken b) = Inr c \<and>
        get_tool (tb_Tool b) (gw_reg g) = Some rt \<and>
        dc_Allowed (Can (ce_opa e) (gw_policy g) (toolRequest c (consentScopes (gw_live g) c) (tb_Tool b) (rt_Def rt))) \<and>
        rt_Exec rt (tb_Input b) w = (res, w') \<and> (code = 200 \<longleftrightarrow> (\<exists>v. res = Inr v)))"
  proof (cases rule: Call_cases)
    case (executed c rt l' ro)
    have "(\<exists>v. res = Inr v) \<longleftrightarrow> (\<exists>v. ro = Inr v)" using executed(6) by (auto split: sum.splits)
    with executed w1 b path show ?thesis by blast
  qed (use ne w1 in auto)
qed

text \<open>The n-th call of the scripted model gives the n-th response, and the last one from then on.\<close>

fun scriptedRun :: "completion_request list \<Rightarrow> scripted_completer \<Rightarrow> completion_response result list" where
  "scriptedRun [] s = []"
| "scriptedRun (q # qs) s = (case scriptedComplete q s of (out, s') \<Rightarrow> out # scriptedRun qs s')"

lemma scriptedRun_nth:
  "n < length qs \<Longrightarrow> sc_responses s \<noteq> [] \<Longrightarrow>
   scriptedRun qs s ! n = Inr (sc_responses s ! min (sc_calls s + n) (length (sc_responses s) - 1))"
proof (induction qs arbitrary: n s)
  case (Cons q qs)
  obtain k where "length (sc_responses s) = Suc k" using Cons.prems(2) by (cases "sc_responses s") auto
  with Cons show ?case by (cases n) (auto simp: scriptedComplete_def Let_def min_def)
qed simp

text \<open>
  A completion is charged to whoever the body names.  With any valid run token, the record that the router's meter gets
  has the user, the organisation and the run of the body, whatever the claims of the token are.
\<close>

theorem completion_charged_to_body:
  assumes "Validate tokens t r token = Inr c" and "dc body = Inr b" and "rt_metered rt"
    and "internalServe tokens dc dt (\<lambda>q m. Complete fl rt wx q m) e t r ''/internal/llm/complete'' body token (m, g, w) = ((200, out), m', g', w')"
  shows "\<exists>u. gw_Recorded m' = gw_Recorded m @ [u] \<and> us_UserID u = cb_UserID b \<and> us_OrgID u = cb_OrgID b \<and> us_RunID u = cb_RunID b"
proof -
  obtain res m1 where cm: "Complete fl rt wx (completionRequestOf b) m = (res, m1)" by fastforce
  then obtain resp where "res = Inr resp" "m1 = m'"
    using assms by (auto simp: internalServe_def authRoute_def completeRoute_def split: sum.splits)
  with cm have c2: "Complete fl rt wx (completionRequestOf b) m = (Inr resp, m')" by simp
  have "\<exists>us. gw_Recorded m' = gw_Recorded m @ us \<and> metering fl rt (completionRequestOf b) (Inr resp) us"
    using walkProviders_metered [of fl rt wx "completionRequestOf b" 0 "candidates rt" None m] c2
    unfolding Complete_def candidates_def [symmetric] by auto
  with assms(3) show ?thesis by (auto simp: metering_def usageOf_def completionRequestOf_def)
qed

section \<open>A concrete request\<close>

definition exToolBody :: tool_body where
  "exToolBody = \<lparr>tb_RunToken = encode exService (exClaims 0 900), tb_Tool = ''http_request'', tb_Input = []\<rparr>"

definition exCallEnv :: "(nat, unit) call_env" where
  "exCallEnv = \<lparr>ce_rate = exRate, ce_opa = exOpa, ce_times = (\<lambda>n. if n = 1 then 5 * Second else if n = 3 then 7 else 0)\<rparr>"

definition exHeader :: string where "exHeader = ''Bearer '' @ encode exService (exClaims 0 900)"

lemma ex_internal_bearer: "internalBearer exHeader = encode exService (exClaims 0 900)"
proof -
  have "encode exService (exClaims 0 900) \<noteq> []" by (simp add: encode_def Let_def)
  then show ?thesis by (simp add: internalBearer_def exHeader_def TrimSpace_encode)
qed

lemma ex_internal_call:
  "\<exists>g'. internalServe exService (\<lambda>_. Inl ErrNoRows) (\<lambda>_. Inr exToolBody) scriptedComplete exCallEnv (5 * Second) Map.empty ''/internal/tools/call'' []
     (internalBearer exHeader) (NewScriptedCompleter [], ToolGateway.exGateway, 3)
   = ((200, InternalResult \<lparr>res_Output = ''done'', res_Duration = 7\<rparr>), NewScriptedCompleter [], g', 4)"
proof -
  obtain g' where "Call exRate exOpa 0 (5 * Second) 0 7 Map.empty (encode exService (exClaims 0 900)) ''http_request'' [] ToolGateway.exGateway 3
     = (Inr \<lparr>res_Output = ''done'', res_Duration = 7\<rparr>, g', 4)" using ex_call by blast
  then show ?thesis
    by (simp add: internalServe_def authRoute_def callToolRoute_def ex_internal_bearer ex_validate exToolBody_def exCallEnv_def)
qed

theorem internal_routes_gated_witness:
  "(\<exists>c. Validate exService (5 * Second) Map.empty (internalBearer exHeader) = Inr c) \<and>
   (\<exists>c rt res. Validate exService (5 * Second) Map.empty (tb_RunToken exToolBody) = Inr c \<and> rt_Exec rt [] (3 :: nat) = (res, 4) \<and>
      get_tool ''http_request'' (gw_reg ToolGateway.exGateway) = Some rt)"
proof -
  obtain g' where "internalServe exService (\<lambda>_. Inl ErrNoRows) (\<lambda>_. Inr exToolBody) scriptedComplete exCallEnv (5 * Second) Map.empty ''/internal/tools/call'' []
     (internalBearer exHeader) (NewScriptedCompleter [], ToolGateway.exGateway, 3)
   = ((200, InternalResult \<lparr>res_Output = ''done'', res_Duration = 7\<rparr>), NewScriptedCompleter [], g', 4)" using ex_internal_call by blast
  from internal_routes_gated [OF this]
  show ?thesis by (auto simp: exCallEnv_def exToolBody_def ex_gateway_simps)
qed

end
