(* ===== verification/KmsConfig.thy ===== *)
theory KmsConfig
  imports Secrets Decimal Base64
begin

text \<open>
  \<^verbatim>\<open>ParseCiphertexts\<close> of \<^verbatim>\<open>internal/secrets/kms.go\<close>, which turns the configuration of the key service into its map, with the
  parts of \<^verbatim>\<open>fmt.Sscanf\<close> and \<^verbatim>\<open>base64.StdEncoding\<close> that it uses.
\<close>

section \<open>Standard Base64\<close>

definition stdVal :: "char \<Rightarrow> nat option" where
  "stdVal c =
     (if c = CHR ''+'' then Some 62 else if c = CHR ''/'' then Some 63
      else if c = CHR ''-'' \<or> c = CHR ''_'' then None else b64Val c)"

definition stdChar :: "nat \<Rightarrow> char" where
  "stdChar n = (if n = 62 then CHR ''+'' else if n = 63 then CHR ''/'' else b64Char n)"

definition stdPad :: "string \<Rightarrow> string" where
  "stdPad s = (if length s mod 3 = 1 then ''=='' else if length s mod 3 = 2 then ''='' else [])"

definition StdEncode :: "string \<Rightarrow> string" where
  "StdEncode s = map stdChar (b64Digits (map of_char s)) @ stdPad s"

text \<open>Decoding skips line ends, wants whole quanta, and takes at most two signs of padding at the end.\<close>

definition StdDecode :: "string \<Rightarrow> string option" where
  "StdDecode s =
     (let t = filter (\<lambda>c. c \<noteq> CHR 0x0D \<and> c \<noteq> CHR 0x0A) s;
          body = (if suffix ''=='' t then take (length t - 2) t else if suffix ''='' t then take (length t - 1) t else t)
      in if length t mod 4 \<noteq> 0 then None
         else (case those (map stdVal body) of None \<Rightarrow> None | Some vs \<Rightarrow> map_option (map char_of) (b64Quanta vs)))"

lemma stdVal_Char: "n < 64 \<Longrightarrow> stdVal (stdChar n) = Some n"
proof -
  assume n: "n < 64"
  have "b64Val CHR ''+'' = None" "b64Val CHR ''/'' = None" "b64Val CHR ''-'' = Some 62" "b64Val CHR ''_'' = Some 63"
    by (simp_all add: b64Val_def)
  with b64Val_Char [OF n] show ?thesis by (auto simp: stdVal_def stdChar_def)
qed

lemma stdVal_reserved: "stdVal CHR 0x0D = None" "stdVal CHR 0x0A = None" "stdVal CHR ''='' = None"
  by (simp_all add: stdVal_def b64Val_def)

lemma stdChar_reserved: "n < 64 \<Longrightarrow> stdChar n \<notin> {CHR 0x0D, CHR 0x0A, CHR ''=''}"
  using stdVal_Char [of n] stdVal_reserved by (metis empty_iff insert_iff option.distinct(1))

lemma those_stdVal: "\<forall>d \<in> set ds. d < 64 \<Longrightarrow> those (map stdVal (map stdChar ds)) = Some ds"
  by (induction ds) (simp_all add: stdVal_Char)

lemma length_b64Digits: "(length (b64Digits xs) + (if length xs mod 3 = 1 then 2 else if length xs mod 3 = 2 then 1 else 0)) mod 4 = 0"
proof (induction xs rule: b64Digits.induct)
  case (4 a b c r)
  have "length (a # b # c # r) mod 3 = length r mod 3" by simp
  moreover have "length (b64Digits (a # b # c # r)) = 4 + length (b64Digits r)" by simp
  ultimately show ?case using 4 by (simp only: add.assoc mod_add_self1)
qed simp_all

lemma no_suffix_pad:
  assumes "CHR ''='' \<notin> set xs"
  shows "\<not> suffix (p @ ''='') xs"
  using assms by (auto simp: suffix_def)

theorem StdDecode_Encode: "StdDecode (StdEncode s) = Some s"
proof -
  let ?ds = "b64Digits (map of_char s) :: nat list" and ?xs = "map stdChar (b64Digits (map of_char s))"
  have small: "\<forall>d \<in> set ?ds. d < 64" by (rule b64Digits_less [OF bytes_less])
  have body: "\<forall>c \<in> set ?xs. c \<noteq> CHR 0x0D \<and> c \<noteq> CHR 0x0A \<and> c \<noteq> CHR ''=''" using small stdChar_reserved by fastforce
  have nl: "filter (\<lambda>c. c \<noteq> CHR 0x0D \<and> c \<noteq> CHR 0x0A) (?xs @ stdPad s) = ?xs @ stdPad s"
    using body by (auto simp: stdPad_def intro!: filter_True)
  have len: "length (?xs @ stdPad s) mod 4 = 0"
    using length_b64Digits [of "map of_char s"] by (simp add: stdPad_def split: if_splits)
  have no: "CHR ''='' \<notin> set ?xs" using body by blast
  then have "\<not> suffix ''=='' ?xs" "\<not> suffix ''='' ?xs" "\<not> suffix ''=='' (?xs @ ''='')"
    using no_suffix_pad [of ?xs "''=''"] no_suffix_pad [of ?xs "[]"] by (auto simp: suffix_def append_eq_append_conv2 append_eq_Cons_conv)
  then have cut: "(if suffix ''=='' (?xs @ stdPad s) then take (length (?xs @ stdPad s) - 2) (?xs @ stdPad s)
      else if suffix ''='' (?xs @ stdPad s) then take (length (?xs @ stdPad s) - 1) (?xs @ stdPad s) else ?xs @ stdPad s) = ?xs"
    by (simp add: stdPad_def suffix_appendI)
  have quanta: "b64Quanta ?ds = Some (map of_char s)" by (rule b64Quanta_Digits [OF bytes_less])
  show ?thesis
    unfolding StdDecode_def StdEncode_def Let_def nl cut using len those_stdVal [OF small] quanta by (simp add: comp_def)
qed

section \<open>Scanning a number\<close>

text \<open>The decoder's error, without its offset.\<close>

definition ErrCorruptInput :: goerr where "ErrCorruptInput = ErrNew ''illegal base64 data''"

definition ErrEOF :: goerr where "ErrEOF = ErrNew ''EOF''"

text \<open>
  \<^verbatim>\<open>Sscanf(s, "%d", &v)\<close>: spaces other than line feeds are skipped, then a sign and the longest run of digits are taken, and
  what follows is ignored.
\<close>

definition scanSpaces :: "string list" where
  "scanSpaces = filter (\<lambda>p. p \<noteq> [CHR 0x0A]) goSpaces"

definition isDigit :: "char \<Rightarrow> bool" where
  "isDigit c \<longleftrightarrow> digitOf c \<noteq> None"

definition Sscanf_d :: "string \<Rightarrow> int result" where
  "Sscanf_d s =
     (let t = trimWith scanSpaces s in
      if t = [] then Inl ErrEOF
      else if hd t = CHR 0x0A then Inl (ErrNew ''unexpected newline'')
      else
        (let (sign, rest) = (if hd t = CHR ''+'' \<or> hd t = CHR ''-'' then ([hd t], tl t) else ([], t));
             digits = takeWhile isDigit rest
         in if rest = [] then Inl ErrEOF
            else if digits = [] then Inl (ErrNew ''expected integer'')
            else
              (case ParseInt (sign @ digits) of
                 None \<Rightarrow> Inl (ErrNew (''strconv.ParseInt: parsing '' @ goQuote (sign @ digits) @ '': value out of range''))
               | Some v \<Rightarrow> Inr v)))"

section \<open>The configuration\<close>

text \<open>The first argument lists the entries in the order in which the map is iterated.\<close>

fun parseEntries :: "(string \<times> string) list \<Rightarrow> (int \<rightharpoonup> string) \<Rightarrow> (int \<rightharpoonup> string) result" where
  "parseEntries [] out = Inr out"
| "parseEntries ((v, b64) # es) out =
     (case Sscanf_d v of
        Inl err \<Rightarrow> Inl (ErrWrap (''bad KEK version key '' @ goQuote v @ '': '' @ errText err) err)
      | Inr version \<Rightarrow>
     (case StdDecode b64 of
        None \<Rightarrow> Inl (ErrWrap (''bad ciphertext for v'' @ v @ '': '' @ errText ErrCorruptInput) ErrCorruptInput)
      | Some raw \<Rightarrow> parseEntries es (out(version \<mapsto> raw))))"

definition ParseCiphertexts :: "(string \<times> string) list \<Rightarrow> (int \<rightharpoonup> string) result" where
  "ParseCiphertexts encoded = parseEntries encoded Map.empty"

lemma digitsVal_digits: "digitsVal acc s = Some n \<Longrightarrow> \<forall>c \<in> set s. isDigit c"
  by (induction acc s rule: digitsVal.induct) (auto simp: isDigit_def split: option.splits)

lemma digits_plain: "isDigit c \<Longrightarrow> plainByte c"
  by (auto simp: isDigit_def digitOf_def plainByte_def Let_def split: if_splits)

lemma scanSpaces_plain: "s \<noteq> [] \<Longrightarrow> plainByte (hd s) \<Longrightarrow> trimWith scanSpaces s = s"
  by (intro trimWith_id not_prefix_hd) (auto simp: scanSpaces_def dest: goSpaces_ends)

lemma newline_not_plain: "\<not> plainByte (CHR 0x0A)"
  by (simp add: plainByte_def)

lemma Sscanf_d_digits:
  assumes "ds \<noteq> []" "\<forall>c \<in> set ds. isDigit c" "rest = [] \<or> \<not> isDigit (hd rest)" "sign \<in> {[], ''-''}" "ParseInt (sign @ ds) = Some v"
  shows "Sscanf_d (sign @ ds @ rest) = Inr v"
proof -
  have d: "isDigit (hd ds)" using assms(1,2) by simp
  have plain: "plainByte (hd (sign @ ds @ rest))"
    using assms(1,4) digits_plain [OF d] by (auto simp: plainByte_def)
  then have t: "trimWith scanSpaces (sign @ ds @ rest) = sign @ ds @ rest" using assms(1) by (intro scanSpaces_plain) simp_all
  have nl: "hd (sign @ ds @ rest) \<noteq> CHR 0x0A" using plain newline_not_plain by metis
  have tw: "takeWhile isDigit (ds @ rest) = ds" using assms(2,3) by (cases rest) (auto simp: takeWhile_append2)
  have "\<not> isDigit CHR ''-''" "\<not> isDigit CHR ''+''" by (simp_all add: isDigit_def digitOf_def)
  then have nosign: "hd (ds @ rest) \<noteq> CHR ''-''" "hd (ds @ rest) \<noteq> CHR ''+''" using d assms(1) by (metis hd_append2)+
  show ?thesis using assms(4)
  proof (elim insertE emptyE)
    assume s: "sign = []"
    show ?thesis unfolding Sscanf_d_def Let_def t using nl nosign assms(1,5) tw by (simp add: s)
  next
    assume s: "sign = ''-''"
    show ?thesis unfolding Sscanf_d_def Let_def t using assms(1,5) tw by (simp add: s)
  qed
qed

lemma showInt_parts:
  "\<exists>sign ds. showInt i = sign @ ds \<and> sign \<in> {[], ''-''} \<and> ds \<noteq> [] \<and> (\<forall>c \<in> set ds. isDigit c)"
proof -
  have "showNat n \<noteq> [] \<and> (\<forall>c \<in> set (showNat n). isDigit c)" for n
    using showNat_head [of n] digitsVal_digits [OF digitsVal_showNat [of n]] by auto
  then show ?thesis
    by (cases "i < 0") (intro exI [of _ "''-''"] exI [of _ "showNat (nat (- i))"], simp add: showInt_def, intro exI [of _ "[]"] exI [of _ "showNat (nat i)"], simp add: showInt_def)
qed

text \<open>A version key is read even if something that is not a digit follows it.\<close>

lemma Sscanf_d_showInt:
  assumes "- (2 ^ 63) \<le> i" "i < 2 ^ 63" "rest = [] \<or> \<not> isDigit (hd rest)"
  shows "Sscanf_d (showInt i @ rest) = Inr i"
proof -
  obtain sign ds where s: "showInt i = sign @ ds" "sign \<in> {[], ''-''}" "ds \<noteq> []" "\<forall>c \<in> set ds. isDigit c" using showInt_parts [of i] by blast
  from Sscanf_d_digits [OF s(3,4) assms(3) s(2), of i] ParseInt_showInt [OF assms(1,2)] show ?thesis by (simp add: s(1))
qed

text \<open>The configuration that a deployment writes for a map of ciphertexts, in some order.\<close>

definition configOf :: "(int \<times> string) list \<Rightarrow> (string \<times> string) list" where
  "configOf cts = map (\<lambda>(v, ct). (showInt v, StdEncode ct)) cts"

lemma parseEntries_configOf:
  "\<forall>(v, ct) \<in> set cts. - (2 ^ 63) \<le> v \<and> v < 2 ^ 63 \<Longrightarrow> distinct (map fst cts) \<Longrightarrow> parseEntries (configOf cts) out = Inr (out ++ map_of cts)"
proof (induction cts arbitrary: out)
  case (Cons e cts)
  obtain v ct where e: "e = (v, ct)" by (rule prod.exhaust)
  have v: "Sscanf_d (showInt v) = Inr v" using Sscanf_d_showInt [of v "[]"] Cons.prems(1) by (simp add: e)
  have "v \<notin> dom (map_of cts)" using Cons.prems(2) by (auto simp: e dom_map_of_conv_image_fst)
  then have "out(v \<mapsto> ct) ++ map_of cts = out ++ map_of (e # cts)" by (simp add: e map_add_upd_left)
  with Cons v show ?case by (simp add: e configOf_def StdDecode_Encode del: map_of.simps)
qed (simp add: configOf_def)

text \<open>
  C40. The configuration written for a map of ciphertexts is read back as that map in whatever order it is iterated, so the key
  service decrypts, for each configured version, the ciphertext configured for it, and refuses every other version.
\<close>

theorem configured_root_keys:
  assumes "\<forall>v ct. m v = Some ct \<longrightarrow> - (2 ^ 63) \<le> v \<and> v < 2 ^ 63" and "distinct (map fst cts)" and "map_of cts = m"
  shows "ParseCiphertexts (configOf cts) = Inr m \<and>
    fst (kmsRootKey v (NewKMSRootKeys decrypt m)) =
      (case m v of
         None \<Rightarrow> Inl (ErrNew (''no KMS ciphertext configured for KEK v'' @ showInt v))
       | Some ct \<Rightarrow> (case decrypt ct of Inl err \<Rightarrow> Inl (ErrWrap (''kms decrypt v'' @ showInt v @ '': '' @ errText err) err) | Inr k \<Rightarrow> Inr k))"
proof
  have "\<forall>(v, ct) \<in> set cts. - (2 ^ 63) \<le> v \<and> v < 2 ^ 63"
  proof (intro ballI, clarify)
    fix v ct assume "(v, ct) \<in> set cts"
    then have "m v = Some ct" using map_of_is_SomeI [OF assms(2)] assms(3) by blast
    then show "- (2 ^ 63) \<le> v \<and> v < 2 ^ 63" using assms(1) by blast
  qed
  from parseEntries_configOf [OF this assms(2), of Map.empty] assms(3) show "ParseCiphertexts (configOf cts) = Inr m"
    by (simp add: ParseCiphertexts_def)
qed (simp add: kmsRootKey_def NewKMSRootKeys_def split: option.split sum.split)

theorem configured_root_keys_witness:
  "ParseCiphertexts (configOf [(1, ''a''), (-2, ''bc'')]) = Inr [1 \<mapsto> ''a'', -2 \<mapsto> ''bc''] \<and>
   fst (kmsRootKey (-2) (NewKMSRootKeys (\<lambda>ct. Inr (ct @ ct)) [1 \<mapsto> ''a'', -2 \<mapsto> ''bc''])) = Inr ''bcbc''"
proof -
  have "map_of [(1 :: int, ''a''), (-2, ''bc'')] = [1 \<mapsto> ''a'', -2 \<mapsto> ''bc'']" by (auto simp: fun_eq_iff)
  from configured_root_keys [OF _ _ this, of "-2" "\<lambda>ct. Inr (ct @ ct)"] show ?thesis by (auto split: if_splits)
qed

text \<open>
  Two keys that differ only after their digits are one version: which ciphertext it gets depends on the order in which the map
  is iterated, and no error is reported.
\<close>

theorem colliding_version_keys:
  "ParseCiphertexts [(''1'', StdEncode a), (''1x'', StdEncode b)] = Inr [1 \<mapsto> b] \<and>
   ParseCiphertexts [(''1x'', StdEncode b), (''1'', StdEncode a)] = Inr [1 \<mapsto> a]"
proof -
  have one: "showInt 1 = ''1''" by code_simp
  have "Sscanf_d (showInt 1 @ []) = Inr 1" "Sscanf_d (showInt 1 @ ''x'') = Inr 1"
    by (rule Sscanf_d_showInt; simp add: isDigit_def digitOf_def)+
  then have "Sscanf_d ''1'' = Inr 1" "Sscanf_d ''1x'' = Inr 1" by (simp_all add: one)
  then show ?thesis by (simp add: ParseCiphertexts_def StdDecode_Encode)
qed

end
