(* ===== verification/ManifestCodec.thy ===== *)
theory ManifestCodec
  imports StopHook JsonValue
begin

text \<open>
  The session manifest on the wire: the stop hook encodes its \<^verbatim>\<open>Manifest\<close> (\<^verbatim>\<open>stophook/hook.go\<close>), and the resume flow decodes the
  text into a structure of its own (\<^verbatim>\<open>resume/resume.go\<close>), whose fields are those of \<^typ>\<open>manifest\<close>.
\<close>

section \<open>Encoding\<close>

text \<open>The hook appends to slices that begin as nil, so an empty list is \<^verbatim>\<open>null\<close>.\<close>

definition gitStateJSON :: "git_state \<Rightarrow> json" where
  "gitStateJSON g =
     JObj ([(''repo'', JStr (gs_Repo g)), (''branch'', JStr (gs_Branch g)), (''headSha'', JStr (gs_HeadSHA g)),
            (''prs'', sliceJSON JStr (gs_PRs g)), (''uncommitted'', JBool (gs_Uncommitted g))] @ omitEmpty ''diffRef'' (gs_DiffRef g))"

definition manifestJSON :: "manifest \<Rightarrow> json" where
  "manifestJSON m =
     JObj [(''sessionId'', JStr (mf_SessionID m)), (''agentVersion'', JStr (mf_AgentVersion m)), (''transcriptRef'', JStr (mf_TranscriptRef m)),
           (''gitState'', sliceJSON gitStateJSON (mf_GitState m)), (''endedReason'', JStr (mf_EndedReason m))]"

section \<open>Decoding\<close>

definition zeroGitEntry :: git_state where
  "zeroGitEntry = \<lparr>gs_Repo = [], gs_Branch = [], gs_HeadSHA = [], gs_PRs = [], gs_Uncommitted = False, gs_DiffRef = []\<rparr>"

definition gitEntryField :: "string \<Rightarrow> json \<Rightarrow> git_state \<Rightarrow> git_state result" where
  "gitEntryField k v g =
     (if k = ''repo'' then jsonStr v (\<lambda>s. g\<lparr>gs_Repo := s\<rparr>) g
      else if k = ''branch'' then jsonStr v (\<lambda>s. g\<lparr>gs_Branch := s\<rparr>) g
      else if k = ''headsha'' then jsonStr v (\<lambda>s. g\<lparr>gs_HeadSHA := s\<rparr>) g
      else if k = ''prs'' then jsonSlice jsonStringElem v (\<lambda>xs. g\<lparr>gs_PRs := xs\<rparr>)
      else if k = ''uncommitted'' then jsonBool v (\<lambda>b. g\<lparr>gs_Uncommitted := b\<rparr>) g
      else if k = ''diffref'' then jsonStr v (\<lambda>s. g\<lparr>gs_DiffRef := s\<rparr>) g
      else Inr g)"

definition zeroManifest :: manifest where
  "zeroManifest = \<lparr>mf_SessionID = [], mf_AgentVersion = [], mf_TranscriptRef = [], mf_GitState = [], mf_EndedReason = []\<rparr>"

definition manifestField :: "string \<Rightarrow> json \<Rightarrow> manifest \<Rightarrow> manifest result" where
  "manifestField k v m =
     (if k = ''sessionid'' then jsonStr v (\<lambda>s. m\<lparr>mf_SessionID := s\<rparr>) m
      else if k = ''agentversion'' then jsonStr v (\<lambda>s. m\<lparr>mf_AgentVersion := s\<rparr>) m
      else if k = ''transcriptref'' then jsonStr v (\<lambda>s. m\<lparr>mf_TranscriptRef := s\<rparr>) m
      else if k = ''gitstate'' then jsonSlice (decodeInto gitEntryField zeroGitEntry) v (\<lambda>xs. m\<lparr>mf_GitState := xs\<rparr>)
      else if k = ''endedreason'' then jsonStr v (\<lambda>s. m\<lparr>mf_EndedReason := s\<rparr>) m
      else Inr m)"

section \<open>What one end writes, the other reads\<close>

lemma manifest_keys:
  "map lowerByte ''repo'' = ''repo''" "map lowerByte ''branch'' = ''branch''" "map lowerByte ''headSha'' = ''headsha''"
  "map lowerByte ''prs'' = ''prs''" "map lowerByte ''uncommitted'' = ''uncommitted''" "map lowerByte ''diffRef'' = ''diffref''"
  "map lowerByte ''sessionId'' = ''sessionid''" "map lowerByte ''agentVersion'' = ''agentversion''"
  "map lowerByte ''transcriptRef'' = ''transcriptref''" "map lowerByte ''gitState'' = ''gitstate''" "map lowerByte ''endedReason'' = ''endedreason''"
  by code_simp+

lemma prs_decoded: "jsonSlice jsonStringElem (sliceJSON JStr xs) upd = Inr (upd xs)"
  by (rule jsonSlice_sliceJSON) simp

lemma gitState_decoded: "decodeInto gitEntryField zeroGitEntry (gitStateJSON g) = Inr g"
proof -
  have ref: "decodeMembers gitEntryField (omitEmpty ''diffRef'' s) c = Inr (if s = [] then c else c\<lparr>gs_DiffRef := s\<rparr>)" for s c
    by (simp add: omitEmpty_def gitEntryField_def manifest_keys del: list.map)
  show ?thesis
    unfolding decodeInto_def jsonMembers_def gitStateJSON_def
    by (cases g) (simp add: decodeMembers_append ref gitEntryField_def prs_decoded manifest_keys zeroGitEntry_def del: list.map)
qed

theorem manifest_decoded: "decodeInto manifestField zeroManifest (manifestJSON m) = Inr m"
proof -
  have "jsonSlice (decodeInto gitEntryField zeroGitEntry) (sliceJSON gitStateJSON gs) upd = Inr (upd gs)" for gs :: "git_state list" and upd :: "_ \<Rightarrow> manifest"
    by (rule jsonSlice_sliceJSON) (rule gitState_decoded)
  then show ?thesis
    unfolding decodeInto_def [of manifestField] jsonMembers_def manifestJSON_def
    by (cases m) (simp add: manifestField_def manifest_keys zeroManifest_def del: list.map)
qed

end
