(* ===== verification/McpProxy.thy ===== *)
theory McpProxy
  imports Policy
begin

text \<open>
  \<^verbatim>\<open>internal/mcpproxy\<close>: per-user connections to MCP servers, the list of tools a run sees, calls
  through the proxy and the namespacing of tool names.  The transport (dialling, listing, calling,
  closing) acts on a world \<open>'w\<close> and is a parameter, as is \<^verbatim>\<open>json.Valid\<close>.
\<close>

section \<open>Data\<close>

record tool_info =
  ti_Name :: string
  ti_Description :: string
  ti_InputSchema :: string

type_synonym connKey = "string \<times> string \<times> string"

record ('s, 'w) mcp_io =
  mi_Dial :: "string \<Rightarrow> string \<Rightarrow> string \<Rightarrow> 'w \<Rightarrow> 's result \<times> 'w"
  mi_ListTools :: "'s \<Rightarrow> 'w \<Rightarrow> tool_info list result \<times> 'w"
  mi_CallTool :: "duration \<Rightarrow> 's \<Rightarrow> string \<Rightarrow> string \<Rightarrow> 'w \<Rightarrow> string result \<times> 'w"
  mi_Close :: "'s \<Rightarrow> 'w \<Rightarrow> 'w"
  mi_Valid :: "string \<Rightarrow> bool"

record 's manager =
  mg_conns :: "(connKey \<times> 's) list"
  mg_policy :: engine
  mg_timeout :: duration
  mg_maxResp :: int

record authz =
  az_OrgID :: string
  az_UserID :: string
  az_Grants :: "string list"

definition ErrUnknownTool :: goerr where "ErrUnknownTool = ErrNew ''tool not exposed for this run''"
definition ErrBadResponse :: goerr where "ErrBadResponse = ErrNew ''invalid tool response''"

section \<open>Connections\<close>

definition NewManager :: "engine \<Rightarrow> duration \<Rightarrow> int \<Rightarrow> 's manager" where
  "NewManager pol timeout maxResponseBytes =
     \<lparr>mg_conns = [], mg_policy = pol, mg_timeout = timeout, mg_maxResp = maxResponseBytes\<rparr>"

definition CloseAll :: "('s, 'w) mcp_io \<Rightarrow> 's manager \<Rightarrow> 'w \<Rightarrow> 's manager \<times> 'w" where
  "CloseAll io m w = (m\<lparr>mg_conns := []\<rparr>, fold (\<lambda>(k, s) w. mi_Close io s w) (mg_conns m) w)"

text \<open>
  \<^verbatim>\<open>sessionFor\<close> dials outside the lock, so its two critical sections are separate steps: the lookup
  and the installation of the new session, which gives way to one installed meanwhile.
\<close>

definition lookupSession :: "connKey \<Rightarrow> 's manager \<Rightarrow> 's option" where
  "lookupSession key m = map_of (mg_conns m) key"

definition installSession :: "('s, 'w) mcp_io \<Rightarrow> connKey \<Rightarrow> 's \<Rightarrow> 's manager \<Rightarrow> 'w \<Rightarrow> 's \<times> 's manager \<times> 'w" where
  "installSession io key s m w =
     (case lookupSession key m of
        Some existing \<Rightarrow> (existing, m, mi_Close io s w)
      | None \<Rightarrow> (s, m\<lparr>mg_conns := (key, s) # mg_conns m\<rparr>, w))"

definition sessionFor ::
  "('s, 'w) mcp_io \<Rightarrow> string \<Rightarrow> string \<Rightarrow> string \<Rightarrow> 's manager \<Rightarrow> 'w \<Rightarrow> 's result \<times> 's manager \<times> 'w" where
  "sessionFor io org user server m w =
     (case lookupSession (org, user, server) m of
        Some s \<Rightarrow> (Inr s, m, w)
      | None \<Rightarrow>
          (case mi_Dial io org user server w of
             (Inl err, w') \<Rightarrow> (Inl err, m, w')
           | (Inr s, w') \<Rightarrow>
               (case installSession io (org, user, server) s m w' of (s', m', w'') \<Rightarrow> (Inr s', m', w''))))"

section \<open>Names\<close>

definition Namespace :: "string \<Rightarrow> string \<Rightarrow> string" where
  "Namespace server tool = ''mcp__'' @ server @ ''__'' @ tool"

definition SplitNamespace :: "string \<Rightarrow> (string \<times> string) option" where
  "SplitNamespace namespaced =
     (let rest = TrimPrefix namespaced ''mcp__'' in
      case Index rest ''__'' of
        None \<Rightarrow> None
      | Some i \<Rightarrow> if i = 0 \<or> i = length rest - 2 then None else Some (take i rest, drop (i + 2) rest))"

definition globMatch :: "string \<Rightarrow> string \<Rightarrow> bool" where
  "globMatch pattern name =
     (if HasSuffix pattern ''*'' then HasPrefix name (take (length pattern - 1) pattern) else pattern = name)"

fun matchAny :: "string list \<Rightarrow> string \<Rightarrow> bool" where
  "matchAny [] name = False"
| "matchAny (g # gs) name = (if g = ''*'' \<or> globMatch g name then True else matchAny gs name)"

section \<open>Listing and calling\<close>

definition mcpRequest :: "authz \<Rightarrow> string \<Rightarrow> string \<Rightarrow> policy_request" where
  "mcpRequest req server tool =
     \<lparr>pr_OrgID = az_OrgID req, pr_UserID = az_UserID req, pr_Action = ''mcp.call'', pr_Resource = server,
      pr_RequiredScope = ''mcp:'' @ server @ '':'' @ tool, pr_Consents = az_Grants req, pr_AgentScopes = az_Grants req\<rparr>"

fun exposeFrom :: "opa \<Rightarrow> engine \<Rightarrow> authz \<Rightarrow> string \<Rightarrow> string list \<Rightarrow> tool_info list \<Rightarrow> tool_info list" where
  "exposeFrom rg pol req server globs [] = []"
| "exposeFrom rg pol req server globs (t # ts) =
     (if \<not> matchAny globs (ti_Name t) then exposeFrom rg pol req server globs ts
      else if dc_Allowed (Can rg pol (mcpRequest req server (ti_Name t)))
      then t\<lparr>ti_Name := Namespace server (ti_Name t)\<rparr> # exposeFrom rg pol req server globs ts
      else exposeFrom rg pol req server globs ts)"

definition ExposedTools ::
  "('s, 'w) mcp_io \<Rightarrow> opa \<Rightarrow> authz \<Rightarrow> string \<Rightarrow> string list \<Rightarrow> 's manager \<Rightarrow> 'w
   \<Rightarrow> tool_info list result \<times> 's manager \<times> 'w" where
  "ExposedTools io rg req server allowedGlobs m w =
     (case sessionFor io (az_OrgID req) (az_UserID req) server m w of
        (Inl err, m1, w1) \<Rightarrow> (Inl err, m1, w1)
      | (Inr sess, m1, w1) \<Rightarrow>
          (case mi_ListTools io sess w1 of
             (Inl err, w2) \<Rightarrow> (Inl err, m1, w2)
           | (Inr tools, w2) \<Rightarrow> (Inr (exposeFrom rg (mg_policy m) req server allowedGlobs tools), m1, w2)))"

fun visibleIn :: "string \<Rightarrow> tool_info list \<Rightarrow> bool" where
  "visibleIn name [] = False"
| "visibleIn name (t # ts) = (if ti_Name t = name then True else visibleIn name ts)"

definition checkResponse :: "('s, 'w) mcp_io \<Rightarrow> int \<Rightarrow> string \<Rightarrow> string result" where
  "checkResponse io maxResp resp =
     (if int (length resp) > maxResp
      then Inl (ErrWrap (errText ErrBadResponse @ '': response exceeds '' @ showInt maxResp @ '' bytes'') ErrBadResponse)
      else if \<not> mi_Valid io resp then Inl ErrBadResponse
      else Inr resp)"

definition Call ::
  "('s, 'w) mcp_io \<Rightarrow> opa \<Rightarrow> authz \<Rightarrow> string \<Rightarrow> string \<Rightarrow> string \<Rightarrow> 's manager \<Rightarrow> 'w
   \<Rightarrow> string result \<times> 's manager \<times> 'w" where
  "Call io rg req server namespacedTool args m w =
     (case SplitNamespace namespacedTool of
        None \<Rightarrow> (Inl (wrapQ ErrUnknownTool namespacedTool), m, w)
      | Some (server2, bare) \<Rightarrow>
     (if server2 \<noteq> server then (Inl (wrapQ ErrUnknownTool namespacedTool), m, w)
      else
     (case ExposedTools io rg req server [''*''] m w of
        (Inl err, m1, w1) \<Rightarrow> (Inl err, m1, w1)
      | (Inr exposed, m1, w1) \<Rightarrow>
     (if \<not> visibleIn namespacedTool exposed then (Inl (wrapQ ErrUnknownTool namespacedTool), m1, w1)
      else
     (case sessionFor io (az_OrgID req) (az_UserID req) server m1 w1 of
        (Inl err, m2, w2) \<Rightarrow> (Inl err, m2, w2)
      | (Inr sess, m2, w2) \<Rightarrow>
     (case mi_CallTool io (mg_timeout m) sess bare args w2 of
        (Inl err, w3) \<Rightarrow> (Inl err, m2, w3)
      | (Inr resp, w3) \<Rightarrow> (checkResponse io (mg_maxResp m) resp, m2, w3)))))))"

section \<open>One user per connection\<close>

text \<open>
  What the dialer promises: a session acts for the one (organisation, user, server) it was dialled
  for, its owner.
\<close>

definition dials_for_owner :: "('s, 'w) mcp_io \<Rightarrow> ('s \<Rightarrow> connKey) \<Rightarrow> bool" where
  "dials_for_owner io owner \<longleftrightarrow>
     (\<forall>org user server w s w'. mi_Dial io org user server w = (Inr s, w') \<longrightarrow> owner s = (org, user, server))"

definition connsOwned :: "('s \<Rightarrow> connKey) \<Rightarrow> 's manager \<Rightarrow> bool" where
  "connsOwned owner m \<longleftrightarrow> (\<forall>(k, s) \<in> set (mg_conns m). owner s = k)"

text \<open>
  The connection table under concurrent requests: any request may install a session it dialled, at
  any time after it looked the key up, and the table may be closed.
\<close>

inductive connStep :: "('s, 'w) mcp_io \<Rightarrow> 's manager \<Rightarrow> unit \<Rightarrow> 's manager \<Rightarrow> bool" for io where
  conn_install: "mi_Dial io org user server w = (Inr s, w') \<Longrightarrow>
     installSession io (org, user, server) s m w'' = (s', m', w''') \<Longrightarrow> connStep io m () m'"
| conn_close: "CloseAll io m w = (m', w') \<Longrightarrow> connStep io m () m'"

lemma dial_owner: "dials_for_owner io owner \<Longrightarrow> mi_Dial io org user server w = (Inr s, w') \<Longrightarrow> owner s = (org, user, server)"
  unfolding dials_for_owner_def by blast

lemma lookup_owned: "connsOwned owner m \<Longrightarrow> lookupSession k m = Some s \<Longrightarrow> owner s = k"
  by (auto simp: connsOwned_def lookupSession_def dest!: map_of_SomeD)

lemma install_owned:
  assumes "connsOwned owner m" and "owner s = k" and "installSession io k s m w = (s', m', w')"
  shows "connsOwned owner m'" and "owner s' = k" and "mg_policy m' = mg_policy m"
  using assms lookup_owned [OF assms(1), of k]
  by (auto simp: installSession_def connsOwned_def split: option.splits)

lemma sessionFor_owned:
  assumes "dials_for_owner io owner" and "connsOwned owner m" and "sessionFor io org user server m w = (res, m', w')"
  shows "connsOwned owner m' \<and> mg_policy m' = mg_policy m \<and> (\<forall>s. res = Inr s \<longrightarrow> owner s = (org, user, server))"
proof (cases "lookupSession (org, user, server) m")
  case (Some s)
  with assms show ?thesis by (auto simp: sessionFor_def dest: lookup_owned)
next
  case None
  obtain d w1 where d: "mi_Dial io org user server w = (d, w1)" by force
  show ?thesis
  proof (cases d)
    case (Inl e)
    with None d assms show ?thesis by (auto simp: sessionFor_def)
  next
    case (Inr s)
    obtain s' m1 w2 where i: "installSession io (org, user, server) s m w1 = (s', m1, w2)"
      by (cases "installSession io (org, user, server) s m w1")
    have "owner s = (org, user, server)" using assms(1) d Inr by (simp add: dial_owner)
    note install_owned [OF assms(2) this i]
    with None d Inr i assms(3) show ?thesis by (auto simp: sessionFor_def)
  qed
qed

interpretation mc: transition_system "\<lambda>m. mg_conns m = []" "connStep io"
    "\<lambda>m. dials_for_owner io owner \<longrightarrow> connsOwned owner m" for io owner
proof (unfold_locales, goal_cases)
  case (1 s)
  then show ?case by (simp add: connsOwned_def)
next
  case (2 m e m')
  from 2(2) show ?case
  proof cases
    case (conn_install org user server w s w' w'' s' w''')
    with 2(1) show ?thesis using install_owned(1) dial_owner by metis
  next
    case conn_close
    then show ?thesis by (auto simp: CloseAll_def connsOwned_def)
  qed
qed

lemma ExposedTools_owned:
  assumes "dials_for_owner io owner" and "connsOwned owner m" and "ExposedTools io rg req server globs m w = (res, m', w')"
  shows "connsOwned owner m' \<and> mg_policy m' = mg_policy m"
  using sessionFor_owned [OF assms(1,2)] assms(3)
  by (auto simp: ExposedTools_def split: prod.splits sum.splits)

lemma exposeFrom_iff:
  "t \<in> set (exposeFrom rg pol req server globs ts) \<longleftrightarrow>
     (\<exists>u \<in> set ts. t = u\<lparr>ti_Name := Namespace server (ti_Name u)\<rparr> \<and> matchAny globs (ti_Name u) \<and>
        dc_Allowed (Can rg pol (mcpRequest req server (ti_Name u))))"
  by (induction ts) auto

lemma visibleIn_iff [simp]: "visibleIn name ts \<longleftrightarrow> name \<in> ti_Name ` set ts"
  by (induction ts) auto

lemma SplitNamespace_Some:
  "SplitNamespace (Namespace server tool) = Some (a, b) \<longleftrightarrow>
     (\<exists>i. Index (server @ ''__'' @ tool) ''__'' = Some i \<and> i \<noteq> 0 \<and> i \<noteq> length server + length tool \<and>
        a = take i (server @ ''__'' @ tool) \<and> b = drop (i + 2) (server @ ''__'' @ tool))"
  unfolding SplitNamespace_def Namespace_def TrimPrefix_append Let_def
  by (auto split: option.splits if_splits)

lemma take_Index:
  assumes "Index (server @ ''__'' @ tool) ''__'' = Some i" and "server = take i (server @ ''__'' @ tool)"
  shows "i = length server"
proof -
  have "i \<le> length (server @ ''__'' @ tool)" using Index_SomeD [OF assms(1)] by simp
  then have "length (take i (server @ ''__'' @ tool)) = i" by simp
  with arg_cong [OF assms(2), of length] show ?thesis by (rule trans [THEN sym])
qed

lemma SplitNamespace_server:
  "SplitNamespace (Namespace server tool) = Some (server, b) \<longleftrightarrow>
     Index (server @ ''__'' @ tool) ''__'' = Some (length server) \<and> server \<noteq> [] \<and> tool \<noteq> [] \<and> b = tool"
    (is "?l \<longleftrightarrow> ?r")
proof
  assume ?l
  then obtain i where i: "Index (server @ ''__'' @ tool) ''__'' = Some i" "i \<noteq> 0" "i \<noteq> length server + length tool"
    "server = take i (server @ ''__'' @ tool)" "b = drop (i + 2) (server @ ''__'' @ tool)"
    unfolding SplitNamespace_Some by blast
  from take_Index [OF i(1,4)] i(1,2,3,5) show ?r by auto
next
  assume ?r
  then show ?l unfolding SplitNamespace_Some by simp
qed

lemma Namespace_split: "SplitNamespace (Namespace server tool) = Some (server, bare) \<Longrightarrow> bare = tool"
  by (simp add: SplitNamespace_server)

section \<open>Properties\<close>

text \<open>
  C22. A call that returns a result went through every check and stayed with its user: the name is
  the namespaced name of a tool for which the organisation's patterns admit the server and the run
  holds the scope, the tool was called on a connection that was dialled for this organisation,
  user and server, however requests of other users interleave, and the response is valid JSON
  within the size cap.
\<close>

theorem mcp_call_gated:
  assumes "dials_for_owner io owner" and "reach (\<lambda>m. mg_conns m = []) (connStep io) m"
    and "McpProxy.Call io rg req server name args m w = (Inr resp, m', w')"
  shows "\<exists>tool sess w2. name = Namespace server tool \<and>
    orgLayer rg (mg_policy m) \<lparr>pi_org = az_OrgID req, pi_user = az_UserID req, pi_action = ''mcp.call'', pi_resource = server\<rparr> \<and>
    ''mcp:'' @ server @ '':'' @ tool \<in> set (az_Grants req) \<and>
    owner sess = (az_OrgID req, az_UserID req, server) \<and>
    mi_CallTool io (mg_timeout m) sess tool args w2 = (Inr resp, w') \<and>
    int (length resp) \<le> mg_maxResp m \<and> mi_Valid io resp"
proof -
  have own: "connsOwned owner m" using mc.reach_inv [OF assms(2)] assms(1) by blast
  from assms(3) obtain bare exposed m1 w1 sess m2 w2 resp' where
    sp: "SplitNamespace name = Some (server, bare)"
    and ex: "ExposedTools io rg req server [''*''] m w = (Inr exposed, m1, w1)" and vis: "name \<in> ti_Name ` set exposed"
    and se: "sessionFor io (az_OrgID req) (az_UserID req) server m1 w1 = (Inr sess, m2, w2)"
    and ca: "mi_CallTool io (mg_timeout m) sess bare args w2 = (Inr resp', w')"
    and ch: "checkResponse io (mg_maxResp m) resp' = Inr resp"
    unfolding McpProxy.Call_def by (auto split: option.splits if_splits prod.splits sum.splits)
  from ex obtain tools where "exposed = exposeFrom rg (mg_policy m) req server [''*''] tools"
    by (auto simp: ExposedTools_def split: prod.splits sum.splits)
  with vis obtain tool where name: "name = Namespace server tool"
    and can: "dc_Allowed (Can rg (mg_policy m) (mcpRequest req server tool))"
    by (auto simp: exposeFrom_iff)
  have "bare = tool" using sp unfolding name by (rule Namespace_split)
  moreover have "owner sess = (az_OrgID req, az_UserID req, server)"
    using sessionFor_owned [OF assms(1) _ se] ExposedTools_owned [OF assms(1) own ex] by blast
  moreover have "resp' = resp" "int (length resp) \<le> mg_maxResp m" "mi_Valid io resp"
    using ch by (auto simp: checkResponse_def split: if_splits)
  ultimately show ?thesis
    using name can ca by (auto simp: Can_allowed_iff mcpRequest_def requestInput_def)
qed

text \<open>A transport with two users, whose server offers two tools and echoes its arguments.\<close>

definition exMcp :: "(connKey, nat) mcp_io" where
  "exMcp = \<lparr>mi_Dial = (\<lambda>org usr s n. (Inr (org, usr, s), Suc n)),
     mi_ListTools = (\<lambda>s n. (Inr [\<lparr>ti_Name = ''list'', ti_Description = [], ti_InputSchema = []\<rparr>,
                               \<lparr>ti_Name = ''delete'', ti_Description = [], ti_InputSchema = []\<rparr>], n)),
     mi_CallTool = (\<lambda>t s tool args n. (Inr args, n)), mi_Close = (\<lambda>s n. n), mi_Valid = (\<lambda>_. True)\<rparr>"

definition exOrgAll :: opa where
  "exOrgAll = \<lparr>opa_prepare = (\<lambda>_. None), opa_fail = (\<lambda>_ _. None), opa_glob = (\<lambda>_ _ _. True)\<rparr>"

definition exManager :: "connKey manager" where
  "exManager = NewManager \<lparr>en_query = [''*''], en_patterns = [''*'']\<rparr> Second 100"

definition exAuthz :: authz where
  "exAuthz = \<lparr>az_OrgID = ''o'', az_UserID = ''u'', az_Grants = [''mcp:gh:list'', ''mcp:gh:delete'']\<rparr>"

lemma ex_mcp_simps:
  "mi_Dial exMcp org usr srv n = (Inr (org, usr, srv), Suc n)" "mi_CallTool exMcp d s tool args n = (Inr args, n)"
  "mi_Valid exMcp r" "mg_conns exManager = []" "mg_timeout exManager = Second" "mg_maxResp exManager = 100"
  by (simp_all add: exMcp_def exManager_def NewManager_def)

lemma ex_authz_simps: "az_OrgID exAuthz = ''o''" "az_UserID exAuthz = ''u''"
  by (simp_all add: exAuthz_def)

lemma ex_exposed:
  "\<exists>m'. ExposedTools exMcp exOrgAll exAuthz ''gh'' globs exManager 0 =
     (Inr (map (\<lambda>t. t\<lparr>ti_Name := Namespace ''gh'' (ti_Name t)\<rparr>)
        (filter (\<lambda>t. matchAny globs (ti_Name t))
          [\<lparr>ti_Name = ''list'', ti_Description = [], ti_InputSchema = []\<rparr>,
           \<lparr>ti_Name = ''delete'', ti_Description = [], ti_InputSchema = []\<rparr>])), m', 1) \<and>
     lookupSession (''o'', ''u'', ''gh'') m' = Some (''o'', ''u'', ''gh'')"
  by (simp add: ExposedTools_def sessionFor_def installSession_def lookupSession_def exMcp_def exManager_def NewManager_def
      exAuthz_def exOrgAll_def Can_def evalAllow_def orgAllows_def mcpRequest_def)

lemma ex_split: "SplitNamespace (Namespace ''gh'' ''delete'') = Some (''gh'', ''delete'')"
  by (simp add: SplitNamespace_def Namespace_def TrimPrefix_def Index.simps)

lemma ex_mcp_call:
  "\<exists>m'. McpProxy.Call exMcp exOrgAll exAuthz ''gh'' (Namespace ''gh'' ''delete'') ''{}'' exManager 0 = (Inr ''{}'', m', 1)"
proof -
  from ex_exposed [of "[''*'']"] obtain m' where
    ex: "ExposedTools exMcp exOrgAll exAuthz ''gh'' [''*''] exManager 0 =
     (Inr [\<lparr>ti_Name = Namespace ''gh'' ''list'', ti_Description = [], ti_InputSchema = []\<rparr>,
           \<lparr>ti_Name = Namespace ''gh'' ''delete'', ti_Description = [], ti_InputSchema = []\<rparr>], m', 1)"
    and lk: "lookupSession (''o'', ''u'', ''gh'') m' = Some (''o'', ''u'', ''gh'')"
    by auto
  show ?thesis
    by (simp add: McpProxy.Call_def ex_split ex sessionFor_def ex_authz_simps lk ex_mcp_simps checkResponse_def)
qed

theorem mcp_call_gated_witness:
  "\<exists>tool. Namespace ''gh'' ''delete'' = Namespace ''gh'' tool \<and> ''mcp:gh:'' @ tool \<in> set (az_Grants exAuthz)"
proof -
  have "dials_for_owner exMcp id" by (simp add: dials_for_owner_def ex_mcp_simps)
  moreover have "reach (\<lambda>m. mg_conns m = []) (connStep exMcp) exManager"
    by (rule reach_init) (simp add: ex_mcp_simps)
  moreover obtain m' where
    "McpProxy.Call exMcp exOrgAll exAuthz ''gh'' (Namespace ''gh'' ''delete'') ''{}'' exManager 0 = (Inr ''{}'', m', 1)"
    using ex_mcp_call by blast
  ultimately show ?thesis
    by (rule mcp_call_gated [THEN exE]) auto
qed

text \<open>
  The tool filter of an agent constrains what a run is shown and not what it can call: here the
  agent allows \<^verbatim>\<open>list\<close> only, the run is shown only that tool, and its call of \<^verbatim>\<open>delete\<close> goes through.
\<close>

theorem mcp_call_outside_allowed_tools:
  "(\<exists>ts m' n. ExposedTools exMcp exOrgAll exAuthz ''gh'' [''list''] exManager 0 = (Inr ts, m', n) \<and>
      \<not> visibleIn (Namespace ''gh'' ''delete'') ts) \<and>
   (\<exists>m'. McpProxy.Call exMcp exOrgAll exAuthz ''gh'' (Namespace ''gh'' ''delete'') ''{}'' exManager 0 = (Inr ''{}'', m', 1))"
proof (rule conjI)
  from ex_exposed [of "[''list'']"] show "\<exists>ts m' n. ExposedTools exMcp exOrgAll exAuthz ''gh'' [''list''] exManager 0 = (Inr ts, m', n) \<and>
      \<not> visibleIn (Namespace ''gh'' ''delete'') ts"
    by (auto simp: globMatch_def HasSuffix_def suffix_def Namespace_def Cons_eq_append_conv)
qed (rule ex_mcp_call)

text \<open>
  Splitting a namespaced name gives back the server and the tool exactly when both are
  non-empty and the server neither holds the separator nor ends in an underscore.
\<close>

theorem namespace_roundtrip_iff:
  "SplitNamespace (Namespace server tool) = Some (server, tool) \<longleftrightarrow>
     server \<noteq> [] \<and> tool \<noteq> [] \<and> Index (server @ ''_'') ''__'' = None"
proof -
  let ?s = "server @ ''__'' @ tool"
  have "prefix ''__'' (drop i ?s) \<longleftrightarrow> prefix ''__'' (drop i (server @ ''_''))" if "i < length server" for i
  proof -
    from that obtain x xs where "drop i server = x # xs" by (metis Cons_nth_drop_Suc)
    with that show ?thesis by (cases xs) auto
  qed
  note shift = this
  have "Index ?s ''__'' = Some (length server) \<longleftrightarrow> (\<forall>i < length server. \<not> prefix ''__'' (drop i ?s))"
    unfolding Index_Some_iff by simp
  also have "\<dots> \<longleftrightarrow> (\<forall>i < length server. \<not> prefix ''__'' (drop i (server @ ''_'')))"
    using shift by blast
  also have "\<dots> \<longleftrightarrow> (\<forall>i \<le> length (server @ ''_''). \<not> prefix ''__'' (drop i (server @ ''_'')))"
  proof -
    have "\<not> prefix ''__'' (drop i (server @ ''_''))" if "length server \<le> i" for i
      using that by (cases "i = length server") auto
    then show ?thesis by (metis length_append list.size(3) not_le order.strict_implies_order trans_le_add1)
  qed
  also have "\<dots> \<longleftrightarrow> Index (server @ ''_'') ''__'' = None" by (rule Index_None_iff [symmetric])
  finally have first: "Index ?s ''__'' = Some (length server) \<longleftrightarrow> Index (server @ ''_'') ''__'' = None" .
  show ?thesis
    unfolding SplitNamespace_server first by blast
qed

end
