(* ===== verification/Metrics.thy ===== *)
theory Metrics
  imports Sorting "HOL-Library.Word"
begin

text \<open>
  \<^verbatim>\<open>internal/tracing\<close>, its metrics: counters and histograms and their text form.  The operations used of \<^verbatim>\<open>float64\<close> are
  a parameter, as in \<^verbatim>\<open>Budget\<close>; counts are 64-bit words that wrap.  Its spans are in \<^verbatim>\<open>Spans\<close>.
\<close>

section \<open>Data\<close>

record 'f floats =
  fo_zero :: 'f
  fo_add :: "'f \<Rightarrow> 'f \<Rightarrow> 'f"
  fo_ms :: "'f \<Rightarrow> 'f"  \<comment> \<open>multiplication by 1000\<close>
  fo_int64 :: "'f \<Rightarrow> int"
  fo_leInt :: "'f \<Rightarrow> int \<Rightarrow> bool"  \<comment> \<open>comparison with a converted \<^verbatim>\<open>int64\<close>\<close>
  fo_show :: "'f \<Rightarrow> string"  \<comment> \<open>\<^verbatim>\<open>%v\<close>\<close>
  fo_showSeconds :: "int \<Rightarrow> string"  \<comment> \<open>\<^verbatim>\<open>%.3f\<close> of a number of milliseconds over 1000\<close>

definition InfBound :: int where "InfBound = 2 ^ 62"

datatype metric_kind = CounterKind | HistogramKind

record 'f metric =
  me_help :: string
  me_kind :: metric_kind
  me_value :: 'f
  me_bounds :: "int list"
  me_counts :: "int \<Rightarrow> 64 word"
  me_sum :: 'f
  me_count :: "64 word"

type_synonym 'f metrics = "string \<rightharpoonup> 'f metric"

section \<open>Operations\<close>

definition Counter :: "'f floats \<Rightarrow> string \<Rightarrow> string \<Rightarrow> 'f metrics \<Rightarrow> 'f metrics" where
  "Counter fo name help m =
     m(name \<mapsto> \<lparr>me_help = help, me_kind = CounterKind, me_value = fo_zero fo, me_bounds = [], me_counts = (\<lambda>_. 0), me_sum = fo_zero fo, me_count = 0\<rparr>)"

definition Histogram :: "'f floats \<Rightarrow> string \<Rightarrow> string \<Rightarrow> 'f list \<Rightarrow> 'f metrics \<Rightarrow> 'f metrics" where
  "Histogram fo name help boundsSeconds m =
     m(name \<mapsto> \<lparr>me_help = help, me_kind = HistogramKind, me_value = fo_zero fo,
       me_bounds = map (\<lambda>s. fo_int64 fo (fo_ms fo s)) boundsSeconds @ [InfBound],
       me_counts = (\<lambda>_. 0), me_sum = fo_zero fo, me_count = 0\<rparr>)"

text \<open>\<open>secs\<close> are the constants 0.5, 1, 2, 5 and 10.\<close>

definition NewMetrics :: "'f floats \<Rightarrow> 'f list \<Rightarrow> 'f metrics" where
  "NewMetrics fo secs =
     Histogram fo ''executor_restore_seconds'' ''snapshot restore latency'' secs
       (Counter fo ''executor_snapshots_restored_total'' ''snapshot restores completed''
         (Counter fo ''executor_build_seconds_total'' ''environment image builds completed'' Map.empty))"

definition inBucket :: "'f floats \<Rightarrow> 'f \<Rightarrow> int \<Rightarrow> bool" where
  "inBucket fo ms bound \<longleftrightarrow> fo_leInt fo ms bound \<or> bound = InfBound"

fun addToBuckets :: "'f floats \<Rightarrow> 'f \<Rightarrow> int list \<Rightarrow> (int \<Rightarrow> 64 word) \<Rightarrow> int \<Rightarrow> 64 word" where
  "addToBuckets fo ms [] c = c"
| "addToBuckets fo ms (b # bs) c = addToBuckets fo ms bs (if inBucket fo ms b then c(b := c b + 1) else c)"

definition observed :: "'f floats \<Rightarrow> 'f \<Rightarrow> 'f metric \<Rightarrow> 'f metric" where
  "observed fo valueSeconds met =
     (case me_kind met of
        CounterKind \<Rightarrow> met\<lparr>me_value := fo_add fo (me_value met) valueSeconds\<rparr>
      | HistogramKind \<Rightarrow>
          (let ms = fo_ms fo valueSeconds in
           met\<lparr>me_sum := fo_add fo (me_sum met) ms, me_count := me_count met + 1,
             me_counts := addToBuckets fo ms (me_bounds met) (me_counts met)\<rparr>))"

definition Observe :: "'f floats \<Rightarrow> string \<Rightarrow> 'f \<Rightarrow> 'f metrics \<Rightarrow> 'f metrics" where
  "Observe fo name valueSeconds m = (case m name of None \<Rightarrow> m | Some met \<Rightarrow> m(name \<mapsto> observed fo valueSeconds met))"

definition kindLabel :: "'f metric \<Rightarrow> string" where
  "kindLabel met = (if me_kind met = CounterKind then ''counter'' else ''histogram'')"

definition bucketLine :: "'f floats \<Rightarrow> string \<Rightarrow> 'f metric \<Rightarrow> int \<Rightarrow> string" where
  "bucketLine fo name met bound =
     name @ ''_bucket{le='' @ goQuote (if bound = InfBound then ''+Inf'' else fo_showSeconds fo bound) @ ''} '' @ showNat (unat (me_counts met bound)) @ [CHR 0x0A]"

definition renderMetric :: "'f floats \<Rightarrow> string \<Rightarrow> 'f metric \<Rightarrow> string" where
  "renderMetric fo name met =
     ''# HELP '' @ name @ '' '' @ me_help met @ [CHR 0x0A] @ ''# TYPE '' @ name @ '' '' @ kindLabel met @ [CHR 0x0A] @
     (if me_kind met = CounterKind then name @ '' '' @ fo_show fo (me_value met) @ [CHR 0x0A]
      else concat (map (bucketLine fo name met) (me_bounds met)) @
        name @ ''_sum '' @ fo_show fo (me_sum met) @ [CHR 0x0A] @ name @ ''_count '' @ showNat (unat (me_count met)) @ [CHR 0x0A])"

text \<open>\<open>names\<close> are the keys of the map in the order of its iteration.\<close>

definition Render :: "'f floats \<Rightarrow> string list \<Rightarrow> 'f metrics \<Rightarrow> string" where
  "Render fo names m = concat (map (\<lambda>name. case m name of None \<Rightarrow> [] | Some met \<Rightarrow> renderMetric fo name met) (sort names))"

text \<open>\<^verbatim>\<open>float64(hits) / float64(total)\<close> is \<open>ratio\<close>; the sum of the two counts wraps.\<close>

definition WarmHitRatio :: "(64 word \<Rightarrow> 64 word \<Rightarrow> 'f) \<Rightarrow> 'f \<Rightarrow> 64 word \<Rightarrow> 64 word \<Rightarrow> 'f" where
  "WarmHitRatio ratio one hits misses = (let total = hits + misses in if total = 0 then one else ratio hits total)"

section \<open>What a histogram holds\<close>

lemma addToBuckets_distinct:
  "distinct bs \<Longrightarrow> addToBuckets fo ms bs c b = c b + (if b \<in> set bs \<and> inBucket fo ms b then 1 else 0)"
  by (induction bs arbitrary: c) auto

text \<open>The contents of a histogram after observations of \<open>vs\<close>, latest first.\<close>

definition holds :: "'f floats \<Rightarrow> 'f list \<Rightarrow> 'f metric \<Rightarrow> bool" where
  "holds fo vs met \<longleftrightarrow> me_kind met = HistogramKind \<and> me_count met = of_nat (length vs) \<and>
     me_sum met = foldr (\<lambda>v acc. fo_add fo acc (fo_ms fo v)) vs (fo_zero fo) \<and>
     (\<forall>b \<in> set (me_bounds met). me_counts met b = of_nat (length (filter (\<lambda>v. inBucket fo (fo_ms fo v) b) vs)))"

lemma observed_holds:
  assumes "holds fo vs met" "distinct (me_bounds met)"
  shows "holds fo (v # vs) (observed fo v met)" "me_bounds (observed fo v met) = me_bounds met"
  using assms by (auto simp: holds_def observed_def Let_def addToBuckets_distinct)

fun observeAll :: "'f floats \<Rightarrow> (string \<times> 'f) list \<Rightarrow> 'f metrics \<Rightarrow> 'f metrics" where
  "observeAll fo [] m = m"
| "observeAll fo ((name, v) # os) m = observeAll fo os (Observe fo name v m)"

lemma observeAll_holds:
  assumes "m name = Some met" "holds fo vs met" "distinct (me_bounds met)"
  shows "\<exists>met'. observeAll fo obs m name = Some met' \<and> me_bounds met' = me_bounds met \<and>
    holds fo (rev (map snd (filter (\<lambda>(n, v). n = name) obs)) @ vs) met'"
  using assms
proof (induction obs arbitrary: m met vs)
  case (Cons x obs)
  obtain n v where x: "x = (n, v)" by fastforce
  show ?case
  proof (cases "n = name")
    case True
    have "Observe fo n v m name = Some (observed fo v met)" using Cons.prems(1) True by (simp add: Observe_def)
    from Cons.IH [where m = "Observe fo n v m" and met = "observed fo v met" and vs = "v # vs", OF this] observed_holds [OF Cons.prems(2,3), of v] Cons.prems(3)
    show ?thesis by (simp add: x True)
  next
    case False
    have "Observe fo n v m name = Some met" using Cons.prems(1) False by (simp add: Observe_def split: option.split)
    from Cons.IH [where m = "Observe fo n v m", OF this Cons.prems(2,3)] show ?thesis by (simp add: x False)
  qed
qed simp

text \<open>
  Whatever is observed, in whatever order and under whatever names, a histogram counts for each of its bounds the observations
  under its name that are within the bound, and in the last bucket, as in its count, all of them, modulo the width of a count.
\<close>

theorem histogram_is_cumulative:
  assumes "m name = Some met" "holds fo [] met" "distinct (me_bounds met)" "InfBound \<in> set (me_bounds met)"
  shows "\<exists>met'. observeAll fo obs m name = Some met' \<and>
    (let vs = map snd (filter (\<lambda>(n, v). n = name) obs) in
     me_count met' = of_nat (length vs) \<and> me_counts met' InfBound = me_count met' \<and>
     (\<forall>b \<in> set (me_bounds met). me_counts met' b = of_nat (length (filter (\<lambda>v. inBucket fo (fo_ms fo v) b) vs))))"
proof -
  from observeAll_holds [where m = m and name = name and met = met and fo = fo and vs = "[]" and obs = obs] assms(1-3) obtain met' where
    m: "observeAll fo obs m name = Some met'" "me_bounds met' = me_bounds met"
    "holds fo (rev (map snd (filter (\<lambda>(n, v). n = name) obs))) met'" by auto
  have "inBucket fo ms InfBound" for ms by (simp add: inBucket_def)
  with m assms(4) show ?thesis by (auto simp: holds_def Let_def rev_filter [symmetric])
qed

text \<open>The restore histogram of a fresh registry is such a histogram when its bounds convert exactly.\<close>

lemma fresh_histogram:
  assumes "map (\<lambda>s. fo_int64 fo (fo_ms fo s)) secs = [500, 1000, 2000, 5000, 10000]"
  shows "\<exists>met. NewMetrics fo secs ''executor_restore_seconds'' = Some met \<and> holds fo [] met \<and> distinct (me_bounds met) \<and> InfBound \<in> set (me_bounds met)"
  by (simp add: NewMetrics_def Histogram_def holds_def assms InfBound_def)

text \<open>With fewer than \<open>2 ^ 64\<close> observations the buckets grow with the bounds, as the text format asks.\<close>

theorem buckets_monotone:
  assumes "holds fo vs met" "b \<in> set (me_bounds met)" "b' \<in> set (me_bounds met)" "length vs < 2 ^ 64"
    and "\<And>v. inBucket fo (fo_ms fo v) b \<Longrightarrow> inBucket fo (fo_ms fo v) b'"
  shows "unat (me_counts met b) \<le> unat (me_counts met b') \<and> unat (me_counts met b') \<le> unat (me_count met)"
proof -
  let ?n = "\<lambda>b. length (filter (\<lambda>v. inBucket fo (fo_ms fo v) b) vs)"
  have lt: "?n b \<le> ?n b'" for vs :: "'a list"
    by (simp add: length_filter_conv_card) (intro card_mono; auto intro: assms(5))
  have "?n c < 2 ^ 64" for c using assms(4) le_less_trans length_filter_le by blast
  with assms lt show ?thesis by (simp add: holds_def unat_of_nat take_bit_nat_eq_self)
qed

text \<open>The text does not depend on the order in which the map is iterated.\<close>

theorem render_order_independent:
  assumes "distinct ns" "distinct ns'" "set ns = dom m" "set ns' = dom m"
  shows "Render fo ns m = Render fo ns' m"
  using sort_distinct_eq [OF assms(1,2)] assms(3,4) by (simp add: Render_def)

text \<open>
  The sum of a histogram is in milliseconds, while its name and the bounds of its buckets are in seconds: an observation of \<open>v\<close>
  seconds is shown as \<open>1000 * v\<close>.
\<close>

theorem histogram_sum_in_milliseconds:
  assumes "m name = Some met" "me_kind met = HistogramKind" "me_sum met = fo_zero fo"
  shows "\<exists>met'. Observe fo name v m name = Some met' \<and>
    suffix (name @ ''_sum '' @ fo_show fo (fo_add fo (fo_zero fo) (fo_ms fo v)) @ [CHR 0x0A] @ name @ ''_count '' @ showNat (unat (me_count met + 1)) @ [CHR 0x0A])
      (renderMetric fo name met')"
  using assms by (simp add: Observe_def observed_def renderMetric_def Let_def suffix_def)

end
