(* ===== verification/Migrations.thy ===== *)
theory Migrations
  imports Prelude
begin

text \<open>
  \<^verbatim>\<open>internal/db/migrate.go\<close>: the schema migrations at start-up.  The migration library is a record of the three calls made on
  it, which act on the database \<open>'w\<close>; \<^verbatim>\<open>Close\<close> is deferred.
\<close>

record 'w migrator =
  mi_source :: "goerr option"
  mi_open :: "string \<Rightarrow> 'w \<Rightarrow> goerr option \<times> 'w"
  mi_up :: "'w \<Rightarrow> goerr option \<times> 'w"
  mi_close :: "'w \<Rightarrow> 'w"

definition ErrNoChange :: goerr where
  "ErrNoChange = ErrNew ''no change''"

definition dsnToMigrateURL :: "string \<Rightarrow> string" where
  "dsnToMigrateURL dsn =
     (let p = ''postgres://'' in
      if length p \<le> length dsn \<and> take (length p) dsn = p then ''pgx5://'' @ drop (length p) dsn else dsn)"

definition MigrateUp :: "'w migrator \<Rightarrow> string \<Rightarrow> 'w \<Rightarrow> goerr option \<times> 'w" where
  "MigrateUp m dsn w =
     (case mi_source m of
        Some err \<Rightarrow> (Some (ErrWrap (''migration source: '' @ errText err) err), w)
      | None \<Rightarrow>
     (case mi_open m (dsnToMigrateURL dsn) w of
        (Some err, w1) \<Rightarrow> (Some (ErrWrap (''migrate init: '' @ errText err) err), w1)
      | (None, w1) \<Rightarrow>
     (case mi_up m w1 of
        (None, w2) \<Rightarrow> (None, mi_close m w2)
      | (Some err, w2) \<Rightarrow>
          (if errorsIs err ErrNoChange then None else Some (ErrWrap (''migrate up: '' @ errText err) err), mi_close m w2))))"

text \<open>
  The documented behaviour of \<^verbatim>\<open>Up\<close> over what is the schema of a database: it applies what is pending, and says so when
  nothing is.  Opening and closing leave the schema alone.
\<close>

definition migrates :: "'w migrator \<Rightarrow> ('w \<Rightarrow> 'v) \<Rightarrow> ('v \<Rightarrow> bool) \<Rightarrow> bool" where
  "migrates m schema current \<longleftrightarrow>
     (\<forall>u w. schema (snd (mi_open m u w)) = schema w) \<and> (\<forall>w. schema (mi_close m w) = schema w) \<and>
     (\<forall>w w'. mi_up m w = (None, w') \<longrightarrow> current (schema w')) \<and>
     (\<forall>w err w'. mi_up m w = (Some err, w') \<longrightarrow> errorsIs err ErrNoChange \<longrightarrow> current (schema w') \<and> schema w' = schema w) \<and>
     (\<forall>w. current (schema w) \<longrightarrow> (\<exists>w'. mi_up m w = (Some ErrNoChange, w') \<and> schema w' = schema w))"

lemma ErrNoChange_is [simp]: "errorsIs ErrNoChange ErrNoChange"
  by (simp add: ErrNoChange_def)

text \<open>The driver's address keeps everything but the scheme, and needs converting once.\<close>

lemma dsnToMigrateURL_postgres: "dsnToMigrateURL (''postgres://'' @ rest) = ''pgx5://'' @ rest"
  by (simp add: dsnToMigrateURL_def)

lemma dsnToMigrateURL_idem: "dsnToMigrateURL (dsnToMigrateURL dsn) = dsnToMigrateURL dsn"
  by (simp add: dsnToMigrateURL_def Let_def)

text \<open>
  Migrating is safe to repeat: after a call without error the schema is the current one, and a second call keeps it and
  fails only if the database cannot be opened.
\<close>

theorem migrate_is_repeatable:
  assumes "migrates m schema current" and "MigrateUp m dsn w = (None, w')" and "MigrateUp m dsn' w' = (e, w'')"
  shows "current (schema w') \<and> schema w'' = schema w' \<and>
    (e = None \<or> (\<exists>err. fst (mi_open m (dsnToMigrateURL dsn') w') = Some err \<and> e = Some (ErrWrap (''migrate init: '' @ errText err) err)))"
proof -
  have keep: "schema w1 = schema w0" if "mi_open m u w0 = (x, w1)" for u w0 x w1
    using assms(1) that unfolding migrates_def by (metis snd_conv)
  have close: "schema (mi_close m w0) = schema w0" for w0 using assms(1) unfolding migrates_def by simp
  obtain w1 x w2 where up: "mi_up m w1 = (x, w2)" "x = None \<or> (\<exists>err. x = Some err \<and> errorsIs err ErrNoChange)" "w' = mi_close m w2"
    using assms(2) by (auto simp: MigrateUp_def split: option.splits prod.splits if_splits)
  then have "current (schema w2)" using assms(1) unfolding migrates_def by blast
  then have cur: "current (schema w')" using up(3) close by simp
  have src: "mi_source m = None" using assms(2) by (auto simp: MigrateUp_def split: option.splits)
  obtain y w3 where op: "mi_open m (dsnToMigrateURL dsn') w' = (y, w3)" by (rule prod.exhaust)
  have s3: "schema w3 = schema w'" by (rule keep [OF op])
  show ?thesis
  proof (cases y)
    case None
    have "current (schema w3)" using cur s3 by simp
    then obtain w4 where "mi_up m w3 = (Some ErrNoChange, w4)" "schema w4 = schema w3"
      using assms(1) unfolding migrates_def by blast
    then have "e = None" "w'' = mi_close m w4" using assms(3) src op None by (simp_all add: MigrateUp_def)
    with cur s3 close \<open>schema w4 = schema w3\<close> show ?thesis by simp
  next
    case (Some err)
    then have "e = Some (ErrWrap (''migrate init: '' @ errText err) err)" "w'' = w3" using assms(3) src op by (simp_all add: MigrateUp_def)
    with cur s3 op Some show ?thesis by simp
  qed
qed

text \<open>An instance: the schema is the number of migrations applied, of three.\<close>

definition exMigrator :: "nat migrator" where
  "exMigrator = \<lparr>mi_source = None, mi_open = (\<lambda>u w. (None, w)), mi_up = (\<lambda>w. if w = 3 then (Some ErrNoChange, w) else (None, 3)), mi_close = (\<lambda>w. w)\<rparr>"

lemma exMigrator_migrates: "migrates exMigrator (\<lambda>w. w) (\<lambda>v. v = 3)"
  by (simp add: migrates_def exMigrator_def)

lemma migrate_twice_example: "MigrateUp exMigrator ''postgres://h/db'' 1 = (None, 3) \<and> MigrateUp exMigrator ''postgres://h/db'' 3 = (None, 3)"
  by (simp add: MigrateUp_def exMigrator_def)

end
