(* ===== verification/MockOIDC.thy ===== *)
theory MockOIDC
  imports Authn JsonValue
begin

text \<open>
  \<^verbatim>\<open>cmd/mockoidc\<close>: the identity provider of development stacks, and that the authenticator of the platform accepts
  what it issues.  RSA and the JSON encoder are parameters; documents are given as the values they encode.
\<close>

section \<open>The provider\<close>

text \<open>A private key is opaque: its public part and its signatures are all that is used of it.\<close>

record 'k rsa =
  rs_Public :: "'k \<Rightarrow> rsa_public_key"
  rs_Sign :: "'k \<Rightarrow> string \<Rightarrow> string result"

record 'k oidc_server =
  os_key :: 'k
  os_kid :: string
  os_iss :: string

definition newServer :: "'k \<Rightarrow> string \<Rightarrow> string \<Rightarrow> 'k oidc_server" where
  "newServer key addr public =
     \<lparr>os_key = key, os_kid = ''dev-key-1'', os_iss = (if public = [] then ''http://localhost'' @ addr else public)\<rparr>"

text \<open>\<^verbatim>\<open>big.Int.Bytes\<close>: big-endian and without leading zeros.\<close>

fun Bytes :: "nat \<Rightarrow> string" where
  "Bytes n = (if n = 0 then [] else Bytes (n div 256) @ [char_of (n mod 256)])"

declare Bytes.simps [simp del]

definition discovery :: "'k oidc_server \<Rightarrow> json" where
  "discovery s = JObj [(''issuer'', JStr (os_iss s)), (''jwks_uri'', JStr (os_iss s @ ''/jwks''))]"

definition jwks :: "'k rsa \<Rightarrow> 'k oidc_server \<Rightarrow> json" where
  "jwks r s =
     (let pub = rs_Public r (os_key s) in
      JObj [(''keys'', JArr [JObj
        [(''alg'', JStr ''RS256''), (''e'', JStr (EncodeToString (Bytes (nat (pk_E pub))))), (''kid'', JStr (os_kid s)),
         (''kty'', JStr ''RSA''), (''n'', JStr (EncodeToString (Bytes (pk_N pub)))), (''use'', JStr ''sig'')]])])"

definition headerText :: "'k oidc_server \<Rightarrow> string" where
  "headerText s =
     ''{'' @ goQuote ''alg'' @ '':'' @ goQuote ''RS256'' @ '','' @ goQuote ''typ'' @ '':'' @ goQuote ''JWT'' @ '','' @ goQuote ''kid'' @ '':'' @
     [CHR 0x22] @ os_kid s @ [CHR 0x22] @ ''}''"

definition tokenPayload :: "'k oidc_server \<Rightarrow> time \<Rightarrow> (string \<Rightarrow> string) \<Rightarrow> json" where
  "tokenPayload s now query =
     (let user = query ''user'';
          og = (if query ''org'' = [] then ''org-dev'' else query ''org'');
          email = (if query ''email'' = [] then user @ ''@dev.local'' else query ''email'')
      in JObj [(''email'', JStr email), (''exp'', JNum (Unix (now + Hour))), (''iat'', JNum (Unix now)), (''iss'', JStr (os_iss s)),
           (''org_id'', JStr og), (''sub'', JStr user)])"

datatype oidc_answer = OidcText string | OidcJSON json

text \<open>\<open>marshal\<close> is the JSON encoder and \<open>digest\<close> SHA-256.\<close>

definition issueToken :: "'k rsa \<Rightarrow> (json \<Rightarrow> string) \<Rightarrow> (string \<Rightarrow> string) \<Rightarrow> 'k oidc_server \<Rightarrow> time \<Rightarrow> (string \<Rightarrow> string) \<Rightarrow> string result" where
  "issueToken r marshal digest s now query =
     (let signingInput = EncodeToString (headerText s) @ ''.'' @ EncodeToString (marshal (tokenPayload s now query)) in
      case rs_Sign r (os_key s) (digest signingInput) of
        Inl err \<Rightarrow> Inl err
      | Inr sig \<Rightarrow> Inr (signingInput @ ''.'' @ EncodeToString sig))"

definition tokenHandler ::
  "'k rsa \<Rightarrow> (json \<Rightarrow> string) \<Rightarrow> (string \<Rightarrow> string) \<Rightarrow> 'k oidc_server \<Rightarrow> time \<Rightarrow> (string \<Rightarrow> string) \<Rightarrow> int \<times> oidc_answer" where
  "tokenHandler r marshal digest s now query =
     (if query ''user'' = [] then (400, OidcText ''missing user'')
      else
     (case issueToken r marshal digest s now query of
        Inl err \<Rightarrow> (500, OidcText ''sign error'')
      | Inr tok \<Rightarrow> (200, OidcJSON (JObj [(''access_token'', JStr tok), (''expires_in'', JStr ''3600''), (''id_token'', JStr tok),
          (''token_type'', JStr ''Bearer'')]))))"

definition oidcServe ::
  "'k rsa \<Rightarrow> (json \<Rightarrow> string) \<Rightarrow> (string \<Rightarrow> string) \<Rightarrow> 'k oidc_server \<Rightarrow> time \<Rightarrow> string \<Rightarrow> (string \<Rightarrow> string) \<Rightarrow> int \<times> oidc_answer" where
  "oidcServe r marshal digest s now path query =
     (if path = ''/.well-known/openid-configuration'' then (200, OidcJSON (discovery s))
      else if path = ''/jwks'' then (200, OidcJSON (jwks r s))
      else if path = ''/token'' then tokenHandler r marshal digest s now query
      else (404, OidcText ''404 page not found''))"

section \<open>The two ends\<close>

text \<open>The structures into which the authenticator decodes.\<close>

definition claimsField :: "string \<Rightarrow> json \<Rightarrow> jwt_claims \<Rightarrow> jwt_claims result" where
  "claimsField k v c =
     (if k = ''iss'' then jsonStr v (\<lambda>s. c\<lparr>jc_Iss := s\<rparr>) c
      else if k = ''sub'' then jsonStr v (\<lambda>s. c\<lparr>jc_Sub := s\<rparr>) c
      else if k = ''email'' then jsonStr v (\<lambda>s. c\<lparr>jc_Email := s\<rparr>) c
      else if k = ''exp'' then jsonInt v (\<lambda>n. c\<lparr>jc_Exp := n\<rparr>) c
      else Inr c)"

definition headerField :: "string \<Rightarrow> json \<Rightarrow> jwt_header \<Rightarrow> jwt_header result" where
  "headerField k v h =
     (if k = ''alg'' then jsonStr v (\<lambda>s. h\<lparr>jh_Alg := s\<rparr>) h
      else if k = ''kid'' then jsonStr v (\<lambda>s. h\<lparr>jh_KID := s\<rparr>) h
      else Inr h)"

definition discoveryField :: "string \<Rightarrow> json \<Rightarrow> string \<Rightarrow> string result" where
  "discoveryField k v u = (if k = ''jwks_uri'' then jsonStr v (\<lambda>s. s) u else Inr u)"

definition jwkField :: "string \<Rightarrow> json \<Rightarrow> jwk \<Rightarrow> jwk result" where
  "jwkField k v w =
     (if k = ''kid'' then jsonStr v (\<lambda>s. w\<lparr>jk_KID := s\<rparr>) w
      else if k = ''n'' then jsonStr v (\<lambda>s. w\<lparr>jk_N := s\<rparr>) w
      else if k = ''e'' then jsonStr v (\<lambda>s. w\<lparr>jk_E := s\<rparr>) w
      else Inr w)"

definition jwksField :: "string \<Rightarrow> json \<Rightarrow> jwk list \<Rightarrow> jwk list result" where
  "jwksField k v ks =
     (if k = ''keys'' then
        (case v of
           JArr vs \<Rightarrow> decodeAll (decodeInto jwkField \<lparr>jk_KID = [], jk_N = [], jk_E = []\<rparr>) vs
         | JNull \<Rightarrow> Inr []
         | _ \<Rightarrow> Inl ErrJSONType)
      else Inr ks)"

text \<open>
  What the authenticator relies on of the code outside, for a provider \<open>s\<close>: its requests reach the provider, the JSON
  decoders read the texts of the documents as the values they encode, and what the private key signed, the public key verifies.
  A document of a response ends with a line feed, which \<^verbatim>\<open>Encode\<close> adds.
\<close>

definition headerJSON :: "'k oidc_server \<Rightarrow> json" where
  "headerJSON s = JObj [(''alg'', JStr ''RS256''), (''typ'', JStr ''JWT''), (''kid'', JStr (os_kid s))]"

definition oidcBody :: "(json \<Rightarrow> string) \<Rightarrow> oidc_answer \<Rightarrow> string" where
  "oidcBody marshal a = (case a of OidcText t \<Rightarrow> t @ [CHR 0x0A] | OidcJSON v \<Rightarrow> marshal v @ [CHR 0x0A])"

definition reachesProvider :: "'k rsa \<Rightarrow> (json \<Rightarrow> string) \<Rightarrow> (string \<Rightarrow> string) \<Rightarrow> 'k oidc_server \<Rightarrow> net \<Rightarrow> bool" where
  "reachesProvider r marshal digest s net \<longleftrightarrow>
     (\<forall>n path. \<exists>now query. net n (os_iss s @ path) =
        Inr (fst (oidcServe r marshal digest s now path query), oidcBody marshal (snd (oidcServe r marshal digest s now path query))))"

definition joseReads :: "'k rsa \<Rightarrow> (json \<Rightarrow> string) \<Rightarrow> 'k oidc_server \<Rightarrow> jose \<Rightarrow> json \<Rightarrow> bool" where
  "joseReads r marshal s j payload \<longleftrightarrow>
     readsAs (jo_discovery j) discoveryField [] (oidcBody marshal (OidcJSON (discovery s))) (discovery s) \<and>
     readsAs (jo_jwks j) jwksField [] (oidcBody marshal (OidcJSON (jwks r s))) (jwks r s) \<and>
     readsAs (Inr \<circ> jo_header j) headerField \<lparr>jh_Alg = [], jh_KID = []\<rparr> (headerText s) (headerJSON s) \<and>
     readsAs (jo_claims j) claimsField \<lparr>jc_Iss = [], jc_Sub = [], jc_Email = [], jc_Exp = 0\<rparr> (marshal payload) payload"

definition rsaPair :: "'k rsa \<Rightarrow> jose \<Rightarrow> bool" where
  "rsaPair r j \<longleftrightarrow> (\<forall>key d sig. rs_Sign r key d = Inr sig \<longrightarrow> jo_Verify j (rs_Public r key) d sig)"

section \<open>Lemmas\<close>

lemma SetBytes_snoc: "SetBytes (bs @ [b]) = SetBytes bs * 256 + of_char b"
  by (simp add: SetBytes_def)

lemma SetBytes_Bytes [simp]: "SetBytes (Bytes n) = n"
proof (induction n rule: Bytes.induct)
  case (1 n)
  show ?case
  proof (cases "n = 0")
    case True
    then show ?thesis by (simp add: Bytes.simps SetBytes_def)
  next
    case False
    with 1 show ?thesis by (subst Bytes.simps) (simp add: SetBytes_snoc del: of_nat_mod)
  qed
qed

lemma Int64_nat: "0 \<le> n \<Longrightarrow> n < 2 ^ 63 \<Longrightarrow> Int64 (nat n) = n"
  by (simp add: Int64_def wrap64_def)

text \<open>What the decoders get of the provider's documents.\<close>

lemma oidc_keys:
  "map lowerByte ''alg'' = ''alg''" "map lowerByte ''typ'' = ''typ''" "map lowerByte ''kid'' = ''kid''" "map lowerByte ''kty'' = ''kty''"
  "map lowerByte ''n'' = ''n''" "map lowerByte ''e'' = ''e''" "map lowerByte ''use'' = ''use''" "map lowerByte ''keys'' = ''keys''"
  "map lowerByte ''issuer'' = ''issuer''" "map lowerByte ''jwks_uri'' = ''jwks_uri''" "map lowerByte ''iss'' = ''iss''"
  "map lowerByte ''sub'' = ''sub''" "map lowerByte ''email'' = ''email''" "map lowerByte ''exp'' = ''exp''" "map lowerByte ''iat'' = ''iat''"
  "map lowerByte ''org_id'' = ''org_id''"
  by code_simp+

lemma decode_discovery: "decodeInto discoveryField [] (discovery s) = Inr (os_iss s @ ''/jwks'')"
  unfolding decodeInto_def jsonMembers_def discovery_def
  by (simp add: discoveryField_def jsonStr_def oidc_keys del: list.map)

lemma decode_header: "decodeInto headerField \<lparr>jh_Alg = [], jh_KID = []\<rparr> (headerJSON s) = Inr \<lparr>jh_Alg = ''RS256'', jh_KID = os_kid s\<rparr>"
  unfolding decodeInto_def jsonMembers_def headerJSON_def
  by (simp add: headerField_def jsonStr_def oidc_keys del: list.map)

lemma decode_claims:
  "decodeInto claimsField \<lparr>jc_Iss = [], jc_Sub = [], jc_Email = [], jc_Exp = 0\<rparr> (tokenPayload s now query) =
   Inr \<lparr>jc_Iss = os_iss s, jc_Sub = query ''user'',
     jc_Email = (if query ''email'' = [] then query ''user'' @ ''@dev.local'' else query ''email''), jc_Exp = Unix (now + Hour)\<rparr>"
  unfolding decodeInto_def jsonMembers_def tokenPayload_def Let_def
  by (simp add: claimsField_def jsonStr_def jsonInt_def oidc_keys del: list.map)

lemma decode_jwk:
  "decodeInto jwkField \<lparr>jk_KID = [], jk_N = [], jk_E = []\<rparr> (JObj [(''alg'', JStr a), (''e'', JStr e), (''kid'', JStr k), (''kty'', JStr t), (''n'', JStr n), (''use'', JStr u)]) =
   Inr \<lparr>jk_KID = k, jk_N = n, jk_E = e\<rparr>"
  unfolding decodeInto_def jsonMembers_def
  by (simp add: jwkField_def jsonStr_def oidc_keys del: list.map)

lemma decode_jwks:
  "decodeInto jwksField [] (jwks r s) =
   Inr [\<lparr>jk_KID = os_kid s, jk_N = EncodeToString (Bytes (pk_N (rs_Public r (os_key s)))),
         jk_E = EncodeToString (Bytes (nat (pk_E (rs_Public r (os_key s)))))\<rparr>]"
  unfolding decodeInto_def [of jwksField] jsonMembers_def jwks_def Let_def
  by (simp add: jwksField_def decode_jwk oidc_keys del: list.map)

section \<open>What it issues is accepted\<close>

abbreviation oidcKey :: "'k rsa \<Rightarrow> 'k oidc_server \<Rightarrow> rsa_public_key" where
  "oidcKey r s \<equiv> rs_Public r (os_key s)"

lemma bearer_prefix: "map lowerByte ''Bearer '' = ''bearer ''"
  by code_simp

lemma TrimSuffix_none: "\<not> suffix p s \<Longrightarrow> TrimSuffix s p = s"
  by (simp add: TrimSuffix_def)

lemma jwkKey_oidc:
  assumes "0 \<le> pk_E pub" "pk_E pub < 2 ^ 63"
  shows "jwkKey \<lparr>jk_KID = k, jk_N = EncodeToString (Bytes (pk_N pub)), jk_E = EncodeToString (Bytes (nat (pk_E pub)))\<rparr> = Some pub"
  using assms by (simp add: jwkKey_def Int64_nat)

text \<open>The two documents at their addresses, which is all that the authenticator asks for.\<close>

definition publishesKeys :: "'k rsa \<Rightarrow> (json \<Rightarrow> string) \<Rightarrow> 'k oidc_server \<Rightarrow> net \<Rightarrow> bool" where
  "publishesKeys r marshal s net \<longleftrightarrow>
     (\<forall>n. net n (os_iss s @ ''/.well-known/openid-configuration'') = Inr (200, oidcBody marshal (OidcJSON (discovery s))) \<and>
          net n (os_iss s @ ''/jwks'') = Inr (200, oidcBody marshal (OidcJSON (jwks r s))))"

lemma reachesProvider_publishes:
  assumes "reachesProvider r marshal digest s net"
  shows "publishesKeys r marshal s net"
proof -
  have doc: "net n (os_iss s @ path) = Inr (200, oidcBody marshal (OidcJSON v))"
    if "\<And>now query. oidcServe r marshal digest s now path query = (200, OidcJSON v)" for n path v
  proof -
    obtain now query where "net n (os_iss s @ path) =
        Inr (fst (oidcServe r marshal digest s now path query), oidcBody marshal (snd (oidcServe r marshal digest s now path query)))"
      using assms unfolding reachesProvider_def by blast
    then show ?thesis unfolding that by simp
  qed
  show ?thesis unfolding publishesKeys_def by (intro allI conjI doc) (simp_all add: oidcServe_def)
qed

lemma refreshKeys_oidc:
  assumes pub: "publishesKeys r marshal s net" and reads: "joseReads r marshal s j payload"
    and iss: "au_Issuer a = os_iss s" "\<not> suffix ''/'' (os_iss s)" and e: "0 \<le> pk_E (oidcKey r s)" "pk_E (oidcKey r s) < 2 ^ 63"
  shows "refreshKeys j net a = (None, a\<lparr>au_keys := (au_keys a)(os_kid s \<mapsto> oidcKey r s)\<rparr>)"
proof -
  have "getJSON (net 0) (jo_discovery j) (os_iss s @ ''/.well-known/openid-configuration'') = Inr (os_iss s @ ''/jwks'')"
    using pub reads by (simp add: getJSON_def publishesKeys_def joseReads_def readsAs_def decode_discovery)
  moreover have "getJSON (net 1) (jo_jwks j) (os_iss s @ ''/jwks'') = decodeInto jwksField [] (jwks r s)"
    using pub reads by (simp add: getJSON_def publishesKeys_def joseReads_def readsAs_def)
  ultimately show ?thesis using iss e by (simp add: refreshKeys_def Let_def TrimSuffix_none decode_jwks jwkKey_oidc)
qed

text \<open>
  A provider's signature over its header and claims is accepted by an authenticator configured for it, which has the key
  already or fetches it now.
\<close>

definition signedToken :: "'k oidc_server \<Rightarrow> string \<Rightarrow> string \<Rightarrow> string" where
  "signedToken s payload sig = EncodeToString (headerText s) @ ''.'' @ EncodeToString payload @ ''.'' @ EncodeToString sig"

lemma provider_token_accepted:
  assumes "publishesKeys r marshal s net" and "joseReads r marshal s j payload" and "rsaPair r j"
    and "au_Issuer a = os_iss s" "\<not> suffix ''/'' (os_iss s)" and "au_keys a (os_kid s) \<in> {None, Some (oidcKey r s)}"
    and "0 \<le> pk_E (oidcKey r s)" "pk_E (oidcKey r s) < 2 ^ 63"
    and sig: "rs_Sign r (os_key s) (jo_Sum256 j (EncodeToString (headerText s) @ ''.'' @ EncodeToString (marshal payload))) = Inr sig"
    and "decodeInto claimsField \<lparr>jc_Iss = [], jc_Sub = [], jc_Email = [], jc_Exp = 0\<rparr> payload = Inr c" "jc_Iss c = os_iss s"
    and "Unix t < jc_Exp c" and "resolve (jc_Sub c) = Inr (og, u)" and kid: "os_kid s \<noteq> []"
  shows "authenticate j net t resolve (''Bearer '' @ signedToken s (marshal payload) sig) a =
    (Inr \<lparr>id_UserID = u, id_OrgID = og, id_Sub = jc_Sub c, id_Email = jc_Email c\<rparr>,
     a\<lparr>au_keys := (au_keys a)(os_kid s \<mapsto> oidcKey r s)\<rparr>)"
proof -
  let ?h = "EncodeToString (headerText s)" and ?p = "EncodeToString (marshal payload)"
  define tok where "tok = signedToken s (marshal payload) sig"
  have tok: "tok = ?h @ CHR ''.'' # ?p @ CHR ''.'' # EncodeToString sig" by (simp add: tok_def signedToken_def)
  have "list_all plainByte tok" "tok \<noteq> []" by (simp_all add: tok Encode_plain plainByte_def)
  then have bearer: "bearerToken (''Bearer '' @ tok) = tok"
    by (simp add: bearerToken_def bearer_prefix TrimSpace_plain list_all_iff del: list.map)
  have split: "Split (CHR ''.'') tok = [?h, ?p, EncodeToString sig]"
    by (simp add: tok Split_append Split_no_sep Encode_no_sep)
  have header: "parseJWTHeader j ?h = \<lparr>jh_Alg = ''RS256'', jh_KID = os_kid s\<rparr>"
    using assms(2) by (simp add: parseJWTHeader_def joseReads_def readsAs_def decode_header)
  have "a\<lparr>au_keys := (au_keys a)(os_kid s \<mapsto> oidcKey r s)\<rparr> = a" if "au_keys a (os_kid s) = Some (oidcKey r s)"
    using that by (simp add: map_upd_triv)
  then have key: "signingKey j net (os_kid s) a = (Inr (oidcKey r s), a\<lparr>au_keys := (au_keys a)(os_kid s \<mapsto> oidcKey r s)\<rparr>)"
    using assms(6) refreshKeys_oidc [OF assms(1,2,4,5,7,8)] by (auto simp: signingKey_def)
  have "parseClaims j ?p = Inr c" using assms(2,10) by (simp add: parseClaims_def joseReads_def readsAs_def)
  then have "checkToken j t resolve (os_iss s) (oidcKey r s) ?h ?p (EncodeToString sig) =
      Inr \<lparr>id_UserID = u, id_OrgID = og, id_Sub = jc_Sub c, id_Email = jc_Email c\<rparr>"
    using assms(3,11-13) sig by (simp add: checkToken_Inr rsaPair_def)
  with bearer split header key kid assms(4) show ?thesis
    unfolding authenticate_def Let_def tok_def [symmetric] by (simp add: tok)
qed

text \<open>
  A token that the provider issued authenticates its user with an authenticator configured for it, until it expires: the
  authenticator, which has the provider's key already or fetches it now, gives the user and the organisation of the user's row
  and the mail address of the request.  The organisation that was asked for has no influence.
\<close>

theorem mock_token_authenticates:
  fixes key :: 'k and addr public :: string
  defines "s \<equiv> newServer key addr public"
  assumes "reachesProvider r marshal (jo_Sum256 j) s net" and "joseReads r marshal s j (tokenPayload s t0 query)" and "rsaPair r j"
    and "au_Issuer a = os_iss s" "\<not> suffix ''/'' (os_iss s)" and "au_keys a (os_kid s) \<in> {None, Some (oidcKey r s)}"
    and "0 \<le> pk_E (oidcKey r s)" "pk_E (oidcKey r s) < 2 ^ 63"
    and "oidcServe r marshal (jo_Sum256 j) s t0 ''/token'' query = (200, OidcJSON (JObj fs))" "(''id_token'', JStr tok) \<in> set fs"
    and "Unix t < Unix (t0 + Hour)" and "resolve (query ''user'') = Inr (og, u)"
  shows "authenticate j net t resolve (''Bearer '' @ tok) a =
    (Inr \<lparr>id_UserID = u, id_OrgID = og, id_Sub = query ''user'',
       id_Email = (if query ''email'' = [] then query ''user'' @ ''@dev.local'' else query ''email'')\<rparr>,
     a\<lparr>au_keys := (au_keys a)(os_kid s \<mapsto> oidcKey r s)\<rparr>)"
proof -
  let ?p = "tokenPayload s t0 query"
  have kid: "os_kid s \<noteq> []" by (simp add: s_def newServer_def)
  obtain sig where sig: "rs_Sign r (os_key s) (jo_Sum256 j (EncodeToString (headerText s) @ ''.'' @ EncodeToString (marshal ?p))) = Inr sig"
    and tok: "tok = signedToken s (marshal ?p) sig"
    using assms(10,11)
    by (auto simp: oidcServe_def tokenHandler_def issueToken_def signedToken_def Let_def split: if_splits sum.splits)
  show ?thesis
    using provider_token_accepted [OF reachesProvider_publishes [OF assms(2)] assms(3-9) sig decode_claims _ _ _ kid, of t resolve og u] assms(12,13)
    by (simp add: tok)
qed

text \<open>An instance: signatures are the digests themselves, and the decoders know the four documents.\<close>

definition exServer :: "unit oidc_server" where "exServer = newServer () '':8082'' []"

definition exRsa :: "unit rsa" where "exRsa = \<lparr>rs_Public = (\<lambda>_. \<lparr>pk_N = 65, pk_E = 65537\<rparr>), rs_Sign = (\<lambda>_ d. Inr d)\<rparr>"

definition exQuery :: "string \<Rightarrow> string" where "exQuery k = (if k = ''user'' then ''ann'' else [])"

definition exPayload :: json where "exPayload = tokenPayload exServer 0 exQuery"

definition exProviderJose :: jose where
  "exProviderJose =
     \<lparr>jo_Sum256 = (\<lambda>s. s), jo_Verify = (\<lambda>k d sig. d = sig), jo_header = (\<lambda>_. \<lparr>jh_Alg = ''RS256'', jh_KID = os_kid exServer\<rparr>),
      jo_claims = (\<lambda>_. decodeInto claimsField \<lparr>jc_Iss = [], jc_Sub = [], jc_Email = [], jc_Exp = 0\<rparr> exPayload),
      jo_discovery = (\<lambda>_. decodeInto discoveryField [] (discovery exServer)), jo_jwks = (\<lambda>_. decodeInto jwksField [] (jwks exRsa exServer))\<rparr>"

definition exProviderNet :: net where
  "exProviderNet n url =
     (let ans = oidcServe exRsa (\<lambda>_. []) (\<lambda>s. s) exServer 0 (drop (length (os_iss exServer)) url) exQuery
      in Inr (fst ans, oidcBody (\<lambda>_. []) (snd ans)))"

definition exToken :: string where
  "exToken =
     (let input = EncodeToString (headerText exServer) @ ''.'' @ EncodeToString [] in input @ ''.'' @ EncodeToString input)"

lemma mock_token_authenticates_example:
  "fst (authenticate exProviderJose exProviderNet 0 (\<lambda>_. Inr (''o'', ''u'')) (''Bearer '' @ exToken) (NewAuthenticator (os_iss exServer))) =
   Inr \<lparr>id_UserID = ''u'', id_OrgID = ''o'', id_Sub = ''ann'', id_Email = ''ann@dev.local''\<rparr>"
proof -
  have reach: "reachesProvider exRsa (\<lambda>_. []) (jo_Sum256 exProviderJose) exServer exProviderNet"
    unfolding reachesProvider_def by (auto simp: exProviderNet_def exProviderJose_def Let_def)
  have reads: "joseReads exRsa (\<lambda>_. []) exServer exProviderJose (tokenPayload exServer 0 exQuery)"
    by (simp add: joseReads_def readsAs_def decode_header exPayload_def exProviderJose_def)
  have pair: "rsaPair exRsa exProviderJose" by (simp add: rsaPair_def exRsa_def exProviderJose_def)
  have serve: "oidcServe exRsa (\<lambda>_. []) (jo_Sum256 exProviderJose) exServer 0 ''/token'' exQuery =
      (200, OidcJSON (JObj [(''access_token'', JStr exToken), (''expires_in'', JStr ''3600''), (''id_token'', JStr exToken), (''token_type'', JStr ''Bearer'')]))"
    by (simp add: oidcServe_def tokenHandler_def issueToken_def exQuery_def exRsa_def exProviderJose_def exToken_def Let_def)
  have iss: "\<not> suffix ''/'' (os_iss exServer)" by (simp add: exServer_def newServer_def suffix_def)
  show ?thesis
    using mock_token_authenticates [where key = "()" and addr = "'':8082''" and public = "[]", folded exServer_def,
        OF reach reads pair _ iss _ _ _ serve, of "NewAuthenticator (os_iss exServer)" exToken 0 "\<lambda>_. Inr (''o'', ''u'')" "''o''" "''u''"]
    by (simp add: NewAuthenticator_def exRsa_def exQuery_def Unix_def time_defs)
qed

end
