(* ===== verification/Operator.thy ===== *)
theory Operator
  imports Prelude "HOL-Library.List_Lexorder"
begin

text \<open>
  \<^verbatim>\<open>internal/operator\<close> and the \<^verbatim>\<open>AgentSession\<close> resource of \<^verbatim>\<open>api/v1alpha1\<close>: one reconciliation step of the
  session phase machine, idle detection, the sandbox pod, and label and environment rendering.  The
  Kubernetes client is a parameter over a world \<open>'w\<close>; a step also returns the writes it made, in
  order and with their outcome.
\<close>

section \<open>Data\<close>

definition PhaseProvisioning :: string where "PhaseProvisioning = ''Provisioning''"
definition PhaseRunning :: string where "PhaseRunning = ''Running''"
definition PhaseIdle :: string where "PhaseIdle = ''Idle''"
definition PhaseCommitting :: string where "PhaseCommitting = ''Committing''"
definition PhaseTerminated :: string where "PhaseTerminated = ''Terminated''"

lemmas phase_defs = PhaseProvisioning_def PhaseRunning_def PhaseIdle_def PhaseCommitting_def PhaseTerminated_def

record session_spec =
  ss_AgentRef :: string
  ss_UserID :: string
  ss_OrgID :: string
  ss_EnvironmentKey :: string
  ss_IdleTimeout :: "duration option"
  ss_MaxLifetime :: "duration option"
  ss_PriorityClass :: string

record session_status =
  st_Phase :: string
  st_PodName :: string
  st_WarmHit :: bool
  st_StartedAt :: "time option"
  st_LastActivity :: "time option"
  st_TerminatedAt :: "time option"
  st_ObservedGeneration :: int

text \<open>Annotations are a Go map: pairs with distinct keys, in the order one iteration visits them.\<close>

record agent_session =
  as_Name :: string
  as_Namespace :: string
  as_Annotations :: "(string \<times> string) list"
  as_Spec :: session_spec
  as_Status :: session_status

record pod =
  po_Name :: string
  po_Namespace :: string
  po_Labels :: "(string \<times> string) list"
  po_PriorityClass :: string
  po_AutomountToken :: bool
  po_Grace :: int
  po_Image :: string
  po_Env :: "(string \<times> string) list"
  po_Conditions :: "(string \<times> string) list"

datatype api_error = NotFound | AlreadyExists | OtherError string

record 'w kube =
  kc_GetSession :: "string \<Rightarrow> string \<Rightarrow> 'w \<Rightarrow> (api_error + agent_session) \<times> 'w"
  kc_GetPod :: "string \<Rightarrow> string \<Rightarrow> 'w \<Rightarrow> (api_error + pod) \<times> 'w"
  kc_Create :: "pod \<Rightarrow> 'w \<Rightarrow> api_error option \<times> 'w"
  kc_Delete :: "pod \<Rightarrow> 'w \<Rightarrow> api_error option \<times> 'w"
  kc_UpdateStatus :: "agent_session \<Rightarrow> 'w \<Rightarrow> api_error option \<times> 'w"

datatype api_write = Created pod "api_error option" | Deleted pod "api_error option" | Updated agent_session "api_error option"

text \<open>\<^verbatim>\<open>ctrl.Result\<close>: the requeue delay, zero for none.\<close>

type_synonym 'w outcome = "((api_error + duration) \<times> 'w) \<times> api_write list"

definition defaultIdleTimeout :: duration where "defaultIdleTimeout = 10 * Minute"
definition CommitGrace :: duration where "CommitGrace = 2 * Minute"

section \<open>Labels and environment\<close>

definition labelSafe :: "char \<Rightarrow> bool" where
  "labelSafe c \<longleftrightarrow> asciiAlnum c \<or>
     c = CHR ''-'' \<or> c = CHR ''_'' \<or> c = CHR ''.''"

definition labelEdge :: "char \<Rightarrow> char" where
  "labelEdge c = (if c = CHR ''-'' \<or> c = CHR ''_'' \<or> c = CHR ''.'' then CHR ''x'' else c)"

definition sanitizeLabel :: "string \<Rightarrow> string" where
  "sanitizeLabel v =
     (let out = map (\<lambda>c. if labelSafe c then c else CHR ''-'') v in
      if length out = 0 then ''none''
      else
        let out = out[0 := labelEdge (out ! 0)];
            out = out[length out - 1 := labelEdge (out ! (length out - 1))]
        in out)"

definition harnessEnvPrefix :: string where "harnessEnvPrefix = ''harness.dark-factory/''"

definition harnessEnv :: "agent_session \<Rightarrow> (string \<times> string) list" where
  "harnessEnv sess =
     sort_key fst (map (\<lambda>(k, v). (drop (length harnessEnvPrefix) k, v))
       (filter (\<lambda>(k, v). HasPrefix k harnessEnvPrefix) (as_Annotations sess)))"

lemma harnessEnv_sorted: "sorted (map fst (harnessEnv sess))"
  by (simp add: harnessEnv_def)

lemma harnessEnv_set:
  "(n, v) \<in> set (harnessEnv sess) \<longleftrightarrow> (harnessEnvPrefix @ n, v) \<in> set (as_Annotations sess)"
  by (force simp: harnessEnv_def HasPrefix_def prefix_def)

definition sessionPod :: "string \<Rightarrow> agent_session \<Rightarrow> pod" where
  "sessionPod img sess =
     \<lparr>po_Name = as_Name sess @ ''-sandbox'', po_Namespace = as_Namespace sess,
      po_Labels = [(''app'', ''dark-factory-sandbox''), (''agents.platform/session'', as_Name sess),
                   (''agents.platform/org'', ss_OrgID (as_Spec sess)), (''agents.platform/user'', ss_UserID (as_Spec sess)),
                   (''agents.platform/environment'', sanitizeLabel (ss_EnvironmentKey (as_Spec sess)))],
      po_PriorityClass = ss_PriorityClass (as_Spec sess), po_AutomountToken = False,
      po_Grace = CommitGrace div Second, po_Image = img, po_Env = harnessEnv sess, po_Conditions = []\<rparr>"

section \<open>The phase machine\<close>

definition setStatus :: "(session_status \<Rightarrow> session_status) \<Rightarrow> agent_session \<Rightarrow> agent_session" where
  "setStatus f sess = sess\<lparr>as_Status := f (as_Status sess)\<rparr>"

definition updateStatus :: "'w kube \<Rightarrow> agent_session \<Rightarrow> duration \<Rightarrow> 'w \<Rightarrow> 'w outcome" where
  "updateStatus kc sess requeueAfter w =
     (case kc_UpdateStatus kc sess w of
        (Some err, w') \<Rightarrow> ((Inl err, w'), [Updated sess (Some err)])
      | (None, w') \<Rightarrow> ((Inr (if requeueAfter > 0 then requeueAfter else 0), w'), [Updated sess None]))"

definition toProvisioning :: "'w kube \<Rightarrow> string \<Rightarrow> time \<Rightarrow> agent_session \<Rightarrow> 'w \<Rightarrow> 'w outcome" where
  "toProvisioning kc img now sess w =
     (let pod = sessionPod img sess in
      case kc_Create kc pod w of
        (e, w1) \<Rightarrow>
          (case (if e = Some AlreadyExists then None else e) of
             Some err \<Rightarrow> ((Inl err, w1), [Created pod e])
           | None \<Rightarrow>
               (let s = setStatus (\<lambda>st. st\<lparr>st_Phase := PhaseProvisioning, st_PodName := po_Name pod, st_StartedAt := Some now\<rparr>) sess
                in case updateStatus kc s (2 * Second) w1 of (res, ws) \<Rightarrow> (res, Created pod e # ws))))"

definition podReady :: "pod \<Rightarrow> bool" where
  "podReady p \<longleftrightarrow> list_ex (\<lambda>(t, s). t = ''Ready'' \<and> s = ''True'') (po_Conditions p)"

definition checkPodReady :: "'w kube \<Rightarrow> string \<Rightarrow> time \<Rightarrow> agent_session \<Rightarrow> 'w \<Rightarrow> 'w outcome" where
  "checkPodReady kc img now sess w =
     (case kc_GetPod kc (as_Namespace sess) (st_PodName (as_Status sess)) w of
        (Inl NotFound, w1) \<Rightarrow> toProvisioning kc img now sess w1
      | (Inl err, w1) \<Rightarrow> ((Inl err, w1), [])
      | (Inr p, w1) \<Rightarrow>
          if podReady p
          then updateStatus kc (setStatus (\<lambda>st. st\<lparr>st_Phase := PhaseRunning, st_LastActivity := Some now\<rparr>) sess) 0 w1
          else updateStatus kc sess (5 * Second) w1)"

definition idleTimeout :: "agent_session \<Rightarrow> duration" where
  "idleTimeout sess = (case ss_IdleTimeout (as_Spec sess) of Some d \<Rightarrow> d | None \<Rightarrow> defaultIdleTimeout)"

definition lastActivity :: "agent_session \<Rightarrow> time" where
  "lastActivity sess = (case st_LastActivity (as_Status sess) of Some t \<Rightarrow> t | None \<Rightarrow> zeroTime)"

definition lifetimeOver :: "time \<Rightarrow> agent_session \<Rightarrow> bool" where
  "lifetimeOver now sess \<longleftrightarrow>
     (case (ss_MaxLifetime (as_Spec sess), st_StartedAt (as_Status sess)) of
        (Some lifetime, Some started) \<Rightarrow> now - started \<ge> lifetime
      | _ \<Rightarrow> False)"

definition detectIdle :: "'w kube \<Rightarrow> time \<Rightarrow> agent_session \<Rightarrow> 'w \<Rightarrow> 'w outcome" where
  "detectIdle kc now sess w =
     (let timeout = idleTimeout sess;
          last = lastActivity sess;
          idle = setStatus (\<lambda>st. st\<lparr>st_Phase := PhaseIdle\<rparr>) sess
      in if lifetimeOver now sess then updateStatus kc idle 0 w
         else if \<not> IsZero last \<and> now - last \<ge> timeout then updateStatus kc idle 0 w
         else
           (let remaining = timeout - (now - last);
                requeue = (if \<not> IsZero last \<and> remaining > 0 then remaining else timeout)
            in updateStatus kc sess requeue w))"

definition beginCommit :: "'w kube \<Rightarrow> agent_session \<Rightarrow> 'w \<Rightarrow> 'w outcome" where
  "beginCommit kc sess w = updateStatus kc (setStatus (\<lambda>st. st\<lparr>st_Phase := PhaseCommitting\<rparr>) sess) CommitGrace w"

definition finishCommit :: "'w kube \<Rightarrow> time \<Rightarrow> agent_session \<Rightarrow> 'w \<Rightarrow> 'w outcome" where
  "finishCommit kc now sess w =
     (let terminated = setStatus (\<lambda>st. st\<lparr>st_Phase := PhaseTerminated, st_TerminatedAt := Some now\<rparr>) sess in
      case kc_GetPod kc (as_Namespace sess) (st_PodName (as_Status sess)) w of
        (Inr p, w1) \<Rightarrow>
          (case kc_Delete kc p w1 of
             (e, w2) \<Rightarrow>
               (case (if e = Some NotFound then None else e) of
                  Some err \<Rightarrow> ((Inl err, w2), [Deleted p e])
                | None \<Rightarrow> (case updateStatus kc terminated 0 w2 of (res, ws) \<Rightarrow> (res, Deleted p e # ws))))
      | (Inl NotFound, w1) \<Rightarrow> updateStatus kc terminated 0 w1
      | (Inl err, w1) \<Rightarrow> ((Inl err, w1), []))"

definition reconcileSession :: "'w kube \<Rightarrow> string \<Rightarrow> time \<Rightarrow> agent_session \<Rightarrow> 'w \<Rightarrow> 'w outcome" where
  "reconcileSession kc img now sess w =
     (let phase = st_Phase (as_Status sess) in
      if phase = [] then toProvisioning kc img now sess w
      else if phase = PhaseProvisioning then checkPodReady kc img now sess w
      else if phase = PhaseRunning then detectIdle kc now sess w
      else if phase = PhaseIdle then beginCommit kc sess w
      else if phase = PhaseCommitting then finishCommit kc now sess w
      else ((Inr 0, w), []))"

definition Reconcile :: "'w kube \<Rightarrow> string \<Rightarrow> time \<Rightarrow> string \<Rightarrow> string \<Rightarrow> 'w \<Rightarrow> 'w outcome" where
  "Reconcile kc img now ns name w =
     (case kc_GetSession kc ns name w of
        (Inl NotFound, w1) \<Rightarrow> ((Inr 0, w1), [])
      | (Inl err, w1) \<Rightarrow> ((Inl err, w1), [])
      | (Inr sess, w1) \<Rightarrow> reconcileSession kc img now sess w1)"

section \<open>What one step can write\<close>

lemma updateStatus_writes: "updateStatus kc s d w = (res, ws) \<Longrightarrow> \<exists>e. ws = [Updated s e]"
  by (auto simp: updateStatus_def split: prod.splits option.splits)

lemma setStatus_simps [simp]:
  "as_Status (setStatus f s) = f (as_Status s)" "as_Name (setStatus f s) = as_Name s"
  "as_Namespace (setStatus f s) = as_Namespace s" "as_Spec (setStatus f s) = as_Spec s"
  by (simp_all add: setStatus_def)

text \<open>The status a step may ask for, by the phase of the session it read.\<close>

definition provisioned :: "time \<Rightarrow> agent_session \<Rightarrow> agent_session" where
  "provisioned now s = setStatus (\<lambda>st. st\<lparr>st_Phase := PhaseProvisioning, st_PodName := as_Name s @ ''-sandbox'', st_StartedAt := Some now\<rparr>) s"

definition running :: "time \<Rightarrow> agent_session \<Rightarrow> agent_session" where
  "running now s = setStatus (\<lambda>st. st\<lparr>st_Phase := PhaseRunning, st_LastActivity := Some now\<rparr>) s"

definition inPhase :: "string \<Rightarrow> agent_session \<Rightarrow> agent_session" where
  "inPhase ph s = setStatus (\<lambda>st. st\<lparr>st_Phase := ph\<rparr>) s"

definition terminated :: "time \<Rightarrow> agent_session \<Rightarrow> agent_session" where
  "terminated now s = setStatus (\<lambda>st. st\<lparr>st_Phase := PhaseTerminated, st_TerminatedAt := Some now\<rparr>) s"

lemma toProvisioning_writes:
  "toProvisioning kc img now s w = (res, ws) \<Longrightarrow> Updated s' e \<in> set ws \<Longrightarrow> s' = provisioned now s"
  by (auto simp: toProvisioning_def Let_def provisioned_def sessionPod_def dest: updateStatus_writes
      split: prod.splits option.splits)

lemma detectIdle_writes:
  "detectIdle kc now s w = (res, ws) \<Longrightarrow> Updated s' e \<in> set ws \<Longrightarrow> s' = s \<or> s' = inPhase PhaseIdle s"
  by (auto simp: detectIdle_def Let_def inPhase_def dest!: updateStatus_writes split: if_splits)

lemma beginCommit_writes:
  "beginCommit kc s w = (res, ws) \<Longrightarrow> Updated s' e \<in> set ws \<Longrightarrow> s' = inPhase PhaseCommitting s"
  by (auto simp: beginCommit_def inPhase_def dest!: updateStatus_writes)

lemma checkPodReady_writes:
  assumes "checkPodReady kc img now s w = (res, ws)" and "Updated s' e \<in> set ws"
  shows "s' = s \<or> s' = provisioned now s \<or>
    (s' = running now s \<and> (\<exists>p w1. kc_GetPod kc (as_Namespace s) (st_PodName (as_Status s)) w = (Inr p, w1) \<and> podReady p))"
proof (cases "kc_GetPod kc (as_Namespace s) (st_PodName (as_Status s)) w")
  case (Pair r w1)
  show ?thesis
  proof (cases r)
    case (Inl err)
    with Pair assms show ?thesis
      by (cases err) (auto simp: checkPodReady_def dest: toProvisioning_writes)
  next
    case (Inr p)
    with Pair assms show ?thesis
      by (auto simp: checkPodReady_def running_def dest!: updateStatus_writes split: if_splits)
  qed
qed

lemma finishCommit_writes:
  assumes "finishCommit kc now s w = (res, ws)" and "Updated s' e \<in> set ws"
  shows "s' = terminated now s \<and>
    ((\<exists>w1. kc_GetPod kc (as_Namespace s) (st_PodName (as_Status s)) w = (Inl NotFound, w1)) \<or>
     (\<exists>p w1 d. kc_GetPod kc (as_Namespace s) (st_PodName (as_Status s)) w = (Inr p, w1) \<and>
        d \<in> {None, Some NotFound} \<and> ws = [Deleted p d, Updated s' e]))"
proof (cases "kc_GetPod kc (as_Namespace s) (st_PodName (as_Status s)) w")
  case (Pair r w1)
  show ?thesis
  proof (cases r)
    case (Inl err)
    with Pair assms show ?thesis
      by (cases err) (auto simp: finishCommit_def Let_def terminated_def dest!: updateStatus_writes)
  next
    case (Inr p)
    obtain d w2 where d: "kc_Delete kc p w1 = (d, w2)" by force
    with Inr Pair assms show ?thesis
      by (auto simp: finishCommit_def Let_def terminated_def dest!: updateStatus_writes split: if_splits option.splits prod.splits)
  qed
qed

lemma inPhase_phase [simp]: "st_Phase (as_Status (inPhase ph s)) = ph"
  by (simp add: inPhase_def)

lemma no_delete:
  "updateStatus kc s d w = (res, ws) \<Longrightarrow> Deleted p e \<notin> set ws"
  "toProvisioning kc img now s w = (res, ws) \<Longrightarrow> Deleted p e \<notin> set ws"
  "detectIdle kc now s w = (res, ws) \<Longrightarrow> Deleted p e \<notin> set ws"
  "beginCommit kc s w = (res, ws) \<Longrightarrow> Deleted p e \<notin> set ws"
  by (auto simp: toProvisioning_def detectIdle_def beginCommit_def Let_def dest!: updateStatus_writes
      split: prod.splits option.splits if_splits)

lemma checkPodReady_no_delete: "checkPodReady kc img now s w = (res, ws) \<Longrightarrow> Deleted p e \<notin> set ws"
  by (auto simp: checkPodReady_def no_delete split: prod.splits sum.splits api_error.splits if_splits)

lemma reconcile_moves:
  assumes "reconcileSession kc img now s w = (res, ws)" and "Updated s' e \<in> set ws"
  obtains "st_Phase (as_Status s) \<in> {[], PhaseProvisioning}" "s' = provisioned now s"
  | "st_Phase (as_Status s) = PhaseProvisioning" "s' = s"
  | "st_Phase (as_Status s) = PhaseProvisioning" "s' = running now s"
  | "st_Phase (as_Status s) = PhaseRunning" "s' = s"
  | "st_Phase (as_Status s) = PhaseRunning" "s' = inPhase PhaseIdle s"
  | "st_Phase (as_Status s) = PhaseIdle" "s' = inPhase PhaseCommitting s"
  | "st_Phase (as_Status s) = PhaseCommitting" "s' = terminated now s"
  using assms
  by (auto simp: reconcileSession_def Let_def split: if_splits
      dest: toProvisioning_writes checkPodReady_writes detectIdle_writes beginCommit_writes finishCommit_writes)

section \<open>The session lifecycle\<close>

text \<open>
  A session as stored: it starts without a status and moves when a reconciliation step writes it
  successfully; while it runs, its activity time may be refreshed.
\<close>

inductive sessionStep :: "'w kube \<Rightarrow> string \<Rightarrow> agent_session \<Rightarrow> unit \<Rightarrow> agent_session \<Rightarrow> bool" for kc img where
  session_reconciled: "reconcileSession kc img now s w = (res, ws) \<Longrightarrow> Updated s' None \<in> set ws \<Longrightarrow> sessionStep kc img s () s'"
| session_active: "st_Phase (as_Status s) = PhaseRunning \<Longrightarrow>
     sessionStep kc img s () (setStatus (\<lambda>st. st\<lparr>st_LastActivity := Some t\<rparr>) s)"

definition sessionInit :: "agent_session \<Rightarrow> bool" where
  "sessionInit s \<longleftrightarrow> st_Phase (as_Status s) = [] \<and> st_TerminatedAt (as_Status s) = None"

definition sessionInv :: "agent_session \<Rightarrow> bool" where
  "sessionInv s \<longleftrightarrow>
     (let st = as_Status s; ph = st_Phase st in
      ph \<in> {[], PhaseProvisioning, PhaseRunning, PhaseIdle, PhaseCommitting, PhaseTerminated} \<and>
      (ph \<noteq> [] \<longrightarrow> st_PodName st = as_Name s @ ''-sandbox'' \<and> st_StartedAt st \<noteq> None) \<and>
      (ph \<in> {PhaseRunning, PhaseIdle, PhaseCommitting, PhaseTerminated} \<longrightarrow> st_LastActivity st \<noteq> None) \<and>
      (ph = PhaseTerminated \<longleftrightarrow> st_TerminatedAt st \<noteq> None))"

lemma phase_distinct [simp]:
  "PhaseProvisioning \<noteq> []" "PhaseRunning \<noteq> []" "PhaseIdle \<noteq> []" "PhaseCommitting \<noteq> []" "PhaseTerminated \<noteq> []"
  "PhaseProvisioning \<noteq> PhaseRunning" "PhaseProvisioning \<noteq> PhaseIdle" "PhaseProvisioning \<noteq> PhaseCommitting" "PhaseProvisioning \<noteq> PhaseTerminated"
  "PhaseRunning \<noteq> PhaseIdle" "PhaseRunning \<noteq> PhaseCommitting" "PhaseRunning \<noteq> PhaseTerminated" "PhaseRunning \<noteq> PhaseProvisioning"
  "PhaseIdle \<noteq> PhaseCommitting" "PhaseIdle \<noteq> PhaseTerminated" "PhaseIdle \<noteq> PhaseProvisioning" "PhaseIdle \<noteq> PhaseRunning"
  "PhaseCommitting \<noteq> PhaseTerminated" "PhaseCommitting \<noteq> PhaseProvisioning" "PhaseCommitting \<noteq> PhaseRunning" "PhaseCommitting \<noteq> PhaseIdle"
  "PhaseTerminated \<noteq> PhaseProvisioning" "PhaseTerminated \<noteq> PhaseRunning" "PhaseTerminated \<noteq> PhaseIdle" "PhaseTerminated \<noteq> PhaseCommitting"
  by (simp_all add: phase_defs)

declare phase_distinct(1-5) [symmetric, simp]

lemma reconcile_inv:
  assumes "sessionInv s" and "reconcileSession kc img now s w = (res, ws)" and "Updated s' e \<in> set ws"
  shows "sessionInv s'"
  using assms(2,3)
  by (cases rule: reconcile_moves)
    (use assms(1) in \<open>auto simp: sessionInv_def Let_def provisioned_def running_def inPhase_def terminated_def\<close>)

interpretation op: transition_system sessionInit "sessionStep kc img" sessionInv for kc img
proof (unfold_locales, goal_cases)
  case (1 s)
  then show ?case by (simp add: sessionInit_def sessionInv_def Let_def)
next
  case (2 s e t)
  from 2(2,1) show ?case
    by cases (auto intro: reconcile_inv, auto simp: sessionInv_def Let_def)
qed

text \<open>The documented order of phases; a provisioning session may be provisioned again.\<close>

definition phaseMoves :: "(string \<times> string) set" where
  "phaseMoves =
     {([], PhaseProvisioning), (PhaseProvisioning, PhaseRunning), (PhaseRunning, PhaseIdle),
      (PhaseIdle, PhaseCommitting), (PhaseCommitting, PhaseTerminated),
      (PhaseProvisioning, PhaseProvisioning), (PhaseRunning, PhaseRunning)}"

section \<open>Properties\<close>

text \<open>
  C17. A session moves through its phases only in the documented order.  Every reachable session has
  a pod name and a start time once it left the empty phase, an activity time once it ran, and a
  termination time exactly when it is terminated; every status a step writes is the next phase in
  order or the same one and leaves name and spec alone; and a terminated session is never written
  again.
\<close>

theorem session_lifecycle:
  assumes "reach sessionInit (sessionStep kc img) s" and "reconcileSession kc img now s w = (res, ws)"
  shows "sessionInv s \<and>
    (\<forall>s' e. Updated s' e \<in> set ws \<longrightarrow> (st_Phase (as_Status s), st_Phase (as_Status s')) \<in> phaseMoves \<and>
       as_Name s' = as_Name s \<and> as_Namespace s' = as_Namespace s \<and> as_Spec s' = as_Spec s) \<and>
    (st_Phase (as_Status s) = PhaseTerminated \<longrightarrow> ws = [] \<and> res = (Inr 0, w))"
proof (intro conjI allI impI)
  show "sessionInv s" by (rule op.reach_inv [OF assms(1)])
  fix s' e assume up: "Updated s' e \<in> set ws"
  show "(st_Phase (as_Status s), st_Phase (as_Status s')) \<in> phaseMoves" "as_Name s' = as_Name s"
    "as_Namespace s' = as_Namespace s" "as_Spec s' = as_Spec s"
    using assms(2) up
    by (cases rule: reconcile_moves; simp add: phaseMoves_def provisioned_def running_def inPhase_def terminated_def; blast)+
next
  assume "st_Phase (as_Status s) = PhaseTerminated"
  with assms(2) show "ws = []" "res = (Inr 0, w)" by (simp_all add: reconcileSession_def Let_def)
qed

definition exKube :: "bool \<Rightarrow> agent_session \<Rightarrow> nat kube" where
  "exKube ready s = \<lparr>kc_GetSession = (\<lambda>_ _ n. (Inr s, n)), kc_GetPod = (\<lambda>_ _ n. (Inr ((sessionPod ''img'' s)\<lparr>po_Conditions := [(''Ready'', if ready then ''True'' else ''False'')]\<rparr>), n)),
     kc_Create = (\<lambda>_ n. (None, n)), kc_Delete = (\<lambda>_ n. (None, n)), kc_UpdateStatus = (\<lambda>_ n. (None, Suc n))\<rparr>"

definition exSession :: agent_session where
  "exSession = \<lparr>as_Name = ''s1'', as_Namespace = ''org'', as_Annotations = [],
     as_Spec = \<lparr>ss_AgentRef = ''bot@1'', ss_UserID = ''u'', ss_OrgID = ''org'', ss_EnvironmentKey = ''sha256:ab'',
       ss_IdleTimeout = None, ss_MaxLifetime = Some Hour, ss_PriorityClass = []\<rparr>,
     as_Status = \<lparr>st_Phase = [], st_PodName = [], st_WarmHit = False, st_StartedAt = None, st_LastActivity = None,
       st_TerminatedAt = None, st_ObservedGeneration = 0\<rparr>\<rparr>"

lemma ex_update: "updateStatus (exKube b s0) s d n = ((Inr (if d > 0 then d else 0), Suc n), [Updated s None])"
  by (simp add: updateStatus_def exKube_def)

lemma ex_provision:
  "\<exists>p. reconcileSession (exKube True exSession) ''img'' 7 exSession 0
     = ((Inr (2 * Second), 1), [Created p None, Updated (provisioned 7 exSession) None])"
  by (simp add: reconcileSession_def toProvisioning_def updateStatus_def exKube_def exSession_def provisioned_def
      setStatus_def sessionPod_def Let_def)

lemma ex_provisioned_reach: "reach sessionInit (sessionStep (exKube True exSession) ''img'') (provisioned 7 exSession)"
proof (rule reach_step)
  show "reach sessionInit (sessionStep (exKube True exSession) ''img'') exSession"
    by (rule reach_init) (simp add: sessionInit_def exSession_def)
  from ex_provision obtain p where
    "reconcileSession (exKube True exSession) ''img'' 7 exSession 0
     = ((Inr (2 * Second), 1), [Created p None, Updated (provisioned 7 exSession) None])" ..
  then show "sessionStep (exKube True exSession) ''img'' exSession () (provisioned 7 exSession)"
    by (rule session_reconciled) simp
qed

lemma ex_ready:
  "reconcileSession (exKube True exSession) ''img'' 9 (provisioned 7 exSession) 0
     = ((Inr 0, 1), [Updated (running 9 (provisioned 7 exSession)) None])"
  by (simp add: reconcileSession_def checkPodReady_def updateStatus_def exKube_def provisioned_def running_def podReady_def Let_def)

theorem session_lifecycle_witness:
  "(st_Phase (as_Status (provisioned 7 exSession)), st_Phase (as_Status (running 9 (provisioned 7 exSession)))) \<in> phaseMoves"
  using session_lifecycle [OF ex_provisioned_reach ex_ready] by simp

text \<open>
  A session is marked running only when its pod exists and reports ready, and it is marked
  terminated only when its pod was found missing or was deleted just before; a pod is deleted in the
  committing phase only.
\<close>

theorem pod_before_phase:
  assumes "reconcileSession kc img now s w = (res, ws)"
  shows "(\<forall>s' e. Updated s' e \<in> set ws \<and> st_Phase (as_Status s') = PhaseRunning \<and> st_Phase (as_Status s) \<noteq> PhaseRunning \<longrightarrow>
      (\<exists>p w1. kc_GetPod kc (as_Namespace s) (st_PodName (as_Status s)) w = (Inr p, w1) \<and> podReady p)) \<and>
    (\<forall>s' e. Updated s' e \<in> set ws \<and> st_Phase (as_Status s') = PhaseTerminated \<longrightarrow>
      (\<exists>w1. kc_GetPod kc (as_Namespace s) (st_PodName (as_Status s)) w = (Inl NotFound, w1)) \<or>
      (\<exists>p w1 d. kc_GetPod kc (as_Namespace s) (st_PodName (as_Status s)) w = (Inr p, w1) \<and>
         d \<in> {None, Some NotFound} \<and> ws = [Deleted p d, Updated s' e])) \<and>
    (\<forall>p d. Deleted p d \<in> set ws \<longrightarrow> st_Phase (as_Status s) = PhaseCommitting)"
proof (intro conjI allI impI)
  fix s' e
  assume up: "Updated s' e \<in> set ws \<and> st_Phase (as_Status s') = PhaseRunning \<and> st_Phase (as_Status s) \<noteq> PhaseRunning"
  then have "st_Phase (as_Status s) = PhaseProvisioning"
    using assms by (auto elim!: reconcile_moves simp: provisioned_def inPhase_def terminated_def)
  with assms have "checkPodReady kc img now s w = (res, ws)" by (simp add: reconcileSession_def)
  from checkPodReady_writes [OF this conjunct1 [OF up]] up
  show "\<exists>p w1. kc_GetPod kc (as_Namespace s) (st_PodName (as_Status s)) w = (Inr p, w1) \<and> podReady p"
    by (auto simp: provisioned_def)
next
  fix s' e
  assume up: "Updated s' e \<in> set ws \<and> st_Phase (as_Status s') = PhaseTerminated"
  then have "st_Phase (as_Status s) = PhaseCommitting"
    using assms by (auto elim!: reconcile_moves simp: provisioned_def inPhase_def running_def)
  with assms have "finishCommit kc now s w = (res, ws)" by (simp add: reconcileSession_def)
  from finishCommit_writes [OF this] up
  show "(\<exists>w1. kc_GetPod kc (as_Namespace s) (st_PodName (as_Status s)) w = (Inl NotFound, w1)) \<or>
      (\<exists>p w1 d. kc_GetPod kc (as_Namespace s) (st_PodName (as_Status s)) w = (Inr p, w1) \<and>
         d \<in> {None, Some NotFound} \<and> ws = [Deleted p d, Updated s' e])" by blast
next
  fix p d
  assume "Deleted p d \<in> set ws"
  with assms show "st_Phase (as_Status s) = PhaseCommitting"
    by (auto simp: reconcileSession_def Let_def no_delete checkPodReady_no_delete split: if_splits)
qed

theorem pod_before_phase_witness:
  "\<exists>p w1. kc_GetPod (exKube True exSession) ''org'' ''s1-sandbox'' 0 = (Inr p, w1) \<and> podReady p"
  using pod_before_phase [OF ex_ready, THEN conjunct1, rule_format, of "running 9 (provisioned 7 exSession)" None]
  by (simp add: running_def provisioned_def) (simp add: exSession_def)

text \<open>
  A running session becomes idle exactly when its maximum lifetime is over or it has been
  inactive for its idle timeout.  Otherwise it is looked at again at the moment at which it will have
  been inactive that long.
\<close>

theorem detect_idle_decision:
  assumes "detectIdle kc now s w = ((Inr requeue, w'), ws)" and "st_Phase (as_Status s) = PhaseRunning"
    and "st_LastActivity (as_Status s) = Some la" and "la \<noteq> zeroTime"
  shows "(Updated (inPhase PhaseIdle s) None \<in> set ws \<longleftrightarrow> lifetimeOver now s \<or> now - la \<ge> idleTimeout s) \<and>
    (Updated (inPhase PhaseIdle s) None \<notin> set ws \<longrightarrow> requeue = la + idleTimeout s - now \<and> requeue > 0)"
proof -
  have la: "lastActivity s = la" "\<not> IsZero la" using assms(3,4) by (simp_all add: lastActivity_def IsZero_def)
  have "inPhase PhaseIdle s \<noteq> s" using assms(2) by (metis inPhase_phase phase_distinct(10))
  then show ?thesis
    using assms(1) la by (auto simp: detectIdle_def Let_def inPhase_def updateStatus_def split: if_splits prod.splits option.splits)
qed

definition exRunning :: agent_session where
  "exRunning = running Minute (provisioned 0 exSession)"

theorem detect_idle_decision_witness:
  "\<exists>w ws. detectIdle (exKube True exSession) (5 * Minute) exRunning 0 = ((Inr (6 * Minute), w), ws) \<and>
     Updated (inPhase PhaseIdle exRunning) None \<notin> set ws"
proof -
  have "\<exists>requeue w ws. detectIdle (exKube True exSession) (5 * Minute) exRunning 0 = ((Inr requeue, w), ws)"
    by (simp add: detectIdle_def ex_update Let_def)
  then obtain requeue w ws where d: "detectIdle (exKube True exSession) (5 * Minute) exRunning 0 = ((Inr requeue, w), ws)"
    by blast
  have "st_Phase (as_Status exRunning) = PhaseRunning" "st_LastActivity (as_Status exRunning) = Some Minute"
    "\<not> lifetimeOver (5 * Minute) exRunning" "idleTimeout exRunning = 10 * Minute"
    by (simp_all add: exRunning_def running_def provisioned_def lifetimeOver_def idleTimeout_def exSession_def
        defaultIdleTimeout_def time_defs)
  with detect_idle_decision [OF d, of Minute] d show ?thesis by (simp add: time_defs)
qed

text \<open>
  A sanitized label value is never empty, consists of letters, digits, dashes, underscores and
  dots only, and starts and ends with a letter or digit; values that are such labels already are
  unchanged.
\<close>

theorem sanitizeLabel_valid:
  "(let out = sanitizeLabel v in
     out \<noteq> [] \<and> list_all labelSafe out \<and> labelEdge (hd out) = hd out \<and> labelEdge (last out) = last out) \<and>
   (v \<noteq> [] \<and> list_all labelSafe v \<and> labelEdge (hd v) = hd v \<and> labelEdge (last v) = last v \<longrightarrow> sanitizeLabel v = v)"
proof -
  let ?f = "\<lambda>c. if labelSafe c then c else CHR ''-''"
  have edge: "labelSafe (labelEdge c)" if "labelSafe c" for c
    using that by (auto simp: labelEdge_def labelSafe_def less_eq_char_def)
  have idem: "labelEdge (labelEdge c) = labelEdge c" for c by (simp add: labelEdge_def)
  have dash: "labelSafe (?f c)" for c by (simp add: labelSafe_def)
  show ?thesis
  proof (cases v)
    case Nil
    then show ?thesis by (simp add: sanitizeLabel_def labelSafe_def labelEdge_def less_eq_char_def)
  next
    case (Cons c cs)
    show ?thesis
    proof (cases cs rule: rev_cases)
      case Nil
      with Cons have out: "sanitizeLabel v = [labelEdge (?f c)]" by (simp add: sanitizeLabel_def idem)
      have "list_all labelSafe [labelEdge (?f c)]" using edge [OF dash] by simp
      moreover have "list_all labelSafe v \<and> labelEdge (hd v) = hd v \<longrightarrow> [labelEdge (?f c)] = v" using Nil Cons by simp
      ultimately show ?thesis unfolding out Let_def by (simp add: idem)
    next
      case (snoc ds d)
      with Cons have out: "sanitizeLabel v = labelEdge (?f c) # map ?f ds @ [labelEdge (?f d)]"
        by (simp add: sanitizeLabel_def Let_def nth_append list_update_append)
      have "list_all labelSafe (labelEdge (?f c) # map ?f ds @ [labelEdge (?f d)])"
        using edge [OF dash] by (auto simp: list_all_iff labelSafe_def [of "CHR ''-''"])
      moreover have "list_all labelSafe v \<and> labelEdge (hd v) = hd v \<and> labelEdge (last v) = last v
          \<longrightarrow> labelEdge (?f c) # map ?f ds @ [labelEdge (?f d)] = v"
        using snoc Cons by (auto simp: list_all_iff intro: map_idI)
      ultimately show ?thesis unfolding out Let_def
        by (auto simp only: list.sel last.simps last_appendR idem list.distinct append_is_Nil_conv if_False if_True simp_thms)
    qed
  qed
qed

theorem sanitizeLabel_valid_witness:
  "sanitizeLabel ''a.b'' = ''a.b'' \<and> labelEdge (hd (sanitizeLabel ''-x:'')) = hd (sanitizeLabel ''-x:'')"
proof -
  have "list_all labelSafe ''a.b''" by (simp add: labelSafe_def less_eq_char_def)
  with sanitizeLabel_valid [of "''a.b''"] sanitizeLabel_valid [of "''-x:''"] show ?thesis
    by (simp add: Let_def labelEdge_def)
qed

end
