(* ===== verification/OperatorMain.thy ===== *)
theory OperatorMain
  imports Operator
begin

text \<open>
  \<^verbatim>\<open>cmd/operator/main.go\<close> and the scheme that it builds (\<^verbatim>\<open>api/v1alpha1/scheme.go\<close>, \<^verbatim>\<open>groupversion_info.go\<close>, the \<^verbatim>\<open>init\<close> of
  \<^verbatim>\<open>agentsession_types.go\<close>).  The registrations of the Kubernetes libraries are parameters.
\<close>

section \<open>The scheme\<close>

datatype go_type = AgentSessionType | AgentSessionListType | OtherType string

record group_version =
  gv_Group :: string
  gv_Version :: string

text \<open>A scheme maps a group, a version and a kind to the type of its objects.\<close>

type_synonym scheme = "group_version \<times> string \<rightharpoonup> go_type"

definition GroupVersion :: group_version where
  "GroupVersion = \<lparr>gv_Group = ''agents.platform'', gv_Version = ''v1alpha1''\<rparr>"

definition kindOf :: "go_type \<Rightarrow> string" where
  "kindOf t = (case t of AgentSessionType \<Rightarrow> ''AgentSession'' | AgentSessionListType \<Rightarrow> ''AgentSessionList'' | OtherType n \<Rightarrow> n)"

text \<open>\<^verbatim>\<open>Scheme.AddKnownTypes\<close> panics on a kind that is registered with another type; \<^const>\<open>None\<close> is the panic.\<close>

fun AddKnownTypes :: "group_version \<Rightarrow> go_type list \<Rightarrow> scheme \<Rightarrow> scheme option" where
  "AddKnownTypes gv [] s = Some s"
| "AddKnownTypes gv (t # ts) s =
     (case s (gv, kindOf t) of
        Some t' \<Rightarrow> if t' = t then AddKnownTypes gv ts s else None
      | None \<Rightarrow> AddKnownTypes gv ts (s((gv, kindOf t) \<mapsto> t)))"

text \<open>\<open>meta\<close> is \<^verbatim>\<open>metav1.AddToGroupVersion\<close>.  The builder runs this twice: \<^verbatim>\<open>init\<close> registers a function with the same body.\<close>

definition addKnownTypes :: "(group_version \<Rightarrow> scheme \<Rightarrow> scheme) \<Rightarrow> scheme \<Rightarrow> scheme option" where
  "addKnownTypes meta s = map_option (meta GroupVersion) (AddKnownTypes GroupVersion [AgentSessionType, AgentSessionListType] s)"

definition AddToScheme :: "(group_version \<Rightarrow> scheme \<Rightarrow> scheme) \<Rightarrow> scheme \<Rightarrow> scheme option" where
  "AddToScheme meta s = (case addKnownTypes meta s of None \<Rightarrow> None | Some s1 \<Rightarrow> addKnownTypes meta s1)"

definition NewScheme :: "(scheme \<Rightarrow> scheme result) \<Rightarrow> (group_version \<Rightarrow> scheme \<Rightarrow> scheme) \<Rightarrow> scheme result option" where
  "NewScheme clientgo meta =
     (case clientgo Map.empty of Inl err \<Rightarrow> Some (Inl err) | Inr s \<Rightarrow> map_option Inr (AddToScheme meta s))"

text \<open>What is relied on: the client library has no kinds of this group, and the metadata kinds are others and are added for good.\<close>

definition foreignKinds :: "(scheme \<Rightarrow> scheme result) \<Rightarrow> (group_version \<Rightarrow> scheme \<Rightarrow> scheme) \<Rightarrow> bool" where
  "foreignKinds clientgo meta \<longleftrightarrow>
     (\<forall>s k. clientgo Map.empty = Inr s \<longrightarrow> s (GroupVersion, k) = None) \<and>
     (\<forall>s gv t. t \<in> {AgentSessionType, AgentSessionListType} \<longrightarrow> meta gv s (gv, kindOf t) = s (gv, kindOf t)) \<and>
     (\<forall>s gv k t. s (gv, k) = Some t \<longrightarrow> meta gv s (gv, k) = Some t) \<and> (\<forall>s gv. meta gv (meta gv s) = meta gv s)"

lemma addKnownTypes_registered:
  assumes "s (GroupVersion, kindOf AgentSessionType) = Some AgentSessionType" "s (GroupVersion, kindOf AgentSessionListType) = Some AgentSessionListType"
  shows "addKnownTypes meta s = Some (meta GroupVersion s)"
  using assms by (simp add: addKnownTypes_def)

text \<open>The second registration changes nothing: the scheme has the two kinds with their types, and building it does not panic.\<close>

theorem scheme_has_session_kinds:
  assumes "foreignKinds clientgo meta" and "clientgo Map.empty = Inr s0"
  shows "\<exists>s. NewScheme clientgo meta = Some (Inr s) \<and> Some s = addKnownTypes meta s0 \<and>
    s (GroupVersion, ''AgentSession'') = Some AgentSessionType \<and> s (GroupVersion, ''AgentSessionList'') = Some AgentSessionListType"
proof -
  have none: "s0 (GroupVersion, k) = None" for k using assms unfolding foreignKinds_def by blast
  let ?t = "s0((GroupVersion, ''AgentSession'') \<mapsto> AgentSessionType, (GroupVersion, ''AgentSessionList'') \<mapsto> AgentSessionListType)"
  have first: "addKnownTypes meta s0 = Some (meta GroupVersion ?t)" using none by (simp add: addKnownTypes_def kindOf_def)
  have keep: "meta GroupVersion ?t (GroupVersion, kindOf t) = ?t (GroupVersion, kindOf t)" if "t \<in> {AgentSessionType, AgentSessionListType}" for t
    using assms(1) that unfolding foreignKinds_def by blast
  have k: "meta GroupVersion ?t (GroupVersion, ''AgentSession'') = Some AgentSessionType"
    "meta GroupVersion ?t (GroupVersion, ''AgentSessionList'') = Some AgentSessionListType"
    using keep [of AgentSessionType] keep [of AgentSessionListType] by (simp_all add: kindOf_def)
  have idem: "meta GroupVersion (meta GroupVersion ?t) = meta GroupVersion ?t" using assms(1) unfolding foreignKinds_def by blast
  have "addKnownTypes meta (meta GroupVersion ?t) = Some (meta GroupVersion ?t)"
    using addKnownTypes_registered [of "meta GroupVersion ?t" meta] k idem by (simp add: kindOf_def)
  then show ?thesis using k first assms(2) by (simp add: NewScheme_def AddToScheme_def)
qed

section \<open>The controller\<close>

text \<open>A clock reads the world; without one the reconciler's call of \<^verbatim>\<open>Now\<close> panics, which is \<^const>\<open>None\<close>.\<close>

record 'w session_reconciler =
  sr_Client :: "'w kube"
  sr_SandboxImage :: string
  sr_Clock :: "('w \<Rightarrow> time) option"

definition NewReconciler :: "('w \<Rightarrow> time) \<Rightarrow> 'w kube \<Rightarrow> string \<Rightarrow> 'w session_reconciler" where
  "NewReconciler realClock c sandboxImage = \<lparr>sr_Client = c, sr_SandboxImage = sandboxImage, sr_Clock = Some realClock\<rparr>"

text \<open>\<open>complete\<close> is the registration of a controller for a type with the manager.\<close>

definition SetupWithManager ::
  "('w \<Rightarrow> time) \<Rightarrow> (go_type \<Rightarrow> 'w session_reconciler \<Rightarrow> goerr option) \<Rightarrow> 'w session_reconciler \<Rightarrow> goerr option \<times> 'w session_reconciler" where
  "SetupWithManager realClock complete r =
     (let r = (if sr_Clock r = None then r\<lparr>sr_Clock := Some realClock\<rparr> else r)
      in (complete AgentSessionType r, r))"

definition reconcileRequest :: "'w session_reconciler \<Rightarrow> string \<Rightarrow> string \<Rightarrow> 'w \<Rightarrow> 'w outcome option" where
  "reconcileRequest r ns name w = map_option (\<lambda>now. Reconcile (sr_Client r) (sr_SandboxImage r) (now w) ns name w) (sr_Clock r)"

theorem registered_reconciler_has_clock:
  assumes "SetupWithManager realClock complete r = (e, r')"
  shows "\<exists>now. reconcileRequest r' ns name w = Some (Reconcile (sr_Client r) (sr_SandboxImage r) now ns name w) \<and> e = complete AgentSessionType r'"
  using assms by (cases "sr_Clock r") (auto simp: SetupWithManager_def reconcileRequest_def Let_def)

section \<open>The process\<close>

text \<open>
  \<open>ma_new\<close>, \<open>ma_client\<close>, \<open>ma_complete\<close>, \<open>ma_check\<close> and \<open>ma_start\<close> are the calls on the controller manager, with their errors;
  \<open>ma_start\<close> runs until the process is told to stop.  \<open>flag\<close> is the value of \<^verbatim>\<open>-sandbox-image\<close> if it was given.  The result is the
  exit code and the last line of the log.
\<close>

record ('m, 'w) manager_api =
  ma_new :: "scheme \<Rightarrow> 'm result"
  ma_client :: "'m \<Rightarrow> 'w kube"
  ma_complete :: "'m \<Rightarrow> go_type \<Rightarrow> 'w session_reconciler \<Rightarrow> goerr option"
  ma_check :: "'m \<Rightarrow> goerr option"
  ma_start :: "'m \<Rightarrow> goerr option"

definition operatorMain :: "('w \<Rightarrow> time) \<Rightarrow> scheme result \<Rightarrow> ('m, 'w) manager_api \<Rightarrow> (string \<Rightarrow> string) \<Rightarrow> string option \<Rightarrow> int \<times> string" where
  "operatorMain realClock newScheme api env flag =
     (let sandboxImage = (case flag of Some v \<Rightarrow> v | None \<Rightarrow> env ''SANDBOX_IMAGE'') in
      if sandboxImage = [] then (1, ''SANDBOX_IMAGE or -sandbox-image is required'')
      else
     (case newScheme of Inl err \<Rightarrow> (1, ''unable to build scheme'') | Inr s \<Rightarrow>
     (case ma_new api s of Inl err \<Rightarrow> (1, ''unable to start manager'') | Inr mgr \<Rightarrow>
     (case fst (SetupWithManager realClock (ma_complete api mgr) (NewReconciler realClock (ma_client api mgr) sandboxImage)) of
        Some err \<Rightarrow> (1, ''unable to create controller'') | None \<Rightarrow>
     (case ma_check api mgr of Some err \<Rightarrow> (1, ''health check setup failed'') | None \<Rightarrow>
     (case ma_start api mgr of Some err \<Rightarrow> (1, ''problem running operator'') | None \<Rightarrow> (0, ''starting operator'')))))))"

text \<open>
  The operator ends well only after it ran a manager over the built scheme, with a controller for sessions that has the manager's client,
  the sandbox image of the configuration and the real clock.
\<close>

theorem operator_runs_configured:
  "fst (operatorMain realClock newScheme api env flag) = 0 \<longleftrightarrow>
   (\<exists>s mgr img. newScheme = Inr s \<and> ma_new api s = Inr mgr \<and> img \<noteq> [] \<and> (flag = Some img \<or> flag = None \<and> env ''SANDBOX_IMAGE'' = img) \<and>
      ma_complete api mgr AgentSessionType \<lparr>sr_Client = ma_client api mgr, sr_SandboxImage = img, sr_Clock = Some realClock\<rparr> = None \<and>
      ma_check api mgr = None \<and> ma_start api mgr = None)"
  by (cases flag) (simp_all add: operatorMain_def SetupWithManager_def NewReconciler_def Let_def split: sum.split option.split)

end
