(* ===== verification/Orchestrator.thy ===== *)
theory Orchestrator
  imports Prelude "HOL-Library.Word"
begin

text \<open>
  \<^verbatim>\<open>internal/orchestrator\<close>: budget-gated, idempotent enqueueing onto user-sharded Redis streams, and the
  worker loop.  The Redis client and the JSON codec of a request are parameters; the client acts on a
  world \<open>'w\<close>.
\<close>

unbundle bit_operations_syntax

section \<open>Data\<close>

record run_request =
  rn_RunID :: string
  rn_SessionID :: string
  rn_AgentRef :: string
  rn_UserID :: string
  rn_OrgID :: string
  rn_Priority :: string
  rn_IdempotencyKey :: string
  rn_EnqueuedAt :: time

definition Interactive :: string where "Interactive = ''interactive''"
definition Background :: string where "Background = ''background''"

text \<open>
  A message is its id and its payload field; reading returns per stream the messages delivered.
  \<open>oc_Done\<close> is whether the caller's context has ended.
\<close>

record 'w redis_client =
  oc_SetNX :: "string \<Rightarrow> string \<Rightarrow> duration \<Rightarrow> 'w \<Rightarrow> bool result \<times> 'w"
  oc_Get :: "string \<Rightarrow> 'w \<Rightarrow> string result \<times> 'w"
  oc_XAdd :: "string \<Rightarrow> string \<Rightarrow> 'w \<Rightarrow> goerr option \<times> 'w"
  oc_XGroupCreateMkStream :: "string \<Rightarrow> string \<Rightarrow> string \<Rightarrow> 'w \<Rightarrow> goerr option \<times> 'w"
  oc_XReadGroup :: "string \<Rightarrow> string \<Rightarrow> string list \<Rightarrow> 'w \<Rightarrow> (string \<times> (string \<times> string) list) list result \<times> 'w"
  oc_XAck :: "string \<Rightarrow> string \<Rightarrow> string \<Rightarrow> 'w \<Rightarrow> 'w"
  oc_Done :: "'w \<Rightarrow> bool"

record 'w orchestrator =
  or_client :: "'w redis_client"
  or_shards :: int
  or_group :: string
  or_budget :: "(string \<Rightarrow> string \<Rightarrow> goerr option) option"
  or_idemTTL :: duration
  or_marshal :: "run_request \<Rightarrow> string result"
  or_unmarshal :: "string \<Rightarrow> run_request result"

definition ErrBudgetExceeded :: goerr where
  "ErrBudgetExceeded = ErrNew ''budget exceeded: run rejected before allocation''"

definition redisNil :: goerr where "redisNil = ErrNew ''redis: nil''"

section \<open>Sharding\<close>

text \<open>The 32-bit FNV-1a hash.\<close>

definition fnv32a :: "string \<Rightarrow> 32 word" where
  "fnv32a s = fold (\<lambda>c h. (h XOR of_nat (of_char c)) * 16777619) s 2166136261"

text \<open>For a shard count that is not a multiple of \<open>2 ^ 32\<close>, at which the code would divide by zero.\<close>

definition shardFor :: "string \<Rightarrow> int \<Rightarrow> int" where
  "shardFor userID n = uint (fnv32a userID mod word_of_int n)"

definition stream :: "int \<Rightarrow> string \<Rightarrow> string" where
  "stream shard p = ''orch:'' @ showInt shard @ '':'' @ p"

section \<open>Enqueueing\<close>

definition NewOrchestrator ::
  "'w redis_client \<Rightarrow> int \<Rightarrow> (string \<Rightarrow> string \<Rightarrow> goerr option) option \<Rightarrow> (run_request \<Rightarrow> string result)
   \<Rightarrow> (string \<Rightarrow> run_request result) \<Rightarrow> 'w orchestrator" where
  "NewOrchestrator client shards budget mar unmar =
     \<lparr>or_client = client, or_shards = (if shards \<le> 0 then 8 else shards), or_group = ''workers'', or_budget = budget,
      or_idemTTL = 24 * Hour, or_marshal = mar, or_unmarshal = unmar\<rparr>"

definition idemKey :: "run_request \<Rightarrow> string" where
  "idemKey req = ''orch:idem:'' @ rn_IdempotencyKey req"

definition appendRun :: "'w orchestrator \<Rightarrow> time \<Rightarrow> run_request \<Rightarrow> 'w \<Rightarrow> (string \<times> goerr option) \<times> 'w" where
  "appendRun orch now req w =
     (let req = (if IsZero (rn_EnqueuedAt req) then req\<lparr>rn_EnqueuedAt := now\<rparr> else req) in
      case or_marshal orch req of
        Inl err \<Rightarrow> (([], Some err), w)
      | Inr payload \<Rightarrow>
          (case oc_XAdd (or_client orch) (stream (shardFor (rn_UserID req) (or_shards orch)) (rn_Priority req)) payload w of
             (e, w') \<Rightarrow> ((rn_RunID req, e), w')))"

definition Enqueue :: "'w orchestrator \<Rightarrow> time \<Rightarrow> run_request \<Rightarrow> 'w \<Rightarrow> (string \<times> goerr option) \<times> 'w" where
  "Enqueue orch now req w =
     (case (case or_budget orch of None \<Rightarrow> None | Some check \<Rightarrow> check (rn_OrgID req) (rn_UserID req)) of
        Some err \<Rightarrow> (([], Some (wrapV ErrBudgetExceeded (errText err))), w)
      | None \<Rightarrow>
     (if rn_IdempotencyKey req = [] then appendRun orch now req w
      else
     (case oc_SetNX (or_client orch) (idemKey req) (rn_RunID req) (or_idemTTL orch) w of
        (Inl err, w1) \<Rightarrow> (([], Some err), w1)
      | (Inr True, w1) \<Rightarrow> appendRun orch now req w1
      | (Inr False, w1) \<Rightarrow>
          (case oc_Get (or_client orch) (idemKey req) w1 of
             (Inl err, w2) \<Rightarrow> (([], Some err), w2)
           | (Inr existing, w2) \<Rightarrow> ((existing, None), w2)))))"

section \<open>Working\<close>

datatype work = Handled run_request "goerr option" | Acked string string

type_synonym 'w handler = "run_request \<Rightarrow> 'w \<Rightarrow> goerr option \<times> 'w"

definition workMessage ::
  "'w orchestrator \<Rightarrow> 'w handler \<Rightarrow> string \<Rightarrow> string \<times> string \<Rightarrow> 'w \<Rightarrow> 'w \<times> work list" where
  "workMessage orch handle strm msg w =
     (case msg of
        (i, raw) \<Rightarrow>
          (case or_unmarshal orch raw of
             Inl err \<Rightarrow> (oc_XAck (or_client orch) strm (or_group orch) i w, [Acked strm i])
           | Inr req \<Rightarrow>
               (case handle req w of
                  (Some err, w1) \<Rightarrow> (w1, [Handled req (Some err)])
                | (None, w1) \<Rightarrow> (oc_XAck (or_client orch) strm (or_group orch) i w1, [Handled req None, Acked strm i]))))"

fun workBatch ::
  "'w orchestrator \<Rightarrow> 'w handler \<Rightarrow> (string \<times> string \<times> string) list \<Rightarrow> 'w \<Rightarrow> 'w \<times> work list" where
  "workBatch orch handle [] w = (w, [])"
| "workBatch orch handle ((strm, msg) # msgs) w =
     (case workMessage orch handle strm msg w of
        (w1, evs) \<Rightarrow> (case workBatch orch handle msgs w1 of (w2, evs') \<Rightarrow> (w2, evs @ evs')))"

definition flatten :: "(string \<times> (string \<times> string) list) list \<Rightarrow> (string \<times> string \<times> string) list" where
  "flatten res = concat (map (\<lambda>(strm, msgs). map (\<lambda>m. (strm, m)) msgs) res)"

definition workerStreams :: "int \<Rightarrow> string list" where
  "workerStreams shard = [stream shard Interactive, stream shard Background, ''>'', ''>'']"

text \<open>One pass of the worker loop: it ends with a result or goes round again.\<close>

datatype 'w pass = Stop "goerr option" 'w | Again 'w

definition workerPass ::
  "'w orchestrator \<Rightarrow> int \<Rightarrow> string \<Rightarrow> 'w handler \<Rightarrow> 'w \<Rightarrow> 'w pass \<times> work list" where
  "workerPass orch shard workerName handle w =
     (if oc_Done (or_client orch) w then (Stop None w, [])
      else
        (case oc_XReadGroup (or_client orch) (or_group orch) workerName (workerStreams shard) w of
           (Inl err, w1) \<Rightarrow>
             if errorsIs err redisNil then (Again w1, [])
             else if oc_Done (or_client orch) w1 then (Stop None w1, [])
             else (Stop (Some err) w1, [])
         | (Inr res, w1) \<Rightarrow> (case workBatch orch handle (flatten res) w1 of (w2, evs) \<Rightarrow> (Again w2, evs))))"

definition isBusyGroup :: "goerr \<Rightarrow> bool" where
  "isBusyGroup err = Contains (errText err) ''BUSYGROUP''"

fun createGroups :: "'w orchestrator \<Rightarrow> string list \<Rightarrow> 'w \<Rightarrow> goerr option \<times> 'w" where
  "createGroups orch [] w = (None, w)"
| "createGroups orch (s # ss) w =
     (case oc_XGroupCreateMkStream (or_client orch) s (or_group orch) ''0'' w of
        (Some err, w1) \<Rightarrow> if \<not> isBusyGroup err then (Some err, w1) else createGroups orch ss w1
      | (None, w1) \<Rightarrow> createGroups orch ss w1)"

text \<open>The loop has no bound of its own; the first argument bounds the passes, and \<^const>\<open>None\<close> is a worker still running.\<close>

fun workerLoop ::
  "nat \<Rightarrow> 'w orchestrator \<Rightarrow> int \<Rightarrow> string \<Rightarrow> 'w handler \<Rightarrow> 'w \<Rightarrow> goerr option option \<times> 'w \<times> work list" where
  "workerLoop 0 orch shard name handle w = (None, w, [])"
| "workerLoop (Suc n) orch shard name handle w =
     (case workerPass orch shard name handle w of
        (Stop e w1, evs) \<Rightarrow> (Some e, w1, evs)
      | (Again w1, evs) \<Rightarrow>
          (case workerLoop n orch shard name handle w1 of (r, w2, evs') \<Rightarrow> (r, w2, evs @ evs')))"

definition RunWorker ::
  "nat \<Rightarrow> 'w orchestrator \<Rightarrow> int \<Rightarrow> string \<Rightarrow> 'w handler \<Rightarrow> 'w \<Rightarrow> goerr option option \<times> 'w \<times> work list" where
  "RunWorker n orch shard name handle w =
     (case createGroups orch [stream shard Interactive, stream shard Background] w of
        (Some err, w1) \<Rightarrow> (Some (Some err), w1, [])
      | (None, w1) \<Rightarrow> workerLoop n orch shard name handle w1)"

section \<open>Facts about enqueueing\<close>

lemma shardFor_range:
  assumes "0 < n" and "n < 2 ^ 32"
  shows "0 \<le> shardFor u n \<and> shardFor u n < n"
proof -
  have n: "uint (word_of_int n :: 32 word) = n" using assms by (simp add: uint_word_of_int_eq take_bit_int_eq_self)
  then show ?thesis using assms(1) by (simp add: shardFor_def uint_mod)
qed

text \<open>
  What the code relies on of Redis, on the keys and the stream log of a world, within the lifetime of
  the idempotency keys: \<^verbatim>\<open>SETNX\<close> sets an absent key only, \<^verbatim>\<open>GET\<close> reads it and \<^verbatim>\<open>XADD\<close> appends one entry.  A
  command that reports an error may or may not have been carried out.
\<close>

definition redis_commands :: "'w redis_client \<Rightarrow> ('w \<Rightarrow> string \<rightharpoonup> string) \<Rightarrow> ('w \<Rightarrow> (string \<times> string) list) \<Rightarrow> bool" where
  "redis_commands oc keys entries \<longleftrightarrow>
     (\<forall>k v ttl w b w'. oc_SetNX oc k v ttl w = (Inr b, w') \<longrightarrow>
        entries w' = entries w \<and> (b \<longleftrightarrow> keys w k = None) \<and> keys w' = (if b then (keys w)(k \<mapsto> v) else keys w)) \<and>
     (\<forall>k v ttl w e w'. oc_SetNX oc k v ttl w = (Inl e, w') \<longrightarrow>
        entries w' = entries w \<and> (keys w' = keys w \<or> keys w k = None \<and> keys w' = (keys w)(k \<mapsto> v))) \<and>
     (\<forall>k w r w'. oc_Get oc k w = (r, w') \<longrightarrow> keys w' = keys w \<and> entries w' = entries w \<and>
        (\<forall>v. r = Inr v \<longrightarrow> keys w k = Some v)) \<and>
     (\<forall>s p w w'. oc_XAdd oc s p w = (None, w') \<longrightarrow> keys w' = keys w \<and> entries w' = entries w @ [(s, p)]) \<and>
     (\<forall>s p w e w'. oc_XAdd oc s p w = (Some e, w') \<longrightarrow>
        keys w' = keys w \<and> (entries w' = entries w \<or> entries w' = entries w @ [(s, p)]))"

lemma redis_commandsD:
  assumes "redis_commands oc keys entries"
  shows "oc_SetNX oc k v ttl w = (Inr b, w') \<Longrightarrow>
      entries w' = entries w \<and> (b \<longleftrightarrow> keys w k = None) \<and> keys w' = (if b then (keys w)(k \<mapsto> v) else keys w)"
    and "oc_SetNX oc k v ttl w = (Inl e, w') \<Longrightarrow>
      entries w' = entries w \<and> (keys w' = keys w \<or> keys w k = None \<and> keys w' = (keys w)(k \<mapsto> v))"
    and "oc_Get oc k w = (g, w') \<Longrightarrow> keys w' = keys w \<and> entries w' = entries w \<and> (\<forall>v. g = Inr v \<longrightarrow> keys w k = Some v)"
    and "oc_XAdd oc s p w = (None, w') \<Longrightarrow> keys w' = keys w \<and> entries w' = entries w @ [(s, p)]"
    and "oc_XAdd oc s p w = (Some x, w') \<Longrightarrow> keys w' = keys w \<and> (entries w' = entries w \<or> entries w' = entries w @ [(s, p)])"
proof -
  note laws = assms [unfolded redis_commands_def]
  show "oc_SetNX oc k v ttl w = (Inr b, w') \<Longrightarrow>
      entries w' = entries w \<and> (b \<longleftrightarrow> keys w k = None) \<and> keys w' = (if b then (keys w)(k \<mapsto> v) else keys w)"
    by (rule laws [THEN conjunct1, rule_format])
  show "oc_SetNX oc k v ttl w = (Inl e, w') \<Longrightarrow>
      entries w' = entries w \<and> (keys w' = keys w \<or> keys w k = None \<and> keys w' = (keys w)(k \<mapsto> v))"
    by (rule laws [THEN conjunct2, THEN conjunct1, rule_format])
  show "oc_Get oc k w = (g, w') \<Longrightarrow> keys w' = keys w \<and> entries w' = entries w \<and> (\<forall>v. g = Inr v \<longrightarrow> keys w k = Some v)"
    by (rule laws [THEN conjunct2, THEN conjunct2, THEN conjunct1, rule_format])
  show "oc_XAdd oc s p w = (None, w') \<Longrightarrow> keys w' = keys w \<and> entries w' = entries w @ [(s, p)]"
    by (rule laws [THEN conjunct2, THEN conjunct2, THEN conjunct2, THEN conjunct1, rule_format])
  show "oc_XAdd oc s p w = (Some x, w') \<Longrightarrow> keys w' = keys w \<and> (entries w' = entries w \<or> entries w' = entries w @ [(s, p)])"
    by (rule laws [THEN conjunct2, THEN conjunct2, THEN conjunct2, THEN conjunct2, rule_format])
qed

text \<open>The stream a request goes to.\<close>

definition route :: "'w orchestrator \<Rightarrow> run_request \<Rightarrow> string" where
  "route orch req = stream (shardFor (rn_UserID req) (or_shards orch)) (rn_Priority req)"

definition stamped :: "time \<Rightarrow> run_request \<Rightarrow> run_request" where
  "stamped now req = (if IsZero (rn_EnqueuedAt req) then req\<lparr>rn_EnqueuedAt := now\<rparr> else req)"

lemma appendRun_eq:
  "appendRun orch now req w =
     (case or_marshal orch (stamped now req) of
        Inl err \<Rightarrow> (([], Some err), w)
      | Inr payload \<Rightarrow> (case oc_XAdd (or_client orch) (route orch req) payload w of (e, w') \<Rightarrow> ((rn_RunID req, e), w')))"
  by (cases "IsZero (rn_EnqueuedAt req)") (simp_all add: appendRun_def Let_def stamped_def route_def split: sum.split)

lemma appendRun_cases:
  assumes rc: "redis_commands (or_client orch) keys entries" and ap: "appendRun orch now req w = ((rid, e), w')"
  obtains (failed) err where "e = Some err" "keys w' = keys w"
      "entries w' = entries w \<or> (\<exists>payload. entries w' = entries w @ [(route orch req, payload)])"
  | (appended) payload where "e = None" "rid = rn_RunID req" "keys w' = keys w" "or_marshal orch (stamped now req) = Inr payload"
      "entries w' = entries w @ [(route orch req, payload)]"
proof (cases "or_marshal orch (stamped now req)")
  case (Inl err)
  with ap have "e = Some err" and "w' = w" by (simp_all add: appendRun_eq)
  then show thesis by (intro failed) simp_all
next
  case (Inr payload)
  obtain x v where x: "oc_XAdd (or_client orch) (route orch req) payload w = (x, v)" by (rule prod.exhaust)
  with Inr ap have [simp]: "e = x" "rid = rn_RunID req" "w' = v" by (simp_all add: appendRun_eq)
  show thesis
  proof (cases x)
    case None
    with redis_commandsD(4) [OF rc] x Inr show thesis by (intro appended) simp_all
  next
    case (Some err)
    from redis_commandsD(5) [OF rc x [unfolded Some]] Some show thesis by (intro failed) auto
  qed
qed

definition budgetOf :: "'w orchestrator \<Rightarrow> run_request \<Rightarrow> goerr option" where
  "budgetOf orch req = (case or_budget orch of None \<Rightarrow> None | Some check \<Rightarrow> check (rn_OrgID req) (rn_UserID req))"

lemma Enqueue_eq:
  "budgetOf orch req = Some err \<Longrightarrow> Enqueue orch now req w = (([], Some (wrapV ErrBudgetExceeded (errText err))), w)"
  "budgetOf orch req = None \<Longrightarrow> rn_IdempotencyKey req = [] \<Longrightarrow> Enqueue orch now req w = appendRun orch now req w"
  "budgetOf orch req = None \<Longrightarrow> rn_IdempotencyKey req \<noteq> [] \<Longrightarrow> Enqueue orch now req w =
     (case oc_SetNX (or_client orch) (idemKey req) (rn_RunID req) (or_idemTTL orch) w of
        (Inl err, w1) \<Rightarrow> (([], Some err), w1)
      | (Inr True, w1) \<Rightarrow> appendRun orch now req w1
      | (Inr False, w1) \<Rightarrow>
          (case oc_Get (or_client orch) (idemKey req) w1 of
             (Inl err, w2) \<Rightarrow> (([], Some err), w2)
           | (Inr existing, w2) \<Rightarrow> ((existing, None), w2)))"
  by (simp_all add: Enqueue_def budgetOf_def split del: sum.split)

text \<open>What one enqueue can do to the idempotency keys and the streams.\<close>

lemma Enqueue_cases:
  assumes rc: "redis_commands (or_client orch) keys entries" and en: "Enqueue orch now req w = ((rid, e), w')"
  obtains (failed) err where "e = Some err"
      "entries w' = entries w \<or> (\<exists>payload. entries w' = entries w @ [(route orch req, payload)])"
      "keys w' = keys w \<or> keys w (idemKey req) = None \<and> keys w' = (keys w)(idemKey req \<mapsto> rn_RunID req)"
  | (duplicate) "e = None" "rn_IdempotencyKey req \<noteq> []" "keys w (idemKey req) = Some rid" "keys w' = keys w" "entries w' = entries w"
  | (appended) payload where "e = None" "rid = rn_RunID req" "or_marshal orch (stamped now req) = Inr payload"
      "entries w' = entries w @ [(route orch req, payload)]"
      "keys w' = (if rn_IdempotencyKey req = [] then keys w else (keys w)(idemKey req \<mapsto> rn_RunID req))"
      "rn_IdempotencyKey req \<noteq> [] \<longrightarrow> keys w (idemKey req) = None"
proof (cases "budgetOf orch req")
  case (Some err)
  with en have "e = Some (wrapV ErrBudgetExceeded (errText err))" and "w' = w" by (simp_all add: Enqueue_eq)
  then show thesis by (intro failed) simp_all
next
  case budget: None
  show thesis
  proof (cases "rn_IdempotencyKey req = []")
    case True
    with budget en have "appendRun orch now req w = ((rid, e), w')" by (simp add: Enqueue_eq)
    from rc this show thesis by (cases rule: appendRun_cases) (use True in \<open>auto intro: failed appended\<close>)
  next
    case key: False
    obtain b w1 where nx: "oc_SetNX (or_client orch) (idemKey req) (rn_RunID req) (or_idemTTL orch) w = (b, w1)"
      by (rule prod.exhaust)
    note en' = en [unfolded Enqueue_eq(3) [OF budget key] nx]
    show thesis
    proof (cases b)
      case (Inl err)
      with en' have "e = Some err" and "w' = w1" by simp_all
      with redis_commandsD(2) [OF rc nx [unfolded Inl]] show thesis by (intro failed) simp_all
    next
      case (Inr ok)
      note nx' = redis_commandsD(1) [OF rc nx [unfolded Inr]]
      show thesis
      proof (cases ok)
        case True
        with en' Inr have "appendRun orch now req w1 = ((rid, e), w')" by simp
        from rc this show thesis
        proof (cases rule: appendRun_cases)
          case (failed err)
          with nx' True show thesis by (intro that(1)) simp_all
        next
          case (appended payload)
          with nx' True key show thesis by (intro that(3)) simp_all
        qed
      next
        case False
        obtain g w2 where g: "oc_Get (or_client orch) (idemKey req) w1 = (g, w2)" by (rule prod.exhaust)
        note gs = redis_commandsD(3) [OF rc g]
        show thesis
        proof (cases g)
          case (Inl err)
          with en' Inr False g have "e = Some err" and "w' = w2" by simp_all
          with gs nx' False show thesis by (intro failed) simp_all
        next
          case (Inr v)
          with en' \<open>b = Inr ok\<close> False g have "e = None" and "rid = v" and "w' = w2" by simp_all
          with gs nx' [unfolded if_not_P [OF False]] False Inr key show thesis by (intro duplicate) simp_all
        qed
      qed
    qed
  qed
qed

fun enqueueAll :: "'w orchestrator \<Rightarrow> (time \<times> run_request) list \<Rightarrow> 'w \<Rightarrow> 'w" where
  "enqueueAll orch [] w = w"
| "enqueueAll orch ((now, req) # rs) w = enqueueAll orch rs (snd (Enqueue orch now req w))"

lemma Enqueue_key_kept:
  assumes "redis_commands (or_client orch) keys entries" and "keys w k = Some v" and "Enqueue orch now req w = (r, w')"
  shows "keys w' k = Some v"
proof -
  obtain rid e where r: "r = (rid, e)" by force
  from assms(1) assms(3) [unfolded r] show ?thesis
  proof (cases rule: Enqueue_cases)
    case (failed err)
    from failed(3) assms(2) show ?thesis by auto
  next
    case duplicate
    then show ?thesis using assms(2) by simp
  next
    case (appended payload)
    then show ?thesis using assms(2) by auto
  qed
qed

lemma enqueueAll_key_kept:
  "redis_commands (or_client orch) keys entries \<Longrightarrow> keys w k = Some v \<Longrightarrow> keys (enqueueAll orch rs w) k = Some v"
proof (induction rs arbitrary: w)
  case (Cons r rs)
  obtain now req where r: "r = (now, req)" by force
  have "keys (snd (Enqueue orch now req w)) k = Some v"
    by (rule Enqueue_key_kept [OF Cons.prems]) (rule prod.collapse [symmetric])
  with Cons r show ?case by simp
qed simp

section \<open>Properties of enqueueing\<close>

text \<open>
  A successful enqueue either appends one entry, the encoding of the request stamped with its arrival
  time, to the priority stream of the user's shard (a shard the orchestrator has) and returns the
  request's run id; or, for an idempotency key that is taken, returns the run id recorded under it and
  appends nothing.  A request over budget is refused with an error matching \<^verbatim>\<open>ErrBudgetExceeded\<close> before any
  command is sent.
\<close>

theorem enqueue_outcome:
  assumes "redis_commands (or_client orch) keys entries"
    and "0 < or_shards orch" and "or_shards orch < 2 ^ 32"
    and "Enqueue orch now req w = ((rid, e), w')"
  shows "(e = None \<longrightarrow>
           (rid = rn_RunID req \<and>
            (\<exists>payload shard. or_marshal orch (stamped now req) = Inr payload \<and> 0 \<le> shard \<and> shard < or_shards orch \<and>
              shard = shardFor (rn_UserID req) (or_shards orch) \<and>
              entries w' = entries w @ [(stream shard (rn_Priority req), payload)])) \<or>
           (rn_IdempotencyKey req \<noteq> [] \<and> keys w (idemKey req) = Some rid \<and> entries w' = entries w))
       \<and> (\<forall>check err. or_budget orch = Some check \<longrightarrow> check (rn_OrgID req) (rn_UserID req) = Some err \<longrightarrow>
           w' = w \<and> (\<exists>e'. e = Some e' \<and> errorsIs e' ErrBudgetExceeded))"
    (is "?success \<and> ?budget")
proof
  show ?success
    using assms(1,4)
  proof (cases rule: Enqueue_cases)
    case (appended payload)
    then show ?thesis using shardFor_range [OF assms(2,3)] by (simp add: route_def)
  qed simp_all
  show ?budget
  proof (intro allI impI)
    fix check err
    assume "or_budget orch = Some check" and "check (rn_OrgID req) (rn_UserID req) = Some err"
    then have "budgetOf orch req = Some err" by (simp add: budgetOf_def)
    with assms(4) have "e = Some (wrapV ErrBudgetExceeded (errText err))" and "w' = w" by (simp_all add: Enqueue_eq)
    then show "w' = w \<and> (\<exists>e'. e = Some e' \<and> errorsIs e' ErrBudgetExceeded)" by (simp add: wrapV_def)
  qed
qed


section \<open>Properties of the worker\<close>

text \<open>What the handling of one delivered message may do.\<close>

definition messageOutcome :: "'w orchestrator \<Rightarrow> string \<times> string \<times> string \<Rightarrow> work list \<Rightarrow> bool" where
  "messageOutcome orch m out =
     (case m of (strm, i, raw) \<Rightarrow>
        (case or_unmarshal orch raw of
           Inl _ \<Rightarrow> out = [Acked strm i]
         | Inr req \<Rightarrow> out = [Handled req None, Acked strm i] \<or> (\<exists>err. out = [Handled req (Some err)])))"

lemma workMessage_outcome: "messageOutcome orch (strm, msg) (snd (workMessage orch handle strm msg w))"
  by (simp add: messageOutcome_def workMessage_def split: prod.split sum.split option.split)

text \<open>
  The messages of a read are worked in the order delivered, each exactly once: one that does not decode is
  acknowledged unhandled; any other is handled, and is acknowledged after, and only after, the handler
  returned without an error.
\<close>

theorem worker_acks_after_handling:
  "\<exists>outs. snd (workBatch orch handle msgs w) = concat outs \<and> list_all2 (messageOutcome orch) msgs outs"
proof (induction msgs arbitrary: w)
  case (Cons m msgs)
  obtain strm msg where m: "m = (strm, msg)" by (rule prod.exhaust)
  obtain w1 evs where wm: "workMessage orch handle strm msg w = (w1, evs)" by (rule prod.exhaust)
  have out: "messageOutcome orch m evs" using workMessage_outcome [of orch strm msg handle w] by (simp add: wm m)
  from Cons.IH [of w1] obtain outs where "snd (workBatch orch handle msgs w1) = concat outs"
    and "list_all2 (messageOutcome orch) msgs outs" by blast
  with out show ?case by (intro exI [of _ "evs # outs"]) (auto simp add: m wm split: prod.split)
qed simp

text \<open>The worker's first two commands create the consumer groups; nothing is read before both exist.\<close>

lemma workerPass_stop:
  assumes "workerPass orch shard name handle w = (Stop r w', evs)"
  shows "evs = [] \<and> (r = None \<longrightarrow> oc_Done (or_client orch) w') \<and>
    (\<forall>err. r = Some err \<longrightarrow> \<not> oc_Done (or_client orch) w' \<and> \<not> errorsIs err redisNil \<and>
      oc_XReadGroup (or_client orch) (or_group orch) name (workerStreams shard) w = (Inl err, w'))"
  using assms by (auto simp add: workerPass_def split: if_splits prod.splits sum.splits)

lemma workerLoop_stop:
  "workerLoop n orch shard name handle w = (Some r, w', evs) \<Longrightarrow>
     (r = None \<longrightarrow> oc_Done (or_client orch) w') \<and>
     (\<forall>err. r = Some err \<longrightarrow> \<not> oc_Done (or_client orch) w' \<and> \<not> errorsIs err redisNil \<and>
        (\<exists>w0. oc_XReadGroup (or_client orch) (or_group orch) name (workerStreams shard) w0 = (Inl err, w')))"
proof (induction n arbitrary: w evs)
  case (Suc n)
  obtain p evs1 where p: "workerPass orch shard name handle w = (p, evs1)" by (rule prod.exhaust)
  show ?case
  proof (cases p)
    case (Stop r1 w1)
    with Suc.prems p have "r1 = r" and "w1 = w'" by simp_all
    with workerPass_stop [OF p [unfolded Stop]] show ?thesis by blast
  next
    case (Again w1)
    obtain r2 w2 evs2 where rest: "workerLoop n orch shard name handle w1 = (r2, w2, evs2)" by (cases rule: prod_cases3)
    with Suc.prems p Again have "r2 = Some r" and "w2 = w'" by simp_all
    with Suc.IH rest show ?thesis by blast
  qed
qed simp

lemma createGroups_error:
  "createGroups orch ss w = (Some err, w') \<Longrightarrow> \<not> isBusyGroup err"
  by (induction orch ss w rule: createGroups.induct) (auto split: prod.splits option.splits if_splits)

text \<open>
  When the worker returns, it is because its context ended, and it then reports no error; or a consumer
  group could not be created for a reason other than its existing; or a read failed while the context was
  live, with an error other than the empty read.
\<close>

theorem worker_returns:
  assumes "RunWorker n orch shard name handle w = (Some r, w', evs)"
  shows "(r = None \<longrightarrow> oc_Done (or_client orch) w') \<and>
    (\<forall>err. r = Some err \<longrightarrow>
       (\<not> isBusyGroup err \<and> createGroups orch [stream shard Interactive, stream shard Background] w = (Some err, w') \<and> evs = []) \<or>
       (\<not> oc_Done (or_client orch) w' \<and> \<not> errorsIs err redisNil \<and>
        (\<exists>w0. oc_XReadGroup (or_client orch) (or_group orch) name (workerStreams shard) w0 = (Inl err, w'))))"
proof -
  obtain g w1 where g: "createGroups orch [stream shard Interactive, stream shard Background] w = (g, w1)"
    by (rule prod.exhaust)
  show ?thesis
  proof (cases g)
    case None
    with assms g have "workerLoop n orch shard name handle w1 = (Some r, w', evs)"
      by (simp only: RunWorker_def prod.case option.case)
    from workerLoop_stop [OF this] show ?thesis by blast
  next
    case (Some err)
    with assms g have "r = Some err" and "w1 = w'" and "evs = []"
      by (simp_all only: RunWorker_def prod.case option.case prod.inject option.inject)
    with g Some createGroups_error [OF g [unfolded Some]] show ?thesis by simp
  qed
qed

section \<open>Concrete runs\<close>

text \<open>
  A Redis of one client: its keys, its stream log in arrival order, and for each coming \<^verbatim>\<open>XADD\<close> whether it
  fails (no more entries: it does not).
\<close>

record ex_redis =
  ex_keys :: "string \<rightharpoonup> string"
  ex_log :: "(string \<times> string) list"
  ex_fails :: "bool list"

definition ex_oc :: "ex_redis redis_client" where
  "ex_oc = \<lparr>oc_SetNX = \<lambda>k v ttl w. if ex_keys w k = None then (Inr True, w\<lparr>ex_keys := (ex_keys w)(k \<mapsto> v)\<rparr>) else (Inr False, w),
     oc_Get = \<lambda>k w. (case ex_keys w k of None \<Rightarrow> Inl redisNil | Some v \<Rightarrow> Inr v, w),
     oc_XAdd = \<lambda>s p w. (case ex_fails w of
         True # fs \<Rightarrow> (Some (ErrNew ''redis: connection pool timeout''), w\<lparr>ex_fails := fs\<rparr>)
       | False # fs \<Rightarrow> (None, w\<lparr>ex_log := ex_log w @ [(s, p)], ex_fails := fs\<rparr>)
       | [] \<Rightarrow> (None, w\<lparr>ex_log := ex_log w @ [(s, p)]\<rparr>)),
     oc_XGroupCreateMkStream = \<lambda>s g start w. (None, w),
     oc_XReadGroup = \<lambda>g c ss w. (Inl redisNil, w),
     oc_XAck = \<lambda>s g i w. w,
     oc_Done = \<lambda>w. True\<rparr>"

lemma ex_oc_commands: "redis_commands ex_oc ex_keys ex_log"
  unfolding redis_commands_def
  by (auto simp: ex_oc_def split: option.splits if_splits list.splits bool.splits)

definition ex_orch :: "ex_redis orchestrator" where
  "ex_orch = NewOrchestrator ex_oc 0 (Some (\<lambda>org user. if org = ''broke'' then Some (ErrNew ''no credit'') else None))
     (\<lambda>r. Inr (rn_RunID r)) (\<lambda>s. Inl (ErrNew ''json''))"

definition ex_request :: "string \<Rightarrow> run_request" where
  "ex_request rid = \<lparr>rn_RunID = rid, rn_SessionID = ''s'', rn_AgentRef = ''a'', rn_UserID = ''u'', rn_OrgID = ''o'',
     rn_Priority = Interactive, rn_IdempotencyKey = ''k'', rn_EnqueuedAt = 7\<rparr>"

definition ex_empty :: "bool list \<Rightarrow> ex_redis" where
  "ex_empty fs = \<lparr>ex_keys = Map.empty, ex_log = [], ex_fails = fs\<rparr>"

lemma ex_orch_simps [simp]:
  "or_client ex_orch = ex_oc" "or_shards ex_orch = 8" "budgetOf ex_orch (ex_request r) = None"
  "or_marshal ex_orch q = Inr (rn_RunID q)" "rn_IdempotencyKey (ex_request r) = ''k''" "rn_RunID (ex_request r) = r"
  by (simp_all add: ex_orch_def NewOrchestrator_def budgetOf_def ex_request_def)

lemma ex_stamped [simp]: "stamped now (ex_request r) = ex_request r"
  by (simp add: stamped_def ex_request_def IsZero_def time_defs)

lemma ex_oc_runs [simp]:
  "ex_keys w k = None \<Longrightarrow> oc_SetNX ex_oc k v ttl w = (Inr True, w\<lparr>ex_keys := (ex_keys w)(k \<mapsto> v)\<rparr>)"
  "ex_keys w k = Some x \<Longrightarrow> oc_SetNX ex_oc k v ttl w = (Inr False, w)"
  "ex_keys w k = Some x \<Longrightarrow> oc_Get ex_oc k w = (Inr x, w)"
  "ex_fails w = [] \<Longrightarrow> oc_XAdd ex_oc s p w = (None, w\<lparr>ex_log := ex_log w @ [(s, p)]\<rparr>)"
  "ex_fails w = True # fs \<Longrightarrow> oc_XAdd ex_oc s p w = (Some (ErrNew ''redis: connection pool timeout''), w\<lparr>ex_fails := fs\<rparr>)"
  by (simp_all add: ex_oc_def)

lemma ex_enqueue_first:
  "ex_keys w (idemKey (ex_request r)) = None \<Longrightarrow> ex_fails w = [] \<Longrightarrow> Enqueue ex_orch now (ex_request r) w =
     ((r, None), w\<lparr>ex_keys := (ex_keys w)(idemKey (ex_request r) \<mapsto> r), ex_log := ex_log w @ [(route ex_orch (ex_request r), r)]\<rparr>)"
  by (simp add: Enqueue_eq appendRun_eq)

lemma ex_enqueue_again:
  "ex_keys w (idemKey (ex_request r)) = Some x \<Longrightarrow> Enqueue ex_orch now (ex_request r) w = ((x, None), w)"
  by (simp add: Enqueue_eq)

lemma ex_enqueue_failing:
  "ex_keys w (idemKey (ex_request r)) = None \<Longrightarrow> ex_fails w = True # fs \<Longrightarrow> Enqueue ex_orch now (ex_request r) w =
     ((r, Some (ErrNew ''redis: connection pool timeout'')),
      w\<lparr>ex_keys := (ex_keys w)(idemKey (ex_request r) \<mapsto> r), ex_fails := fs\<rparr>)"
  by (simp add: Enqueue_eq appendRun_eq)

lemma ex_idemKey [simp]: "idemKey (ex_request r) = ''orch:idem:k''"
  by (simp add: idemKey_def)

theorem enqueue_outcome_witness:
  "\<exists>payload shard. 0 \<le> shard \<and> shard < 8 \<and>
     ex_log (snd (Enqueue ex_orch 9 (ex_request ''r1'') (ex_empty []))) = [(stream shard (rn_Priority (ex_request ''r1'')), payload)]"
proof -
  have en: "Enqueue ex_orch 9 (ex_request ''r1'') (ex_empty []) = ((''r1'', None),
      (ex_empty [])\<lparr>ex_keys := (ex_keys (ex_empty []))(idemKey (ex_request ''r1'') \<mapsto> ''r1''),
        ex_log := ex_log (ex_empty []) @ [(route ex_orch (ex_request ''r1''), ''r1'')]\<rparr>)"
    by (rule ex_enqueue_first) (simp_all add: ex_empty_def)
  have "ex_keys (ex_empty []) = Map.empty" "ex_log (ex_empty []) = []" by (simp_all add: ex_empty_def)
  with enqueue_outcome [OF _ _ _ en, of ex_keys ex_log] ex_oc_commands show ?thesis by (auto simp: en)
qed

definition ex_once :: ex_redis where
  "ex_once = snd (Enqueue ex_orch 9 (ex_request ''r1'') (ex_empty []))"


text \<open>
  The idempotency key is taken before the entry is appended and stays when the append fails: after a failed
  append, the retry under the same key reports success and the run is on no stream.
\<close>

theorem enqueue_retry_after_failed_append:
  "\<exists>w1 err. Enqueue ex_orch 9 (ex_request ''r1'') (ex_empty [True]) = ((''r1'', Some err), w1) \<and>
     Enqueue ex_orch 10 (ex_request ''r1'') w1 = ((''r1'', None), w1) \<and> ex_log w1 = []"
proof -
  define w1 where "w1 = (ex_empty [True])\<lparr>ex_keys := (ex_keys (ex_empty [True]))(idemKey (ex_request ''r1'') \<mapsto> ''r1''), ex_fails := []\<rparr>"
  have "Enqueue ex_orch 9 (ex_request ''r1'') (ex_empty [True]) = ((''r1'', Some (ErrNew ''redis: connection pool timeout'')), w1)"
    unfolding w1_def by (rule ex_enqueue_failing) (simp_all add: ex_empty_def)
  moreover have "Enqueue ex_orch 10 (ex_request ''r1'') w1 = ((''r1'', None), w1)"
    by (rule ex_enqueue_again) (simp add: w1_def)
  moreover have "ex_log w1 = []" by (simp add: w1_def ex_empty_def)
  ultimately show ?thesis by blast
qed

text \<open>The idempotency key is global: a request of another organisation under the same key gets the first one's run id.\<close>

theorem enqueue_key_shared_across_orgs:
  "Enqueue ex_orch 10 ((ex_request ''r2'')\<lparr>rn_OrgID := ''other''\<rparr>) ex_once = ((''r1'', None), ex_once)"
proof -
  have b: "budgetOf ex_orch ((ex_request ''r2'')\<lparr>rn_OrgID := ''other''\<rparr>) = None"
    by (simp add: budgetOf_def ex_orch_def NewOrchestrator_def)
  have k: "rn_IdempotencyKey ((ex_request ''r2'')\<lparr>rn_OrgID := ''other''\<rparr>) \<noteq> []" by simp
  have i: "idemKey ((ex_request ''r2'')\<lparr>rn_OrgID := ''other''\<rparr>) = ''orch:idem:k''" by (simp add: idemKey_def)
  have "ex_keys ex_once ''orch:idem:k'' = Some ''r1''"
    by (simp add: ex_once_def ex_enqueue_first ex_empty_def)
  then show ?thesis by (simp add: Enqueue_eq(3) [OF b k] i)
qed

theorem worker_returns_witness: "oc_Done (or_client ex_orch) (ex_empty []) \<and>
   RunWorker 1 ex_orch 3 ''w'' (\<lambda>req w. (None, w)) (ex_empty []) = (Some None, ex_empty [], [])"
proof -
  have "RunWorker 1 ex_orch 3 ''w'' (\<lambda>req w. (None, w)) (ex_empty []) = (Some None, ex_empty [], [])"
    by (simp add: RunWorker_def workerPass_def ex_oc_def)
  with worker_returns [OF this] show ?thesis by simp
qed

end
