(* ===== verification/PodHarness.thy ===== *)
theory PodHarness
  imports InternalGateway StateCodec AgentSpec
begin

text \<open>
  \<^verbatim>\<open>cmd/harness\<close>: the process inside a session pod, which runs the agent loop against the internal gateway, and its
  composition with that gateway.  Requests and answers carry JSON values; the HTTP client is a parameter.
\<close>

section \<open>Answers\<close>

definition completionField :: "string \<Rightarrow> json \<Rightarrow> completion \<Rightarrow> completion result" where
  "completionField k v c =
     (if k = ''text'' then jsonStr v (\<lambda>s. c\<lparr>cp_Text := s\<rparr>) c
      else if k = ''stopreason'' then jsonStr v (\<lambda>s. c\<lparr>cp_StopReason := s\<rparr>) c
      else if k = ''toolname'' then jsonStr v (\<lambda>s. c\<lparr>cp_ToolName := s\<rparr>) c
      else if k = ''toolinput'' then jsonStr v (\<lambda>s. c\<lparr>cp_ToolInput := s\<rparr>) c
      else if k = ''inputtokens'' then jsonInt v (\<lambda>n. c\<lparr>cp_InputTokens := n\<rparr>) c
      else if k = ''outputtok'' then jsonInt v (\<lambda>n. c\<lparr>cp_OutputTok := n\<rparr>) c
      else Inr c)"

definition zeroCompletion :: completion where
  "zeroCompletion = \<lparr>cp_Text = [], cp_StopReason = [], cp_ToolName = [], cp_ToolInput = [], cp_InputTokens = 0, cp_OutputTok = 0\<rparr>"

record tool_answer =
  ta_Output :: string
  ta_Error :: string

definition answerField :: "string \<Rightarrow> json \<Rightarrow> tool_answer \<Rightarrow> tool_answer result" where
  "answerField k v a =
     (if k = ''output'' then jsonStr v (\<lambda>s. a\<lparr>ta_Output := s\<rparr>) a
      else if k = ''error'' then jsonStr v (\<lambda>s. a\<lparr>ta_Error := s\<rparr>) a
      else Inr a)"

section \<open>Configuration\<close>

record pod_config =
  pc_registryURL :: string
  pc_runToken :: string
  pc_runID :: string
  pc_sessionID :: string
  pc_orgID :: string
  pc_userID :: string
  pc_agentRef :: string
  pc_model :: string
  pc_specYAML :: string
  pc_userMessage :: string
  pc_granted :: "string list"

definition splitCSV :: "string \<Rightarrow> string list" where
  "splitCSV s = filter (\<lambda>p. p \<noteq> []) (map TrimSpace (Split (CHR '','') s))"

text \<open>\<open>std\<close> is the decoder of the padded standard alphabet; an unset variable reads as the empty string.\<close>

definition envSpec :: "(string \<Rightarrow> string option) \<Rightarrow> (string \<Rightarrow> string) \<Rightarrow> string" where
  "envSpec std env =
     (if env ''SPEC_YAML_B64'' = [] then env ''SPEC_YAML''
      else (case std (env ''SPEC_YAML_B64'') of Some raw \<Rightarrow> raw | None \<Rightarrow> env ''SPEC_YAML''))"

definition configFromEnv :: "(string \<Rightarrow> string option) \<Rightarrow> (string \<Rightarrow> string) \<Rightarrow> pod_config" where
  "configFromEnv std env =
     \<lparr>pc_registryURL = TrimSuffix (env ''REGISTRY_URL'') ''/'', pc_runToken = env ''RUN_TOKEN'', pc_runID = env ''RUN_ID'',
      pc_sessionID = env ''SESSION_ID'', pc_orgID = env ''ORG_ID'', pc_userID = env ''USER_ID'', pc_agentRef = env ''AGENT_REF'',
      pc_model = env ''MODEL'', pc_specYAML = envSpec std env, pc_userMessage = env ''USER_MESSAGE'',
      pc_granted = splitCSV (env ''GRANTED_TOOLS'')\<rparr>"

definition requiredVars :: "pod_config \<Rightarrow> (string \<times> string) list" where
  "requiredVars cfg =
     [(''REGISTRY_URL'', pc_registryURL cfg), (''RUN_TOKEN'', pc_runToken cfg), (''RUN_ID'', pc_runID cfg),
      (''SESSION_ID'', pc_sessionID cfg), (''SPEC_YAML'', pc_specYAML cfg), (''USER_MESSAGE'', pc_userMessage cfg)]"

section \<open>Clients\<close>

text \<open>A request as it is sent, and what comes back: a status and a body that decodes to a value or not.\<close>

record http_out =
  ho_URL :: string
  ho_Authorization :: string
  ho_Body :: json

type_synonym 'w transport = "http_out \<Rightarrow> 'w \<Rightarrow> (int \<times> json result) result \<times> 'w"

definition completionOut :: "pod_config \<Rightarrow> Harness.completion_request \<Rightarrow> http_out" where
  "completionOut cfg req =
     \<lparr>ho_URL = pc_registryURL cfg @ ''/internal/llm/complete'', ho_Authorization = ''Bearer '' @ pc_runToken cfg,
      ho_Body = JObj [(''runId'', JStr (rq_RunID req)), (''agent'', JStr (rq_Agent req)), (''userId'', JStr (pc_userID cfg)),
        (''orgId'', JStr (pc_orgID cfg)), (''model'', JStr (rq_Model req)), (''messages'', JArr (map messageJSON (rq_Messages req))),
        (''maxTokens'', JNum 4096)]\<rparr>"

definition httpComplete :: "'w transport \<Rightarrow> pod_config \<Rightarrow> Harness.completion_request \<Rightarrow> 'w \<Rightarrow> completion result \<times> 'w" where
  "httpComplete send cfg req w =
     (case send (completionOut cfg req) w of
        (Inl err, w') \<Rightarrow> (Inl err, w')
      | (Inr (status, body), w') \<Rightarrow>
          ((if status \<noteq> 200 then Inl (ErrNew (''llm complete: status '' @ showInt status))
            else (case body of Inl err \<Rightarrow> Inl err | Inr j \<Rightarrow> decodeInto completionField zeroCompletion j)), w'))"

definition toolOut :: "pod_config \<Rightarrow> string \<Rightarrow> http_out" where
  "toolOut cfg input =
     \<lparr>ho_URL = pc_registryURL cfg @ ''/internal/tools/call'', ho_Authorization = [],
      ho_Body = JObj [(''runToken'', JStr (pc_runToken cfg)), (''tool'', JStr ''http_request''), (''input'', JRaw input)]\<rparr>"

text \<open>\<open>valid\<close> tells whether the raw input is JSON, which the encoder checks.\<close>

definition gatewayExecute :: "(string \<Rightarrow> bool) \<Rightarrow> 'w transport \<Rightarrow> pod_config \<Rightarrow> string \<Rightarrow> 'w \<Rightarrow> string result \<times> 'w" where
  "gatewayExecute valid send cfg input w =
     (if \<not> valid input then (Inl (ErrNew ''json: error calling MarshalJSON for type json.RawMessage''), w)
      else
     (case send (toolOut cfg input) w of
        (Inl err, w') \<Rightarrow> (Inl err, w')
      | (Inr (status, body), w') \<Rightarrow>
          ((case body of
              Inl err \<Rightarrow> Inl err
            | Inr j \<Rightarrow>
           (case decodeInto answerField \<lparr>ta_Output = [], ta_Error = []\<rparr> j of
              Inl err \<Rightarrow> Inl err
            | Inr a \<Rightarrow> if ta_Error a \<noteq> [] then Inl (ErrNew (ta_Error a)) else Inr (ta_Output a))), w')))"

definition gatewayTool :: "(string \<Rightarrow> bool) \<Rightarrow> 'w transport \<Rightarrow> pod_config \<Rightarrow> 'w tool" where
  "gatewayTool valid send cfg =
     \<lparr>tl_Name = ''http_request'', tl_Description = ''Performs an allowlisted HTTP request.'',
      tl_InputSchema = ''{'' @ goQuote ''type'' @ '':'' @ goQuote ''object'' @ '','' @ goQuote ''required'' @ '':['' @ goQuote ''url'' @ ''],'' @
        goQuote ''properties'' @ '':{'' @ goQuote ''url'' @ '':{'' @ goQuote ''type'' @ '':'' @ goQuote ''string'' @ ''}}}'',
      tl_RequiresApproval = False, tl_Execute = gatewayExecute valid send cfg\<rparr>"

definition nopCheckpointer :: "'w checkpointer" where
  "nopCheckpointer = \<lparr>ck_Save = (\<lambda>runID state w. (None, w)), ck_Load = (\<lambda>runID w. (Inl (ErrNew ''no checkpoint''), w))\<rparr>"

section \<open>The process\<close>

definition podHarness :: "(string \<Rightarrow> bool) \<Rightarrow> 'w transport \<Rightarrow> pod_config \<Rightarrow> int \<Rightarrow> 'w harness" where
  "podHarness valid send cfg maxSteps =
     NewHarness (httpComplete send cfg) [gatewayTool valid send cfg] maxSteps nopCheckpointer"

definition initialState :: "pod_config \<Rightarrow> run_state" where
  "initialState cfg =
     \<lparr>rs_RunID = pc_runID cfg, rs_SessionID = pc_sessionID cfg, rs_AgentRef = pc_agentRef cfg,
      rs_Messages = [\<lparr>ms_Role = ''user'', ms_Content = pc_userMessage cfg\<rparr>], rs_Step = 0, rs_Status = [], rs_PendingTool = [],
      rs_PendingInput = [], rs_FinalText = [], rs_GrantedTools = []\<rparr>"

text \<open>\<^verbatim>\<open>run\<close>: its error and, when the loop was entered, its state; \<open>vars\<close> are the required variables in map order.\<close>

definition runPod ::
  "(string \<Rightarrow> bool) \<Rightarrow> (string \<Rightarrow> document result) \<Rightarrow> 'w transport \<Rightarrow> (string \<times> string) list \<Rightarrow> pod_config \<Rightarrow> 'w
   \<Rightarrow> (goerr option \<times> run_state option) \<times> 'w" where
  "runPod valid yaml send vars cfg w =
     (case find (\<lambda>(key, val). val = []) vars of
        Some (key, val) \<Rightarrow> ((Some (ErrNew (key @ '' is required'')), None), w)
      | None \<Rightarrow>
     (case Parse yaml (pc_specYAML cfg) of
        Inl err \<Rightarrow> ((Some (ErrWrap (''spec: '' @ errText err) err), None), w)
      | Inr doc \<Rightarrow>
     (case Run (podHarness valid send cfg (lm_MaxStepsPerRun (sp_Limits (dc_Spec doc)))) (initialState cfg) (pc_granted cfg) (pc_model cfg) w of
        ((state, err, w'), evs) \<Rightarrow> ((err, Some state), w'))))"

section \<open>The gateway at the other end\<close>

text \<open>The values that the gateway's responses encode; the pod asks for no catalogue.\<close>

fun internalJSON :: "internal_body \<Rightarrow> json option" where
  "internalJSON (InternalError msg) = Some (JObj [(''error'', JStr msg)])"
| "internalJSON (InternalCompletion r) =
     Some (JObj [(''Content'', JStr (cs_Content r)), (''StopReason'', JStr (cs_StopReason r)), (''InputTokens'', JNum (cs_InputTokens r)),
       (''OutputTokens'', JNum (cs_OutputTokens r)), (''Provider'', JStr (cs_Provider r))])"
| "internalJSON (InternalResult r) = Some (JObj [(''output'', JStr (res_Output r)), (''duration'', JNum (res_Duration r))])"
| "internalJSON (InternalCatalog ds) = None"

text \<open>
  The transport between the two: the gateway's routes, with any decoders for the request bodies and any completer behind
  them.  \<open>base\<close> is the registry's address.
\<close>

definition podTransport ::
  "string \<Rightarrow> 'r service \<Rightarrow> (json \<Rightarrow> complete_body result) \<Rightarrow> (json \<Rightarrow> tool_body result) \<Rightarrow> 'm completer \<Rightarrow> ('q, 'l) call_env \<Rightarrow> time \<Rightarrow> 'r
   \<Rightarrow> ('m, 'w, 'l, 'r) planes transport" where
  "podTransport base tokens dc dt model e t r out s =
     (case internalServe tokens (\<lambda>_. dc (ho_Body out)) (\<lambda>_. dt (ho_Body out)) model e t r (drop (length base) (ho_URL out)) []
             (internalBearer (ho_Authorization out)) s of
        ((code, b), s') \<Rightarrow> (Inr (code, case internalJSON b of None \<Rightarrow> Inl ErrJSONType | Some j \<Rightarrow> Inr j), s'))"

text \<open>A transport that hands every request to the gateway, at whatever time and with whatever state of the revocation list.\<close>

definition viaGateway ::
  "string \<Rightarrow> 'r service \<Rightarrow> (json \<Rightarrow> complete_body result) \<Rightarrow> (json \<Rightarrow> tool_body result) \<Rightarrow> 'm completer
   \<Rightarrow> (('m, 'w, 'l, 'r) planes transport) \<Rightarrow> bool" where
  "viaGateway base tokens dc dt model send \<longleftrightarrow>
     (\<forall>out s. \<exists>(e :: (unit, 'l) call_env) t r. send out s = podTransport base tokens dc dt model e t r out s)"

lemma Validate_empty: "\<exists>err. Validate tokens t r [] = Inl err"
  by (simp add: Validate_def decode_def)

lemma internalBearer_Nil [simp]: "internalBearer [] = []"
  by (simp add: internalBearer_def)

text \<open>
  The pod's tool client sends its run token in the body only, and the gateway authenticates the header: every tool call
  of a pod is refused, whatever the token, and the tool gateway is not reached.
\<close>

theorem pod_tool_calls_are_refused:
  fixes s :: "('m, 'w, 'l, 'r) planes"
  assumes "viaGateway (pc_registryURL cfg) tokens dc dt model send" and "valid input"
  shows "gatewayExecute valid send cfg input s = (Inl (ErrNew ''invalid run token''), s)"
proof -
  obtain e :: "(unit, 'l) call_env" and t r where send: "send (toolOut cfg input) s = podTransport (pc_registryURL cfg) tokens dc dt model e t r (toolOut cfg input) s"
    using assms(1) unfolding viaGateway_def by blast
  obtain err where "Validate tokens t r [] = Inl err" using Validate_empty [of tokens t r] by blast
  then have "send (toolOut cfg input) s = (Inr (401, Inr (JObj [(''error'', JStr ''invalid run token'')])), s)"
    unfolding send by (simp add: podTransport_def toolOut_def internalServe_def authRoute_def)
  moreover have "decodeInto answerField \<lparr>ta_Output = [], ta_Error = []\<rparr> (JObj [(''error'', JStr ''invalid run token'')]) =
      Inr \<lparr>ta_Output = [], ta_Error = ''invalid run token''\<rparr>"
    by (simp add: decodeInto_def jsonMembers_def answerField_def jsonStr_def lowerByte_def)
  ultimately show ?thesis using assms(2) by (simp add: gatewayExecute_def)
qed

lemma response_keys:
  "map lowerByte ''Content'' = ''content''" "map lowerByte ''StopReason'' = ''stopreason''" "map lowerByte ''InputTokens'' = ''inputtokens''"
  "map lowerByte ''OutputTokens'' = ''outputtokens''" "map lowerByte ''Provider'' = ''provider''"
  by code_simp+

lemma decode_response:
  "decodeInto completionField zeroCompletion
     (JObj [(''Content'', JStr a), (''StopReason'', JStr b), (''InputTokens'', JNum n), (''OutputTokens'', JNum m), (''Provider'', JStr p)]) =
   Inr (zeroCompletion\<lparr>cp_StopReason := b, cp_InputTokens := n\<rparr>)"
  unfolding decodeInto_def jsonMembers_def
  by (simp add: completionField_def jsonStr_def jsonInt_def response_keys del: list.map)

text \<open>
  The two ends name the fields of a completion differently, and only the stop reason and the input tokens arrive: the
  pod sees every completion of the model as one without text and without a tool.
\<close>

lemma pod_completion_empty:
  fixes s :: "('m, 'w, 'l, 'r) planes"
  assumes "viaGateway (pc_registryURL cfg) tokens dc dt model send" and "httpComplete send cfg req s = (Inr c, s')"
  shows "cp_Text c = [] \<and> cp_ToolName c = [] \<and> cp_ToolInput c = []"
proof -
  obtain e :: "(unit, 'l) call_env" and t r where
    send: "send (completionOut cfg req) s = podTransport (pc_registryURL cfg) tokens dc dt model e t r (completionOut cfg req) s"
    using assms(1) unfolding viaGateway_def by blast
  obtain code b s1 where sv: "internalServe tokens (\<lambda>_. dc (ho_Body (completionOut cfg req))) (\<lambda>_. dt (ho_Body (completionOut cfg req))) model e t r
      ''/internal/llm/complete'' [] (internalBearer (ho_Authorization (completionOut cfg req))) s = ((code, b), s1)"
    by (metis prod.collapse)
  have "send (completionOut cfg req) s = (Inr (code, case internalJSON b of None \<Rightarrow> Inl ErrJSONType | Some j \<Rightarrow> Inr j), s1)"
    unfolding send podTransport_def using sv by (simp add: completionOut_def)
  then have code: "code = 200" and dec: "\<exists>j. internalJSON b = Some j \<and> decodeInto completionField zeroCompletion j = Inr c"
    using assms(2) by (auto simp: httpComplete_def split: if_splits option.splits)
  have "\<exists>resp. b = InternalCompletion resp"
    using sv code by (auto simp: internalServe_def authRoute_def completeRoute_def split: sum.splits prod.splits)
  then obtain resp where b: "b = InternalCompletion resp" by blast
  have "c = zeroCompletion\<lparr>cp_StopReason := cs_StopReason resp, cp_InputTokens := cs_InputTokens resp\<rparr>"
    using dec b by (simp add: decode_response)
  then show ?thesis by (simp add: zeroCompletion_def)
qed

lemma podHarness_sel:
  "hn_completer (podHarness valid send cfg maxSteps) = httpComplete send cfg" "hn_maxSteps (podHarness valid send cfg maxSteps) = maxSteps"
  "hn_tools (podHarness valid send cfg maxSteps) = [''http_request'' \<mapsto> gatewayTool valid send cfg]"
  by (simp_all add: podHarness_def NewHarness_def gatewayTool_def)

text \<open>A loop whose model never gives a text or names a tool ends after one pass.\<close>

lemma mute_pass:
  assumes mute: "\<And>req w c w'. hn_completer h req w = (Inr c, w') \<Longrightarrow> cp_Text c = [] \<and> cp_ToolName c = []"
    and tools: "hn_tools h [] = None" and p: "runPass h gts md st w = (p, evs)"
  shows "\<exists>st' err w'. p = Return st' err w' \<and> (err = None \<longrightarrow> rs_FinalText st' = []) \<and> (\<forall>n i. Executed n i \<notin> set evs) \<and> length (filter isCompleted evs) \<le> 1"
proof (cases "hn_maxSteps h \<le> rs_Step st")
  case True
  with p show ?thesis by (auto simp: runPass_def Let_def)
next
  case False
  obtain out w1 where c: "hn_completer h (buildRequest h st gts md) w = (out, w1)" by fastforce
  show ?thesis
  proof (cases out)
    case (Inl err)
    with False c p show ?thesis by (auto simp: runPass_def Let_def)
  next
    case (Inr resp)
    with mute c have "cp_Text resp = []" "cp_ToolName resp = []" by blast+
    with Inr False c p tools show ?thesis
      by (auto simp: runPass_def Let_def finished_def split: if_splits)
  qed
qed

lemma pod_pass:
  fixes w :: "('m, 'w, 'l, 'r) planes"
  assumes gw: "viaGateway (pc_registryURL cfg) tokens dc dt model send" and p: "runPass (podHarness valid send cfg maxSteps) gts md st w = (p, evs)"
  shows "\<exists>st' err w'. p = Return st' err w' \<and> (err = None \<longrightarrow> rs_FinalText st' = []) \<and> (\<forall>n i. Executed n i \<notin> set evs) \<and> length (filter isCompleted evs) \<le> 1"
proof (rule mute_pass [OF _ _ p])
  show "cp_Text c = [] \<and> cp_ToolName c = []" if "hn_completer (podHarness valid send cfg maxSteps) req w = (Inr c, w')" for req w c w'
    using pod_completion_empty [OF gw, of req w c w'] that by (simp add: podHarness_sel)
qed (simp add: podHarness_sel)

text \<open>
  Against the gateway of the registry, a pod's run asks the model at most once, executes no tool, and if it reports
  success its final text is empty: the texts and tool calls of the model do not reach the loop, because the two ends
  name the fields of a completion differently.
\<close>

theorem pod_run_has_no_effect:
  fixes w :: "('m, 'w, 'l, 'r) planes"
  assumes "viaGateway (pc_registryURL cfg) tokens dc dt model send"
    and "Run (podHarness valid send cfg maxSteps) st gts md w = ((st', err, w'), evs)"
  shows "length (filter isCompleted evs) \<le> 1 \<and> (\<forall>n i. Executed n i \<notin> set evs) \<and> (err = None \<longrightarrow> rs_FinalText st' = [])"
  using assms(2) unfolding Run_def
proof (cases rule: runLoop_cases)
  case last
  from pod_pass [OF assms(1) last] show ?thesis by auto
next
  case (more s1 w1 evs1 evs2)
  from pod_pass [OF assms(1) more(1)] show ?thesis by auto
qed

section \<open>What the process keeps to\<close>

text \<open>
  Whatever the transport answers: a variable that is missing or a specification that is not valid stops the process before
  any request, and otherwise the model is asked at most as often as the specification allows, which is at least once.
\<close>

lemma runPod_cases:
  assumes "runPod valid yaml send vars cfg w = (out, w')"
  obtains (stopped) "w' = w" "snd out = None" "fst out \<noteq> None"
  | (ran) doc st err evs where "yaml (pc_specYAML cfg) = Inr doc" "wfDocument doc" "out = (err, Some st)" "\<forall>(k, v) \<in> set vars. v \<noteq> []"
      "Run (podHarness valid send cfg (lm_MaxStepsPerRun (sp_Limits (dc_Spec doc)))) (initialState cfg) (pc_granted cfg) (pc_model cfg) w = ((st, err, w'), evs)"
proof (cases "find (\<lambda>(key, val). val = []) vars")
  case None
  show thesis
  proof (cases "Parse yaml (pc_specYAML cfg)")
    case (Inl e)
    with None assms show thesis by (intro stopped) (auto simp: runPod_def)
  next
    case (Inr doc)
    obtain st err w1 evs where r: "Run (podHarness valid send cfg (lm_MaxStepsPerRun (sp_Limits (dc_Spec doc)))) (initialState cfg) (pc_granted cfg) (pc_model cfg) w = ((st, err, w1), evs)"
      by (metis prod.collapse)
    show thesis
    proof (rule ran [of doc err st evs])
      show "yaml (pc_specYAML cfg) = Inr doc" "wfDocument doc" using Inr by (simp_all add: Parse_Inr)
      show "\<forall>(k, v) \<in> set vars. v \<noteq> []" using None by (auto simp: find_None_iff)
      have "(out, w') = ((err, Some st), w1)" using assms None Inr r by (simp add: runPod_def)
      then show "out = (err, Some st)"
        "Run (podHarness valid send cfg (lm_MaxStepsPerRun (sp_Limits (dc_Spec doc)))) (initialState cfg) (pc_granted cfg) (pc_model cfg) w = ((st, err, w'), evs)"
        using r by simp_all
    qed
  qed
next
  case (Some p)
  with assms show thesis by (intro stopped) (auto simp: runPod_def split: prod.splits)
qed

theorem pod_run_within_spec:
  assumes "runPod valid yaml send vars cfg w = ((err, Some st), w')"
  shows "\<exists>doc. yaml (pc_specYAML cfg) = Inr doc \<and> wfDocument doc \<and>
    0 \<le> rs_Step st \<and> rs_Step st \<le> lm_MaxStepsPerRun (sp_Limits (dc_Spec doc))"
  using assms
proof (cases rule: runPod_cases)
  case (ran doc st1 err1 evs)
  have "0 < lm_MaxStepsPerRun (sp_Limits (dc_Spec doc))" using ran(2) by (simp add: wfDocument_def wfLimits_def Let_def)
  moreover have "0 \<le> rs_Step st1 \<and> rs_Step st1 \<le> max 0 (lm_MaxStepsPerRun (sp_Limits (dc_Spec doc)))"
    using runLoop_budget [OF ran(5) [unfolded Run_def]] by (simp add: podHarness_sel initialState_def)
  ultimately show ?thesis using ran(1,2,3) by auto
qed simp

end
