(* ===== verification/QueueFlow.thy ===== *)
theory QueueFlow
  imports Orchestrator JsonValue Decimal
begin

text \<open>
  A run from the queue's front to its back: the JSON of a request (\<^verbatim>\<open>orchestrator/util.go\<close>), and what a worker that reads the
  streams is given of what was enqueued.  The text form of a time is a parameter, as are the printer and the parser of JSON texts.
\<close>

section \<open>Requests on the wire\<close>

text \<open>\<^verbatim>\<open>RunRequest\<close> has no field tags: the members carry the names of its fields.\<close>

definition requestJSON :: "run_request \<Rightarrow> string \<Rightarrow> json" where
  "requestJSON r enqueuedAt =
     JObj [(''RunID'', JStr (rn_RunID r)), (''SessionID'', JStr (rn_SessionID r)), (''AgentRef'', JStr (rn_AgentRef r)),
           (''UserID'', JStr (rn_UserID r)), (''OrgID'', JStr (rn_OrgID r)), (''Priority'', JStr (rn_Priority r)),
           (''IdempotencyKey'', JStr (rn_IdempotencyKey r)), (''EnqueuedAt'', JStr enqueuedAt)]"

text \<open>The encoding of a time fails for a year that has not four digits.\<close>

definition jsonMarshal :: "(time \<Rightarrow> string result) \<Rightarrow> (json \<Rightarrow> string) \<Rightarrow> run_request \<Rightarrow> string result" where
  "jsonMarshal formatTime print req =
     (case formatTime (rn_EnqueuedAt req) of
        Inl err \<Rightarrow> Inl err
      | Inr t \<Rightarrow> Inr (print (requestJSON req t)))"

definition jsonTime :: "(string \<Rightarrow> time result) \<Rightarrow> json \<Rightarrow> (time \<Rightarrow> 'c) \<Rightarrow> 'c \<Rightarrow> 'c result" where
  "jsonTime parseTime v upd c =
     (case v of
        JStr s \<Rightarrow> (case parseTime s of Inl err \<Rightarrow> Inl err | Inr t \<Rightarrow> Inr (upd t))
      | JNull \<Rightarrow> Inr c
      | _ \<Rightarrow> Inl ErrJSONType)"

definition requestField :: "(string \<Rightarrow> time result) \<Rightarrow> string \<Rightarrow> json \<Rightarrow> run_request \<Rightarrow> run_request result" where
  "requestField parseTime k v r =
     (if k = ''runid'' then jsonStr v (\<lambda>s. r\<lparr>rn_RunID := s\<rparr>) r
      else if k = ''sessionid'' then jsonStr v (\<lambda>s. r\<lparr>rn_SessionID := s\<rparr>) r
      else if k = ''agentref'' then jsonStr v (\<lambda>s. r\<lparr>rn_AgentRef := s\<rparr>) r
      else if k = ''userid'' then jsonStr v (\<lambda>s. r\<lparr>rn_UserID := s\<rparr>) r
      else if k = ''orgid'' then jsonStr v (\<lambda>s. r\<lparr>rn_OrgID := s\<rparr>) r
      else if k = ''priority'' then jsonStr v (\<lambda>s. r\<lparr>rn_Priority := s\<rparr>) r
      else if k = ''idempotencykey'' then jsonStr v (\<lambda>s. r\<lparr>rn_IdempotencyKey := s\<rparr>) r
      else if k = ''enqueuedat'' then jsonTime parseTime v (\<lambda>t. r\<lparr>rn_EnqueuedAt := t\<rparr>) r
      else Inr r)"

definition zeroRequest :: run_request where
  "zeroRequest = \<lparr>rn_RunID = [], rn_SessionID = [], rn_AgentRef = [], rn_UserID = [], rn_OrgID = [], rn_Priority = [],
     rn_IdempotencyKey = [], rn_EnqueuedAt = zeroTime\<rparr>"

definition jsonUnmarshal :: "(string \<Rightarrow> time result) \<Rightarrow> (string \<Rightarrow> json result) \<Rightarrow> string \<Rightarrow> run_request result" where
  "jsonUnmarshal parseTime parse raw = Unmarshal parse (requestField parseTime) zeroRequest raw"

lemma request_keys:
  "map lowerByte ''RunID'' = ''runid''" "map lowerByte ''SessionID'' = ''sessionid''" "map lowerByte ''AgentRef'' = ''agentref''"
  "map lowerByte ''UserID'' = ''userid''" "map lowerByte ''OrgID'' = ''orgid''" "map lowerByte ''Priority'' = ''priority''"
  "map lowerByte ''IdempotencyKey'' = ''idempotencykey''" "map lowerByte ''EnqueuedAt'' = ''enqueuedat''"
  by code_simp+

lemma request_decoded:
  "parseTime s = Inr (rn_EnqueuedAt r) \<Longrightarrow> decodeInto (requestField parseTime) zeroRequest (requestJSON r s) = Inr r"
  unfolding decodeInto_def jsonMembers_def requestJSON_def
  by (cases r) (simp add: requestField_def request_keys jsonTime_def zeroRequest_def del: list.map)

text \<open>A request whose time reads back and whose text parses to its value is decoded unchanged.\<close>

definition wireFaithful :: "(time \<Rightarrow> string result) \<Rightarrow> (string \<Rightarrow> time result) \<Rightarrow> (json \<Rightarrow> string) \<Rightarrow> (string \<Rightarrow> json result) \<Rightarrow> run_request \<Rightarrow> bool" where
  "wireFaithful formatTime parseTime print parse r \<longleftrightarrow>
     (case formatTime (rn_EnqueuedAt r) of
        Inl _ \<Rightarrow> True
      | Inr s \<Rightarrow> parseTime s = Inr (rn_EnqueuedAt r) \<and> jsonText print parse (requestJSON r s))"

theorem request_roundtrip:
  assumes "wireFaithful formatTime parseTime print parse r" and "jsonMarshal formatTime print r = Inr raw"
  shows "jsonUnmarshal parseTime parse raw = Inr r"
  using assms by (auto simp: wireFaithful_def jsonMarshal_def jsonUnmarshal_def Unmarshal_text request_decoded split: sum.splits)

section \<open>Names of streams\<close>

lemma showNat_bytes: "c \<in> set (showNat n) \<Longrightarrow> CHR ''0'' \<le> c \<and> c \<le> CHR ''9''"
proof (induction n rule: showNat.induct)
  case (1 n)
  have "CHR ''0'' \<le> (char_of (48 + d) :: char) \<and> (char_of (48 + d) :: char) \<le> CHR ''9''" if "d < 10" for d :: nat
    using that by (simp add: less_eq_char_def)
  with 1 show ?case by (cases "n < 10") (auto simp: showNat.simps [of n])
qed

lemma showInt_bytes: "CHR '':'' \<notin> set (showInt i)"
  using showNat_bytes [of "CHR '':''"] by (auto simp: showInt_def less_eq_char_def)

lemma showNat_inject: "showNat m = showNat n \<longleftrightarrow> m = n"
  by (metis parseDigits_showNat option.inject)

lemma showInt_inject: "showInt i = showInt j \<longleftrightarrow> i = j"
proof -
  have minus: "CHR ''-'' # s \<noteq> showNat n" for s n
  proof
    assume "CHR ''-'' # s = showNat n"
    from arg_cong [OF this, of set] showNat_bytes [of "CHR ''-''" n] show False by (auto simp: less_eq_char_def)
  qed
  show ?thesis by (cases "i < 0"; cases "j < 0") (auto simp: showInt_def showNat_inject minus minus [symmetric])
qed

lemma stream_inject: "stream i p = stream j q \<longleftrightarrow> i = j \<and> p = q"
proof
  assume "stream i p = stream j q"
  then have eq: "showInt i @ CHR '':'' # p = showInt j @ CHR '':'' # q" by (simp add: stream_def)
  have "takeWhile (\<lambda>c. c \<noteq> CHR '':'') (showInt n @ CHR '':'' # r) = showInt n" for n r
    using showInt_bytes [of n] by (subst takeWhile_append2) auto
  from this [of i p] this [of j q] eq have "showInt i = showInt j" by simp
  with eq show "i = j \<and> p = q" by (simp add: showInt_inject)
qed simp

lemma route_workerStreams:
  "route orch q \<in> set (workerStreams shard) \<longleftrightarrow>
     shardFor (rn_UserID q) (or_shards orch) = shard \<and> (rn_Priority q = Interactive \<or> rn_Priority q = Background)"
proof -
  have "route orch q \<noteq> ''>''" by (simp add: route_def stream_def)
  then show ?thesis by (auto simp: workerStreams_def route_def stream_inject)
qed

section \<open>What the streams hold\<close>

lemma appendRun_entries:
  assumes rc: "redis_commands (or_client orch) keys entries" and ap: "appendRun orch now req w = (r, w')"
  shows "entries w' = entries w \<or> (\<exists>payload. or_marshal orch (stamped now req) = Inr payload \<and> entries w' = entries w @ [(route orch req, payload)])"
proof (cases "or_marshal orch (stamped now req)")
  case (Inl err)
  with ap show ?thesis by (simp add: appendRun_eq)
next
  case (Inr payload)
  obtain x v where x: "oc_XAdd (or_client orch) (route orch req) payload w = (x, v)" by (rule prod.exhaust)
  with Inr ap have "w' = v" by (simp add: appendRun_eq)
  with Inr redis_commandsD(4,5) [OF rc] x show ?thesis by (cases x) auto
qed

lemma Enqueue_entries:
  assumes rc: "redis_commands (or_client orch) keys entries" and en: "Enqueue orch now req w = (r, w')"
  shows "entries w' = entries w \<or> (\<exists>payload. or_marshal orch (stamped now req) = Inr payload \<and> entries w' = entries w @ [(route orch req, payload)])"
proof -
  obtain rid e where r: "r = (rid, e)" by force
  note add = appendRun_entries [OF rc]
  show ?thesis
  proof (cases "budgetOf orch req")
    case (Some err)
    with en show ?thesis by (simp add: Enqueue_eq)
  next
    case budget: None
    show ?thesis
    proof (cases "rn_IdempotencyKey req = []")
      case True
      with budget en add show ?thesis by (simp add: Enqueue_eq)
    next
      case False
      obtain b w1 where nx: "oc_SetNX (or_client orch) (idemKey req) (rn_RunID req) (or_idemTTL orch) w = (b, w1)" by (rule prod.exhaust)
      have same: "entries w1 = entries w" using redis_commandsD(1,2) [OF rc] nx by (cases b) blast+
      have get: "entries v' = entries v" if "oc_Get (or_client orch) k v = (g, v')" for k v g v' using redis_commandsD(3) [OF rc that] by simp
      from en [unfolded Enqueue_eq(3) [OF budget False] nx] same show ?thesis
        by (auto dest: add get split: sum.splits bool.splits prod.splits)
    qed
  qed
qed

lemma enqueueAll_entries:
  assumes "redis_commands (or_client orch) keys entries" "(s, raw) \<in> set (entries (enqueueAll orch rs w))"
  shows "(s, raw) \<in> set (entries w) \<or> (\<exists>(now, req) \<in> set rs. or_marshal orch (stamped now req) = Inr raw \<and> s = route orch req)"
  using assms(2)
proof (induction rs arbitrary: w)
  case (Cons q rs)
  obtain now req where q: "q = (now, req)" by force
  obtain x w1 where en: "Enqueue orch now req w = (x, w1)" by (rule prod.exhaust)
  with Cons.prems Cons.IH [of w1] q Enqueue_entries [OF assms(1) en] show ?case by auto
qed simp

section \<open>What a worker is given\<close>

text \<open>
  What the worker relies on of Redis: a group read delivers entries of the streams it names, and reading, acknowledging and
  creating groups leave the streams as they are.
\<close>

definition redis_delivers :: "'w redis_client \<Rightarrow> ('w \<Rightarrow> (string \<times> string) list) \<Rightarrow> bool" where
  "redis_delivers oc entries \<longleftrightarrow>
     (\<forall>g c ss w r w'. oc_XReadGroup oc g c ss w = (r, w') \<longrightarrow> entries w' = entries w \<and>
        (\<forall>res s i raw. r = Inr res \<longrightarrow> (s, i, raw) \<in> set (flatten res) \<longrightarrow> s \<in> set ss \<and> (s, raw) \<in> set (entries w))) \<and>
     (\<forall>s g i w. entries (oc_XAck oc s g i w) = entries w) \<and>
     (\<forall>s g start w. entries (snd (oc_XGroupCreateMkStream oc s g start w)) = entries w)"

lemma redis_deliversD:
  assumes "redis_delivers oc entries"
  shows "oc_XReadGroup oc g c ss w = (r, w') \<Longrightarrow> entries w' = entries w"
    and "oc_XReadGroup oc g c ss w = (Inr res, w') \<Longrightarrow> (s, i, raw) \<in> set (flatten res) \<Longrightarrow> s \<in> set ss \<and> (s, raw) \<in> set (entries w)"
    and "entries (oc_XAck oc s g i w) = entries w"
    and "oc_XGroupCreateMkStream oc s g start w = (x, w') \<Longrightarrow> entries w' = entries w"
  using assms unfolding redis_delivers_def by (blast, blast, blast, metis snd_conv)

text \<open>A handled request was decoded from an entry of one of the worker's two streams.\<close>

definition taken :: "'w orchestrator \<Rightarrow> int \<Rightarrow> (string \<times> string) list \<Rightarrow> run_request \<Rightarrow> bool" where
  "taken orch shard es req \<longleftrightarrow> (\<exists>s raw. (s, raw) \<in> set es \<and> s \<in> set (workerStreams shard) \<and> or_unmarshal orch raw = Inr req)"

definition leavesStreams :: "('w \<Rightarrow> (string \<times> string) list) \<Rightarrow> 'w handler \<Rightarrow> bool" where
  "leavesStreams entries handle \<longleftrightarrow> (\<forall>req w. entries (snd (handle req w)) = entries w)"

lemma leavesStreamsD: "leavesStreams entries handle \<Longrightarrow> handle req w = (e, w') \<Longrightarrow> entries w' = entries w"
  unfolding leavesStreams_def by (metis snd_conv)

lemma workBatch_taken:
  assumes rd: "redis_delivers (or_client orch) entries" and hd: "leavesStreams entries handle"
    and "workBatch orch handle msgs w = (w', evs)"
  shows "entries w' = entries w \<and> (\<forall>req res. Handled req res \<in> set evs \<longrightarrow> (\<exists>s i raw. (s, i, raw) \<in> set msgs \<and> or_unmarshal orch raw = Inr req))"
  using assms(3)
proof (induction msgs arbitrary: w evs)
  case (Cons m msgs)
  obtain strm i raw where m: "m = (strm, i, raw)" by (cases m)
  obtain w1 evs1 where wm: "workMessage orch handle strm (i, raw) w = (w1, evs1)" by (rule prod.exhaust)
  obtain evs2 where wb: "workBatch orch handle msgs w1 = (w', evs2)" "evs = evs1 @ evs2"
    using Cons.prems by (auto simp: m wm split: prod.splits)
  have "entries w1 = entries w \<and> (\<forall>req res. Handled req res \<in> set evs1 \<longrightarrow> or_unmarshal orch raw = Inr req)"
    using wm by (auto simp: workMessage_def redis_deliversD(3) [OF rd] dest: leavesStreamsD [OF hd] split: sum.splits prod.splits option.splits)
  with Cons.IH [OF wb(1)] wb(2) show ?case by (simp add: m) metis
qed simp

lemma workerLoop_taken:
  assumes rd: "redis_delivers (or_client orch) entries" and hd: "leavesStreams entries handle"
  shows "workerLoop n orch shard name handle w = (r, w', evs) \<Longrightarrow> Handled req res \<in> set evs \<Longrightarrow> taken orch shard (entries w) req"
proof (induction n arbitrary: w evs r w')
  case (Suc n)
  obtain p evs1 where p: "workerPass orch shard name handle w = (p, evs1)" by (rule prod.exhaust)
  show ?case
  proof (cases p)
    case (Stop e w1)
    with Suc.prems p workerPass_stop [OF p [unfolded Stop]] show ?thesis by simp
  next
    case (Again w1)
    obtain r2 w2 evs2 where rest: "workerLoop n orch shard name handle w1 = (r2, w2, evs2)" by (cases rule: prod_cases3)
    with Suc.prems p Again have evs: "evs = evs1 @ evs2" by simp
    obtain x v where x: "oc_XReadGroup (or_client orch) (or_group orch) name (workerStreams shard) w = (x, v)" by (rule prod.exhaust)
    note same = redis_deliversD(1) [OF rd x]
    have pass: "entries w1 = entries w \<and> (Handled req res \<in> set evs1 \<longrightarrow> taken orch shard (entries w) req)"
    proof (cases x)
      case (Inl err)
      with p Again x same show ?thesis by (auto simp: workerPass_def split: if_splits)
    next
      case (Inr out)
      with p Again x have wb: "workBatch orch handle (flatten out) v = (w1, evs1)"
        by (auto simp: workerPass_def split: if_splits prod.splits)
      note worked = workBatch_taken [OF rd hd wb]
      have "taken orch shard (entries w) req" if "Handled req res \<in> set evs1"
      proof -
        from worked that obtain s i raw where "(s, i, raw) \<in> set (flatten out)" "or_unmarshal orch raw = Inr req" by blast
        with redis_deliversD(2) [OF rd x [unfolded Inr]] show ?thesis unfolding taken_def by blast
      qed
      with worked same show ?thesis by simp
    qed
    with evs Suc.prems(2) Suc.IH [OF rest] show ?thesis by auto
  qed
qed simp

lemma createGroups_entries:
  "redis_delivers (or_client orch) entries \<Longrightarrow> createGroups orch ss w = (e, w') \<Longrightarrow> entries w' = entries w"
proof (induction orch ss w rule: createGroups.induct)
  case (2 orch s ss w)
  obtain x w1 where x: "oc_XGroupCreateMkStream (or_client orch) s (or_group orch) ''0'' w = (x, w1)" by (rule prod.exhaust)
  from redis_deliversD(4) [OF 2(3) x] 2 x show ?case by (cases x) (auto split: if_splits)
qed simp

text \<open>
  C18. A worker is given what was enqueued and nothing else: on streams that only enqueues have written, every request that a worker
  of a shard hands to its handler is one of the enqueued requests, unchanged but for the time of its arrival, that belongs to a user
  of that shard and asked for one of the two priorities.
\<close>

theorem worker_handles_enqueued:
  assumes "redis_commands client keys entries" and "redis_delivers client entries"
    and "orch = NewOrchestrator client shards budget (jsonMarshal formatTime print) (jsonUnmarshal parseTime parse)"
    and "\<And>now req. (now, req) \<in> set rs \<Longrightarrow> wireFaithful formatTime parseTime print parse (stamped now req)"
    and "leavesStreams entries handle"
    and "entries w0 = []" and "RunWorker n orch shard name handle (enqueueAll orch rs w0) = (r, w', evs)" and "Handled req res \<in> set evs"
  shows "\<exists>now q. (now, q) \<in> set rs \<and> req = stamped now q \<and> shardFor (rn_UserID q) (or_shards orch) = shard \<and>
    (rn_Priority q = Interactive \<or> rn_Priority q = Background)"
proof -
  have orch: "or_client orch = client" "or_marshal orch = jsonMarshal formatTime print" "or_unmarshal orch = jsonUnmarshal parseTime parse"
    by (simp_all add: assms(3) NewOrchestrator_def)
  note rc = assms(1) [folded orch(1)] and rd = assms(2) [folded orch(1)]
  obtain g w1 where g: "createGroups orch [stream shard Interactive, stream shard Background] (enqueueAll orch rs w0) = (g, w1)" by (rule prod.exhaust)
  with assms(7,8) have "workerLoop n orch shard name handle w1 = (r, w', evs)" by (cases g) (auto simp: RunWorker_def)
  from workerLoop_taken [OF rd assms(5) this assms(8)] createGroups_entries [OF rd g]
  obtain s raw where e: "(s, raw) \<in> set (entries (enqueueAll orch rs w0))" and s: "s \<in> set (workerStreams shard)" and raw: "or_unmarshal orch raw = Inr req"
    by (auto simp: taken_def)
  from enqueueAll_entries [OF rc e] assms(6) obtain now q where q: "(now, q) \<in> set rs" "or_marshal orch (stamped now q) = Inr raw" "s = route orch q" by auto
  from request_roundtrip [OF assms(4) [OF q(1)]] q(2) raw have req: "req = stamped now q" by (simp add: orch)
  from s q(3) have "shardFor (rn_UserID q) (or_shards orch) = shard \<and> (rn_Priority q = Interactive \<or> rn_Priority q = Background)"
    by (simp add: route_workerStreams)
  with q(1) req show ?thesis by blast
qed

text \<open>The priority of a request is not checked: one of another priority is accepted and put on a stream that no worker reads.\<close>

theorem unknown_priority_unread:
  assumes "rn_Priority q \<noteq> Interactive" and "rn_Priority q \<noteq> Background"
  shows "route orch q \<notin> set (workerStreams shard)"
  using assms by (simp add: route_workerStreams)

section \<open>A concrete queue\<close>

text \<open>A Redis that delivers, at every read, all entries of the streams it is asked for.\<close>

definition exQueue :: "ex_redis redis_client" where
  "exQueue = ex_oc\<lparr>oc_XReadGroup := (\<lambda>g c ss w. (Inr (map (\<lambda>(s, p). (s, [(''1-0'', p)])) (filter (\<lambda>e. fst e \<in> set ss) (ex_log w))), w)),
     oc_Done := (\<lambda>w. False)\<rparr>"

definition exFormat :: "time \<Rightarrow> string result" where "exFormat t = Inr ''1970-01-01T00:00:00.000000007Z''"

definition exTime :: "string \<Rightarrow> time result" where "exTime s = Inr 7"

definition exText :: "json \<Rightarrow> string" where "exText v = ''{}''"

definition exValue :: "string \<Rightarrow> json result" where
  "exValue raw = Inr (requestJSON (ex_request ''r1'') ''1970-01-01T00:00:00.000000007Z'')"

definition exQueueOrch :: "ex_redis orchestrator" where
  "exQueueOrch = NewOrchestrator exQueue 0 None (jsonMarshal exFormat exText) (jsonUnmarshal exTime exValue)"

definition exHandler :: "ex_redis handler" where "exHandler req w = (None, w)"

lemma exQueue_commands: "redis_commands exQueue ex_keys ex_log" "redis_delivers exQueue ex_log"
proof -
  have "oc_SetNX exQueue = oc_SetNX ex_oc" "oc_Get exQueue = oc_Get ex_oc" "oc_XAdd exQueue = oc_XAdd ex_oc" by (simp_all add: exQueue_def)
  note same = this
  show "redis_commands exQueue ex_keys ex_log" unfolding redis_commands_def same by (fact ex_oc_commands [unfolded redis_commands_def])
  show "redis_delivers exQueue ex_log" unfolding redis_delivers_def by (auto simp: exQueue_def ex_oc_def flatten_def)
qed

lemma exQueue_faithful: "wireFaithful exFormat exTime exText exValue (ex_request ''r1'')"
  by (simp add: wireFaithful_def exFormat_def exTime_def jsonText_def exValue_def ex_request_def)

lemma exQueue_run:
  "\<exists>r w' evs. RunWorker 1 exQueueOrch (shardFor ''u'' 8) ''w'' exHandler (enqueueAll exQueueOrch [(0, ex_request ''r1'')] (ex_empty [])) = (r, w', evs) \<and>
     Handled (ex_request ''r1'') None \<in> set evs"
proof -
  have o: "or_client exQueueOrch = exQueue" "or_shards exQueueOrch = 8" "budgetOf exQueueOrch q = None" "or_marshal exQueueOrch = jsonMarshal exFormat exText"
    "or_unmarshal exQueueOrch = jsonUnmarshal exTime exValue" for q
    by (simp_all add: exQueueOrch_def NewOrchestrator_def budgetOf_def)
  have mar: "jsonMarshal exFormat exText (ex_request ''r1'') = Inr ''{}''" by (simp add: jsonMarshal_def exFormat_def exText_def)
  have un: "jsonUnmarshal exTime exValue ''{}'' = Inr (ex_request ''r1'')" by (rule request_roundtrip [OF exQueue_faithful mar])
  define w1 where "w1 = (ex_empty [])\<lparr>ex_keys := [idemKey (ex_request ''r1'') \<mapsto> ''r1''], ex_log := [(stream (shardFor ''u'' 8) Interactive, ''{}'')]\<rparr>"
  have en: "enqueueAll exQueueOrch [(0, ex_request ''r1'')] (ex_empty []) = w1"
    by (simp add: w1_def Enqueue_eq o appendRun_eq mar route_def exQueue_def ex_oc_def ex_empty_def) (simp add: ex_request_def)
  have groups: "createGroups exQueueOrch ss w = (None, w)" for ss w
    by (induction ss) (simp_all add: o exQueue_def ex_oc_def)
  have read: "oc_XReadGroup exQueue g c (workerStreams (shardFor ''u'' 8)) w1 = (Inr [(stream (shardFor ''u'' 8) Interactive, [(''1-0'', ''{}'')])], w1)" for g c
    by (simp add: w1_def exQueue_def workerStreams_def)
  have live: "\<not> oc_Done exQueue w" for w by (simp add: exQueue_def)
  show ?thesis unfolding en
    by (simp add: RunWorker_def groups workerPass_def o live read flatten_def workMessage_def un exHandler_def del: createGroups.simps)
qed

theorem worker_handles_enqueued_witness:
  "\<exists>r w' evs now q. RunWorker 1 exQueueOrch (shardFor ''u'' 8) ''w'' exHandler (enqueueAll exQueueOrch [(0, ex_request ''r1'')] (ex_empty [])) = (r, w', evs) \<and>
     Handled (ex_request ''r1'') None \<in> set evs \<and> (now, q) \<in> set [(0, ex_request ''r1'')] \<and> ex_request ''r1'' = stamped now q"
proof -
  from exQueue_run obtain r w' evs where run: "RunWorker 1 exQueueOrch (shardFor ''u'' 8) ''w'' exHandler (enqueueAll exQueueOrch [(0, ex_request ''r1'')] (ex_empty [])) = (r, w', evs)"
    and h: "Handled (ex_request ''r1'') None \<in> set evs" by blast
  have "\<exists>now q. (now, q) \<in> set [(0, ex_request ''r1'')] \<and> ex_request ''r1'' = stamped now q \<and> shardFor (rn_UserID q) (or_shards exQueueOrch) = shardFor ''u'' 8 \<and>
    (rn_Priority q = Interactive \<or> rn_Priority q = Background)"
  proof (rule worker_handles_enqueued [OF exQueue_commands exQueueOrch_def _ _ _ run h])
    show "wireFaithful exFormat exTime exText exValue (stamped now req)" if "(now, req) \<in> set [(0, ex_request ''r1'')]" for now req
      using that exQueue_faithful by simp
    show "leavesStreams ex_log exHandler" by (simp add: leavesStreams_def exHandler_def)
    show "ex_log (ex_empty []) = []" by (simp add: ex_empty_def)
  qed
  with run h show ?thesis by blast
qed

end
