(* ===== verification/Registry.thy ===== *)
theory Registry
  imports AgentSpec
begin

text \<open>
  \<^verbatim>\<open>internal/registry/store.go\<close>: agents and their versions in Postgres, with the constraints of migration 001 and
  the lifecycle trigger of migration 003.
\<close>

section \<open>Tables\<close>

definition ErrNotFound :: goerr where "ErrNotFound = ErrNew ''not found''"
definition ErrImmutable :: goerr where "ErrImmutable = ErrNew ''version is immutable''"
definition ErrInvalidState :: goerr where "ErrInvalidState = ErrNew ''invalid version state transition''"
definition ErrDuplicateName :: goerr where "ErrDuplicateName = ErrNew ''agent name already exists in org''"

text \<open>The structures the store returns, and the rows of the two tables.\<close>

record agent_version =
  vn_ID :: string
  vn_AgentID :: string
  vn_Version :: int
  vn_Status :: string
  vn_SpecHash :: string
  vn_PublishedAt :: "time option"
  vn_CreatedAt :: time

record agent =
  an_ID :: string
  an_OrgID :: string
  an_OwnerUserID :: string
  an_Name :: string
  an_CurrentVersion :: "int option"

record agent_row =
  ar_ID :: string
  ar_OrgID :: string
  ar_OwnerUserID :: string
  ar_Name :: string
  ar_CurrentVersionID :: "string option"

record version_row =
  vr_ID :: string
  vr_AgentID :: string
  vr_OrgID :: string
  vr_Version :: int
  vr_Spec :: string
  vr_SpecHash :: string
  vr_Status :: string
  vr_CreatedAt :: time
  vr_PublishedAt :: "time option"

record registry =
  rg_agents :: "agent_row list"
  rg_versions :: "version_row list"

text \<open>
  The code outside: the YAML decoder, the JSON encoder, SHA-256 and the text form of a \<^verbatim>\<open>jsonb\<close> value
  (Postgres reads the canonical text and prints its own).
\<close>

record codecs =
  cd_decode :: "string \<Rightarrow> document result"
  cd_encode :: "spec \<Rightarrow> string result"
  cd_Sum256 :: "string \<Rightarrow> string"
  cd_jsonb :: "string \<Rightarrow> string result"

section \<open>Statements\<close>

definition hashSpec :: "codecs \<Rightarrow> string \<Rightarrow> string" where
  "hashSpec c canon = hexEncode (cd_Sum256 c canon)"

text \<open>\<^const>\<open>ErrDuplicateKey\<close> stands for the \<^verbatim>\<open>PgError\<close> with code 23505.\<close>

definition isUniqueViolation :: "goerr \<Rightarrow> bool" where
  "isUniqueViolation err = errorsIs err ErrDuplicateKey"

definition agent_versions_lifecycle_fn :: "time \<Rightarrow> version_row \<Rightarrow> version_row \<Rightarrow> version_row result" where
  "agent_versions_lifecycle_fn now old new =
     (if vr_Status old = ''published'' \<and>
         (vr_Spec new \<noteq> vr_Spec old \<or> vr_SpecHash new \<noteq> vr_SpecHash old \<or> vr_Version new \<noteq> vr_Version old \<or> vr_AgentID new \<noteq> vr_AgentID old)
      then Inl (ErrNew (''published agent version '' @ vr_ID old @ '' is immutable''))
      else if vr_Status old = ''published'' \<and> vr_Status new \<noteq> ''published'' \<and> vr_Status new \<noteq> ''deprecated''
      then Inl (ErrNew (''published version cannot transition to '' @ vr_Status new))
      else if vr_Status old = ''draft'' \<and> vr_Status new = ''published'' then Inr (new\<lparr>vr_PublishedAt := Some now\<rparr>)
      else Inr new)"

text \<open>An \<^verbatim>\<open>UPDATE\<close> of the version table: the trigger runs on every affected row, and its exception undoes the statement.\<close>

fun updateVersions ::
  "time \<Rightarrow> (version_row \<Rightarrow> bool) \<Rightarrow> (version_row \<Rightarrow> version_row) \<Rightarrow> version_row list \<Rightarrow> (nat \<times> version_row list) result" where
  "updateVersions now hit f [] = Inr (0, [])"
| "updateVersions now hit f (x # xs) =
     (case (if hit x then agent_versions_lifecycle_fn now x (f x) else Inr x) of
        Inl err \<Rightarrow> Inl err
      | Inr y \<Rightarrow>
     (case updateVersions now hit f xs of
        Inl err \<Rightarrow> Inl err
      | Inr (n, ys) \<Rightarrow> Inr (if hit x then Suc n else n, y # ys)))"

definition toVersion :: "version_row \<Rightarrow> agent_version" where
  "toVersion r =
     \<lparr>vn_ID = vr_ID r, vn_AgentID = vr_AgentID r, vn_Version = vr_Version r, vn_Status = vr_Status r, vn_SpecHash = vr_SpecHash r,
      vn_PublishedAt = vr_PublishedAt r, vn_CreatedAt = vr_CreatedAt r\<rparr>"

definition scanVersion :: "version_row result \<Rightarrow> agent_version result" where
  "scanVersion row =
     (case row of Inl err \<Rightarrow> Inl (if errorsIs err ErrNoRows then ErrNotFound else err) | Inr r \<Rightarrow> Inr (toVersion r))"

definition keyed :: "string \<Rightarrow> string \<Rightarrow> int \<Rightarrow> version_row \<Rightarrow> bool" where
  "keyed orgID agentID version r \<longleftrightarrow> vr_AgentID r = agentID \<and> vr_OrgID r = orgID \<and> vr_Version r = version"

definition GetVersion :: "goerr option \<Rightarrow> string \<Rightarrow> string \<Rightarrow> int \<Rightarrow> registry \<Rightarrow> agent_version result" where
  "GetVersion fault orgID agentID version s =
     scanVersion (queryRow fault (find (keyed orgID agentID version) (rg_versions s)))"

definition GetVersionByNumber :: "goerr option \<Rightarrow> string \<Rightarrow> string \<Rightarrow> int \<Rightarrow> registry \<Rightarrow> agent_version result" where
  "GetVersionByNumber fault orgID agentID version s = GetVersion fault orgID agentID version s"

definition insertVersion ::
  "codecs \<Rightarrow> time \<Rightarrow> string \<Rightarrow> goerr option \<Rightarrow> string \<Rightarrow> string \<Rightarrow> int \<Rightarrow> string \<Rightarrow> string \<Rightarrow> version_row list
   \<Rightarrow> (agent_version \<times> version_row list) result" where
  "insertVersion c now newID fault agentID orgID version canon hash rows =
     (case cd_jsonb c canon of
        Inl err \<Rightarrow> Inl err
      | Inr doc \<Rightarrow>
     (case (if newID \<in> vr_ID ` set rows \<or> (agentID, version) \<in> (\<lambda>r. (vr_AgentID r, vr_Version r)) ` set rows
            then Some ErrDuplicateKey else fault) of
        Some err \<Rightarrow> Inl err
      | None \<Rightarrow>
          Inr (\<lparr>vn_ID = newID, vn_AgentID = agentID, vn_Version = version, vn_Status = ''draft'', vn_SpecHash = hash,
                vn_PublishedAt = None, vn_CreatedAt = zeroTime\<rparr>,
               rows @ [\<lparr>vr_ID = newID, vr_AgentID = agentID, vr_OrgID = orgID, vr_Version = version, vr_Spec = doc,
                        vr_SpecHash = hash, vr_Status = ''draft'', vr_CreatedAt = now, vr_PublishedAt = None\<rparr>])))"

section \<open>Operations\<close>

text \<open>What the three writers of a specification do first.\<close>

definition canonSpec :: "codecs \<Rightarrow> string \<Rightarrow> (string \<times> string) result" where
  "canonSpec c specYAML =
     (case Parse (cd_decode c) specYAML of
        Inl err \<Rightarrow> Inl (wrapV ErrInvalidState (errText err))
      | Inr d \<Rightarrow>
     (case CanonicalJSON (cd_encode c) d of
        Inl err \<Rightarrow> Inl err
      | Inr canon \<Rightarrow> Inr (canon, hashSpec c canon)))"

text \<open>
  \<open>fault\<close> gives the failure of the n-th call on the database, the start and the commit of a transaction included;
  \<open>now\<close> is the database's clock and the identifiers are its \<^verbatim>\<open>gen_random_uuid()\<close>.
\<close>

definition CreateAgent ::
  "codecs \<Rightarrow> time \<Rightarrow> string \<Rightarrow> string \<Rightarrow> faults \<Rightarrow> string \<Rightarrow> string \<Rightarrow> string \<Rightarrow> string \<Rightarrow> registry
   \<Rightarrow> (agent \<times> agent_version) result \<times> registry" where
  "CreateAgent c now newAgent newVersion fault orgID ownerUserID name specYAML s =
     (case canonSpec c specYAML of
        Inl err \<Rightarrow> (Inl err, s)
      | Inr (canon, hash) \<Rightarrow>
     (case fault 0 of
        Some err \<Rightarrow> (Inl err, s)
      | None \<Rightarrow>
     (case (if newAgent \<in> ar_ID ` set (rg_agents s) \<or> (orgID, name) \<in> (\<lambda>a. (ar_OrgID a, ar_Name a)) ` set (rg_agents s)
            then Some ErrDuplicateKey else fault 1) of
        Some err \<Rightarrow> (Inl (if isUniqueViolation err then ErrDuplicateName else err), s)
      | None \<Rightarrow>
     (case insertVersion c now newVersion (fault 2) newAgent orgID 1 canon hash (rg_versions s) of
        Inl err \<Rightarrow> (Inl err, s)
      | Inr (v, rows) \<Rightarrow>
     (case fault 3 of
        Some err \<Rightarrow> (Inl err, s)
      | None \<Rightarrow>
          (Inr (\<lparr>an_ID = newAgent, an_OrgID = orgID, an_OwnerUserID = ownerUserID, an_Name = name, an_CurrentVersion = None\<rparr>, v),
           \<lparr>rg_agents = rg_agents s @
              [\<lparr>ar_ID = newAgent, ar_OrgID = orgID, ar_OwnerUserID = ownerUserID, ar_Name = name, ar_CurrentVersionID = None\<rparr>],
            rg_versions = rows\<rparr>))))))"

definition maxVersion :: "string \<Rightarrow> version_row list \<Rightarrow> int option" where
  "maxVersion agentID rows =
     (case map vr_Version (filter (\<lambda>r. vr_AgentID r = agentID) rows) of [] \<Rightarrow> None | v # vs \<Rightarrow> Some (fold max vs v))"

text \<open>\<^verbatim>\<open>COALESCE(MAX(version), 0) + 1\<close> on 32-bit integers.\<close>

definition nextVersion :: "goerr option \<Rightarrow> string \<Rightarrow> version_row list \<Rightarrow> int result" where
  "nextVersion fault agentID rows =
     (let n = (case maxVersion agentID rows of None \<Rightarrow> 0 | Some v \<Rightarrow> v) in
      if n + 1 < 2 ^ 31 then (case fault of Some err \<Rightarrow> Inl err | None \<Rightarrow> Inr (n + 1)) else Inl (ErrNew ''integer out of range''))"

definition AddVersion ::
  "codecs \<Rightarrow> time \<Rightarrow> string \<Rightarrow> faults \<Rightarrow> string \<Rightarrow> string \<Rightarrow> string \<Rightarrow> registry
   \<Rightarrow> (agent_version option \<times> goerr option) \<times> registry" where
  "AddVersion c now newVersion fault orgID agentID specYAML s =
     (case canonSpec c specYAML of
        Inl err \<Rightarrow> ((None, Some err), s)
      | Inr (canon, hash) \<Rightarrow>
     (case fault 0 of
        Some err \<Rightarrow> ((None, Some err), s)
      | None \<Rightarrow>
     (case queryRow (fault 1) (find (\<lambda>a. ar_ID a = agentID \<and> ar_OrgID a = orgID) (rg_agents s)) of
        Inl err \<Rightarrow> ((None, Some (if errorsIs err ErrNoRows then ErrNotFound else err)), s)
      | Inr _ \<Rightarrow>
     (case nextVersion (fault 2) agentID (rg_versions s) of
        Inl err \<Rightarrow> ((None, Some err), s)
      | Inr next \<Rightarrow>
     (case insertVersion c now newVersion (fault 3) agentID orgID next canon hash (rg_versions s) of
        Inl err \<Rightarrow> ((None, Some err), s)
      | Inr (v, rows) \<Rightarrow>
     (case fault 4 of
        Some err \<Rightarrow> ((Some v, Some err), s)
      | None \<Rightarrow> ((Some v, None), s\<lparr>rg_versions := rows\<rparr>)))))))"

definition UpdateDraft ::
  "codecs \<Rightarrow> time \<Rightarrow> faults \<Rightarrow> string \<Rightarrow> string \<Rightarrow> int \<Rightarrow> string \<Rightarrow> registry \<Rightarrow> agent_version result \<times> registry" where
  "UpdateDraft c now fault orgID agentID version specYAML s =
     (case canonSpec c specYAML of
        Inl err \<Rightarrow> (Inl err, s)
      | Inr (canon, hash) \<Rightarrow>
     (case cd_jsonb c canon of
        Inl err \<Rightarrow> (Inl err, s)
      | Inr doc \<Rightarrow>
     (case fault 0 of
        Some err \<Rightarrow> (Inl err, s)
      | None \<Rightarrow>
     (case updateVersions now (\<lambda>r. keyed orgID agentID version r \<and> vr_Status r = ''draft'') (\<lambda>r. r\<lparr>vr_Spec := doc, vr_SpecHash := hash\<rparr>)
             (rg_versions s) of
        Inl err \<Rightarrow> (Inl err, s)
      | Inr (n, rows) \<Rightarrow>
          let s' = s\<lparr>rg_versions := rows\<rparr> in
          if n = 0 then
            (case GetVersion (fault 1) orgID agentID version s' of Inl err \<Rightarrow> (Inl err, s') | Inr _ \<Rightarrow> (Inl ErrImmutable, s'))
          else (GetVersion (fault 1) orgID agentID version s', s')))))"

text \<open>The foreign key of \<^verbatim>\<open>agents (current_version_id, id)\<close> is checked by the second update.\<close>

definition setCurrent :: "goerr option \<Rightarrow> string \<Rightarrow> string \<Rightarrow> registry \<Rightarrow> registry result" where
  "setCurrent fault versionID agentID s =
     (if agentID \<in> ar_ID ` set (rg_agents s) \<and> (versionID, agentID) \<notin> (\<lambda>r. (vr_ID r, vr_AgentID r)) ` set (rg_versions s)
      then Inl (ErrNew ''violates foreign key constraint agents_current_version_fk'')
      else (case fault of
              Some err \<Rightarrow> Inl err
            | None \<Rightarrow> Inr (s\<lparr>rg_agents := map (\<lambda>a. if ar_ID a = agentID then a\<lparr>ar_CurrentVersionID := Some versionID\<rparr> else a) (rg_agents s)\<rparr>)))"

definition PublishVersion ::
  "time \<Rightarrow> faults \<Rightarrow> string \<Rightarrow> string \<Rightarrow> int \<Rightarrow> registry \<Rightarrow> agent_version result \<times> registry" where
  "PublishVersion now fault orgID agentID version s =
     (case fault 0 of
        Some err \<Rightarrow> (Inl err, s)
      | None \<Rightarrow>
     (case queryRow (fault 1) (find (keyed orgID agentID version) (rg_versions s)) of
        Inl err \<Rightarrow> (Inl (if errorsIs err ErrNoRows then ErrNotFound else err), s)
      | Inr r \<Rightarrow>
          if vr_Status r \<noteq> ''draft'' then (Inl ErrInvalidState, s)
          else
     (case fault 2 of
        Some err \<Rightarrow> (Inl err, s)
      | None \<Rightarrow>
     (case updateVersions now (\<lambda>x. vr_ID x = vr_ID r) (\<lambda>x. x\<lparr>vr_Status := ''published''\<rparr>) (rg_versions s) of
        Inl err \<Rightarrow> (Inl err, s)
      | Inr (n, rows) \<Rightarrow>
     (case setCurrent (fault 3) (vr_ID r) agentID (s\<lparr>rg_versions := rows\<rparr>) of
        Inl err \<Rightarrow> (Inl err, s)
      | Inr s' \<Rightarrow>
     (case fault 4 of
        Some err \<Rightarrow> (Inl err, s)
      | None \<Rightarrow> (GetVersionByNumber (fault 5) orgID agentID version s', s')))))))"

definition DeprecateVersion ::
  "time \<Rightarrow> faults \<Rightarrow> string \<Rightarrow> string \<Rightarrow> int \<Rightarrow> registry \<Rightarrow> agent_version result \<times> registry" where
  "DeprecateVersion now fault orgID agentID version s =
     (case fault 0 of
        Some err \<Rightarrow> (Inl err, s)
      | None \<Rightarrow>
     (case updateVersions now (\<lambda>r. keyed orgID agentID version r \<and> vr_Status r = ''published'') (\<lambda>r. r\<lparr>vr_Status := ''deprecated''\<rparr>)
             (rg_versions s) of
        Inl err \<Rightarrow> (Inl err, s)
      | Inr (n, rows) \<Rightarrow>
          let s' = s\<lparr>rg_versions := rows\<rparr> in
          if n = 0 then
            (case GetVersion (fault 1) orgID agentID version s' of Inl err \<Rightarrow> (Inl err, s') | Inr _ \<Rightarrow> (Inl ErrInvalidState, s'))
          else (GetVersionByNumber (fault 1) orgID agentID version s', s')))"

definition GetAgent :: "goerr option \<Rightarrow> string \<Rightarrow> string \<Rightarrow> registry \<Rightarrow> agent result" where
  "GetAgent fault orgID agentID s =
     (case queryRow fault (find (\<lambda>a. ar_ID a = agentID \<and> ar_OrgID a = orgID) (rg_agents s)) of
        Inl err \<Rightarrow> Inl (if errorsIs err ErrNoRows then ErrNotFound else err)
      | Inr a \<Rightarrow>
          Inr \<lparr>an_ID = ar_ID a, an_OrgID = ar_OrgID a, an_OwnerUserID = ar_OwnerUserID a, an_Name = ar_Name a,
               an_CurrentVersion =
                 (case ar_CurrentVersionID a of
                    None \<Rightarrow> None
                  | Some i \<Rightarrow> map_option vr_Version (find (\<lambda>r. vr_ID r = i) (rg_versions s)))\<rparr>)"

definition ListVersions :: "rows_io \<Rightarrow> string \<Rightarrow> string \<Rightarrow> registry \<Rightarrow> agent_version list result" where
  "ListVersions io orgID agentID s =
     (case queryRows io (rev (sort_key vr_Version (filter (\<lambda>r. vr_AgentID r = agentID \<and> vr_OrgID r = orgID) (rg_versions s)))) of
        Inl err \<Rightarrow> Inl err
      | Inr rows \<Rightarrow> Inr (map toVersion rows))"

definition SpecJSON :: "goerr option \<Rightarrow> string \<Rightarrow> string \<Rightarrow> int \<Rightarrow> registry \<Rightarrow> string result" where
  "SpecJSON fault orgID agentID version s =
     (case queryRow fault (find (keyed orgID agentID version) (rg_versions s)) of
        Inl err \<Rightarrow> Inl (if errorsIs err ErrNoRows then ErrNotFound else err)
      | Inr r \<Rightarrow> Inr (vr_Spec r))"

section \<open>What a call does to the tables\<close>

datatype registry_call =
    CallCreate string string string string
  | CallAdd string string string
  | CallUpdate string string int string
  | CallPublish string string int
  | CallDeprecate string string int

primrec callOrg :: "registry_call \<Rightarrow> string" where
  "callOrg (CallCreate og owner name y) = og"
| "callOrg (CallAdd og a y) = og"
| "callOrg (CallUpdate og a v y) = og"
| "callOrg (CallPublish og a v) = og"
| "callOrg (CallDeprecate og a v) = og"

primrec perform :: "codecs \<Rightarrow> time \<Rightarrow> string \<Rightarrow> string \<Rightarrow> faults \<Rightarrow> registry_call \<Rightarrow> registry \<Rightarrow> registry" where
  "perform c now i j fault (CallCreate og owner name y) s = snd (CreateAgent c now i j fault og owner name y s)"
| "perform c now i j fault (CallAdd og a y) s = snd (AddVersion c now j fault og a y s)"
| "perform c now i j fault (CallUpdate og a v y) s = snd (UpdateDraft c now fault og a v y s)"
| "perform c now i j fault (CallPublish og a v) s = snd (PublishVersion now fault og a v s)"
| "perform c now i j fault (CallDeprecate og a v) s = snd (DeprecateVersion now fault og a v s)"

definition registryStep :: "codecs \<Rightarrow> registry \<Rightarrow> registry_call \<Rightarrow> registry \<Rightarrow> bool" where
  "registryStep c s call t \<longleftrightarrow> (\<exists>now i j fault. t = perform c now i j fault call s)"

text \<open>A specification as the tables hold it: the text of a valid document's canonical form and its hash.\<close>

definition storedSpec :: "codecs \<Rightarrow> string \<Rightarrow> string \<Rightarrow> bool" where
  "storedSpec c doc hash \<longleftrightarrow>
     (\<exists>d canon. wfDocument d \<and> CanonicalJSON (cd_encode c) d = Inr canon \<and> cd_jsonb c canon = Inr doc \<and> hash = hashSpec c canon)"

lemma canonSpec_stored: "canonSpec c y = Inr (canon, hash) \<Longrightarrow> cd_jsonb c canon = Inr doc \<Longrightarrow> storedSpec c doc hash"
  by (auto simp: canonSpec_def storedSpec_def Parse_Inr split: sum.splits)

definition newVersion :: "string \<Rightarrow> string \<Rightarrow> string \<Rightarrow> int \<Rightarrow> string \<Rightarrow> string \<Rightarrow> time \<Rightarrow> version_row" where
  "newVersion j a og n doc hash now =
     \<lparr>vr_ID = j, vr_AgentID = a, vr_OrgID = og, vr_Version = n, vr_Spec = doc, vr_SpecHash = hash, vr_Status = ''draft'',
      vr_CreatedAt = now, vr_PublishedAt = None\<rparr>"

definition newAgentRow :: "string \<Rightarrow> string \<Rightarrow> string \<Rightarrow> string \<Rightarrow> agent_row" where
  "newAgentRow i og owner name =
     \<lparr>ar_ID = i, ar_OrgID = og, ar_OwnerUserID = owner, ar_Name = name, ar_CurrentVersionID = None\<rparr>"

abbreviation versionKeys :: "registry \<Rightarrow> (string \<times> int) set" where
  "versionKeys s \<equiv> (\<lambda>r. (vr_AgentID r, vr_Version r)) ` set (rg_versions s)"

definition onRow :: "string \<Rightarrow> (version_row \<Rightarrow> version_row) \<Rightarrow> version_row \<Rightarrow> version_row" where
  "onRow i f x = (if vr_ID x = i then f x else x)"

definition onAgent :: "string \<Rightarrow> string \<Rightarrow> agent_row \<Rightarrow> agent_row" where
  "onAgent i v a = (if ar_ID a = i then a\<lparr>ar_CurrentVersionID := Some v\<rparr> else a)"

text \<open>The five changes of the tables that the operations are for; everything else leaves them alone.\<close>

inductive registryEffect :: "codecs \<Rightarrow> registry \<Rightarrow> registry_call \<Rightarrow> registry \<Rightarrow> bool" for c where
  eff_none: "registryEffect c s call s"
| eff_create: "storedSpec c doc hash \<Longrightarrow> i \<notin> ar_ID ` set (rg_agents s) \<Longrightarrow> (og, name) \<notin> (\<lambda>a. (ar_OrgID a, ar_Name a)) ` set (rg_agents s) \<Longrightarrow>
    j \<notin> vr_ID ` set (rg_versions s) \<Longrightarrow> (i, 1) \<notin> versionKeys s \<Longrightarrow>
    registryEffect c s (CallCreate og owner name y)
      \<lparr>rg_agents = rg_agents s @ [newAgentRow i og owner name], rg_versions = rg_versions s @ [newVersion j i og 1 doc hash now]\<rparr>"
| eff_add: "storedSpec c doc hash \<Longrightarrow> ag \<in> set (rg_agents s) \<Longrightarrow> ar_ID ag = a \<Longrightarrow> ar_OrgID ag = og \<Longrightarrow> nextVersion None a (rg_versions s) = Inr n \<Longrightarrow>
    j \<notin> vr_ID ` set (rg_versions s) \<Longrightarrow> (a, n) \<notin> versionKeys s \<Longrightarrow>
    registryEffect c s (CallAdd og a y) (s\<lparr>rg_versions := rg_versions s @ [newVersion j a og n doc hash now]\<rparr>)"
| eff_update: "storedSpec c doc hash \<Longrightarrow> r \<in> set (rg_versions s) \<Longrightarrow> keyed og a v r \<Longrightarrow> vr_Status r = ''draft'' \<Longrightarrow>
    registryEffect c s (CallUpdate og a v y)
      (s\<lparr>rg_versions := map (onRow (vr_ID r) (\<lambda>x. x\<lparr>vr_Spec := doc, vr_SpecHash := hash\<rparr>)) (rg_versions s)\<rparr>)"
| eff_publish: "r \<in> set (rg_versions s) \<Longrightarrow> keyed og a v r \<Longrightarrow> vr_Status r = ''draft'' \<Longrightarrow>
    registryEffect c s (CallPublish og a v)
      \<lparr>rg_agents = map (onAgent a (vr_ID r)) (rg_agents s),
       rg_versions = map (onRow (vr_ID r) (\<lambda>x. x\<lparr>vr_Status := ''published'', vr_PublishedAt := Some now\<rparr>)) (rg_versions s)\<rparr>"
| eff_deprecate: "r \<in> set (rg_versions s) \<Longrightarrow> keyed og a v r \<Longrightarrow> vr_Status r = ''published'' \<Longrightarrow>
    registryEffect c s (CallDeprecate og a v)
      (s\<lparr>rg_versions := map (onRow (vr_ID r) (\<lambda>x. x\<lparr>vr_Status := ''deprecated''\<rparr>)) (rg_versions s)\<rparr>)"

section \<open>Well-formed tables\<close>

definition wfVersionRow :: "codecs \<Rightarrow> agent_row list \<Rightarrow> version_row \<Rightarrow> bool" where
  "wfVersionRow c ags r \<longleftrightarrow>
     vr_Status r \<in> {''draft'', ''published'', ''deprecated''} \<and> 1 \<le> vr_Version r \<and> vr_Version r < 2 ^ 31 \<and>
     (vr_PublishedAt r = None \<longleftrightarrow> vr_Status r = ''draft'') \<and> storedSpec c (vr_Spec r) (vr_SpecHash r) \<and>
     (\<exists>a \<in> set ags. ar_ID a = vr_AgentID r \<and> ar_OrgID a = vr_OrgID r)"

definition wfAgentRow :: "version_row list \<Rightarrow> agent_row \<Rightarrow> bool" where
  "wfAgentRow rows a \<longleftrightarrow>
     (\<forall>i. ar_CurrentVersionID a = Some i \<longrightarrow>
        (\<exists>r \<in> set rows. vr_ID r = i \<and> vr_AgentID r = ar_ID a \<and> vr_OrgID r = ar_OrgID a \<and> vr_Status r \<noteq> ''draft''))"

definition registryOK :: "codecs \<Rightarrow> registry \<Rightarrow> bool" where
  "registryOK c s \<longleftrightarrow>
     distinct (map ar_ID (rg_agents s)) \<and> distinct (map (\<lambda>a. (ar_OrgID a, ar_Name a)) (rg_agents s)) \<and>
     distinct (map vr_ID (rg_versions s)) \<and> distinct (map (\<lambda>r. (vr_AgentID r, vr_Version r)) (rg_versions s)) \<and>
     (\<forall>r \<in> set (rg_versions s). wfVersionRow c (rg_agents s) r) \<and> (\<forall>a \<in> set (rg_agents s). wfAgentRow (rg_versions s) a)"

lemma distinct_map_eq: "distinct (map f xs) \<Longrightarrow> x \<in> set xs \<Longrightarrow> y \<in> set xs \<Longrightarrow> f x = f y \<longleftrightarrow> x = y"
  by (auto simp: distinct_map dest: inj_onD)

lemma registryOK_same_key:
  assumes "registryOK c s" "x \<in> set (rg_versions s)" "y \<in> set (rg_versions s)"
  shows "vr_ID x = vr_ID y \<longleftrightarrow> x = y" and "keyed og a v x \<Longrightarrow> keyed og a v y \<longleftrightarrow> x = y"
proof -
  show "vr_ID x = vr_ID y \<longleftrightarrow> x = y" using assms distinct_map_eq unfolding registryOK_def by fast
  have "(vr_AgentID x, vr_Version x) = (vr_AgentID y, vr_Version y) \<longleftrightarrow> x = y"
    using assms distinct_map_eq [where f = "\<lambda>r. (vr_AgentID r, vr_Version r)"] unfolding registryOK_def by fast
  then show "keyed og a v y \<longleftrightarrow> x = y" if "keyed og a v x"
    using that by (auto simp: keyed_def)
qed

lemma updateVersions_ok:
  assumes "\<And>x. x \<in> set rows \<Longrightarrow> hit x \<Longrightarrow> agent_versions_lifecycle_fn now x (f x) = Inr (g x)"
  shows "updateVersions now hit f rows = Inr (length (filter hit rows), map (\<lambda>x. if hit x then g x else x) rows)"
  using assms by (induction rows) auto

lemma find_keyed:
  assumes "registryOK c s" "r \<in> set (rg_versions s)" "keyed og a v r"
  shows "find (keyed og a v) (rg_versions s) = Some r"
proof (cases "find (keyed og a v) (rg_versions s)")
  case None
  with assms show ?thesis by (auto simp: find_None_iff)
next
  case (Some x)
  then have "x \<in> set (rg_versions s)" "keyed og a v x" by (auto simp: find_Some_iff)
  with registryOK_same_key(2) [OF assms(1,2)] assms(3) Some show ?thesis by simp
qed

text \<open>Under the invariant a condition on the key picks one row, so each update is a change of one row.\<close>

lemma update_one:
  assumes ok: "registryOK c s" and r: "r \<in> set (rg_versions s)" "keyed og a v r"
  shows "map (\<lambda>x. if keyed og a v x \<and> vr_Status x = vr_Status r then g x else x) (rg_versions s) = map (onRow (vr_ID r) g) (rg_versions s)"
proof (rule map_cong)
  fix x assume x: "x \<in> set (rg_versions s)"
  show "(if keyed og a v x \<and> vr_Status x = vr_Status r then g x else x) = onRow (vr_ID r) g x"
    using registryOK_same_key(1) [OF ok x r(1)] registryOK_same_key(2) [OF ok r(1) x r(2)] by (auto simp: onRow_def r(2))
qed simp

lemma filter_none: "filter P xs = [] \<Longrightarrow> map (\<lambda>x. if P x then g x else x) xs = xs"
  by (induction xs) (auto split: if_splits)

section \<open>Every call is one of the changes\<close>

lemma insertVersion_Inr:
  "insertVersion c now j fault a og n canon hash rows = Inr (v, rows') \<longleftrightarrow>
     (\<exists>doc. cd_jsonb c canon = Inr doc \<and> j \<notin> vr_ID ` set rows \<and> (a, n) \<notin> (\<lambda>r. (vr_AgentID r, vr_Version r)) ` set rows \<and> fault = None \<and>
        rows' = rows @ [newVersion j a og n doc hash now] \<and>
        v = \<lparr>vn_ID = j, vn_AgentID = a, vn_Version = n, vn_Status = ''draft'', vn_SpecHash = hash, vn_PublishedAt = None, vn_CreatedAt = zeroTime\<rparr>)"
  unfolding insertVersion_def newVersion_def by (simp split: sum.splits option.splits if_splits) blast

lemma CreateAgent_effect: "registryEffect c s (CallCreate og owner name y) (snd (CreateAgent c now i j fault og owner name y s))"
proof (cases "fst (CreateAgent c now i j fault og owner name y s)")
  case (Inl e)
  then have "snd (CreateAgent c now i j fault og owner name y s) = s"
    by (auto simp: CreateAgent_def split: sum.splits option.splits prod.splits if_splits)
  then show ?thesis by (simp add: eff_none)
next
  case (Inr out)
  then obtain canon hash v rows where
    "canonSpec c y = Inr (canon, hash)" "insertVersion c now j (fault 2) i og 1 canon hash (rg_versions s) = Inr (v, rows)"
    "i \<notin> ar_ID ` set (rg_agents s)" "(og, name) \<notin> (\<lambda>a. (ar_OrgID a, ar_Name a)) ` set (rg_agents s)"
    and t: "snd (CreateAgent c now i j fault og owner name y s) = \<lparr>rg_agents = rg_agents s @ [newAgentRow i og owner name], rg_versions = rows\<rparr>"
    by (simp add: CreateAgent_def newAgentRow_def split: sum.splits option.splits prod.splits if_splits)
  then show ?thesis unfolding t by (auto simp: insertVersion_Inr intro: eff_create canonSpec_stored)
qed

lemma AddVersion_effect: "registryEffect c s (CallAdd og a y) (snd (AddVersion c now j fault og a y s))"
proof (cases "snd (fst (AddVersion c now j fault og a y s))")
  case (Some e)
  then have "snd (AddVersion c now j fault og a y s) = s"
    by (auto simp: AddVersion_def split: sum.splits option.splits prod.splits)
  then show ?thesis by (simp add: eff_none)
next
  case None
  then obtain canon hash ag n v rows where
    "canonSpec c y = Inr (canon, hash)" "find (\<lambda>x. ar_ID x = a \<and> ar_OrgID x = og) (rg_agents s) = Some ag"
    "nextVersion (fault 2) a (rg_versions s) = Inr n" "insertVersion c now j (fault 3) a og n canon hash (rg_versions s) = Inr (v, rows)"
    and t: "snd (AddVersion c now j fault og a y s) = s\<lparr>rg_versions := rows\<rparr>"
    by (simp add: AddVersion_def split: sum.splits option.splits prod.splits)
  moreover from this(3) have "nextVersion None a (rg_versions s) = Inr n"
    by (auto simp: nextVersion_def Let_def split: if_splits option.splits)
  ultimately show ?thesis unfolding t by (auto simp: insertVersion_Inr find_Some_iff intro!: eff_add intro: canonSpec_stored)
qed

lemma trigger_draft [simp]:
  "vr_Status x = ''draft'' \<Longrightarrow> agent_versions_lifecycle_fn now x (x\<lparr>vr_Spec := doc, vr_SpecHash := hash\<rparr>) = Inr (x\<lparr>vr_Spec := doc, vr_SpecHash := hash\<rparr>)"
  "vr_Status x = ''draft'' \<Longrightarrow> agent_versions_lifecycle_fn now x (x\<lparr>vr_Status := ''published''\<rparr>) = Inr (x\<lparr>vr_Status := ''published'', vr_PublishedAt := Some now\<rparr>)"
  "vr_Status x = ''published'' \<Longrightarrow> agent_versions_lifecycle_fn now x (x\<lparr>vr_Status := ''deprecated''\<rparr>) = Inr (x\<lparr>vr_Status := ''deprecated''\<rparr>)"
  by (simp_all add: agent_versions_lifecycle_fn_def)

text \<open>An update that selects rows by key and status: it leaves the table alone, or it changes one row.\<close>

lemma update_keyed:
  assumes ok: "registryOK c s"
    and g: "\<And>x. vr_Status x = st \<Longrightarrow> agent_versions_lifecycle_fn now x (f x) = Inr (g x)"
    and u: "updateVersions now (\<lambda>r. keyed og a v r \<and> vr_Status r = st) f (rg_versions s) = Inr (n, rows)"
  shows "n = 0 \<and> rows = rg_versions s \<and> (\<forall>r \<in> set (rg_versions s). keyed og a v r \<longrightarrow> vr_Status r \<noteq> st) \<or>
    0 < n \<and> (\<exists>r \<in> set (rg_versions s). keyed og a v r \<and> vr_Status r = st \<and> rows = map (onRow (vr_ID r) g) (rg_versions s))"
proof (cases "\<exists>r \<in> set (rg_versions s). keyed og a v r \<and> vr_Status r = st")
  case True
  then obtain r where r: "r \<in> set (rg_versions s)" "keyed og a v r" "vr_Status r = st" by blast
  then have "filter (\<lambda>r. keyed og a v r \<and> vr_Status r = st) (rg_versions s) \<noteq> []" by (auto simp: filter_empty_conv)
  moreover have "rows = map (onRow (vr_ID r) g) (rg_versions s)" "n = length (filter (\<lambda>r. keyed og a v r \<and> vr_Status r = st) (rg_versions s))"
    using u updateVersions_ok [of "rg_versions s" "\<lambda>r. keyed og a v r \<and> vr_Status r = st" now f g, OF g] update_one [OF ok r(1,2), of g] r(3) by auto
  ultimately show ?thesis using r by blast
next
  case False
  then have none: "filter (\<lambda>r. keyed og a v r \<and> vr_Status r = st) (rg_versions s) = []" by (auto simp: filter_empty_conv)
  have "n = 0" "rows = rg_versions s"
    using u updateVersions_ok [of "rg_versions s" "\<lambda>r. keyed og a v r \<and> vr_Status r = st" now f g, OF g] none filter_none [OF none, of g] by auto
  with False show ?thesis by blast
qed

lemma UpdateDraft_effect:
  assumes ok: "registryOK c s"
  shows "registryEffect c s (CallUpdate og a v y) (snd (UpdateDraft c now fault og a v y s))"
proof (cases "snd (UpdateDraft c now fault og a v y s) = s")
  case True
  then show ?thesis by (simp add: eff_none)
next
  case False
  then obtain canon hash doc n rows where
    y: "canonSpec c y = Inr (canon, hash)" "cd_jsonb c canon = Inr doc"
    and u: "updateVersions now (\<lambda>r. keyed og a v r \<and> vr_Status r = ''draft'') (\<lambda>r. r\<lparr>vr_Spec := doc, vr_SpecHash := hash\<rparr>) (rg_versions s) = Inr (n, rows)"
    and t: "snd (UpdateDraft c now fault og a v y s) = s\<lparr>rg_versions := rows\<rparr>"
    by (simp add: UpdateDraft_def Let_def split: sum.splits option.splits prod.splits if_splits)
  from update_keyed [OF ok _ u, of "\<lambda>x. x\<lparr>vr_Spec := doc, vr_SpecHash := hash\<rparr>"] False t obtain r where
    "r \<in> set (rg_versions s)" "keyed og a v r" "vr_Status r = ''draft''"
    "rows = map (onRow (vr_ID r) (\<lambda>x. x\<lparr>vr_Spec := doc, vr_SpecHash := hash\<rparr>)) (rg_versions s)" by auto
  then show ?thesis unfolding t by (simp only:) (rule eff_update [OF canonSpec_stored [OF y]])
qed

lemma publish_update:
  assumes ok: "registryOK c s" and r: "r \<in> set (rg_versions s)" "vr_Status r = ''draft''"
  shows "updateVersions now (\<lambda>x. vr_ID x = vr_ID r) (\<lambda>x. x\<lparr>vr_Status := ''published''\<rparr>) (rg_versions s) =
    Inr (length (filter (\<lambda>x. vr_ID x = vr_ID r) (rg_versions s)),
         map (onRow (vr_ID r) (\<lambda>x. x\<lparr>vr_Status := ''published'', vr_PublishedAt := Some now\<rparr>)) (rg_versions s))"
  using updateVersions_ok [of "rg_versions s" "\<lambda>x. vr_ID x = vr_ID r" now "\<lambda>x. x\<lparr>vr_Status := ''published''\<rparr>"
      "\<lambda>x. x\<lparr>vr_Status := ''published'', vr_PublishedAt := Some now\<rparr>"] registryOK_same_key(1) [OF ok _ r(1)] r(2)
  by (simp add: onRow_def [abs_def])

lemma PublishVersion_effect:
  assumes ok: "registryOK c s"
  shows "registryEffect c s (CallPublish og a v) (snd (PublishVersion now fault og a v s))"
proof (cases "snd (PublishVersion now fault og a v s) = s")
  case True
  then show ?thesis by (simp add: eff_none)
next
  case False
  then obtain r n rows t where f: "fault 0 = None" "fault 1 = None" "fault 2 = None" "fault 4 = None"
    and r0: "find (keyed og a v) (rg_versions s) = Some r" and st: "vr_Status r = ''draft''"
    and u: "updateVersions now (\<lambda>x. vr_ID x = vr_ID r) (\<lambda>x. x\<lparr>vr_Status := ''published''\<rparr>) (rg_versions s) = Inr (n, rows)"
    and c1: "setCurrent (fault 3) (vr_ID r) a (s\<lparr>rg_versions := rows\<rparr>) = Inr t"
    by (simp add: PublishVersion_def split: sum.splits option.splits prod.splits if_splits)
  have t: "snd (PublishVersion now fault og a v s) = t" unfolding PublishVersion_def f r0 using st u c1 by simp
  from r0 have r: "r \<in> set (rg_versions s)" "keyed og a v r" by (auto simp: find_Some_iff)
  have "t = \<lparr>rg_agents = map (onAgent a (vr_ID r)) (rg_agents s),
       rg_versions = map (onRow (vr_ID r) (\<lambda>x. x\<lparr>vr_Status := ''published'', vr_PublishedAt := Some now\<rparr>)) (rg_versions s)\<rparr>"
    using c1 u publish_update [OF ok r(1) st] by (auto simp: setCurrent_def onAgent_def [abs_def] split: if_splits option.splits)
  then show ?thesis unfolding t by (simp only:) (rule eff_publish [OF r st])
qed

lemma DeprecateVersion_effect:
  assumes ok: "registryOK c s"
  shows "registryEffect c s (CallDeprecate og a v) (snd (DeprecateVersion now fault og a v s))"
proof (cases "snd (DeprecateVersion now fault og a v s) = s")
  case True
  then show ?thesis by (simp add: eff_none)
next
  case False
  then obtain n rows where
    u: "updateVersions now (\<lambda>r. keyed og a v r \<and> vr_Status r = ''published'') (\<lambda>r. r\<lparr>vr_Status := ''deprecated''\<rparr>) (rg_versions s) = Inr (n, rows)"
    and t: "snd (DeprecateVersion now fault og a v s) = s\<lparr>rg_versions := rows\<rparr>"
    by (simp add: DeprecateVersion_def Let_def split: sum.splits option.splits prod.splits if_splits)
  from update_keyed [OF ok _ u, of "\<lambda>x. x\<lparr>vr_Status := ''deprecated''\<rparr>"] False t obtain r where
    "r \<in> set (rg_versions s)" "keyed og a v r" "vr_Status r = ''published''"
    "rows = map (onRow (vr_ID r) (\<lambda>x. x\<lparr>vr_Status := ''deprecated''\<rparr>)) (rg_versions s)" by auto
  then show ?thesis unfolding t by (simp only:) (rule eff_deprecate)
qed

lemma step_effect: "registryOK c s \<Longrightarrow> registryStep c s call t \<Longrightarrow> registryEffect c s call t"
  unfolding registryStep_def
  by (cases call) (auto simp: CreateAgent_effect AddVersion_effect UpdateDraft_effect PublishVersion_effect DeprecateVersion_effect)

section \<open>The invariant\<close>

text \<open>The part of a row's well-formedness that an update can touch.\<close>

definition wfState :: "codecs \<Rightarrow> version_row \<Rightarrow> bool" where
  "wfState c r \<longleftrightarrow> vr_Status r \<in> {''draft'', ''published'', ''deprecated''} \<and> (vr_PublishedAt r = None \<longleftrightarrow> vr_Status r = ''draft'') \<and>
     storedSpec c (vr_Spec r) (vr_SpecHash r)"

lemma wfVersionRow_iff:
  "wfVersionRow c ags r \<longleftrightarrow> wfState c r \<and> 1 \<le> vr_Version r \<and> vr_Version r < 2 ^ 31 \<and> (vr_AgentID r, vr_OrgID r) \<in> (\<lambda>a. (ar_ID a, ar_OrgID a)) ` set ags"
  by (simp add: wfVersionRow_def wfState_def) (auto simp: image_iff; metis)

definition sameKey :: "(version_row \<Rightarrow> version_row) \<Rightarrow> bool" where
  "sameKey k \<longleftrightarrow> (\<forall>r. vr_ID (k r) = vr_ID r \<and> vr_AgentID (k r) = vr_AgentID r \<and> vr_OrgID (k r) = vr_OrgID r \<and> vr_Version (k r) = vr_Version r)"

definition sameAgent :: "(agent_row \<Rightarrow> agent_row) \<Rightarrow> bool" where
  "sameAgent h \<longleftrightarrow> (\<forall>a. ar_ID (h a) = ar_ID a \<and> ar_OrgID (h a) = ar_OrgID a \<and> ar_Name (h a) = ar_Name a)"

lemma registryOK_map:
  assumes ok: "registryOK c s" and k: "sameKey k" and h: "sameAgent h"
    and rows: "\<And>r. r \<in> set (rg_versions s) \<Longrightarrow> wfState c r \<Longrightarrow> wfState c (k r)"
    and ags: "\<And>a. a \<in> set (rg_agents s) \<Longrightarrow> wfAgentRow (rg_versions s) a \<Longrightarrow> wfAgentRow (map k (rg_versions s)) (h a)"
  shows "registryOK c \<lparr>rg_agents = map h (rg_agents s), rg_versions = map k (rg_versions s)\<rparr>"
  using ok rows ags k h
  by (auto simp: registryOK_def wfVersionRow_iff sameKey_def sameAgent_def comp_def image_image)

lemma sameKey_onRow [simp]: "sameKey k \<Longrightarrow> sameKey (onRow i k)"
  by (simp add: sameKey_def onRow_def)

lemma sameAgent_onAgent [simp]: "sameAgent (onAgent a i)" "sameAgent (\<lambda>x. x)"
  by (simp_all add: sameAgent_def onAgent_def)

lemma wfAgentRow_map:
  assumes "sameKey k" "\<And>r. r \<in> set rows \<Longrightarrow> vr_Status r \<noteq> ''draft'' \<Longrightarrow> vr_Status (k r) \<noteq> ''draft''" "wfAgentRow rows a"
  shows "wfAgentRow (map k rows) a"
  using assms unfolding wfAgentRow_def sameKey_def by (metis (no_types, lifting) imageI list.set_map)

lemma maxVersion_bounds:
  assumes "nextVersion None a rows = Inr n" "\<And>r. r \<in> set rows \<Longrightarrow> 1 \<le> vr_Version r"
  shows "1 \<le> n" "n < 2 ^ 31"
proof -
  have fold: "(1::int) \<le> v \<Longrightarrow> 1 \<le> fold max vs v" for v vs
    by (induction vs arbitrary: v) (auto simp: max_def)
  show "n < 2 ^ 31" using assms(1) by (auto simp: nextVersion_def Let_def split: if_splits)
  have "1 \<le> v" if "maxVersion a rows = Some v" for v
  proof -
    from that obtain u us where us: "map vr_Version (filter (\<lambda>r. vr_AgentID r = a) rows) = u # us" "v = fold max us u"
      by (auto simp: maxVersion_def split: list.splits)
    have "u \<in> vr_Version ` set rows" using arg_cong [OF us(1), of set] by auto
    with assms(2) us(2) fold show ?thesis by auto
  qed
  then show "1 \<le> n" using assms(1) by (fastforce simp: nextVersion_def Let_def split: if_splits option.splits)
qed

lemma wfState_new: "storedSpec c doc hash \<Longrightarrow> wfState c (newVersion j a og n doc hash now)"
  by (simp add: wfState_def newVersion_def)

lemma wfAgentRow_mono: "wfAgentRow rows a \<Longrightarrow> wfAgentRow (rows @ rows') a"
  unfolding wfAgentRow_def by (auto 4 3)

lemmas newVersion_sel = newVersion_def [of j a og n doc hash now, THEN arg_cong [where f = vr_ID], simplified version_row.simps]
  newVersion_def [of j a og n doc hash now, THEN arg_cong [where f = vr_AgentID], simplified version_row.simps]
  newVersion_def [of j a og n doc hash now, THEN arg_cong [where f = vr_OrgID], simplified version_row.simps]
  newVersion_def [of j a og n doc hash now, THEN arg_cong [where f = vr_Version], simplified version_row.simps] for j a og n doc hash now

lemma registryOK_add:
  assumes ok: "registryOK c s" and spec: "storedSpec c doc hash" and n: "1 \<le> n" "n < 2 ^ 31"
    and ag: "(a, og) \<in> (\<lambda>x. (ar_ID x, ar_OrgID x)) ` set (rg_agents s)"
    and j: "j \<notin> vr_ID ` set (rg_versions s)" "(a, n) \<notin> versionKeys s"
  shows "registryOK c (s\<lparr>rg_versions := rg_versions s @ [newVersion j a og n doc hash now]\<rparr>)"
  using assms wfState_new [OF spec, of j a og n now]
  by (auto simp: registryOK_def wfVersionRow_iff newVersion_sel wfAgentRow_mono)

lemma wfAgentRow_new: "wfAgentRow rows (newAgentRow i og owner name)"
  by (simp add: wfAgentRow_def newAgentRow_def)

lemma registryOK_agent:
  assumes "registryOK c s" "i \<notin> ar_ID ` set (rg_agents s)" "(og, name) \<notin> (\<lambda>a. (ar_OrgID a, ar_Name a)) ` set (rg_agents s)"
  shows "registryOK c (s\<lparr>rg_agents := rg_agents s @ [newAgentRow i og owner name]\<rparr>)"
  using assms wfAgentRow_new [of "rg_versions s" i og owner name]
  by (auto simp: registryOK_def wfVersionRow_iff newAgentRow_def)

lemma publish_keeps_OK:
  assumes "registryOK c s" and "r \<in> set (rg_versions s)" and "keyed og a v r"
  shows "registryOK c \<lparr>rg_agents = map (onAgent a (vr_ID r)) (rg_agents s),
    rg_versions = map (onRow (vr_ID r) (\<lambda>x. x\<lparr>vr_Status := ''published'', vr_PublishedAt := Some now\<rparr>)) (rg_versions s)\<rparr>"
proof -
  let ?k = "onRow (vr_ID r) (\<lambda>x. x\<lparr>vr_Status := ''published'', vr_PublishedAt := Some now\<rparr>)"
  have k: "sameKey ?k" by (intro sameKey_onRow) (simp add: sameKey_def)
  have nd: "vr_Status x \<noteq> ''draft'' \<Longrightarrow> vr_Status (?k x) \<noteq> ''draft''" for x by (simp add: onRow_def)
  show ?thesis
  proof (intro registryOK_map [OF assms(1) k])
    fix x assume x: "x \<in> set (rg_agents s)" "wfAgentRow (rg_versions s) x"
    have "wfAgentRow (map ?k (rg_versions s)) x" by (rule wfAgentRow_map [OF k nd x(2)])
    moreover have "\<exists>r' \<in> set (map ?k (rg_versions s)). vr_ID r' = vr_ID r \<and> vr_AgentID r' = a \<and> vr_OrgID r' = ar_OrgID x \<and> vr_Status r' \<noteq> ''draft''"
      if "ar_ID x = a"
    proof -
      have "vr_OrgID r = ar_OrgID x"
        using assms x(1) that distinct_map_eq [where f = ar_ID and xs = "rg_agents s"]
        unfolding registryOK_def wfVersionRow_def keyed_def by metis
      then have "vr_ID (?k r) = vr_ID r \<and> vr_AgentID (?k r) = a \<and> vr_OrgID (?k r) = ar_OrgID x \<and> vr_Status (?k r) \<noteq> ''draft''"
        using assms(3) by (simp add: onRow_def keyed_def)
      then show ?thesis using assms(2) by (intro bexI [of _ "?k r"]) auto
    qed
    ultimately show "wfAgentRow (map ?k (rg_versions s)) (onAgent a (vr_ID r) x)"
      by (cases "ar_ID x = a") (auto simp: onAgent_def wfAgentRow_def)
  qed (auto simp: onRow_def wfState_def)
qed

lemma effect_keeps_OK: "registryEffect c s call t \<Longrightarrow> registryOK c s \<Longrightarrow> registryOK c t"
proof (induction rule: registryEffect.induct)
  case (eff_create doc hash i s og name j owner y now)
  show ?case
    using registryOK_add [OF registryOK_agent [OF eff_create.prems eff_create(2,3), of owner] eff_create(1), of 1 i og j now] eff_create(4,5)
    by (cases s) (auto simp: newAgentRow_def)
next
  case (eff_add doc hash ag s a og n j y now)
  have "\<And>r. r \<in> set (rg_versions s) \<Longrightarrow> 1 \<le> vr_Version r" using eff_add.prems by (simp add: registryOK_def wfVersionRow_iff)
  then show ?case using eff_add.prems eff_add(1-4,6,7) maxVersion_bounds [OF eff_add(5)] by (intro registryOK_add) auto
next
  case (eff_update doc hash r s og a v y)
  let ?k = "onRow (vr_ID r) (\<lambda>x. x\<lparr>vr_Spec := doc, vr_SpecHash := hash\<rparr>)"
  have k: "sameKey ?k" by (intro sameKey_onRow) (simp add: sameKey_def)
  have "registryOK c \<lparr>rg_agents = map (\<lambda>x. x) (rg_agents s), rg_versions = map ?k (rg_versions s)\<rparr>"
    using eff_update(1)
    by (intro registryOK_map [OF eff_update.prems k] wfAgentRow_map [OF k]) (auto simp: onRow_def wfState_def)
  then show ?case by (cases s) simp
next
  case (eff_publish r s og a v now)
  show ?case by (rule publish_keeps_OK [OF eff_publish.prems eff_publish(1,2)])
next
  case (eff_deprecate r s og a v)
  let ?k = "onRow (vr_ID r) (\<lambda>x. x\<lparr>vr_Status := ''deprecated''\<rparr>)"
  have k: "sameKey ?k" by (intro sameKey_onRow) (simp add: sameKey_def)
  have pub: "vr_PublishedAt x \<noteq> None" if "x \<in> set (rg_versions s)" "vr_ID x = vr_ID r" "wfState c x" for x
    using that registryOK_same_key(1) [OF eff_deprecate.prems that(1) eff_deprecate(1)] eff_deprecate(3) by (simp add: wfState_def)
  have "registryOK c \<lparr>rg_agents = map (\<lambda>x. x) (rg_agents s), rg_versions = map ?k (rg_versions s)\<rparr>"
    using pub by (intro registryOK_map [OF eff_deprecate.prems k] wfAgentRow_map [OF k]) (auto simp: onRow_def wfState_def)
  then show ?case by (cases s) simp
qed simp

definition emptyRegistry :: registry where "emptyRegistry = \<lparr>rg_agents = [], rg_versions = []\<rparr>"

interpretation rgs: transition_system "\<lambda>s. s = emptyRegistry" "registryStep c" "registryOK c" for c
proof (unfold_locales, goal_cases)
  case (1 s)
  then show ?case by (simp add: emptyRegistry_def registryOK_def)
next
  case (2 s e t)
  then show ?case using effect_keeps_OK step_effect by blast
qed

section \<open>Properties\<close>

abbreviation reachable :: "codecs \<Rightarrow> registry \<Rightarrow> bool" where
  "reachable c \<equiv> reach (\<lambda>s. s = emptyRegistry) (registryStep c)"

text \<open>
  C9. Every reachable registry is well formed: identifiers, agent names within an organisation and version numbers within
  an agent are unique; a version belongs to an agent of its own organisation, has a known status, a number in range,
  a publication time exactly when it has left the draft state, and a specification that is the stored form of a valid
  document under its own hash; and the current version of an agent is a version of that agent that has been published.
\<close>

theorem registry_well_typed:
  assumes "reachable c s"
  shows "registryOK c s"
  by (rule rgs.reach_inv [OF assms])

text \<open>What may happen to a version: drafts change, the rest only ages.\<close>

datatype stage = DraftStage | PublishedStage | DeprecatedStage

primrec stageRank :: "stage \<Rightarrow> nat" where
  "stageRank DraftStage = 0"
| "stageRank PublishedStage = 1"
| "stageRank DeprecatedStage = 2"

lemma stageRank_inject: "stageRank x = stageRank y \<longleftrightarrow> x = y"
  by (cases x; cases y) simp_all

instantiation stage :: linorder
begin

definition less_eq_stage :: "stage \<Rightarrow> stage \<Rightarrow> bool" where
  "less_eq_stage x y \<longleftrightarrow> stageRank x \<le> stageRank y"

definition less_stage :: "stage \<Rightarrow> stage \<Rightarrow> bool" where
  "less_stage x y \<longleftrightarrow> stageRank x < stageRank y"

instance
  by standard (auto simp: less_eq_stage_def less_stage_def stageRank_inject)

end

definition stageOf :: "string \<Rightarrow> stage" where
  "stageOf st = (if st = ''draft'' then DraftStage else if st = ''published'' then PublishedStage else DeprecatedStage)"

lemma stage_order [simp]: "DraftStage \<le> x" "x \<le> DeprecatedStage" "x \<le> DraftStage \<longleftrightarrow> x = DraftStage"
  by (cases x; simp add: less_eq_stage_def)+

lemma stageOf_draft: "stageOf st = DraftStage \<longleftrightarrow> st = ''draft''"
  by (simp add: stageOf_def)

definition follows :: "version_row \<Rightarrow> version_row \<Rightarrow> bool" where
  "follows r r' \<longleftrightarrow>
     vr_ID r' = vr_ID r \<and> vr_AgentID r' = vr_AgentID r \<and> vr_OrgID r' = vr_OrgID r \<and> vr_Version r' = vr_Version r \<and> vr_CreatedAt r' = vr_CreatedAt r \<and>
     stageOf (vr_Status r) \<le> stageOf (vr_Status r') \<and>
     (vr_Status r \<noteq> ''draft'' \<longrightarrow> vr_Spec r' = vr_Spec r \<and> vr_SpecHash r' = vr_SpecHash r \<and> vr_PublishedAt r' = vr_PublishedAt r)"

lemma follows_refl [simp]: "follows r r"
  by (simp add: follows_def)

lemma follows_trans:
  assumes "follows r s" "follows s t"
  shows "follows r t"
proof -
  have "stageOf (vr_Status r) \<le> stageOf (vr_Status t)"
    using assms unfolding follows_def by (blast intro: order_trans)
  moreover have "vr_Status s \<noteq> ''draft''" if "vr_Status r \<noteq> ''draft''"
  proof
    assume "vr_Status s = ''draft''"
    then have "stageOf (vr_Status r) \<le> DraftStage" using assms(1) by (simp add: follows_def stageOf_def)
    with that show False by (simp add: stageOf_draft)
  qed
  ultimately show ?thesis using assms by (simp add: follows_def)
qed

lemma follows_onRow:
  assumes "registryOK c s" "r \<in> set (rg_versions s)" "x \<in> set (rg_versions s)" "follows x (g x)"
  shows "\<exists>r' \<in> set (map (onRow (vr_ID x) g) (rg_versions s)). follows r r'"
proof (intro bexI [of _ "onRow (vr_ID x) g r"])
  show "follows r (onRow (vr_ID x) g r)" using registryOK_same_key(1) [OF assms(1,2,3)] assms(4) by (simp add: onRow_def)
qed (use assms(2) in simp)

lemma effect_follows:
  assumes "registryEffect c s call t" "registryOK c s" "r \<in> set (rg_versions s)"
  shows "\<exists>r' \<in> set (rg_versions t). follows r r'"
  using assms
proof (induction rule: registryEffect.induct)
  case (eff_create doc hash i s og name j owner y now)
  then show ?case by (intro bexI [of _ r]) auto
next
  case (eff_add doc hash ag s a og n j y now)
  then show ?case by (intro bexI [of _ r]) auto
next
  case (eff_update doc hash x s og a v y)
  then show ?case using follows_onRow [OF eff_update(5,6,2), of "\<lambda>x. x\<lparr>vr_Spec := doc, vr_SpecHash := hash\<rparr>"] by (simp add: follows_def)
next
  case (eff_publish x s og a v now)
  then show ?case
    using follows_onRow [OF eff_publish(4,5,1), of "\<lambda>x. x\<lparr>vr_Status := ''published'', vr_PublishedAt := Some now\<rparr>"]
    by (simp add: follows_def stageOf_def)
next
  case (eff_deprecate x s og a v)
  then show ?case using follows_onRow [OF eff_deprecate(4,5,1), of "\<lambda>x. x\<lparr>vr_Status := ''deprecated''\<rparr>"] by (simp add: follows_def stageOf_def)
qed (auto intro: bexI [of _ r])

text \<open>
  C8. Over any sequence of calls no version disappears or changes its identity, its status only moves from draft to
  published to deprecated, and from publication on its specification, its hash and its publication time are fixed.
\<close>

theorem published_versions_are_immutable:
  assumes "reachable c s" and "reach (\<lambda>x. x = s) (registryStep c) t" and "r \<in> set (rg_versions s)"
  shows "registryOK c t \<and> (\<exists>r' \<in> set (rg_versions t). follows r r')"
  using assms(2)
proof (induction rule: reach.induct)
  case (reach_init t)
  then show ?case using assms(3) rgs.reach_inv [OF assms(1)] by (auto intro: bexI [of _ r])
next
  case (reach_step t call u)
  then obtain r' where r': "registryOK c t" "r' \<in> set (rg_versions t)" "follows r r'" by blast
  from effect_follows [OF step_effect [OF r'(1) reach_step(2)] r'(1,2)] follows_trans [OF r'(3)]
    effect_keeps_OK [OF step_effect [OF r'(1) reach_step(2)] r'(1)] show ?case by blast
qed

lemma find_by: "distinct (map f xs) \<Longrightarrow> x \<in> set xs \<Longrightarrow> find (\<lambda>y. f y = f x) xs = Some x"
  by (induction xs) (auto simp: image_iff)

lemma GetAgent_current:
  assumes ok: "registryOK c t" and ag: "ag \<in> set (rg_agents t)" "ar_CurrentVersionID ag = Some (vr_ID r)" and r: "r \<in> set (rg_versions t)"
  shows "\<exists>out. GetAgent None (ar_OrgID ag) (ar_ID ag) t = Inr out \<and> an_CurrentVersion out = Some (vr_Version r)"
proof -
  have "(\<lambda>x. ar_ID x = ar_ID ag \<and> ar_OrgID x = ar_OrgID ag) b \<longleftrightarrow> ar_ID b = ar_ID ag" if "b \<in> set (rg_agents t)" for b
    using ok ag(1) that distinct_map_eq [where f = ar_ID] unfolding registryOK_def by metis
  then have "find (\<lambda>x. ar_ID x = ar_ID ag \<and> ar_OrgID x = ar_OrgID ag) (rg_agents t) = find (\<lambda>x. ar_ID x = ar_ID ag) (rg_agents t)"
    by (intro find_cong) auto
  with ok ag r show ?thesis by (simp add: GetAgent_def registryOK_def find_by)
qed

lemma PublishVersion_draft:
  assumes ok: "registryOK c s" and r: "r \<in> set (rg_versions s)" "keyed og a v r" "vr_Status r = ''draft''" and f: "\<And>n. fault n = None"
    and t: "t = \<lparr>rg_agents = map (onAgent a (vr_ID r)) (rg_agents s),
       rg_versions = map (onRow (vr_ID r) (\<lambda>x. x\<lparr>vr_Status := ''published'', vr_PublishedAt := Some now\<rparr>)) (rg_versions s)\<rparr>"
  shows "PublishVersion now fault og a v s = (GetVersion None og a v t, t)"
proof -
  let ?g = "\<lambda>x. x\<lparr>vr_Status := ''published'', vr_PublishedAt := Some now\<rparr>" and ?s = "s\<lparr>rg_versions := rg_versions t\<rparr>"
  have "onRow (vr_ID r) ?g r \<in> set (rg_versions ?s)" using r(1) by (simp add: t)
  then have "(vr_ID r, a) \<in> (\<lambda>r. (vr_ID r, vr_AgentID r)) ` set (rg_versions ?s)"
    using r(2) by (intro image_eqI [of _ _ "onRow (vr_ID r) ?g r"]) (simp_all add: onRow_def keyed_def)
  then have "setCurrent None (vr_ID r) a ?s = Inr t"
    by (cases s) (simp add: setCurrent_def onAgent_def [abs_def] t)
  moreover have "updateVersions now (\<lambda>x. vr_ID x = vr_ID r) (\<lambda>x. x\<lparr>vr_Status := ''published''\<rparr>) (rg_versions s) =
      Inr (length (filter (\<lambda>x. vr_ID x = vr_ID r) (rg_versions s)), rg_versions t)"
    using publish_update [OF ok r(1,3), of now] by (simp add: t)
  ultimately show ?thesis
    unfolding PublishVersion_def f find_keyed [OF ok r(1,2)] GetVersionByNumber_def using r(3) by simp
qed

text \<open>
  C35. A draft can be published: the call returns it with its publication time and unchanged hash, and the agent reports
  its number as the current version.
\<close>

theorem publish_makes_current:
  assumes "reachable c s" and r: "r \<in> set (rg_versions s)" "keyed og a v r" "vr_Status r = ''draft''" and f: "\<And>n. fault n = None"
  shows "fst (PublishVersion now fault og a v s) = Inr (toVersion (r\<lparr>vr_Status := ''published'', vr_PublishedAt := Some now\<rparr>)) \<and>
    (\<exists>ag. GetAgent None og a (snd (PublishVersion now fault og a v s)) = Inr ag \<and> an_CurrentVersion ag = Some v)"
proof -
  let ?g = "\<lambda>x. x\<lparr>vr_Status := ''published'', vr_PublishedAt := Some now\<rparr>"
  define t where "t = \<lparr>rg_agents = map (onAgent a (vr_ID r)) (rg_agents s), rg_versions = map (onRow (vr_ID r) ?g) (rg_versions s)\<rparr>"
  have ok: "registryOK c s" by (rule rgs.reach_inv [OF assms(1)])
  have okt: "registryOK c t" unfolding t_def by (rule effect_keeps_OK [OF eff_publish [OF r] ok])
  have g: "onRow (vr_ID r) ?g r = ?g r" by (simp add: onRow_def)
  have r': "?g r \<in> set (rg_versions t)" "keyed og a v (?g r)"
    using imageI [OF r(1), of "onRow (vr_ID r) ?g"] r(2) by (simp_all add: g t_def keyed_def)
  have got: "GetVersion None og a v t = Inr (toVersion (?g r))"
    unfolding GetVersion_def find_keyed [OF okt r'] by (simp add: scanVersion_def)
  obtain ag where ag: "ag \<in> set (rg_agents s)" "ar_ID ag = a" "ar_OrgID ag = og"
    using ok r(1,2) unfolding registryOK_def wfVersionRow_def keyed_def by blast
  then have "onAgent a (vr_ID r) ag \<in> set (rg_agents t)" by (simp add: t_def)
  from GetAgent_current [OF okt this _ r'(1)] ag(2,3) r(2)
  have "\<exists>out. GetAgent None og a t = Inr out \<and> an_CurrentVersion out = Some v" by (simp add: onAgent_def keyed_def)
  then show ?thesis unfolding PublishVersion_draft [OF ok r f t_def] using got by simp
qed

text \<open>A call of one organisation leaves the rows of every other as they are.\<close>

abbreviation agentsOf :: "string \<Rightarrow> registry \<Rightarrow> agent_row list" where
  "agentsOf og s \<equiv> filter (\<lambda>a. ar_OrgID a = og) (rg_agents s)"

abbreviation versionsOf :: "string \<Rightarrow> registry \<Rightarrow> version_row list" where
  "versionsOf og s \<equiv> filter (\<lambda>r. vr_OrgID r = og) (rg_versions s)"

lemma filter_map_other:
  assumes "\<And>x. x \<in> set xs \<Longrightarrow> P (k x) \<longleftrightarrow> P x" "\<And>x. x \<in> set xs \<Longrightarrow> P x \<Longrightarrow> k x = x"
  shows "filter P (map k xs) = filter P xs"
  using assms by (induction xs) auto

lemma versionsOf_onRow:
  assumes "registryOK c s" "r \<in> set (rg_versions s)" "vr_OrgID r \<noteq> og" "\<And>x. vr_OrgID (g x) = vr_OrgID x"
  shows "filter (\<lambda>r. vr_OrgID r = og) (map (onRow (vr_ID r) g) (rg_versions s)) = versionsOf og s"
  using assms(3,4) registryOK_same_key(1) [OF assms(1) _ assms(2)] by (intro filter_map_other) (auto simp: onRow_def)

lemma agentsOf_onAgent:
  assumes "registryOK c s" "r \<in> set (rg_versions s)" "vr_OrgID r \<noteq> og"
  shows "filter (\<lambda>a. ar_OrgID a = og) (map (onAgent (vr_AgentID r) i) (rg_agents s)) = agentsOf og s"
proof (intro filter_map_other)
  fix x assume x: "x \<in> set (rg_agents s)" "ar_OrgID x = og"
  have "ar_ID x \<noteq> vr_AgentID r"
    using assms x distinct_map_eq [where f = ar_ID and xs = "rg_agents s"] unfolding registryOK_def wfVersionRow_def by metis
  then show "onAgent (vr_AgentID r) i x = x" by (simp add: onAgent_def)
qed (simp add: onAgent_def)

lemma calls_in_org:
  assumes ok: "registryOK c s" and "registryStep c s call t" and "callOrg call \<noteq> og"
  shows "agentsOf og t = agentsOf og s \<and> versionsOf og t = versionsOf og s"
proof -
  from step_effect [OF ok assms(2)] ok assms(3) show ?thesis
  proof (induction rule: registryEffect.induct)
    case (eff_create doc hash i s og' name j owner y now)
    then show ?case by (simp add: newAgentRow_def newVersion_def)
  next
    case (eff_add doc hash ag s a og' n j y now)
    then show ?case by (simp add: newVersion_def)
  next
    case (eff_update doc hash r s og' a v y)
    then show ?case using versionsOf_onRow [OF eff_update(5,2)] by (simp add: keyed_def)
  next
    case (eff_publish r s og' a v now)
    then show ?case
      using versionsOf_onRow [OF eff_publish(4,1)] agentsOf_onAgent [OF eff_publish(4,1)] by (simp add: keyed_def)
  next
    case (eff_deprecate r s og' a v)
    then show ?case using versionsOf_onRow [OF eff_deprecate(4,1)] by (simp add: keyed_def)
  qed simp
qed

text \<open>
  Organisations are isolated: whatever a call does, the agents and versions of another organisation are untouched.
\<close>

theorem calls_stay_in_their_org:
  assumes "reachable c s" and "registryStep c s call t" and "callOrg call \<noteq> og"
  shows "agentsOf og t = agentsOf og s \<and> versionsOf og t = versionsOf og s"
  by (rule calls_in_org [OF rgs.reach_inv [OF assms(1)] assms(2,3)])

text \<open>An agent of another organisation, or none at all: nothing matches the keys of a call.\<close>

lemma no_keyed:
  assumes ok: "registryOK c s" and no: "\<forall>ag \<in> set (rg_agents s). ar_ID ag = a \<longrightarrow> ar_OrgID ag \<noteq> og"
  shows "r \<in> set (rg_versions s) \<Longrightarrow> \<not> (vr_AgentID r = a \<and> vr_OrgID r = og)"
    and "find (keyed og a v) (rg_versions s) = None"
    and "find (\<lambda>x. ar_ID x = a \<and> ar_OrgID x = og) (rg_agents s) = None"
proof -
  show *: "\<not> (vr_AgentID r = a \<and> vr_OrgID r = og)" if "r \<in> set (rg_versions s)" for r
    using ok no that unfolding registryOK_def wfVersionRow_def by metis
  then show "find (keyed og a v) (rg_versions s) = None" by (auto simp: find_None_iff keyed_def)
  show "find (\<lambda>x. ar_ID x = a \<and> ar_OrgID x = og) (rg_agents s) = None" using no by (auto simp: find_None_iff)
qed

lemma update_nothing:
  assumes "\<And>r. r \<in> set rows \<Longrightarrow> \<not> hit r"
  shows "updateVersions now hit f rows = Inr (0, rows)"
  using assms by (induction rows) auto


text \<open>A listing has every version of the agent, each once, newest first.\<close>

lemma listVersions_desc:
  assumes "reachable c s" and "ListVersions io og a s = Inr vs"
  shows "sorted_wrt (\<lambda>x y. vn_Version x > vn_Version y) vs \<and>
    set vs = toVersion ` {r \<in> set (rg_versions s). vr_AgentID r = a \<and> vr_OrgID r = og}"
proof -
  let ?xs = "filter (\<lambda>r. vr_AgentID r = a \<and> vr_OrgID r = og) (rg_versions s)"
  have ok: "registryOK c s" by (rule rgs.reach_inv [OF assms(1)])
  have vs: "vs = map toVersion (rev (sort_key vr_Version ?xs))"
    using assms(2) by (auto simp: ListVersions_def split: sum.splits)
  have "distinct (map (\<lambda>r. (vr_AgentID r, vr_Version r)) ?xs)" using ok by (simp add: registryOK_def distinct_map_filter)
  then have "distinct (map vr_Version ?xs)" unfolding distinct_map by (auto simp: inj_on_def)
  then have "distinct (map vr_Version (sort_key vr_Version ?xs))" by (simp add: distinct_map)
  then have "sorted_wrt (<) (map vr_Version (sort_key vr_Version ?xs))" by (simp add: strict_sorted_iff)
  then have "sorted_wrt (\<lambda>x y. vr_Version x > vr_Version y) (rev (sort_key vr_Version ?xs))"
    by (simp add: sorted_wrt_map sorted_wrt_rev)
  then show ?thesis unfolding vs by (simp add: sorted_wrt_map toVersion_def)
qed

text \<open>
  The trigger guards published rows only: once deprecated, a row can be given any specification, and even be made a
  draft again, without an exception.
\<close>

theorem trigger_leaves_deprecated_open:
  "vr_Status old = ''deprecated'' \<Longrightarrow> agent_versions_lifecycle_fn now old new = Inr new"
  by (simp add: agent_versions_lifecycle_fn_def)

text \<open>A deprecated version stays the agent's current version.\<close>

theorem deprecated_version_stays_current:
  assumes "DeprecateVersion now fault og a v s = (out, t)"
  shows "map ar_CurrentVersionID (rg_agents t) = map ar_CurrentVersionID (rg_agents s)"
  using assms by (auto simp: DeprecateVersion_def Let_def split: sum.splits option.splits if_splits)

section \<open>A concrete registry\<close>

lemma registryStepI: "registryStep c s call (perform c now i j fault call s)"
  unfolding registryStep_def by blast

text \<open>One document, read from any text and stored as the empty object; an agent with one version of it.\<close>

definition exDocument :: document where
  "exDocument =
     \<lparr>dc_APIVersion = ''agents/v1'', dc_Kind = ''Agent'', dc_Name = ''n'', dc_Owner = ''u'',
      dc_Spec = \<lparr>sp_Model = \<lparr>md_Provider = ''p'', md_Name = ''m'', md_Params = []\<rparr>, sp_Prompt = \<lparr>pt_Type = ''inline'', pt_Value = ''x''\<rparr>,
        sp_Tools = [], sp_MCPServers = [], sp_Environment = None, sp_Memory = None, sp_Triggers = [\<lparr>tg_Type = ''chat'', tg_Cron = []\<rparr>],
        sp_Limits = \<lparr>lm_MaxStepsPerRun = 1, lm_MaxTokensPerRun = 1, lm_MonthlyBudgetUSD = PosInf\<rparr>\<rparr>\<rparr>"

definition exCodecs :: codecs where
  "exCodecs = \<lparr>cd_decode = (\<lambda>_. Inr exDocument), cd_encode = (\<lambda>_. Inr ''{}''), cd_Sum256 = (\<lambda>_. ''h''), cd_jsonb = Inr\<rparr>"

definition exRow :: version_row where
  "exRow = newVersion ''v'' ''a'' ''o'' 1 ''{}'' (hexEncode ''h'') 5"

definition exDraft :: registry where
  "exDraft = \<lparr>rg_agents = [newAgentRow ''a'' ''o'' ''u'' ''n''], rg_versions = [exRow]\<rparr>"

definition exPublished :: registry where
  "exPublished = snd (PublishVersion 7 (\<lambda>_. None) ''o'' ''a'' 1 exDraft)"

definition exDeprecated :: registry where
  "exDeprecated = snd (DeprecateVersion 9 (\<lambda>_. None) ''o'' ''a'' 1 exPublished)"

lemma ex_canon: "canonSpec exCodecs y = Inr (''{}'', hexEncode ''h'')"
proof -
  have "validateDocument exDocument = None"
    unfolding validateDocument_None
    by (simp add: wfDocument_def exDocument_def blank_def wfTools_def wfServers_def wfTriggers_def wfLimits_def TrimSpace_plain plainByte_def)
  moreover have "TrimSpace ''{}'' = ''{}''" by (simp add: TrimSpace_plain plainByte_def)
  ultimately show ?thesis by (simp add: canonSpec_def exCodecs_def Parse_def CanonicalJSON_def hashSpec_def)
qed

lemma ex_create: "snd (CreateAgent exCodecs 5 ''a'' ''v'' (\<lambda>_. None) ''o'' ''u'' ''n'' ''y'' emptyRegistry) = exDraft"
proof -
  have j: "cd_jsonb exCodecs ''{}'' = Inr ''{}''" by (simp add: exCodecs_def)
  show ?thesis
    by (simp add: CreateAgent_def ex_canon insertVersion_def j emptyRegistry_def exDraft_def exRow_def newVersion_def newAgentRow_def)
qed

lemma ex_draft_reachable: "reachable exCodecs exDraft"
proof (rule reach_step [OF reach_init])
  have "perform exCodecs 5 ''a'' ''v'' (\<lambda>_. None) (CallCreate ''o'' ''u'' ''n'' ''y'') emptyRegistry = exDraft"
    by (simp add: ex_create)
  then show "registryStep exCodecs emptyRegistry (CallCreate ''o'' ''u'' ''n'' ''y'') exDraft" using registryStepI by metis
qed simp

lemma ex_published_step: "registryStep exCodecs exDraft (CallPublish ''o'' ''a'' 1) exPublished"
  using registryStepI [of exCodecs exDraft "CallPublish ''o'' ''a'' 1" 7 _ _ "\<lambda>_. None"] by (simp add: exPublished_def)

lemma ex_deprecated_step: "registryStep exCodecs exPublished (CallDeprecate ''o'' ''a'' 1) exDeprecated"
  using registryStepI [of exCodecs exPublished "CallDeprecate ''o'' ''a'' 1" 9 _ _ "\<lambda>_. None"] by (simp add: exDeprecated_def)

lemma ex_published_rows: "rg_versions exPublished = [exRow\<lparr>vr_Status := ''published'', vr_PublishedAt := Some 7\<rparr>]"
proof -
  have "registryOK exCodecs exDraft" by (rule rgs.reach_inv [OF ex_draft_reachable])
  from PublishVersion_draft [OF this, of exRow "''o''" "''a''" 1 "\<lambda>_. None", OF _ _ _ _ refl]
  show ?thesis unfolding exPublished_def by (simp add: exDraft_def exRow_def keyed_def newVersion_def onRow_def)
qed

lemma ex_published_reachable: "reachable exCodecs exPublished"
  by (rule reach_step [where step = "registryStep exCodecs", OF ex_draft_reachable ex_published_step])

theorem registry_well_typed_witness: "registryOK exCodecs exPublished \<and> length (rg_versions exPublished) = 1"
  using registry_well_typed [OF ex_published_reachable] ex_published_rows by simp

theorem published_versions_are_immutable_witness:
  "registryOK exCodecs exDeprecated \<and>
   (\<exists>r'. r' \<in> set (rg_versions exDeprecated) \<and> follows (exRow\<lparr>vr_Status := ''published'', vr_PublishedAt := Some 7\<rparr>) r')"
proof -
  have "reach (\<lambda>x. x = exPublished) (registryStep exCodecs) exPublished" by (rule reach_init) simp
  from reach_step [where step = "registryStep exCodecs", OF this ex_deprecated_step]
  have "reach (\<lambda>x. x = exPublished) (registryStep exCodecs) exDeprecated" .
  from published_versions_are_immutable [OF ex_published_reachable this, of "exRow\<lparr>vr_Status := ''published'', vr_PublishedAt := Some 7\<rparr>"]
  show ?thesis by (auto simp: ex_published_rows)
qed

theorem publish_makes_current_witness:
  "fst (PublishVersion 7 (\<lambda>_. None) ''o'' ''a'' 1 exDraft) = Inr (toVersion (exRow\<lparr>vr_Status := ''published'', vr_PublishedAt := Some 7\<rparr>)) \<and>
   (\<exists>ag. GetAgent None ''o'' ''a'' (snd (PublishVersion 7 (\<lambda>_. None) ''o'' ''a'' 1 exDraft)) = Inr ag \<and> an_CurrentVersion ag = Some 1)"
  by (rule publish_makes_current [OF ex_draft_reachable]) (simp_all add: exDraft_def exRow_def newVersion_def keyed_def)

theorem calls_stay_in_their_org_witness:
  "agentsOf ''p'' exPublished = agentsOf ''p'' exDraft \<and> versionsOf ''p'' exPublished = versionsOf ''p'' exDraft"
  by (rule calls_stay_in_their_org [OF ex_draft_reachable ex_published_step]) simp


end
