(* ===== verification/RegistryHTTP.thy ===== *)
theory RegistryHTTP
  imports Registry Authn Decimal
begin

text \<open>
  \<^verbatim>\<open>internal/registry/http.go\<close>: the REST surface of the registry, and its composition with the authentication
  middleware in \<^verbatim>\<open>cmd/registry\<close>.  Request paths are taken as the mux hands them on: it answers one that is
  not clean with a redirect.
\<close>

section \<open>Requests and responses\<close>

record api_request =
  aq_Method :: string
  aq_Path :: string
  aq_Body :: string
  aq_BodyErr :: "goerr option"

datatype api_body =
    BodyError string
  | BodyPlain string
  | BodyCreated agent agent_version
  | BodyWrapped "agent_version option"
  | BodyVersion agent_version
  | BodyAgent agent
  | BodyVersions "agent_version list"

record api_response =
  ap_Status :: int
  ap_Allow :: "string list"
  ap_Body :: api_body

text \<open>
  What one request meets outside the handler: the JSON decoders of the two request bodies, the database's clock,
  identifiers and failures.
\<close>

record api_env =
  ae_codecs :: codecs
  ae_createBody :: "string \<Rightarrow> (string \<times> string) result"
  ae_specBody :: "string \<Rightarrow> string result"
  ae_now :: time
  ae_agentID :: string
  ae_versionID :: string
  ae_fault :: faults
  ae_rows :: rows_io

definition writeJSON :: "int \<Rightarrow> api_body \<Rightarrow> api_response" where
  "writeJSON code v = \<lparr>ap_Status = code, ap_Allow = [], ap_Body = v\<rparr>"

definition writeErr :: "int \<Rightarrow> string \<Rightarrow> api_response" where
  "writeErr code msg = writeJSON code (BodyError msg)"

definition methodNotAllowed :: "string list \<Rightarrow> api_response" where
  "methodNotAllowed allowed = (writeErr 405 ''method not allowed'')\<lparr>ap_Allow := allowed\<rparr>"

definition httpNotFound :: api_response where
  "httpNotFound = \<lparr>ap_Status = 404, ap_Allow = [], ap_Body = BodyPlain ''404 page not found''\<rparr>"

definition writeStoreErr :: "goerr \<Rightarrow> api_response" where
  "writeStoreErr err =
     (if errorsIs err ErrNotFound then writeErr 404 (errText err)
      else if errorsIs err ErrImmutable then writeErr 409 (errText err)
      else if errorsIs err ErrInvalidState then writeErr 422 (errText err)
      else if errorsIs err ErrDuplicateName then writeErr 409 (errText err)
      else writeErr 500 ''internal error'')"

text \<open>\<^verbatim>\<open>decodeBody\<close> reads at most 4 MiB; \<open>aq_BodyErr\<close> is a failure within them.\<close>

definition decodeBody :: "(string \<Rightarrow> 'a result) \<Rightarrow> api_request \<Rightarrow> (api_response, 'a) sum" where
  "decodeBody unmarshal rq =
     (case aq_BodyErr rq of
        Some _ \<Rightarrow> Inl (writeErr 400 ''read body'')
      | None \<Rightarrow>
     (case unmarshal (take (4 * 2 ^ 20) (aq_Body rq)) of
        Inl _ \<Rightarrow> Inl (writeErr 400 ''invalid JSON body'')
      | Inr x \<Rightarrow> Inr x))"

definition splitPath :: "string \<Rightarrow> string list" where
  "splitPath p = filter (\<lambda>s. s \<noteq> []) (Split (CHR ''/'') p)"

section \<open>Handlers\<close>

definition answer :: "int \<Rightarrow> ('a \<Rightarrow> api_body) \<Rightarrow> 'a result \<Rightarrow> api_response" where
  "answer code body out = (case out of Inl err \<Rightarrow> writeStoreErr err | Inr x \<Rightarrow> writeJSON code (body x))"

definition createHandler :: "api_env \<Rightarrow> api_request \<Rightarrow> identity \<Rightarrow> registry \<Rightarrow> api_response \<times> registry" where
  "createHandler e rq ident s =
     (case decodeBody (ae_createBody e) rq of
        Inl resp \<Rightarrow> (resp, s)
      | Inr (name, specYAML) \<Rightarrow>
     (case CreateAgent (ae_codecs e) (ae_now e) (ae_agentID e) (ae_versionID e) (ae_fault e) (id_OrgID ident) (id_UserID ident) name specYAML s of
        (out, s') \<Rightarrow> (answer 201 (\<lambda>(a, v). BodyCreated a v) out, s')))"

definition addVersionHandler :: "api_env \<Rightarrow> api_request \<Rightarrow> identity \<Rightarrow> string \<Rightarrow> registry \<Rightarrow> api_response \<times> registry" where
  "addVersionHandler e rq ident agentID s =
     (case decodeBody (ae_specBody e) rq of
        Inl resp \<Rightarrow> (resp, s)
      | Inr specYAML \<Rightarrow>
     (case AddVersion (ae_codecs e) (ae_now e) (ae_versionID e) (ae_fault e) (id_OrgID ident) agentID specYAML s of
        ((v, Some err), s') \<Rightarrow> (writeStoreErr err, s')
      | ((v, None), s') \<Rightarrow> (writeJSON 201 (BodyWrapped v), s')))"

definition updateDraftHandler :: "api_env \<Rightarrow> api_request \<Rightarrow> identity \<Rightarrow> string \<Rightarrow> int \<Rightarrow> registry \<Rightarrow> api_response \<times> registry" where
  "updateDraftHandler e rq ident agentID version s =
     (case decodeBody (ae_specBody e) rq of
        Inl resp \<Rightarrow> (resp, s)
      | Inr specYAML \<Rightarrow>
     (case UpdateDraft (ae_codecs e) (ae_now e) (ae_fault e) (id_OrgID ident) agentID version specYAML s of
        (out, s') \<Rightarrow> (answer 200 (\<lambda>v. BodyWrapped (Some v)) out, s')))"

definition getAgentHandler :: "api_env \<Rightarrow> identity \<Rightarrow> string \<Rightarrow> registry \<Rightarrow> api_response" where
  "getAgentHandler e ident agentID s = answer 200 BodyAgent (GetAgent (ae_fault e 0) (id_OrgID ident) agentID s)"

definition listVersionsHandler :: "api_env \<Rightarrow> identity \<Rightarrow> string \<Rightarrow> registry \<Rightarrow> api_response" where
  "listVersionsHandler e ident agentID s = answer 200 BodyVersions (ListVersions (ae_rows e) (id_OrgID ident) agentID s)"

definition getVersionHandler :: "api_env \<Rightarrow> identity \<Rightarrow> string \<Rightarrow> int \<Rightarrow> registry \<Rightarrow> api_response" where
  "getVersionHandler e ident agentID version s = answer 200 BodyVersion (GetVersion (ae_fault e 0) (id_OrgID ident) agentID version s)"

definition publishHandler :: "api_env \<Rightarrow> identity \<Rightarrow> string \<Rightarrow> int \<Rightarrow> registry \<Rightarrow> api_response \<times> registry" where
  "publishHandler e ident agentID version s =
     (case PublishVersion (ae_now e) (ae_fault e) (id_OrgID ident) agentID version s of
        (out, s') \<Rightarrow> (answer 200 (\<lambda>v. BodyWrapped (Some v)) out, s'))"

definition deprecateHandler :: "api_env \<Rightarrow> identity \<Rightarrow> string \<Rightarrow> int \<Rightarrow> registry \<Rightarrow> api_response \<times> registry" where
  "deprecateHandler e ident agentID version s =
     (case DeprecateVersion (ae_now e) (ae_fault e) (id_OrgID ident) agentID version s of
        (out, s') \<Rightarrow> (answer 200 (\<lambda>v. BodyWrapped (Some v)) out, s'))"

definition agentsHandler :: "api_env \<Rightarrow> api_request \<Rightarrow> identity \<Rightarrow> registry \<Rightarrow> api_response \<times> registry" where
  "agentsHandler e rq ident s =
     (if aq_Path rq \<noteq> ''/v1/agents'' then (httpNotFound, s)
      else if aq_Method rq = ''POST'' then createHandler e rq ident s
      else (methodNotAllowed [''POST''], s))"

text \<open>\<^verbatim>\<open>{n}\<close>, \<^verbatim>\<open>{n}:publish\<close>, \<^verbatim>\<open>{n}:deprecate\<close>: the part before the first colon and the part after it.\<close>

definition versionRoute :: "api_env \<Rightarrow> api_request \<Rightarrow> identity \<Rightarrow> string \<Rightarrow> string \<Rightarrow> registry \<Rightarrow> api_response \<times> registry" where
  "versionRoute e rq ident agentID part s =
     (let numPart = takeWhile (\<lambda>c. c \<noteq> CHR '':'') part; action = drop (Suc (length numPart)) part in
      case ParseInt numPart of
        None \<Rightarrow> (writeErr 400 ''version must be a number'', s)
      | Some v \<Rightarrow>
          if action = [] then
            (if aq_Method rq = ''GET'' then (getVersionHandler e ident agentID v s, s)
             else if aq_Method rq = ''PUT'' then updateDraftHandler e rq ident agentID v s
             else (methodNotAllowed [''GET'', ''PUT''], s))
          else if action = ''publish'' then publishHandler e ident agentID v s
          else if action = ''deprecate'' then deprecateHandler e ident agentID v s
          else (methodNotAllowed [''POST'', ''GET''], s))"

definition agentSubresource :: "api_env \<Rightarrow> api_request \<Rightarrow> identity \<Rightarrow> registry \<Rightarrow> api_response \<times> registry" where
  "agentSubresource e rq ident s =
     (case splitPath (TrimPrefix (aq_Path rq) ''/v1/agents/'') of
        [] \<Rightarrow> (httpNotFound, s)
      | [agentID] \<Rightarrow>
          if aq_Method rq = ''GET'' then (getAgentHandler e ident agentID s, s) else (methodNotAllowed [''GET''], s)
      | [agentID, p1] \<Rightarrow>
          if p1 = ''versions'' then
            (if aq_Method rq = ''POST'' then addVersionHandler e rq ident agentID s
             else if aq_Method rq = ''GET'' then (listVersionsHandler e ident agentID s, s)
             else (methodNotAllowed [''POST'', ''GET''], s))
          else (httpNotFound, s)
      | [agentID, p1, p2] \<Rightarrow>
          if p1 = ''versions'' then versionRoute e rq ident agentID p2 s else (httpNotFound, s)
      | _ \<Rightarrow> (httpNotFound, s))"

definition requireIdentity ::
  "(identity \<Rightarrow> registry \<Rightarrow> api_response \<times> registry) \<Rightarrow> identity option \<Rightarrow> registry \<Rightarrow> api_response \<times> registry" where
  "requireIdentity next ctx s =
     (case ctx of
        None \<Rightarrow> (writeErr 401 ''authentication required'', s)
      | Some ident \<Rightarrow>
          if id_OrgID ident = [] \<or> id_UserID ident = [] then (writeErr 401 ''authentication required'', s) else next ident s)"

definition NewHTTPHandler :: "api_env \<Rightarrow> api_request \<Rightarrow> identity option \<Rightarrow> registry \<Rightarrow> api_response \<times> registry" where
  "NewHTTPHandler e rq ctx s =
     (if aq_Path rq = ''/v1/agents'' then requireIdentity (agentsHandler e rq) ctx s
      else if HasPrefix (aq_Path rq) ''/v1/agents/'' then requireIdentity (agentSubresource e rq) ctx s
      else (httpNotFound, s))"

text \<open>The routes under \<^verbatim>\<open>/v1/\<close> as \<^verbatim>\<open>cmd/registry\<close> mounts them: the handler behind the middleware.\<close>

definition registryAPI ::
  "api_env \<Rightarrow> jose \<Rightarrow> net \<Rightarrow> time \<Rightarrow> (string \<Rightarrow> (string \<times> string) result) \<Rightarrow> string \<Rightarrow> api_request \<Rightarrow> authenticator \<times> registry
   \<Rightarrow> api_response \<times> authenticator \<times> registry" where
  "registryAPI e j net now resolve authorization rq w =
     (case Middleware (\<lambda>ident. NewHTTPHandler e rq (Some ident) (snd w)) j net now resolve authorization (fst w) of
        (Refused status msg, a) \<Rightarrow> (writeErr status msg, a, snd w)
      | (Served (resp, s), a) \<Rightarrow> (resp, a, s))"

section \<open>Requests as calls of the store\<close>

definition performIn :: "api_env \<Rightarrow> registry_call \<Rightarrow> registry \<Rightarrow> registry" where
  "performIn e call s = perform (ae_codecs e) (ae_now e) (ae_agentID e) (ae_versionID e) (ae_fault e) call s"

definition callBy :: "api_env \<Rightarrow> string \<Rightarrow> registry \<Rightarrow> registry \<Rightarrow> bool" where
  "callBy e og s s' \<longleftrightarrow> s' = s \<or> (\<exists>call. callOrg call = og \<and> s' = performIn e call s)"

lemma callBy_refl [simp]: "callBy e og s s"
  by (simp add: callBy_def)

lemma callByI: "s' = performIn e call s \<Longrightarrow> callOrg call = og \<Longrightarrow> callBy e og s s'"
  unfolding callBy_def by blast

lemma handlers_call [simp]:
  "callBy e (id_OrgID ident) s (snd (createHandler e rq ident s))"
  "callBy e (id_OrgID ident) s (snd (addVersionHandler e rq ident a s))"
  "callBy e (id_OrgID ident) s (snd (updateDraftHandler e rq ident a v s))"
  "callBy e (id_OrgID ident) s (snd (publishHandler e ident a v s))"
  "callBy e (id_OrgID ident) s (snd (deprecateHandler e ident a v s))"
proof -
  show "callBy e (id_OrgID ident) s (snd (createHandler e rq ident s))"
  proof (cases "decodeBody (ae_createBody e) rq")
    case (Inr p)
    then show ?thesis
      by (cases p) (simp add: createHandler_def callByI [of _ _ "CallCreate (id_OrgID ident) (id_UserID ident) (fst p) (snd p)"] performIn_def split: prod.split)
  qed (simp add: createHandler_def)
  show "callBy e (id_OrgID ident) s (snd (addVersionHandler e rq ident a s))"
  proof (cases "decodeBody (ae_specBody e) rq")
    case (Inr y)
    then show ?thesis
      by (simp add: addVersionHandler_def callByI [of _ _ "CallAdd (id_OrgID ident) a y"] performIn_def split: prod.split option.split)
  qed (simp add: addVersionHandler_def)
  show "callBy e (id_OrgID ident) s (snd (updateDraftHandler e rq ident a v s))"
  proof (cases "decodeBody (ae_specBody e) rq")
    case (Inr y)
    then show ?thesis
      by (simp add: updateDraftHandler_def callByI [of _ _ "CallUpdate (id_OrgID ident) a v y"] performIn_def split: prod.split)
  qed (simp add: updateDraftHandler_def)
  show "callBy e (id_OrgID ident) s (snd (publishHandler e ident a v s))"
    by (simp add: publishHandler_def callByI [of _ _ "CallPublish (id_OrgID ident) a v"] performIn_def split: prod.split)
  show "callBy e (id_OrgID ident) s (snd (deprecateHandler e ident a v s))"
    by (simp add: deprecateHandler_def callByI [of _ _ "CallDeprecate (id_OrgID ident) a v"] performIn_def split: prod.split)
qed

lemma versionRoute_call: "callBy e (id_OrgID ident) s (snd (versionRoute e rq ident a part s))"
  by (simp add: versionRoute_def Let_def split: option.split)

lemma agentSubresource_call: "callBy e (id_OrgID ident) s (snd (agentSubresource e rq ident s))"
  by (simp add: agentSubresource_def versionRoute_call split: list.split)

text \<open>A request changes the tables only with an identity, and then by one call of the store for its organisation.\<close>

lemma NewHTTPHandler_call:
  "snd (NewHTTPHandler e rq ctx s) = s \<or>
   (\<exists>ident. ctx = Some ident \<and> id_OrgID ident \<noteq> [] \<and> callBy e (id_OrgID ident) s (snd (NewHTTPHandler e rq ctx s)))"
proof (cases ctx)
  case (Some ident)
  have "callBy e (id_OrgID ident) s (snd (agentsHandler e rq ident s))" by (simp add: agentsHandler_def)
  then show ?thesis by (simp add: NewHTTPHandler_def requireIdentity_def Some agentSubresource_call)
qed (simp add: NewHTTPHandler_def requireIdentity_def)

section \<open>The service\<close>

text \<open>
  The service's state is the authenticator and the tables.  A step is one request: any header, method, path, body,
  database failure and provider response, as long as the provider publishes only keys of \<open>T\<close>.
\<close>

record service_request =
  sq_env :: api_env
  sq_net :: net
  sq_now :: time
  sq_users :: "user_row list"
  sq_fault :: "goerr option"
  sq_header :: string
  sq_request :: api_request

definition serveOne :: "jose \<Rightarrow> service_request \<Rightarrow> authenticator \<times> registry \<Rightarrow> api_response \<times> authenticator \<times> registry" where
  "serveOne j q w =
     registryAPI (sq_env q) j (sq_net q) (sq_now q) (Resolve (sq_fault q) (Some (sq_users q))) (sq_header q) (sq_request q) w"

definition serviceStep ::
  "codecs \<Rightarrow> jose \<Rightarrow> string \<Rightarrow> (string \<Rightarrow> rsa_public_key \<Rightarrow> bool) \<Rightarrow> authenticator \<times> registry \<Rightarrow> service_request \<Rightarrow> authenticator \<times> registry \<Rightarrow> bool" where
  "serviceStep c j issuer T w q w' \<longleftrightarrow> ae_codecs (sq_env q) = c \<and> publishes j issuer T (sq_net q) \<and> w' = snd (serveOne j q w)"

definition serviceOK :: "codecs \<Rightarrow> string \<Rightarrow> (string \<Rightarrow> rsa_public_key \<Rightarrow> bool) \<Rightarrow> authenticator \<times> registry \<Rightarrow> bool" where
  "serviceOK c issuer T w \<longleftrightarrow> trusted issuer T (fst w) \<and> registryOK c (snd w)"

lemma serveOne_effect:
  assumes "serveOne j q (a, s) = (resp, a', s')"
  shows "\<exists>out. authenticate j (sq_net q) (sq_now q) (Resolve (sq_fault q) (Some (sq_users q))) (sq_header q) a = (out, a') \<and>
    (s' = s \<or> (\<exists>ident. out = Inr ident \<and> callBy (sq_env q) (id_OrgID ident) s s'))"
proof -
  obtain out a1 where au: "authenticate j (sq_net q) (sq_now q) (Resolve (sq_fault q) (Some (sq_users q))) (sq_header q) a = (out, a1)"
    by fastforce
  show ?thesis
  proof (cases out)
    case (Inl e)
    with au assms show ?thesis by (auto simp: serveOne_def registryAPI_def Middleware_def)
  next
    case (Inr ident)
    then have "a' = a1" "s' = snd (NewHTTPHandler (sq_env q) (sq_request q) (Some ident) s)"
      using au assms by (auto simp: serveOne_def registryAPI_def Middleware_def split: prod.splits)
    with NewHTTPHandler_call [of "sq_env q" "sq_request q" "Some ident" s] au Inr show ?thesis by auto
  qed
qed

lemma callBy_step: "callBy e og s s' \<Longrightarrow> s' = s \<or> (\<exists>call. callOrg call = og \<and> registryStep (ae_codecs e) s call s')"
  unfolding callBy_def performIn_def registryStep_def by blast

interpretation svc: transition_system "\<lambda>w. w = (NewAuthenticator issuer, emptyRegistry)" "serviceStep c j issuer T" "serviceOK c issuer T" for c j issuer T
proof (unfold_locales, goal_cases)
  case (1 w)
  then show ?case using au.inv_init rgs.inv_init by (simp add: serviceOK_def)
next
  case (2 w q w')
  obtain a s where w1: "w = (a, s)" by fastforce
  obtain resp a' s' where w3: "serveOne j q (a, s) = (resp, a', s')" using prod_cases3 by blast
  with 2(2) w1 have w: "w = (a, s)" "w' = (a', s')" "serveOne j q (a, s) = (resp, a', s')" by (simp_all add: serviceStep_def)
  have step: "ae_codecs (sq_env q) = c" "publishes j issuer T (sq_net q)" using 2(2) by (simp_all add: serviceStep_def)
  have ok: "trusted issuer T a" "registryOK c s" using 2(1) w(1) by (simp_all add: serviceOK_def)
  obtain out where out: "authenticate j (sq_net q) (sq_now q) (Resolve (sq_fault q) (Some (sq_users q))) (sq_header q) a = (out, a')"
    "s' = s \<or> (\<exists>ident :: identity. callBy (sq_env q) (id_OrgID ident) s s')" using serveOne_effect [OF w(3)] by blast
  have "trusted issuer T a'" by (rule authenticate_trusted [OF ok(1) step(2) out(1)])
  moreover have "registryOK c s'" using out(2) callBy_step rgs.inv_step [OF ok(2)] ok(2) step(1) by metis
  ultimately show ?case by (simp add: serviceOK_def w(2))
qed

text \<open>
  C4. The registry's API end to end: in every reachable state of the service, a request after which the rows of an
  organisation differ carries a token that a published key of the issuer has signed, for that issuer and not expired,
  and its subject is a provisioned user of that very organisation.  The tables stay well formed.
\<close>

theorem api_changes_are_authenticated:
  assumes "reach (\<lambda>w. w = (NewAuthenticator issuer, emptyRegistry)) (serviceStep c j issuer T) (a, s)"
    and "serviceStep c j issuer T (a, s) q (a', s')"
    and "agentsOf og s' \<noteq> agentsOf og s \<or> versionsOf og s' \<noteq> versionsOf og s"
  shows "registryOK c s' \<and>
    (\<exists>p0 p1 p2 key sig cl u.
      Split (CHR ''.'') (bearerToken (sq_header q)) = [p0, p1, p2] \<and> T (jh_KID (parseJWTHeader j p0)) key \<and>
      DecodeString p2 = Some sig \<and> jo_Verify j key (jo_Sum256 j (p0 @ ''.'' @ p1)) sig \<and>
      parseClaims j p1 = Inr cl \<and> jc_Iss cl = issuer \<and> (jc_Exp cl = 0 \<or> Unix (sq_now q) < jc_Exp cl) \<and>
      u \<in> set (sq_users q) \<and> ur_AuthSubject u = jc_Sub cl \<and> ur_OrgID u = og)"
proof -
  have ok: "trusted issuer T a" "registryOK c s" using svc.reach_inv [OF assms(1)] by (simp_all add: serviceOK_def)
  have ok': "registryOK c s'" using svc.inv_step [OF svc.reach_inv [OF assms(1)] assms(2)] by (simp add: serviceOK_def)
  have st: "ae_codecs (sq_env q) = c" "publishes j issuer T (sq_net q)" "serveOne j q (a, s) = (fst (serveOne j q (a, s)), a', s')"
    using assms(2) by (auto simp: serviceStep_def intro: prod_eqI)
  obtain ident where au: "authenticate j (sq_net q) (sq_now q) (Resolve (sq_fault q) (Some (sq_users q))) (sq_header q) a = (Inr ident, a')"
    and call: "callBy (sq_env q) (id_OrgID ident) s s'"
    using serveOne_effect [OF st(3)] assms(3) by blast
  have og: "id_OrgID ident = og"
    using callBy_step [OF call] calls_in_org [OF ok(2)] assms(3) st(1) by metis
  from signed_of_trusted [OF ok(1) st(2) au] obtain p0 p1 p2 key sig cl where p:
    "Split (CHR ''.'') (bearerToken (sq_header q)) = [p0, p1, p2]" "T (jh_KID (parseJWTHeader j p0)) key" "DecodeString p2 = Some sig"
    "jo_Verify j key (jo_Sum256 j (p0 @ ''.'' @ p1)) sig" "parseClaims j p1 = Inr cl" "jc_Iss cl = issuer"
    "jc_Exp cl = 0 \<or> Unix (sq_now q) < jc_Exp cl" "Resolve (sq_fault q) (Some (sq_users q)) (jc_Sub cl) = Inr (id_OrgID ident, id_UserID ident)"
    by (elim exE conjE)
  from p(8) og obtain u where "u \<in> set (sq_users q)" "ur_AuthSubject u = jc_Sub cl" "ur_OrgID u = og"
    by (auto simp: Resolve_def find_Some_iff split: sum.splits dest: nth_mem)
  with p ok' show ?thesis by (intro conjI exI [of _ p0] exI [of _ p1] exI [of _ p2] exI [of _ key] exI [of _ sig] exI [of _ cl] exI [of _ u]) simp_all
qed

text \<open>
  The routes that publish and deprecate a version look at the path alone: a request of any method, a \<^verbatim>\<open>GET\<close>
  included, publishes.
\<close>

theorem any_method_publishes:
  assumes "id_OrgID ident \<noteq> []" "id_UserID ident \<noteq> []"
  shows "NewHTTPHandler e \<lparr>aq_Method = m, aq_Path = ''/v1/agents/a/versions/1:publish'', aq_Body = b, aq_BodyErr = be\<rparr> (Some ident) s =
    publishHandler e ident ''a'' 1 s"
proof -
  have "splitPath ''a/versions/1:publish'' = [''a'', ''versions'', ''1:publish'']" by (simp add: splitPath_def)
  moreover have "ParseInt ''1'' = Some 1" by code_simp
  ultimately show ?thesis
    using assms by (simp add: NewHTTPHandler_def requireIdentity_def agentSubresource_def TrimPrefix_def HasPrefix_def versionRoute_def Let_def)
qed

section \<open>A concrete request\<close>

definition exEnv :: api_env where
  "exEnv = \<lparr>ae_codecs = exCodecs, ae_createBody = (\<lambda>_. Inr (''n'', ''y'')), ae_specBody = (\<lambda>_. Inr ''y''), ae_now = 5, ae_agentID = ''a'',
     ae_versionID = ''v'', ae_fault = (\<lambda>_. None), ae_rows = noFault\<rparr>"

definition exRequest :: service_request where
  "exRequest = \<lparr>sq_env = exEnv, sq_net = exNet, sq_now = 5, sq_users = exUsers, sq_fault = None, sq_header = ''bearer QQ.QQ.QQ'',
     sq_request = \<lparr>aq_Method = ''POST'', aq_Path = ''/v1/agents'', aq_Body = [], aq_BodyErr = None\<rparr>\<rparr>"

lemma ex_created:
  "snd (NewHTTPHandler exEnv (sq_request exRequest) (Some \<lparr>id_UserID = ''u'', id_OrgID = ''o'', id_Sub = ''s'', id_Email = []\<rparr>) emptyRegistry) = exDraft"
  by (simp add: NewHTTPHandler_def exRequest_def requireIdentity_def agentsHandler_def createHandler_def decodeBody_def exEnv_def
      case_prod_unfold ex_create)

lemma ex_served: "snd (snd (serveOne exJose exRequest (NewAuthenticator ''i'', emptyRegistry))) = exDraft"
proof -
  obtain a' where "authenticate exJose exNet 5 (Resolve None (Some exUsers)) ''bearer QQ.QQ.QQ'' (NewAuthenticator ''i'') =
      (Inr \<lparr>id_UserID = ''u'', id_OrgID = ''o'', id_Sub = ''s'', id_Email = []\<rparr>, a')"
    using ex_authenticate by (metis prod.collapse)
  with ex_created show ?thesis by (simp add: serveOne_def registryAPI_def Middleware_def exRequest_def case_prod_unfold)
qed

theorem api_changes_are_authenticated_witness:
  "registryOK exCodecs exDraft \<and>
   (\<exists>p0 p1 p2 key sig cl u.
      Split (CHR ''.'') (bearerToken ''bearer QQ.QQ.QQ'') = [p0, p1, p2] \<and> provides exJose exNet ''i'' (jh_KID (parseJWTHeader exJose p0)) key \<and>
      DecodeString p2 = Some sig \<and> jo_Verify exJose key (jo_Sum256 exJose (p0 @ ''.'' @ p1)) sig \<and>
      parseClaims exJose p1 = Inr cl \<and> jc_Iss cl = ''i'' \<and> u \<in> set exUsers \<and> ur_AuthSubject u = jc_Sub cl \<and> ur_OrgID u = ''o'')"
proof -
  let ?T = "provides exJose exNet ''i''" and ?w = "(NewAuthenticator ''i'', emptyRegistry)"
  have r: "reach (\<lambda>w. w = ?w) (serviceStep exCodecs exJose ''i'' ?T) ?w" by (rule reach_init) simp
  have st: "serviceStep exCodecs exJose ''i'' ?T ?w exRequest (fst (snd (serveOne exJose exRequest ?w)), exDraft)"
    using ex_served by (simp add: serviceStep_def publishes_def exRequest_def exEnv_def prod_eq_iff)
  have "agentsOf ''o'' exDraft \<noteq> agentsOf ''o'' emptyRegistry" by (simp add: exDraft_def emptyRegistry_def newAgentRow_def)
  from api_changes_are_authenticated [OF r st] this
  have "registryOK exCodecs exDraft \<and> (\<exists>p0 p1 p2 key sig cl u.
      Split (CHR ''.'') (bearerToken (sq_header exRequest)) = [p0, p1, p2] \<and> ?T (jh_KID (parseJWTHeader exJose p0)) key \<and>
      DecodeString p2 = Some sig \<and> jo_Verify exJose key (jo_Sum256 exJose (p0 @ ''.'' @ p1)) sig \<and>
      parseClaims exJose p1 = Inr cl \<and> jc_Iss cl = ''i'' \<and> (jc_Exp cl = 0 \<or> Unix (sq_now exRequest) < jc_Exp cl) \<and>
      u \<in> set (sq_users exRequest) \<and> ur_AuthSubject u = jc_Sub cl \<and> ur_OrgID u = ''o'')" by blast
  then show ?thesis by (elim exE conjE) (intro exI conjI; simp add: exRequest_def)
qed

end
