(* ===== verification/RegistryService.thy ===== *)
theory RegistryService
  imports Health PodHarness RegistryHTTP SessionStore
begin

text \<open>
  \<^verbatim>\<open>cmd/registry\<close>: how the registry process is put together from its environment, and the routes it serves: the health
  endpoints, the API behind the authentication, and the internal gateway.  The database, OPA and the rate limiter
  are parameters; the multiplexer's redirects are left out.
\<close>

section \<open>Configuration\<close>

type_synonym process_env = "string \<Rightarrow> string"

definition runTokenSecret :: "process_env \<Rightarrow> string" where
  "runTokenSecret env = (if env ''RUN_TOKEN_SECRET'' \<noteq> [] then env ''RUN_TOKEN_SECRET'' else ''dev-only-insecure-secret'')"

definition regionOrDefault :: "process_env \<Rightarrow> string" where
  "regionOrDefault env = (if env ''AWS_REGION'' \<noteq> [] then env ''AWS_REGION'' else ''us-east-1'')"

definition staticGetSession :: "time \<Rightarrow> string \<Rightarrow> session_info result" where
  "staticGetSession now sessionID = Inr \<lparr>si_Alive = True, si_Deadline = now + 4 * Hour\<rparr>"

text \<open>\<open>ddb\<close> answers for the tables at the configured endpoint; with it, the checker is the one of the session store.\<close>

definition newSessionChecker :: "process_env \<Rightarrow> 'w store \<Rightarrow> time \<Rightarrow> 'w \<Rightarrow> string \<Rightarrow> session_info result" where
  "newSessionChecker env ddb now w =
     (if env ''DDB_ENDPOINT'' = [] then staticGetSession now
      else (\<lambda>sessionID. fst (checkSession (NewSessionChecker ddb (4 * Hour)) sessionID w)))"

definition orgToolPatterns :: "process_env \<Rightarrow> string list" where
  "orgToolPatterns env =
     (if env ''ORG_TOOL_PATTERNS'' \<noteq> []
      then filter (\<lambda>p. p \<noteq> []) (map TrimSpace (Split (CHR '','') (env ''ORG_TOOL_PATTERNS''))) else [])"

definition registryTokens ::
  "process_env \<Rightarrow> (string \<Rightarrow> string \<Rightarrow> string) \<Rightarrow> (claims \<Rightarrow> string) \<Rightarrow> (string \<Rightarrow> claims option) \<Rightarrow> 'r service" where
  "registryTokens env mac mar unmar = NewService (runTokenSecret env) mac mar unmar None"

definition httpToolDef :: tool_def where
  "httpToolDef =
     \<lparr>td_Name = ''http_request'', td_Description = ''Allowlisted HTTP request'',
      td_InputSchema = ''{'' @ goQuote ''type'' @ '':'' @ goQuote ''object'' @ '','' @ goQuote ''required'' @ '':['' @ goQuote ''url'' @ ''],'' @
        goQuote ''properties'' @ '':{'' @ goQuote ''url'' @ '':{'' @ goQuote ''type'' @ '':'' @ goQuote ''string'' @ ''}}}'',
      td_RequiredScope = ''net:fetch''\<rparr>"

definition httpAllowlist :: "string list" where
  "httpAllowlist = [''api.internal.corp'', ''example.com'']"

text \<open>\<open>qps\<close> is the rate of 1000.\<close>

definition registryTools :: "('q, 'l) rate_lib \<Rightarrow> 'q \<Rightarrow> (string \<Rightarrow> string result) \<Rightarrow> ('w, 'l) ToolGateway.registry" where
  "registryTools rl qps parseURL =
     Register rl httpToolDef (HTTPRequestTool parseURL httpAllowlist) None qps (NewRegistry (1024 * 1024))"

section \<open>The process\<close>

text \<open>Its state: the key cache, the tables, and the planes behind the internal routes with the world of the tools.\<close>

record ('w, 'l, 'r) registry_process =
  rp_auth :: authenticator
  rp_store :: Registry.registry
  rp_planes :: "(scripted_completer, 'w, 'l, 'r) planes"
  rp_tokens :: "'r service"

text \<open>
  Start-up: \<open>migrate\<close>, \<open>open\<close> and \<open>ping\<close> are the outcomes of the three calls on the database, \<open>file\<close> is the file of scripted
  responses.  Every failure ends the process.
\<close>

definition startRegistry ::
  "opa \<Rightarrow> ('q, 'l) rate_lib \<Rightarrow> 'q \<Rightarrow> (string \<Rightarrow> string result) \<Rightarrow> (string \<Rightarrow> (string \<times> string) list) \<Rightarrow> 'r service \<Rightarrow> string list
   \<Rightarrow> string option \<Rightarrow> goerr option \<Rightarrow> goerr option \<Rightarrow> goerr option \<Rightarrow> string \<Rightarrow> string \<Rightarrow> Registry.registry \<Rightarrow> 'w
   \<Rightarrow> ('w, 'l, 'r) registry_process result" where
  "startRegistry rg rl qps parseURL script tokens pats file migrate opened ping dsn issuer tables w =
     (if dsn = [] then Inl (ErrNew ''DATABASE_URL (or -database-url) is required'')
      else if issuer = [] then Inl (ErrNew ''OIDC_ISSUER (or -oidc-issuer) is required'')
      else
     (case migrate of Some err \<Rightarrow> Inl (ErrWrap (''migrate: '' @ errText err) err) | None \<Rightarrow>
     (case opened of Some err \<Rightarrow> Inl (ErrWrap (''open db: '' @ errText err) err) | None \<Rightarrow>
     (case ping of Some err \<Rightarrow> Inl (ErrWrap (''ping db: '' @ errText err) err) | None \<Rightarrow>
     (case NewEngine rg of Inl err \<Rightarrow> Inl (ErrWrap (''policy engine: '' @ errText err) err) | Inr pol0 \<Rightarrow>
     (case SetOrgPatterns rg pats pol0 of
        (Some err, _) \<Rightarrow> Inl (ErrWrap (''org patterns: '' @ errText err) err)
      | (None, pol) \<Rightarrow>
          Inr \<lparr>rp_auth = NewAuthenticator issuer, rp_store = tables,
            rp_planes = (NewScriptedCompleterFromEnv file script, NewGateway (registryTools rl qps parseURL) pol tokens, w),
            rp_tokens = tokens\<rparr>))))))"

text \<open>A request with what the code outside answers while it is served.\<close>

record ('w, 'q, 'l, 'r) process_request =
  pq_path :: string
  pq_header :: string
  pq_body :: string
  pq_api :: service_request
  pq_checks :: "(string \<times> 'w checker) list"
  pq_call :: "('q, 'l) call_env"
  pq_time :: time
  pq_revoked :: 'r

datatype process_answer =
    HealthAnswer "int \<times> health_body"
  | ApiAnswer api_response
  | InternalAnswer "int \<times> internal_body"
  | NotFoundAnswer

definition registryServe ::
  "jose \<Rightarrow> (string \<Rightarrow> complete_body result) \<Rightarrow> (string \<Rightarrow> tool_body result) \<Rightarrow> ('w, 'q, 'l, 'r) process_request
   \<Rightarrow> ('w, 'l, 'r) registry_process \<Rightarrow> process_answer \<times> ('w, 'l, 'r) registry_process" where
  "registryServe j dc dt q p =
     (if pq_path q = ''/healthz'' \<or> pq_path q = ''/readyz'' then
        (HealthAnswer (healthServe (snd (snd (rp_planes p))) (pq_checks q) (pq_path q)), p)
      else if prefix ''/v1/'' (pq_path q) then
        (case serveOne j ((pq_api q)\<lparr>sq_header := pq_header q, sq_request := (sq_request (pq_api q))\<lparr>aq_Path := pq_path q, aq_Body := pq_body q\<rparr>\<rparr>)
                (rp_auth p, rp_store p) of
           (resp, a, s) \<Rightarrow> (ApiAnswer resp, p\<lparr>rp_auth := a, rp_store := s\<rparr>))
      else if pq_path q \<in> {''/internal/llm/complete'', ''/internal/tools/call'', ''/internal/tools/catalog''} then
        (case internalServe (rp_tokens p) dc dt scriptedComplete (pq_call q) (pq_time q) (pq_revoked q) (pq_path q) (pq_body q)
                (internalBearer (pq_header q)) (rp_planes p) of
           (ans, planes) \<Rightarrow> (InternalAnswer ans, p\<lparr>rp_planes := planes\<rparr>))
      else (NotFoundAnswer, p))"

section \<open>What start-up establishes\<close>

text \<open>The tool gateway keeps its one tool and its policy whatever is called; only the state of the limiter changes.\<close>

definition toolsOK :: "(string \<Rightarrow> string result) \<Rightarrow> ('w, 'l) ToolGateway.registry \<Rightarrow> bool" where
  "toolsOK parseURL reg \<longleftrightarrow> rg_filters reg = [] \<and> rg_maxOut reg = 1024 * 1024 \<and>
     (\<forall>name rt. rg_tools reg name = Some rt \<longrightarrow>
        name = ''http_request'' \<and> rt_Def rt = httpToolDef \<and> rt_Exec rt = HTTPRequestTool parseURL httpAllowlist)"

definition gatewayOK :: "(string \<Rightarrow> string result) \<Rightarrow> string list \<Rightarrow> 'r service \<Rightarrow> ('w, 'l, 'r) gateway \<Rightarrow> bool" where
  "gatewayOK parseURL pats tokens g \<longleftrightarrow>
     toolsOK parseURL (gw_reg g) \<and> gw_tokens g = tokens \<and> gw_live g = None \<and> en_query (gw_policy g) = cleanPatterns pats"

definition processOK :: "(string \<Rightarrow> string result) \<Rightarrow> string list \<Rightarrow> 'r service \<Rightarrow> ('w, 'l, 'r) registry_process \<Rightarrow> bool" where
  "processOK parseURL pats tokens p \<longleftrightarrow> rp_tokens p = tokens \<and> gatewayOK parseURL pats tokens (fst (snd (rp_planes p)))"

definition processStep ::
  "jose \<Rightarrow> (string \<Rightarrow> complete_body result) \<Rightarrow> (string \<Rightarrow> tool_body result) \<Rightarrow> ('w, 'l, 'r) registry_process \<Rightarrow> ('w, 'q, 'l, 'r) process_request
   \<Rightarrow> ('w, 'l, 'r) registry_process \<Rightarrow> bool" where
  "processStep j dc dt p q p' \<longleftrightarrow> p' = snd (registryServe j dc dt q p)"

definition started ::
  "opa \<Rightarrow> (string \<Rightarrow> string result) \<Rightarrow> string list \<Rightarrow> 'r service \<Rightarrow> ('w, 'l, 'r) registry_process \<Rightarrow> bool" where
  "started rg parseURL pats tokens p \<longleftrightarrow>
     (\<exists>(rl :: (nat, 'l) rate_lib) qps script file mg op pg dsn issuer tables w.
        startRegistry rg rl qps parseURL script tokens pats file mg op pg dsn issuer tables w = Inr p)"

lemma toolsOK_registryTools: "toolsOK parseURL (registryTools rl qps parseURL)"
  by (simp add: toolsOK_def registryTools_def Register_def NewRegistry_def httpToolDef_def)

lemma startRegistry_OK:
  assumes "startRegistry rg rl qps parseURL script tokens pats file mg op pg dsn issuer tables w = Inr p"
  shows "processOK parseURL pats tokens p"
proof -
  obtain e0 e where "SetOrgPatterns rg pats e0 = (None, e)" "rp_tokens p = tokens"
    "fst (snd (rp_planes p)) = NewGateway (registryTools rl qps parseURL) e tokens"
    using assms by (auto simp: startRegistry_def split: if_splits option.splits sum.splits prod.splits)
  then show ?thesis
    using SetOrgPatterns_ok toolsOK_registryTools by (simp add: processOK_def gatewayOK_def NewGateway_def)
qed

lemma toolsOK_limiter:
  assumes "toolsOK parseURL reg" "rg_tools reg name = Some rt"
  shows "toolsOK parseURL (reg\<lparr>rg_tools := (rg_tools reg)(name \<mapsto> rt\<lparr>rt_Limiter := l\<rparr>)\<rparr>)"
proof -
  have "name = ''http_request'' \<and> rt_Def rt = httpToolDef \<and> rt_Exec rt = HTTPRequestTool parseURL httpAllowlist"
    using assms unfolding toolsOK_def by blast
  with assms(1) show ?thesis by (simp add: toolsOK_def)
qed

lemma Call_gateway:
  assumes "Call rl rg t0 t1 t2 t3 r token name input g w = (res, g', w')"
  shows "g' = g \<or> (\<exists>rt l. rg_tools (gw_reg g) name = Some rt \<and>
    g' = g\<lparr>gw_reg := (gw_reg g)\<lparr>rg_tools := (rg_tools (gw_reg g))(name \<mapsto> rt\<lparr>rt_Limiter := l\<rparr>)\<rparr>\<rparr>)"
  using assms unfolding Call_def get_tool_def
  by (auto simp: Let_def split: sum.splits option.splits if_splits prod.splits)

lemma Call_gatewayOK:
  assumes "gatewayOK parseURL pats tokens g" "Call rl rg t0 t1 t2 t3 r token name input g w = (res, g', w')"
  shows "gatewayOK parseURL pats tokens g'"
  using Call_gateway [OF assms(2)] assms(1) toolsOK_limiter [of parseURL "gw_reg g" name] by (auto simp: gatewayOK_def)

lemma internalServe_gatewayOK:
  assumes "gatewayOK parseURL pats tokens g" "internalServe tk dc dt model e t r path body token (m, g, w) = (ans, m', g', w')"
  shows "gatewayOK parseURL pats tokens g'"
  using assms Call_gatewayOK [OF assms(1)]
  by (auto simp: internalServe_def authRoute_def completeRoute_def callToolRoute_def catalogRoute_def split: if_splits sum.splits prod.splits)

interpretation rp: transition_system "started rg parseURL pats tokens" "processStep j dc dt" "processOK parseURL pats tokens"
  for rg parseURL pats tokens j dc dt
proof (unfold_locales, goal_cases)
  case (1 p)
  then show ?case unfolding started_def by (elim exE) (rule startRegistry_OK)
next
  case (2 p q p')
  obtain m g w where pl: "rp_planes p = (m, g, w)" using prod_cases3 by blast
  with 2 internalServe_gatewayOK [of parseURL pats tokens g] show ?case
    by (auto simp: processStep_def registryServe_def processOK_def split: prod.splits)
qed

section \<open>The routes, end to end\<close>

lemma hostAllowed_entry: "hostAllowed host as \<Longrightarrow> \<exists>a \<in> set as. host = a \<or> suffix (''.'' @ a) host"
  by (induction as) (auto simp: HasSuffix_def split: if_splits)

lemma HTTPRequestTool_ok:
  assumes "HTTPRequestTool parseURL allowlist input w = (Inr v, w')"
  shows "\<exists>url. parseURL input = Inr url \<and> hostAllowed (extractHost url) allowlist \<and> v = wouldFetch (extractHost url)"
  using assms by (auto simp: HTTPRequestTool_def Let_def split: sum.splits if_splits)

lemma HTTPRequestTool_world: "snd (HTTPRequestTool parseURL allowlist input w) = w"
  by (simp add: HTTPRequestTool_def Let_def split: sum.split)


text \<open>A process that was just started and one call of its tool.\<close>

definition exProcessEnv :: process_env where
  "exProcessEnv k = (if k = ''ORG_TOOL_PATTERNS'' then ''tool.call:http_request'' else [])"

definition exProcess :: "(nat, unit, string \<rightharpoonup> string \<times> time) registry_process" where
  "exProcess =
     \<lparr>rp_auth = NewAuthenticator ''i'', rp_store = emptyRegistry,
      rp_planes = (NewScriptedCompleterFromEnv None (\<lambda>_. []), NewGateway (registryTools exRate 1000 (\<lambda>_. Inr ''example.com'')) exEngine exService, 3),
      rp_tokens = exService\<rparr>"

definition exToolRequest :: "(nat, nat, unit, string \<rightharpoonup> string \<times> time) process_request" where
  "exToolRequest =
     \<lparr>pq_path = ''/internal/tools/call'', pq_header = exHeader, pq_body = [], pq_api = RegistryHTTP.exRequest, pq_checks = [],
      pq_call = exCallEnv, pq_time = 5 * Second, pq_revoked = Map.empty\<rparr>"

lemma ex_patterns: "orgToolPatterns exProcessEnv = [''tool.call:http_request'']" "cleanPatterns [''tool.call:http_request''] = [''tool.call:http_request'']"
proof -
  have t: "TrimSpace ''tool.call:http_request'' = ''tool.call:http_request''" by (simp add: TrimSpace_plain plainByte_def)
  have "Split (CHR '','') ''tool.call:http_request'' = [''tool.call:http_request'']" by (rule Split_no_sep) simp
  then show "orgToolPatterns exProcessEnv = [''tool.call:http_request'']" by (simp add: orgToolPatterns_def exProcessEnv_def t)
  show "cleanPatterns [''tool.call:http_request''] = [''tool.call:http_request'']" by (simp add: cleanPatterns_def t)
qed

lemma ex_started: "started exOpa (\<lambda>_. Inr ''example.com'') (orgToolPatterns exProcessEnv) exService exProcess"
proof -
  have "startRegistry exOpa exRate 1000 (\<lambda>_. Inr ''example.com'') (\<lambda>_. []) exService [''tool.call:http_request''] None None None None ''d'' ''i'' emptyRegistry 3 = Inr exProcess"
    by (simp add: startRegistry_def NewEngine_def SetOrgPatterns_def ex_patterns(2) exOpa_def exEngine_def exProcess_def
        cleanPatterns_def [of "[]"] Let_def)
  then show ?thesis unfolding started_def ex_patterns(1) by blast
qed

lemma ex_http_call:
  "fst (Call exRate exOpa 0 (5 * Second) 0 7 Map.empty (encode exService (exClaims 0 900)) ''http_request'' []
     (NewGateway (registryTools exRate 1000 (\<lambda>_. Inr ''example.com'')) exEngine exService) (3 :: nat)) =
   Inr \<lparr>res_Output = capOutput (1024 * 1024) (wouldFetch (extractHost ''example.com'')), res_Duration = 7\<rparr>"
proof -
  have host: "extractHost ''example.com'' = ''example.com''" by code_simp
  have can: "dc_Allowed (Can exOpa exEngine (toolRequest (exClaims 0 900) (consentScopes None (exClaims 0 900)) ''http_request'' httpToolDef))"
    by (simp add: Can_def evalAllow_def exOpa_def orgAllows_def exEngine_def toolRequest_def requestInput_def
        consentScopes_def exClaims_def httpToolDef_def)
  have gw: "gw_tokens (NewGateway (registryTools exRate 1000 pu) exEngine exService) = exService"
    "gw_policy (NewGateway (registryTools exRate 1000 pu) exEngine exService) = exEngine"
    "gw_live (NewGateway (registryTools exRate 1000 pu) exEngine exService) = None"
    "get_tool ''http_request'' (gw_reg (NewGateway (registryTools exRate 1000 pu) exEngine exService)) =
       Some \<lparr>rt_Def = httpToolDef, rt_Exec = HTTPRequestTool pu httpAllowlist, rt_Injector = None, rt_Limiter = ()\<rparr>"
    "rg_filters (gw_reg (NewGateway (registryTools exRate 1000 pu) exEngine exService)) = []"
    "rg_maxOut (gw_reg (NewGateway (registryTools exRate 1000 pu) exEngine exService)) = 1024 * 1024" for pu :: "string \<Rightarrow> string result"
    by (simp_all add: NewGateway_def registryTools_def Register_def NewRegistry_def httpToolDef_def get_tool_def)
  show ?thesis
    using can
    by (simp add: Call_def gw ex_validate ex_tool_simps HTTPRequestTool_def host httpAllowlist_def applyFilters_def Let_def)
qed


text \<open>The parts do not interfere: no API request reaches the planes, no internal one the tables, and nothing else acts.\<close>

theorem routes_are_separate:
  assumes "registryServe j dc dt q p = (ans, p')"
  shows "(rp_planes p' \<noteq> rp_planes p \<longrightarrow> pq_path q \<in> {''/internal/llm/complete'', ''/internal/tools/call''}) \<and>
    (rp_store p' \<noteq> rp_store p \<or> rp_auth p' \<noteq> rp_auth p \<longrightarrow> prefix ''/v1/'' (pq_path q)) \<and> rp_tokens p' = rp_tokens p"
  using assms by (auto simp: registryServe_def internalServe_def authRoute_def catalogRoute_def split: if_splits prod.splits sum.splits)

section \<open>What is not wired\<close>

text \<open>The process has no revocation list: what is revoked elsewhere makes no difference, and revoking here fails.\<close>

lemma registryTokens_revoke [simp]: "sv_revoke (registryTokens env mac mar unmar) = None"
  by (simp add: registryTokens_def NewService_def)

theorem registry_ignores_revocations:
  fixes r r' :: 'r
  shows "Validate (registryTokens env mac mar unmar) t r token = Validate (registryTokens env mac mar unmar) t r' token"
    and "Validate (registryTokens env mac mar unmar) t r token = Inr c \<Longrightarrow> RunToken.Revoke (registryTokens env mac mar unmar) t r token = None"
  by (auto simp: Validate_def RunToken.Revoke_def Second_def split: sum.splits if_splits)

text \<open>Without an endpoint of the session tables a token can be renewed for ever: every renewal gives the full lifetime.\<close>

theorem static_sessions_never_end:
  assumes "env ''DDB_ENDPOINT'' = []" "Validate (registryTokens env mac mar unmar) t r token = Inr c"
  shows "\<exists>tok. Renew (registryTokens env mac mar unmar) (newSessionChecker env ddb now w) t now r token =
    Inr (tok, c\<lparr>cl_IssuedAt := Unix now, cl_ExpiresAt := Unix (now + defaultTTL)\<rparr>)"
  using assms(2) unfolding Renew_def
  by (cases c) (simp add: Let_def newSessionChecker_def assms(1) staticGetSession_def encodeToken_def renewRequest_def registryTokens_def NewService_def defaultTTL_def time_defs)

end
