(* ===== verification/WarmPool.thy ===== *)
theory WarmPool
  imports Prelude "HOL-Library.AList" "HOL-Library.Multiset"
begin

text \<open>
  \<^verbatim>\<open>internal/warmpool\<close>: pools of pre-forked pods per environment key.  The forker acts on a world \<open>'w\<close> and
  is a parameter.  The pools are a Go map, here an association list with distinct keys in the order
  one iteration visits them; a missing key is an empty pool.
\<close>

section \<open>Data\<close>

record 'w forker =
  fk_Fork :: "string \<Rightarrow> 'w \<Rightarrow> string result \<times> 'w"
  fk_Promote :: "string \<Rightarrow> string \<Rightarrow> 'w \<Rightarrow> goerr option \<times> 'w"
  fk_Destroy :: "string \<Rightarrow> 'w \<Rightarrow> goerr option \<times> 'w"

record pooled =
  pl_podID :: string
  pl_forkedAt :: time

record pool =
  pp_maxPerKey :: int
  pp_idleMaxAge :: duration
  pp_pools :: "(string \<times> pooled list) list"

section \<open>Operations\<close>

definition NewPool :: "int \<Rightarrow> duration \<Rightarrow> pool" where
  "NewPool maxPerKey idleMaxAge = \<lparr>pp_maxPerKey = maxPerKey, pp_idleMaxAge = idleMaxAge, pp_pools = []\<rparr>"

definition poolOf :: "pool \<Rightarrow> string \<Rightarrow> pooled list" where
  "poolOf p key = (case map_of (pp_pools p) key of Some q \<Rightarrow> q | None \<Rightarrow> [])"

definition setPool :: "string \<Rightarrow> pooled list \<Rightarrow> pool \<Rightarrow> pool" where
  "setPool key q p = p\<lparr>pp_pools := AList.update key q (pp_pools p)\<rparr>"

definition Size :: "string \<Rightarrow> pool \<Rightarrow> int" where
  "Size key p = int (length (poolOf p key))"

text \<open>The result of \<^verbatim>\<open>Acquire\<close> is pod id, warm flag and error, all three at once.\<close>

definition Acquire ::
  "'w forker \<Rightarrow> string \<Rightarrow> string \<Rightarrow> pool \<Rightarrow> 'w \<Rightarrow> (string \<times> bool \<times> goerr option) \<times> pool \<times> 'w" where
  "Acquire fk key sessionID p w =
     (case poolOf p key of
        entry # q \<Rightarrow>
          (case fk_Promote fk (pl_podID entry) sessionID w of
             (e, w') \<Rightarrow> ((pl_podID entry, True, e), setPool key q p, w'))
      | [] \<Rightarrow>
          (case fk_Fork fk key w of
             (Inl err, w1) \<Rightarrow> (([], False, Some err), p, w1)
           | (Inr cold, w1) \<Rightarrow>
               (case fk_Promote fk cold sessionID w1 of (e, w2) \<Rightarrow> ((cold, False, e), p, w2))))"

text \<open>
  The loop of \<^verbatim>\<open>Replenish\<close> appends under the lock, one pod at a time; \<open>now\<close> gives the clock of each
  iteration by the number of pods forked so far.
\<close>

definition pushPod :: "string \<Rightarrow> string \<Rightarrow> time \<Rightarrow> pool \<Rightarrow> pool" where
  "pushPod key podID now p = setPool key (poolOf p key @ [\<lparr>pl_podID = podID, pl_forkedAt = now\<rparr>]) p"

function replenishLoop ::
  "'w forker \<Rightarrow> (int \<Rightarrow> time) \<Rightarrow> string \<Rightarrow> int \<Rightarrow> int \<Rightarrow> int \<Rightarrow> pool \<Rightarrow> 'w \<Rightarrow> (int \<times> goerr option) \<times> pool \<times> 'w" where
  "replenishLoop fk now key target current forked p w =
     (if current + forked < target then
        (case fk_Fork fk key w of
           (Inl err, w1) \<Rightarrow> ((forked, Some err), p, w1)
         | (Inr podID, w1) \<Rightarrow>
             replenishLoop fk now key target current (forked + 1) (pushPod key podID (now forked) p) w1)
      else ((forked, None), p, w))"
  by pat_completeness auto
termination
  by (relation "measure (\<lambda>(fk, now, key, target, current, forked, p, w). nat (target - current - forked))") auto

declare replenishLoop.simps [simp del]

definition Replenish ::
  "'w forker \<Rightarrow> (int \<Rightarrow> time) \<Rightarrow> string \<Rightarrow> int \<Rightarrow> pool \<Rightarrow> 'w \<Rightarrow> (int \<times> goerr option) \<times> pool \<times> 'w" where
  "Replenish fk now key target p w =
     replenishLoop fk now key (if target > pp_maxPerKey p then pp_maxPerKey p else target) (Size key p) 0 p w"

definition expired :: "time \<Rightarrow> duration \<Rightarrow> pooled \<Rightarrow> bool" where
  "expired now maxAge e \<longleftrightarrow> now - pl_forkedAt e \<ge> maxAge"

fun destroyAll :: "'w forker \<Rightarrow> string list \<Rightarrow> 'w \<Rightarrow> goerr option \<times> 'w" where
  "destroyAll fk [] w = (None, w)"
| "destroyAll fk (podID # ids) w =
     (case fk_Destroy fk podID w of
        (Some err, w1) \<Rightarrow> (Some err, w1)
      | (None, w1) \<Rightarrow> destroyAll fk ids w1)"

definition ScaleDown :: "'w forker \<Rightarrow> time \<Rightarrow> pool \<Rightarrow> 'w \<Rightarrow> (string list \<times> goerr option) \<times> pool \<times> 'w" where
  "ScaleDown fk now p w =
     (let old = expired now (pp_idleMaxAge p);
          destroyed = concat (map (\<lambda>(key, q). map pl_podID (filter old q)) (pp_pools p));
          p' = p\<lparr>pp_pools := map (\<lambda>(key, q). (key, filter (\<lambda>e. \<not> old e) q)) (pp_pools p)\<rparr>
      in case destroyAll fk destroyed w of (e, w') \<Rightarrow> ((destroyed, e), p', w'))"

section \<open>Pods in the pools\<close>

definition poolIDs :: "pool \<Rightarrow> string list" where
  "poolIDs p = concat (map (\<lambda>(key, q). map pl_podID q) (pp_pools p))"

text \<open>
  What the forker promises: a forked pod is new, where \<open>used w\<close> is the set of pod ids the world has
  seen; promoting and destroying create none.
\<close>

definition forks_fresh :: "'w forker \<Rightarrow> ('w \<Rightarrow> string set) \<Rightarrow> bool" where
  "forks_fresh fk used \<longleftrightarrow>
     (\<forall>key w r w'. fk_Fork fk key w = (r, w') \<longrightarrow>
        (case r of Inl _ \<Rightarrow> used w' = used w | Inr i \<Rightarrow> i \<notin> used w \<and> used w' = insert i (used w))) \<and>
     (\<forall>i s w e w'. fk_Promote fk i s w = (e, w') \<longrightarrow> used w' = used w) \<and>
     (\<forall>i w e w'. fk_Destroy fk i w = (e, w') \<longrightarrow> used w' = used w)"

text \<open>The pool with its world and the pods it has handed out.\<close>

record 'w pool_sys =
  py_pool :: pool
  py_world :: 'w
  py_handed :: "string list"

inductive poolStep :: "'w forker \<Rightarrow> 'w pool_sys \<Rightarrow> unit \<Rightarrow> 'w pool_sys \<Rightarrow> bool" for fk where
  pool_acquire: "Acquire fk key sid (py_pool y) (py_world y) = ((i, warm, e), p, w) \<Longrightarrow> warm \<or> i \<noteq> [] \<Longrightarrow>
     poolStep fk y () \<lparr>py_pool = p, py_world = w, py_handed = i # py_handed y\<rparr>"
| pool_acquire_failed: "Acquire fk key sid (py_pool y) (py_world y) = (([], False, Some e), p, w) \<Longrightarrow>
     poolStep fk y () \<lparr>py_pool = p, py_world = w, py_handed = py_handed y\<rparr>"
| pool_replenish: "Replenish fk now key target (py_pool y) (py_world y) = (r, p, w) \<Longrightarrow>
     poolStep fk y () \<lparr>py_pool = p, py_world = w, py_handed = py_handed y\<rparr>"
| pool_scaledown: "ScaleDown fk t (py_pool y) (py_world y) = (d, p, w) \<Longrightarrow>
     poolStep fk y () \<lparr>py_pool = p, py_world = w, py_handed = py_handed y\<rparr>"

definition poolInit :: "int \<Rightarrow> duration \<Rightarrow> 'w pool_sys \<Rightarrow> bool" where
  "poolInit maxPerKey idleMaxAge y \<longleftrightarrow> py_pool y = NewPool maxPerKey idleMaxAge \<and> py_handed y = []"

definition poolInv :: "('w \<Rightarrow> string set) \<Rightarrow> int \<Rightarrow> 'w pool_sys \<Rightarrow> bool" where
  "poolInv used maxPerKey y \<longleftrightarrow>
     distinct (map fst (pp_pools (py_pool y))) \<and> pp_maxPerKey (py_pool y) = maxPerKey \<and>
     distinct (poolIDs (py_pool y) @ py_handed y) \<and>
     set (poolIDs (py_pool y)) \<union> set (py_handed y) \<subseteq> used (py_world y) \<and>
     (\<forall>key. Size key (py_pool y) \<le> max 0 maxPerKey)"

lemma poolIDs_setPool:
  assumes "distinct (map fst (pp_pools p))"
  shows "mset (poolIDs (setPool key q p)) + mset (map pl_podID (poolOf p key)) = mset (poolIDs p) + mset (map pl_podID q)"
proof -
  have "mset (concat (map (\<lambda>(key, q). map pl_podID q) (AList.update key q ps))) +
      mset (map pl_podID (case map_of ps key of Some q \<Rightarrow> q | None \<Rightarrow> [])) =
    mset (concat (map (\<lambda>(key, q). map pl_podID q) ps)) + mset (map pl_podID q)"
    if "distinct (map fst ps)" for ps :: "(string \<times> pooled list) list"
    using that
  proof (induction ps)
    case (Cons a ps)
    then show ?case
      by (cases a; cases "fst a = key") (auto simp: map_of_eq_None_iff [THEN iffD2] ac_simps)
  qed simp
  from this [OF assms] show ?thesis by (simp add: poolIDs_def setPool_def poolOf_def)
qed

lemma poolOf_setPool: "poolOf (setPool key q p) k = (if k = key then q else poolOf p k)"
  by (simp add: poolOf_def setPool_def update_conv')

lemma setPool_keys: "distinct (map fst (pp_pools p)) \<Longrightarrow> distinct (map fst (pp_pools (setPool key q p)))"
  by (simp add: setPool_def distinct_update)

lemma distinct_mset_sub: "mset xs \<subseteq># mset ys \<Longrightarrow> distinct ys \<Longrightarrow> distinct xs"
proof -
  assume "mset xs \<subseteq># mset ys" "distinct ys"
  then obtain zs where "mset ys = mset (xs @ zs)" by (metis ex_mset mset_append mset_subset_eq_exists_conv)
  with \<open>distinct ys\<close> have "distinct (xs @ zs)" by (metis mset_eq_imp_distinct_iff)
  then show "distinct xs" by simp
qed

text \<open>The three changes of the pools, in terms of the pods they hold.\<close>

lemma popPod_ids:
  assumes "distinct (map fst (pp_pools p))" and "poolOf p key = e # q"
  shows "mset (poolIDs p) = add_mset (pl_podID e) (mset (poolIDs (setPool key q p)))"
  using poolIDs_setPool [OF assms(1), of key q] assms(2) by simp

lemma pushPod_ids:
  assumes "distinct (map fst (pp_pools p))"
  shows "mset (poolIDs (pushPod key i now p)) = add_mset i (mset (poolIDs p))"
  using poolIDs_setPool [OF assms, of key "poolOf p key @ [\<lparr>pl_podID = i, pl_forkedAt = now\<rparr>]"]
  by (simp add: pushPod_def)

lemma pushPod_simps [simp]:
  "pp_maxPerKey (pushPod key i now p) = pp_maxPerKey p"
  "Size k (pushPod key i now p) = Size k p + (if k = key then 1 else 0)"
  "distinct (map fst (pp_pools p)) \<Longrightarrow> distinct (map fst (pp_pools (pushPod key i now p)))"
  by (simp_all add: pushPod_def setPool_keys Size_def poolOf_setPool) (simp add: setPool_def)

lemma scaleDown_ids: "mset (poolIDs (p\<lparr>pp_pools := map (\<lambda>(key, q). (key, filter P q)) (pp_pools p)\<rparr>)) \<subseteq># mset (poolIDs p)"
proof -
  have "mset (concat (map ((\<lambda>(key, q). map pl_podID q) \<circ> (\<lambda>(key, q). (key, filter P q))) ps)) \<subseteq>#
      mset (concat (map (\<lambda>(key, q). map pl_podID q) ps))" for ps :: "(string \<times> pooled list) list"
    by (induction ps) (auto intro!: subset_mset.add_mono image_mset_subseteq_mono multiset_filter_subset)
  then show ?thesis by (simp add: poolIDs_def)
qed

lemma scaleDown_poolOf:
  "poolOf (p\<lparr>pp_pools := map (\<lambda>(key, q). (key, filter P q)) (pp_pools p)\<rparr>) k = filter P (poolOf p k)"
proof -
  have "map_of (map (\<lambda>(key, q). (key, filter P q)) ps) k = map_option (filter P) (map_of ps k)"
    for ps :: "(string \<times> pooled list) list"
    by (induction ps) auto
  then show ?thesis by (simp add: poolOf_def split: option.splits)
qed

lemma forks_freshD:
  assumes "forks_fresh fk used"
  shows "fk_Fork fk key w = (Inr i, w') \<Longrightarrow> i \<notin> used w \<and> used w' = insert i (used w)"
    and "fk_Fork fk key w = (Inl e, w') \<Longrightarrow> used w' = used w"
    and "fk_Promote fk i s w = (err, w') \<Longrightarrow> used w' = used w"
    and "fk_Destroy fk i w = (err, w') \<Longrightarrow> used w' = used w"
proof -
  have f: "case r of Inl _ \<Rightarrow> used w' = used w | Inr i \<Rightarrow> i \<notin> used w \<and> used w' = insert i (used w)"
    if "fk_Fork fk key w = (r, w')" for r
    using assms that unfolding forks_fresh_def by blast
  from f show "fk_Fork fk key w = (Inr i, w') \<Longrightarrow> i \<notin> used w \<and> used w' = insert i (used w)"
    and "fk_Fork fk key w = (Inl e, w') \<Longrightarrow> used w' = used w" by fastforce+
  from assms show "fk_Promote fk i s w = (err, w') \<Longrightarrow> used w' = used w"
    and "fk_Destroy fk i w = (err, w') \<Longrightarrow> used w' = used w" unfolding forks_fresh_def by blast+
qed

lemma destroyAll_used: "forks_fresh fk used \<Longrightarrow> destroyAll fk ids w = (e, w') \<Longrightarrow> used w' = used w"
  by (induction ids arbitrary: w) (auto dest: forks_freshD(4) split: prod.splits option.splits)

text \<open>What a pool state needs, apart from the pods handed out.\<close>

definition poolGood :: "('w \<Rightarrow> string set) \<Rightarrow> int \<Rightarrow> string list \<Rightarrow> pool \<Rightarrow> 'w \<Rightarrow> bool" where
  "poolGood used m handed p w \<longleftrightarrow>
     distinct (map fst (pp_pools p)) \<and> pp_maxPerKey p = m \<and> distinct (poolIDs p @ handed) \<and>
     set (poolIDs p) \<union> set handed \<subseteq> used w \<and> (\<forall>key. Size key p \<le> max 0 m)"

lemma poolInv_good: "poolInv used m y \<longleftrightarrow> poolGood used m (py_handed y) (py_pool y) (py_world y)"
  by (auto simp: poolInv_def poolGood_def)

lemma pushPod_good:
  assumes "poolGood used m handed p w" and "i \<notin> used w" and "used w' = insert i (used w)" and "Size key p < m"
  shows "poolGood used m handed (pushPod key i now p) w'"
proof -
  have "mset (poolIDs (pushPod key i now p)) = mset (i # poolIDs p)"
    using assms(1) pushPod_ids by (simp add: poolGood_def)
  then have "set (poolIDs (pushPod key i now p)) = insert i (set (poolIDs p))"
    "distinct (poolIDs (pushPod key i now p)) \<longleftrightarrow> distinct (i # poolIDs p)"
    by (metis list.simps(15) set_mset_mset, metis mset_eq_imp_distinct_iff)
  with assms show ?thesis by (auto simp: poolGood_def)
qed

lemma replenishLoop_good:
  "forks_fresh fk used \<Longrightarrow> poolGood used m handed p w \<Longrightarrow> target \<le> m \<Longrightarrow> Size key p \<le> current + forked \<Longrightarrow>
   replenishLoop fk now key target current forked p w = (r, p', w') \<Longrightarrow> poolGood used m handed p' w'"
proof (induction fk now key target current forked p w arbitrary: r p' w' rule: replenishLoop.induct)
  case (1 fk now key target current forked p w)
  note run = 1(6) [unfolded replenishLoop.simps [of fk now key target current forked]]
  show ?case
  proof (cases "current + forked < target")
    case False
    with run 1(3) show ?thesis by simp
  next
    case True
    obtain f w1 where f: "fk_Fork fk key w = (f, w1)" by force
    show ?thesis
    proof (cases f)
      case (Inl e)
      with f have "used w1 = used w" using forks_freshD(2) [OF 1(2)] by blast
      with run True f Inl 1(3) show ?thesis by (auto simp: poolGood_def)
    next
      case (Inr i)
      have "poolGood used m handed (pushPod key i (now forked) p) w1"
        using 1(3-5) True forks_freshD(1) [OF 1(2), of key w i w1] f Inr by (intro pushPod_good) auto
      moreover have "replenishLoop fk now key target current (forked + 1) (pushPod key i (now forked) p) w1 = (r, p', w')"
        using run True f Inr by simp
      ultimately show ?thesis
        using 1(1) [OF True f [symmetric] Inr 1(2) _ 1(4)] 1(5) by simp
    qed
  qed
qed

lemma Replenish_good:
  assumes "forks_fresh fk used" and "poolGood used m handed p w" and "Replenish fk now key target p w = (r, p', w')"
  shows "poolGood used m handed p' w'"
  using replenishLoop_good [OF assms(1,2) _ _ assms(3) [unfolded Replenish_def]] assms(2)
  by (simp add: poolGood_def split: if_splits)

lemma poolGood_shrink:
  assumes "poolGood used m handed p w" and "distinct (map fst (pp_pools p'))" and "pp_maxPerKey p' = pp_maxPerKey p"
    and "distinct (poolIDs p' @ handed')" and "set (poolIDs p' @ handed') \<subseteq> set (poolIDs p @ handed)"
    and "\<And>k. Size k p' \<le> Size k p" and "used w' = used w"
  shows "poolGood used m handed' p' w'"
proof -
  have "Size k p' \<le> max 0 m" for k using assms(1) assms(6) [of k] by (auto simp: poolGood_def intro: order_trans)
  with assms show ?thesis by (auto simp: poolGood_def)
qed

lemma ScaleDown_good:
  assumes "forks_fresh fk used" and "poolGood used m handed p w" and "ScaleDown fk t p w = (d, p', w')"
  shows "poolGood used m handed p' w'"
proof -
  let ?P = "\<lambda>e. \<not> expired t (pp_idleMaxAge p) e"
  let ?p = "p\<lparr>pp_pools := map (\<lambda>(key, q). (key, filter ?P q)) (pp_pools p)\<rparr>"
  from assms(3) have p': "p' = ?p" and "used w' = used w"
    by (auto simp: ScaleDown_def Let_def split: prod.splits dest: destroyAll_used [OF assms(1)])
  have sub: "mset (poolIDs ?p @ handed) \<subseteq># mset (poolIDs p @ handed)" using scaleDown_ids by simp
  have "distinct (poolIDs p @ handed)" using assms(2) by (simp add: poolGood_def)
  with sub have d: "distinct (poolIDs ?p @ handed)" by (rule distinct_mset_sub)
  have st: "set (poolIDs ?p @ handed) \<subseteq> set (poolIDs p @ handed)"
    using set_mset_mono [OF sub] by (simp only: set_mset_mset)
  have k: "distinct (map fst (pp_pools ?p))" using assms(2) by (simp add: poolGood_def comp_def case_prod_beta)
  have m: "pp_maxPerKey ?p = pp_maxPerKey p" by simp
  have sz: "Size k ?p \<le> Size k p" for k unfolding Size_def scaleDown_poolOf by simp
  show ?thesis unfolding p' by (rule poolGood_shrink [OF assms(2) k m d st sz \<open>used w' = used w\<close>])
qed

lemma Acquire_good:
  assumes "forks_fresh fk used" and "poolGood used m handed p w" and "Acquire fk key sid p w = ((i, warm, e), p', w')"
  shows "(i = [] \<and> \<not> warm \<and> e \<noteq> None \<and> poolGood used m handed p' w') \<or> (i \<notin> set handed \<and> poolGood used m (i # handed) p' w')"
proof (cases "poolOf p key")
  case (Cons en q)
  then have p': "p' = setPool key q p" "i = pl_podID en" and "used w' = used w"
    using assms(3) forks_freshD(3) [OF assms(1)] by (auto simp: Acquire_def split: prod.splits)
  have "mset (poolIDs p) = mset (i # poolIDs p')" using popPod_ids [OF _ Cons] assms(2) p' by (simp add: poolGood_def)
  then have "set (poolIDs p) = insert i (set (poolIDs p'))" "distinct (poolIDs p) \<longleftrightarrow> distinct (i # poolIDs p')"
    by (metis list.simps(15) set_mset_mset, metis mset_eq_imp_distinct_iff)
  moreover have "Size k p' \<le> Size k p" for k using Cons by (simp add: p' Size_def poolOf_setPool)
  moreover have "pp_maxPerKey p' = pp_maxPerKey p" by (simp add: p' setPool_def)
  ultimately have "poolGood used m (i # handed) p' w'"
    using assms(2) \<open>used w' = used w\<close> p' by (intro poolGood_shrink [OF assms(2)]) (auto simp: poolGood_def setPool_keys)
  with \<open>set (poolIDs p) = insert i (set (poolIDs p'))\<close> assms(2) show ?thesis by (auto simp: poolGood_def)
next
  case Nil
  obtain f w1 where f: "fk_Fork fk key w = (f, w1)" by force
  show ?thesis
  proof (cases f)
    case (Inl err)
    then have "used w1 = used w" using f forks_freshD(2) [OF assms(1)] by blast
    with Inl Nil f assms(2,3) show ?thesis by (auto simp: Acquire_def poolGood_def)
  next
    case (Inr c)
    with f have c: "c \<notin> used w" "used w1 = insert c (used w)" using forks_freshD(1) [OF assms(1)] by blast+
    from Inr Nil f assms(3) have p': "p' = p" "i = c" and pr: "fk_Promote fk c sid w1 = (e, w')"
      by (auto simp: Acquire_def split: prod.splits)
    with c forks_freshD(3) [OF assms(1) pr] assms(2) show ?thesis by (auto simp: poolGood_def)
  qed
qed

interpretation wp: transition_system "poolInit m age" "poolStep fk" "\<lambda>y. forks_fresh fk used \<longrightarrow> poolInv used m y"
  for m age fk used
proof (unfold_locales, goal_cases)
  case (1 y)
  then show ?case by (simp add: poolInit_def poolInv_def NewPool_def poolIDs_def Size_def poolOf_def)
next
  case (2 y e z)
  show ?case
  proof
    assume fresh: "forks_fresh fk used"
    with 2(1) have good: "poolGood used m (py_handed y) (py_pool y) (py_world y)" by (simp add: poolInv_good)
    from 2(2) show "poolInv used m z"
    proof cases
      case (pool_acquire key sid i warm e p w)
      with Acquire_good [OF fresh good pool_acquire(3)] show ?thesis by (auto simp: poolInv_good)
    next
      case (pool_acquire_failed key sid e p w)
      have "poolGood used m (py_handed y) p w"
        using Acquire_good [OF fresh good pool_acquire_failed(3)] by (auto simp: poolGood_def)
      with pool_acquire_failed show ?thesis by (simp add: poolInv_good)
    next
      case pool_replenish
      with Replenish_good [OF fresh good] show ?thesis by (auto simp: poolInv_good)
    next
      case pool_scaledown
      with ScaleDown_good [OF fresh good] show ?thesis by (auto simp: poolInv_good)
    qed
  qed
qed

section \<open>Properties\<close>


text \<open>A forker that numbers its pods.\<close>

definition exForker :: "nat forker" where
  "exForker = \<lparr>fk_Fork = (\<lambda>key n. (Inr (replicate n CHR ''p''), Suc n)), fk_Promote = (\<lambda>_ _ n. (None, n)), fk_Destroy = (\<lambda>_ n. (None, n))\<rparr>"

definition exUsed :: "nat \<Rightarrow> string set" where
  "exUsed n = {s. \<exists>k < n. s = replicate k CHR ''p''}"

lemma ex_fresh: "forks_fresh exForker exUsed"
  by (auto simp: forks_fresh_def exForker_def exUsed_def less_Suc_eq replicate_eq_replicate)

definition exStocked :: "nat pool_sys" where
  "exStocked = (let r = Replenish exForker (\<lambda>_. 0) ''k'' 2 (NewPool 3 Hour) 1 in
     \<lparr>py_pool = fst (snd r), py_world = snd (snd r), py_handed = []\<rparr>)"

lemma ex_stocked_reach: "reach (poolInit 3 Hour) (poolStep exForker) exStocked"
proof -
  let ?y = "\<lparr>py_pool = NewPool 3 Hour, py_world = 1, py_handed = []\<rparr>"
  let ?r = "Replenish exForker (\<lambda>_. 0) ''k'' 2 (NewPool 3 Hour) 1"
  have "Replenish exForker (\<lambda>_. 0) ''k'' 2 (py_pool ?y) (py_world ?y) = (fst ?r, fst (snd ?r), snd (snd ?r))" by simp
  from pool_replenish [OF this] have "poolStep exForker ?y () exStocked" by (simp add: exStocked_def Let_def)
  moreover have "reach (poolInit 3 Hour) (poolStep exForker) ?y" by (rule reach_init) (simp add: poolInit_def)
  ultimately show ?thesis by (blast intro: reach_step)
qed


text \<open>
  A pod is lost when its promotion fails: a warm acquisition whose promotion returns an error has
  taken the pod out of the pool, and neither destroys it nor puts it back.
\<close>

theorem failed_promotion_loses_pod:
  assumes "poolOf p key = entry # q" and "fk_Promote fk (pl_podID entry) sid w = (Some err, w')"
  shows "Acquire fk key sid p w = ((pl_podID entry, True, Some err), setPool key q p, w')"
  using assms by (simp add: Acquire_def)

text \<open>
  \<^verbatim>\<open>ScaleDown\<close> reports pods as destroyed that it did not destroy: when the first destruction fails,
  every expired pod is out of its pool and in the result, and none of the others was tried.
\<close>

theorem scale_down_reports_undestroyed:
  assumes "concat (map (\<lambda>(key, q). map pl_podID (filter (expired now (pp_idleMaxAge p)) q)) (pp_pools p)) = i # is"
    and "fk_Destroy fk i w = (Some err, w')"
  shows "\<exists>p'. ScaleDown fk now p w = ((i # is, Some err), p', w')"
  using assms by (simp add: ScaleDown_def Let_def)

text \<open>
  The cap per key holds for one replenishment at a time only.  Here two of them read the pool size
  before either appends, and their appends leave one pod more than the cap.
\<close>

theorem replenish_race_exceeds_cap:
  "\<exists>p a b. Size ''k'' p = 0 \<and> pp_maxPerKey p = 1 \<and>
     replenishLoop exForker (\<lambda>_. 0) ''k'' 1 (Size ''k'' p) 0 p 1 = ((1, None), a, 2) \<and>
     replenishLoop exForker (\<lambda>_. 0) ''k'' 1 (Size ''k'' p) 0 a 2 = ((1, None), b, 3) \<and> Size ''k'' b = 2"
  by (rule exI [of _ "NewPool 1 Hour"])
    (simp add: replenishLoop.simps NewPool_def Size_def poolOf_def exForker_def pushPod_def setPool_def)

end
