(* ===== verification/ResumeFlow.thy ===== *)
theory ResumeFlow
  imports StopHook WarmPool Harness
begin

text \<open>
  \<^verbatim>\<open>internal/resume\<close>: from the manifest of an ended session to the plan that restarts its agent loop in a
  fresh pod.  Session lookup, git, transcripts and object storage act on a world \<open>'w\<close> and are
  parameters, as is the JSON decoding of the manifest, which has the fields of the stop hook's.
\<close>

section \<open>Data\<close>

definition BranchExists :: string where "BranchExists = ''exists''"
definition BranchGone :: string where "BranchGone = ''missing''"
definition BranchMerged :: string where "BranchMerged = ''merged''"

record plan =
  pn_SessionID :: string
  pn_PodID :: string
  pn_EnvironmentKey :: string
  pn_WarmHit :: bool
  pn_AgentVersion :: string
  pn_Messages :: "message list"
  pn_Summary :: string
  pn_OpenPRs :: "string list"
  pn_RecoveryDiff :: "string option"
  pn_Warnings :: "string list"

record 'w transcripts =
  tr_Summary :: "string \<Rightarrow> 'w \<Rightarrow> string result \<times> 'w"
  tr_Tail :: "string \<Rightarrow> int \<Rightarrow> 'w \<Rightarrow> message list result \<times> 'w"

text \<open>\<^verbatim>\<open>GetSession\<close> returns the environment key and the raw manifest.\<close>

record 'w resumer =
  rr_GetSession :: "string \<Rightarrow> string \<Rightarrow> 'w \<Rightarrow> (string \<times> string) result \<times> 'w"
  rr_Unmarshal :: "string \<Rightarrow> manifest result"
  rr_Status :: "string \<Rightarrow> string \<Rightarrow> string \<Rightarrow> 'w \<Rightarrow> string result \<times> 'w"
  rr_Forker :: "'w forker"
  rr_Transcript :: "'w transcripts option"
  rr_Fetch :: "(string \<Rightarrow> 'w \<Rightarrow> string result \<times> 'w) option"
  rr_TailN :: int

definition ErrNoManifest :: goerr where
  "ErrNoManifest = ErrNew ''session has no manifest to resume from''"

section \<open>The steps\<close>

definition addWarning :: "string \<Rightarrow> plan \<Rightarrow> plan" where
  "addWarning msg p = p\<lparr>pn_Warnings := pn_Warnings p @ [msg]\<rparr>"

definition addPRs :: "string list \<Rightarrow> plan \<Rightarrow> plan" where
  "addPRs prs p = p\<lparr>pn_OpenPRs := pn_OpenPRs p @ prs\<rparr>"

fun checkBranches :: "'w resumer \<Rightarrow> git_state list \<Rightarrow> plan \<Rightarrow> 'w \<Rightarrow> plan \<times> 'w" where
  "checkBranches r [] p w = (p, w)"
| "checkBranches r (g # gs) p w =
     (if gs_HeadSHA g = [] then checkBranches r gs p w
      else
        (case rr_Status r (gs_Repo g) (gs_Branch g) (gs_HeadSHA g) w of
           (Inl err, w1) \<Rightarrow>
             checkBranches r gs (addWarning (''branch check '' @ gs_Branch g @ ''@'' @ gs_Repo g @ '' failed: '' @ errText err) p) w1
         | (Inr status, w1) \<Rightarrow>
             checkBranches r gs
               (if status = BranchGone then addWarning (''branch '' @ gs_Branch g @ '' no longer exists on '' @ gs_Repo g) p
                else if status = BranchMerged
                then addPRs (gs_PRs g) (addWarning (''branch '' @ gs_Branch g @ '' was already merged ('' @ showStrings (gs_PRs g) @ '')'') p)
                else addPRs (gs_PRs g) p) w1))"

definition hydrate :: "'w resumer \<Rightarrow> int \<Rightarrow> manifest \<Rightarrow> plan \<Rightarrow> 'w \<Rightarrow> plan \<times> 'w" where
  "hydrate r tailN m p w =
     (case rr_Transcript r of
        None \<Rightarrow> (p, w)
      | Some t \<Rightarrow>
          if mf_TranscriptRef m = [] then (p, w)
          else
            (case tr_Summary t (mf_TranscriptRef m) w of
               (s, w1) \<Rightarrow>
                 (case tr_Tail t (mf_TranscriptRef m) tailN w1 of
                    (ms, w2) \<Rightarrow>
                      (let p1 = (case s of Inr txt \<Rightarrow> p\<lparr>pn_Summary := txt\<rparr> | Inl _ \<Rightarrow> p);
                           p2 = (case ms of Inr msgs \<Rightarrow> p1\<lparr>pn_Messages := msgs\<rparr> | Inl _ \<Rightarrow> p1)
                       in (p2, w2)))))"

fun recoverDiffs :: "'w resumer \<Rightarrow> git_state list \<Rightarrow> plan \<Rightarrow> 'w \<Rightarrow> plan \<times> 'w" where
  "recoverDiffs r [] p w = (p, w)"
| "recoverDiffs r (g # gs) p w =
     (case rr_Fetch r of
        None \<Rightarrow> recoverDiffs r gs p w
      | Some fetch \<Rightarrow>
          if \<not> gs_Uncommitted g \<or> gs_DiffRef g = [] then recoverDiffs r gs p w
          else
            (case fetch (gs_DiffRef g) w of
               (Inl err, w1) \<Rightarrow>
                 recoverDiffs r gs (addWarning (''recovery diff '' @ goQuote (gs_DiffRef g) @ '' unavailable: '' @ errText err) p) w1
             | (Inr diff, w1) \<Rightarrow>
                 recoverDiffs r gs
                   (addWarning (''previous session ended with UNCOMMITTED changes on '' @ gs_Branch g @ '' ('' @ gs_Repo g
                      @ ''); review before proceeding'') (p\<lparr>pn_RecoveryDiff := Some diff\<rparr>)) w1))"

definition newPlan :: "string \<Rightarrow> string \<Rightarrow> manifest \<Rightarrow> plan" where
  "newPlan sessionID envKey m =
     \<lparr>pn_SessionID = sessionID, pn_PodID = [], pn_EnvironmentKey = envKey, pn_WarmHit = False,
      pn_AgentVersion = mf_AgentVersion m, pn_Messages = [], pn_Summary = [], pn_OpenPRs = [],
      pn_RecoveryDiff = None, pn_Warnings = []\<rparr>"

definition ResumeSession :: "'w resumer \<Rightarrow> string \<Rightarrow> string \<Rightarrow> pool \<Rightarrow> 'w \<Rightarrow> plan result \<times> pool \<times> 'w" where
  "ResumeSession r orgID sessionID pool w =
     (let tailN = (if rr_TailN r = 0 then 20 else rr_TailN r) in
      case rr_GetSession r orgID sessionID w of
        (Inl err, w1) \<Rightarrow> (Inl err, pool, w1)
      | (Inr (envKey, raw), w1) \<Rightarrow>
     (if raw = [] then (Inl ErrNoManifest, pool, w1)
      else
     (case rr_Unmarshal r raw of
        Inl err \<Rightarrow> (Inl (ErrWrap (''manifest decode: '' @ errText err) err), pool, w1)
      | Inr m \<Rightarrow>
     (case checkBranches r (mf_GitState m) (newPlan sessionID envKey m) w1 of
        (p1, w2) \<Rightarrow>
     (case Acquire (rr_Forker r) envKey sessionID pool w2 of
        ((podID, warm, Some err), pool', w3) \<Rightarrow> (Inl (ErrWrap (''sandbox fork: '' @ errText err) err), pool', w3)
      | ((podID, warm, None), pool', w3) \<Rightarrow>
     (case hydrate r tailN m (p1\<lparr>pn_PodID := podID, pn_WarmHit := warm\<rparr>) w3 of
        (p2, w4) \<Rightarrow>
     (case recoverDiffs r (mf_GitState m) p2 w4 of (p3, w5) \<Rightarrow> (Inr p3, pool', w5))))))))"

section \<open>Diffs of the manifest\<close>

text \<open>The pairs of work and manifest entry whose work was not pushed.\<close>

definition unpushed :: "repo_work list \<Rightarrow> git_state list \<Rightarrow> (repo_work \<times> git_state) list" where
  "unpushed rws gss = filter (\<lambda>(rw, gs). gs_Uncommitted gs) (zip rws gss)"

lemma plan_updates [simp]:
  "pn_RecoveryDiff (addWarning msg p) = pn_RecoveryDiff p" "pn_RecoveryDiff (addPRs prs p) = pn_RecoveryDiff p"
  by (simp_all add: addWarning_def addPRs_def)

lemma checkBranches_diff: "checkBranches r gs p w = (p', w') \<Longrightarrow> pn_RecoveryDiff p' = pn_RecoveryDiff p"
  by (induction gs arbitrary: p w) (auto split: if_splits prod.splits sum.splits)

lemma hydrate_diff: "hydrate r n m p w = (p', w') \<Longrightarrow> pn_RecoveryDiff p' = pn_RecoveryDiff p"
  by (auto simp: hydrate_def Let_def split: option.splits if_splits prod.splits sum.splits)

section \<open>Branches of the manifest\<close>

text \<open>The warnings about a branch that may not carry the work any more.\<close>

definition branchFlagged :: "git_state \<Rightarrow> string \<Rightarrow> bool" where
  "branchFlagged g msg \<longleftrightarrow>
     msg = ''branch '' @ gs_Branch g @ '' no longer exists on '' @ gs_Repo g \<or>
     prefix (''branch check '' @ gs_Branch g @ ''@'' @ gs_Repo g @ '' failed: '') msg"

definition branchAccounted :: "plan \<Rightarrow> git_state \<Rightarrow> bool" where
  "branchAccounted p g \<longleftrightarrow> set (gs_PRs g) \<subseteq> set (pn_OpenPRs p) \<or> list_ex (branchFlagged g) (pn_Warnings p)"

definition planGrows :: "plan \<Rightarrow> plan \<Rightarrow> bool" where
  "planGrows p q \<longleftrightarrow> prefix (pn_Warnings p) (pn_Warnings q) \<and> prefix (pn_OpenPRs p) (pn_OpenPRs q)"

lemma planGrows_trans: "planGrows p q \<Longrightarrow> planGrows q r \<Longrightarrow> planGrows p r"
  by (auto simp: planGrows_def intro: prefix_order.trans)

lemma branchAccounted_mono: "planGrows p q \<Longrightarrow> branchAccounted p g \<Longrightarrow> branchAccounted q g"
  by (fastforce simp: planGrows_def branchAccounted_def list_ex_iff dest: set_mono_prefix)

lemma checkBranches_accounts:
  "checkBranches r gs p w = (p', w') \<Longrightarrow> planGrows p p' \<and> (\<forall>g \<in> set gs. gs_HeadSHA g = [] \<or> branchAccounted p' g)"
proof (induction gs arbitrary: p w)
  case Nil
  then show ?case by (simp add: planGrows_def)
next
  case (Cons g gs)
  show ?case
  proof (cases "gs_HeadSHA g = []")
    case True
    with Cons show ?thesis by auto
  next
    case False
    obtain x w1 where "rr_Status r (gs_Repo g) (gs_Branch g) (gs_HeadSHA g) w = (x, w1)" by (rule prod.exhaust)
    with Cons.prems False obtain p1 where cb: "checkBranches r gs p1 w1 = (p', w')" and p1: "planGrows p p1" "branchAccounted p1 g"
      by (cases x) (auto simp: planGrows_def branchAccounted_def branchFlagged_def addWarning_def addPRs_def)
    from Cons.IH [OF cb] p1 branchAccounted_mono [OF _ p1(2)] show ?thesis by (auto intro: planGrows_trans)
  qed
qed

lemma hydrate_grows: "hydrate r n m p w = (p', w') \<Longrightarrow> planGrows p p'"
  by (auto simp: hydrate_def Let_def planGrows_def split: option.splits if_splits prod.splits sum.splits)

lemma recoverDiffs_grows: "recoverDiffs r gs p w = (p', w') \<Longrightarrow> planGrows p p'"
proof (induction gs arbitrary: p w)
  case (Cons g gs)
  then obtain p1 w1 where "recoverDiffs r gs p1 w1 = (p', w')" "planGrows p p1"
    by (auto simp: planGrows_def addWarning_def split: option.splits if_splits prod.splits sum.splits)
  with Cons.IH show ?case by (blast intro: planGrows_trans)
qed (simp add: planGrows_def)

text \<open>What a resumption that succeeds did, step by step.\<close>

lemma ResumeSession_steps:
  assumes "ResumeSession r orgID sessionID pool w = (Inr p, pool', w')"
  obtains envKey raw m w1 p1 w2 n x w3 pd wm p2 w4 where "rr_GetSession r orgID sessionID w = (Inr (envKey, raw), w1)" "rr_Unmarshal r raw = Inr m"
    "checkBranches r (mf_GitState m) (newPlan sessionID envKey m) w1 = (p1, w2)" "Acquire (rr_Forker r) envKey sessionID pool w2 = (x, pool', w3)"
    "hydrate r n m (p1\<lparr>pn_PodID := pd, pn_WarmHit := wm\<rparr>) w3 = (p2, w4)" "recoverDiffs r (mf_GitState m) p2 w4 = (p, w')"
  using assms by (auto simp: ResumeSession_def Let_def split: if_splits prod.splits option.splits sum.splits)

text \<open>
  Every pushed branch of the manifest is accounted for in a plan: its pull requests are listed, or a warning says that the branch
  is gone or could not be checked.
\<close>

theorem resumed_branches_accounted:
  assumes "ResumeSession r orgID sessionID pool w = (Inr p, pool', w')"
  shows "\<exists>envKey raw w1 m. rr_GetSession r orgID sessionID w = (Inr (envKey, raw), w1) \<and> rr_Unmarshal r raw = Inr m \<and>
    (\<forall>g \<in> set (mf_GitState m). gs_HeadSHA g = [] \<or> branchAccounted p g)"
proof -
  from ResumeSession_steps [OF assms] obtain envKey raw m w1 p1 w2 n w3 pd wm p2 w4 where
    g: "rr_GetSession r orgID sessionID w = (Inr (envKey, raw), w1)" "rr_Unmarshal r raw = Inr m" and
    steps: "checkBranches r (mf_GitState m) (newPlan sessionID envKey m) w1 = (p1, w2)"
      "hydrate r n m (p1\<lparr>pn_PodID := pd, pn_WarmHit := wm\<rparr>) w3 = (p2, w4)" "recoverDiffs r (mf_GitState m) p2 w4 = (p, w')" .
  have "planGrows p1 (p1\<lparr>pn_PodID := pd, pn_WarmHit := wm\<rparr>)" by (simp add: planGrows_def)
  from planGrows_trans [OF this planGrows_trans [OF hydrate_grows [OF steps(2)] recoverDiffs_grows [OF steps(3)]]]
  have "branchAccounted p1 g \<Longrightarrow> branchAccounted p g" for g by (rule branchAccounted_mono)
  with checkBranches_accounts [OF steps(1)] g show ?thesis by blast
qed

end
