(* ===== verification/Serving.thy ===== *)
theory Serving
  imports Health
begin

text \<open>
  The life of the two server processes, \<^verbatim>\<open>cmd/registry\<close> and \<^verbatim>\<open>cmd/orchestrator\<close>, from listening to exit: the main goroutine,
  the goroutine that waits for a signal, and the HTTP server between them, whose \<^verbatim>\<open>ListenAndServe\<close> and \<^verbatim>\<open>Shutdown\<close> follow
  the documentation of \<^verbatim>\<open>net/http\<close>.  Also the routes of the orchestrator process.
\<close>

section \<open>The process\<close>

datatype main_state = Listening | AwaitingDone | Exited int

datatype signal_state = AwaitingSignal | ShuttingDown time | DoneClosed

text \<open>\<open>sp_accepting\<close>: the listener is open.  \<open>sp_active\<close>: the connections that serve a request.  \<open>sp_log\<close>: the log lines.\<close>

record server_process =
  sp_main :: main_state
  sp_signal :: signal_state
  sp_accepting :: bool
  sp_active :: nat
  sp_now :: time
  sp_log :: "string list"

definition shutdownGrace :: duration where
  "shutdownGrace = 10 * Second"

datatype server_event =
    Tick duration
  | RequestStarts
  | RequestEnds
  | SignalArrives
  | ListenFails goerr
  | ListenReturnsClosed
  | ShutdownReturns
  | ShutdownTimesOut goerr
  | MainReturns

text \<open>
  A failing \<^verbatim>\<open>ListenAndServe\<close> ends the process in \<^verbatim>\<open>log.Fatalf\<close>; after \<^verbatim>\<open>Shutdown\<close> was called it returns \<^verbatim>\<open>ErrServerClosed\<close>,
  which does not.  \<^verbatim>\<open>Shutdown\<close> closes the listener, and returns when no request is active or with the error of the context
  once the grace period is over.
\<close>

inductive serverStep :: "server_process \<Rightarrow> server_event \<Rightarrow> server_process \<Rightarrow> bool" where
  tick: "0 \<le> d \<Longrightarrow> serverStep p (Tick d) (p\<lparr>sp_now := sp_now p + d\<rparr>)"
| starts: "sp_accepting p \<Longrightarrow> serverStep p RequestStarts (p\<lparr>sp_active := Suc (sp_active p)\<rparr>)"
| ends: "sp_active p = Suc n \<Longrightarrow> serverStep p RequestEnds (p\<lparr>sp_active := n\<rparr>)"
| signal: "sp_signal p = AwaitingSignal \<Longrightarrow>
    serverStep p SignalArrives (p\<lparr>sp_signal := ShuttingDown (sp_now p + shutdownGrace), sp_accepting := False\<rparr>)"
| fails: "sp_main p = Listening \<Longrightarrow> sp_signal p = AwaitingSignal \<Longrightarrow>
    serverStep p (ListenFails err) (p\<lparr>sp_main := Exited 1, sp_accepting := False, sp_log := (''serve: '' @ errText err) # sp_log p\<rparr>)"
| closed: "sp_main p = Listening \<Longrightarrow> sp_signal p \<noteq> AwaitingSignal \<Longrightarrow> serverStep p ListenReturnsClosed (p\<lparr>sp_main := AwaitingDone\<rparr>)"
| drained: "sp_signal p = ShuttingDown deadline \<Longrightarrow> sp_active p = 0 \<Longrightarrow> serverStep p ShutdownReturns (p\<lparr>sp_signal := DoneClosed\<rparr>)"
| timeout: "sp_signal p = ShuttingDown deadline \<Longrightarrow> deadline \<le> sp_now p \<Longrightarrow>
    serverStep p (ShutdownTimesOut err) (p\<lparr>sp_signal := DoneClosed, sp_log := (''shutdown error: '' @ errText err) # sp_log p\<rparr>)"
| returns: "sp_main p = AwaitingDone \<Longrightarrow> sp_signal p = DoneClosed \<Longrightarrow> serverStep p MainReturns (p\<lparr>sp_main := Exited 0\<rparr>)"

inductive_cases serverStepE: "serverStep p e p'"

text \<open>A process that exited takes no step.\<close>

definition exited :: "server_process \<Rightarrow> bool" where
  "exited p \<longleftrightarrow> (case sp_main p of Exited c \<Rightarrow> True | _ \<Rightarrow> False)"

definition liveStep :: "server_process \<Rightarrow> server_event \<Rightarrow> server_process \<Rightarrow> bool" where
  "liveStep p e p' \<longleftrightarrow> \<not> exited p \<and> serverStep p e p'"

definition serverInit :: "server_process \<Rightarrow> bool" where
  "serverInit p \<longleftrightarrow> (\<exists>t. p = \<lparr>sp_main = Listening, sp_signal = AwaitingSignal, sp_accepting = True, sp_active = 0, sp_now = t, sp_log = []\<rparr>)"

section \<open>Graceful exit\<close>

text \<open>The shutdown is over only if no request was active then, or its error was logged.\<close>

definition serverInv :: "server_process \<Rightarrow> bool" where
  "serverInv p \<longleftrightarrow>
     (case sp_main p of
        Listening \<Rightarrow> True
      | AwaitingDone \<Rightarrow> sp_signal p \<noteq> AwaitingSignal
      | Exited c \<Rightarrow> (if c = 0 then sp_signal p = DoneClosed else sp_signal p = AwaitingSignal \<and> sp_log p \<noteq> [])) \<and>
     (exited p \<or> sp_accepting p = (sp_signal p = AwaitingSignal)) \<and>
     (exited p \<longrightarrow> \<not> sp_accepting p) \<and>
     (sp_signal p = DoneClosed \<longrightarrow> sp_active p = 0 \<or> sp_log p \<noteq> []) \<and>
     (\<not> exited p \<longrightarrow> sp_signal p \<noteq> DoneClosed \<longrightarrow> sp_log p = [])"

interpretation sp: transition_system serverInit liveStep serverInv
proof (unfold_locales, goal_cases)
  case (1 p)
  then show ?case by (auto simp: serverInit_def serverInv_def exited_def)
next
  case (2 p e p')
  from 2(2) have live: "\<not> exited p" and step: "serverStep p e p'" by (simp_all add: liveStep_def)
  from step 2(1) live show ?case
    by (elim serverStepE) (auto simp: serverInv_def exited_def split: main_state.splits)
qed


text \<open>After the shutdown the main goroutine can return.\<close>

lemma main_can_return:
  assumes "sp_signal q = DoneClosed" "\<not> exited q"
  shows "\<exists>es. stepPath liveStep q es (q\<lparr>sp_main := Exited 0\<rparr>) \<and> length es \<le> 2"
proof (cases "sp_main q")
  case Listening
  let ?r = "q\<lparr>sp_main := AwaitingDone\<rparr>"
  have "liveStep q ListenReturnsClosed ?r" "liveStep ?r MainReturns (?r\<lparr>sp_main := Exited 0\<rparr>)"
    using assms Listening serverStep.closed [of q] serverStep.returns [of ?r] by (simp_all add: liveStep_def exited_def)
  then show ?thesis by (intro exI [of _ "[ListenReturnsClosed, MainReturns]"]) (auto simp: path_Cons_iff)
next
  case AwaitingDone
  have "liveStep q MainReturns (q\<lparr>sp_main := Exited 0\<rparr>)"
    using assms AwaitingDone by (auto simp: liveStep_def exited_def intro: serverStep.returns)
  then show ?thesis by (intro exI [of _ "[MainReturns]"]) (simp add: path_Cons_iff)
qed (use assms in \<open>simp add: exited_def\<close>)

text \<open>A shutdown that began can end: at once without active requests, and otherwise when the grace period is over.\<close>

lemma shutdown_can_end:
  assumes "sp_signal p \<noteq> AwaitingSignal" "\<not> exited p"
  obtains es q where "stepPath liveStep p es q" "length es \<le> 2" "sp_signal q = DoneClosed" "\<not> exited q"
    "sp_active p = 0 \<longrightarrow> sp_now q = sp_now p \<and> sp_log q = sp_log p"
proof (cases "sp_signal p")
  case (ShuttingDown deadline)
  show thesis
  proof (cases "sp_active p = 0")
    case True
    have "liveStep p ShutdownReturns (p\<lparr>sp_signal := DoneClosed\<rparr>)"
      using assms(2) ShuttingDown True by (auto simp: liveStep_def intro: serverStep.drained)
    then show thesis using assms(2) by (intro that [of "[ShutdownReturns]" "p\<lparr>sp_signal := DoneClosed\<rparr>"]) (simp_all add: path_Cons_iff exited_def)
  next
    case False
    let ?wait = "Tick (max 0 (deadline - sp_now p))" and ?stop = "ShutdownTimesOut (ErrNew [])"
    define late where "late = p\<lparr>sp_now := sp_now p + max 0 (deadline - sp_now p)\<rparr>"
    let ?q = "late\<lparr>sp_signal := DoneClosed, sp_log := (''shutdown error: '' @ errText (ErrNew [])) # sp_log late\<rparr>"
    have "liveStep p ?wait late" unfolding late_def liveStep_def using assms(2) by (intro conjI serverStep.tick) simp_all
    moreover have "liveStep late ?stop ?q"
      using assms(2) ShuttingDown unfolding liveStep_def
      by (intro conjI serverStep.timeout [of _ deadline]) (simp_all add: late_def exited_def)
    ultimately have "stepPath liveStep p [?wait, ?stop] ?q" by (auto simp: path_Cons_iff)
    then show thesis using assms(2) False by (intro that [of "[?wait, ?stop]" ?q]) (simp_all add: late_def exited_def)
  qed
next
  case DoneClosed
  then show thesis using assms(2) by (intro that [of "[]" p]) simp_all
qed (use assms(1) in simp)

text \<open>So a process that was signalled can always end well, and needs no more than the grace period for it.\<close>

lemma shutdown_can_finish:
  assumes "sp_signal p \<noteq> AwaitingSignal" and "\<not> exited p"
  shows "\<exists>es p'. stepPath liveStep p es p' \<and> sp_main p' = Exited 0 \<and> length es \<le> 4 \<and>
    (sp_active p = 0 \<longrightarrow> sp_now p' = sp_now p \<and> sp_log p' = sp_log p)"
proof -
  obtain es q where q: "stepPath liveStep p es q" "length es \<le> 2" "sp_signal q = DoneClosed" "\<not> exited q"
    "sp_active p = 0 \<longrightarrow> sp_now q = sp_now p \<and> sp_log q = sp_log p" using shutdown_can_end [OF assms] .
  obtain es' where e: "stepPath liveStep q es' (q\<lparr>sp_main := Exited 0\<rparr>)" "length es' \<le> 2" using main_can_return [OF q(3,4)] by blast
  have "stepPath liveStep p (es @ es') (q\<lparr>sp_main := Exited 0\<rparr>)" using q(1) e(1) by (rule stepPath_append)
  with q e show ?thesis by (intro exI [of _ "es @ es'"] exI [of _ "q\<lparr>sp_main := Exited 0\<rparr>"]) simp
qed


section \<open>The orchestrator process\<close>

text \<open>Its handler is that of \<^verbatim>\<open>health.NewHandler\<close>, with no checker registered.\<close>

definition orchestratorServe :: "'w \<Rightarrow> string \<Rightarrow> int \<times> health_body" where
  "orchestratorServe w p = healthServe w [] p"

lemma orchestrator_iterates: "iterates [] NewHandler"
  by (simp add: iterates_def NewHandler_def)

text \<open>The process serves its two health pages and nothing else, and is ready whatever the state of the system.\<close>

theorem orchestrator_serves_health_only:
  "orchestratorServe w p = (if p = ''/healthz'' \<or> p = ''/readyz'' then (200, StatusOK) else (404, NoSuchPage))"
  using readiness_reports_failures [OF orchestrator_iterates, of w]
  by (simp add: orchestratorServe_def healthServe_def liveness_def NewHandler_def)

end
