(* ===== verification/Spans.thy ===== *)
theory Spans
  imports Prelude
begin

text \<open>
  \<^verbatim>\<open>internal/tracing\<close>, its spans.  OpenTelemetry is a parameter: an exporter and a provider are made from it, the provider is set as the
  global one, and a tracer starts spans with their attributes.
\<close>

datatype 'v attribute_value = StringValue string | OtherValue 'v

type_synonym 'v attributes = "(string \<times> 'v attribute_value) list"

record ('w, 'e, 'p) otel =
  ot_newExporter :: "'w \<Rightarrow> 'e result \<times> 'w"
  ot_newProvider :: "'e \<Rightarrow> 'w \<Rightarrow> 'p \<times> 'w"  \<comment> \<open>with a batcher of the exporter\<close>
  ot_SetTracerProvider :: "'p \<Rightarrow> 'w \<Rightarrow> 'w"
  ot_Shutdown :: "'p \<Rightarrow> 'w \<Rightarrow> goerr option \<times> 'w"

definition RunIDKey :: string where "RunIDKey = ''dark-factory.run_id''"

definition InitTracing :: "('w, 'e, 'p) otel \<Rightarrow> 'w \<Rightarrow> ('w \<Rightarrow> goerr option \<times> 'w) result \<times> 'w" where
  "InitTracing ot w =
     (case ot_newExporter ot w of
        (Inl err, w1) \<Rightarrow> (Inl err, w1)
      | (Inr ex, w1) \<Rightarrow>
          (case ot_newProvider ot ex w1 of (tp, w2) \<Rightarrow> (Inr (ot_Shutdown ot tp), ot_SetTracerProvider ot tp w2)))"

text \<open>The tracer of a name is the one of the provider that is global when it is asked for.\<close>

definition Tracer :: "('w \<Rightarrow> string \<Rightarrow> 't) \<Rightarrow> string \<Rightarrow> 'w \<Rightarrow> 't" where
  "Tracer otelTracer name w = otelTracer w name"

definition RunSpan :: "(string \<Rightarrow> 'v attributes \<Rightarrow> 'w \<Rightarrow> 's \<times> 'w) \<Rightarrow> string \<Rightarrow> string \<Rightarrow> 'v attributes \<Rightarrow> 'w \<Rightarrow> 's \<times> 'w" where
  "RunSpan tracerStart name runID attrs w = tracerStart name ((RunIDKey, StringValue runID) # attrs) w"

section \<open>Correlation\<close>

text \<open>A started span has its attributes; of several with one key the last one counts.\<close>

definition recordsLast :: "(string \<Rightarrow> 'v attributes \<Rightarrow> 'w \<Rightarrow> 's \<times> 'w) \<Rightarrow> ('s \<Rightarrow> string \<rightharpoonup> 'v attribute_value) \<Rightarrow> bool" where
  "recordsLast tracerStart attrOf \<longleftrightarrow> (\<forall>name attrs w. attrOf (fst (tracerStart name attrs w)) = map_of (rev attrs))"

text \<open>
  A span of a run carries the run's id, whatever else it carries, exactly when no attribute of the caller has the same key with another value
  last: the code puts the id first, where a later attribute of that key replaces it.
\<close>

theorem span_correlated_iff:
  assumes "recordsLast tracerStart attrOf" and "RunSpan tracerStart name runID attrs w = (sp, w')"
  shows "attrOf sp RunIDKey = Some (StringValue runID) \<longleftrightarrow>
    (map_of (rev attrs) RunIDKey = None \<or> map_of (rev attrs) RunIDKey = Some (StringValue runID))"
proof -
  have "attrOf sp = map_of (rev ((RunIDKey, StringValue runID) # attrs))"
    using assms unfolding recordsLast_def RunSpan_def by (metis fst_conv)
  then show ?thesis by (simp add: map_add_def split: option.split)
qed

text \<open>Starting twice replaces the provider; an exporter that cannot be made leaves the global provider alone.\<close>

theorem tracing_init_sets_provider:
  assumes "\<And>tp w. global (ot_SetTracerProvider ot tp w) = Some tp"
    and "\<And>w. global (snd (ot_newExporter ot w)) = global w" and "InitTracing ot w = (r, w')"
  shows "case r of Inl _ \<Rightarrow> global w' = global w | Inr stop \<Rightarrow> (\<exists>tp. global w' = Some tp \<and> stop = ot_Shutdown ot tp)"
proof -
  obtain x w1 where x: "ot_newExporter ot w = (x, w1)" by (rule prod.exhaust)
  show ?thesis
  proof (cases x)
    case (Inl err)
    with assms(3) x assms(2) [of w] show ?thesis by (auto simp: InitTracing_def)
  next
    case (Inr ex)
    obtain tp w2 where "ot_newProvider ot ex w1 = (tp, w2)" by (rule prod.exhaust)
    with assms(1,3) x Inr show ?thesis by (auto simp: InitTracing_def)
  qed
qed

end
