(* ===== verification/StopResume.thy ===== *)
theory StopResume
  imports ResumeFlow Adapters ManifestCodec
begin

text \<open>
  A session from its stop to its resumption, over the stores that the platform uses: the stop hook with the S3 blob store and
  the manifest on the session's DynamoDB record, and the resume flow that reads both.
\<close>

section \<open>The parts put together\<close>

text \<open>
  The repository has no implementation of the resume flow's session lookup; its interface asks for one that is backed by the
  session store: a lookup that succeeds gives the environment key and the manifest of the stored session.
\<close>

definition storeBacked :: "'w store \<Rightarrow> (string \<Rightarrow> string \<Rightarrow> 'w \<Rightarrow> (string \<times> string) result \<times> 'w) \<Rightarrow> bool" where
  "storeBacked st lookup \<longleftrightarrow>
     (\<forall>orgID sessionID w envKey raw w'. lookup orgID sessionID w = (Inr (envKey, raw), w') \<longrightarrow>
        (\<exists>sess. GetSession st orgID sessionID w = (Inr sess, w') \<and> envKey = se_EnvironmentKey sess \<and> raw = se_Manifest sess))"

definition deployedHook :: "'w store \<Rightarrow> 'w s3_blob_store \<Rightarrow> (json \<Rightarrow> string) \<Rightarrow> 'w hook \<Rightarrow> bool" where
  "deployedHook st blobs print h \<longleftrightarrow>
     hk_Upload h = Upload blobs \<and> hk_SaveManifest h = Some (ManifestPersister st) \<and> hk_Marshal h = (\<lambda>m. Inr (print (manifestJSON m)))"

definition deployedResumer :: "'w store \<Rightarrow> 'w s3_client \<Rightarrow> (string \<Rightarrow> json result) \<Rightarrow> 'w resumer \<Rightarrow> bool" where
  "deployedResumer st client parse r \<longleftrightarrow>
     storeBacked st (rr_GetSession r) \<and> rr_Unmarshal r = Unmarshal parse manifestField zeroManifest \<and> rr_Fetch r = Some (Fetch client)"

section \<open>What is relied on of the services\<close>

text \<open>An object that is there can be read to its end, and reading leaves the objects alone.\<close>

definition s3_reads :: "'w s3_client \<Rightarrow> ('w \<Rightarrow> string \<times> string \<rightharpoonup> string) \<Rightarrow> bool" where
  "s3_reads client objects \<longleftrightarrow>
     (\<forall>b k w d. objects w (b, k) = Some d \<longrightarrow>
        (\<exists>bd w'. s3_GetObject client b k w = (Inr bd, w') \<and> snd (List.last bd) = Some EOF \<and> objects w' = objects w))"

text \<open>The other services do not touch the bucket.\<close>

definition leavesBlobs :: "('w \<Rightarrow> string \<times> string \<rightharpoonup> string) \<Rightarrow> ('w \<Rightarrow> 'x \<times> 'w) \<Rightarrow> bool" where
  "leavesBlobs objects f \<longleftrightarrow> (\<forall>w. objects (snd (f w)) = objects w)"

definition hookApart :: "('w \<Rightarrow> string \<times> string \<rightharpoonup> string) \<Rightarrow> 'w store \<Rightarrow> 'w hook \<Rightarrow> bool" where
  "hookApart objects st h \<longleftrightarrow>
     (\<forall>repo br diff. leavesBlobs objects (hk_CommitAndPush h repo br diff)) \<and> (\<forall>u. leavesBlobs objects (dd_UpdateItem (st_client st) u))"

definition resumeApart :: "('w \<Rightarrow> string \<times> string \<rightharpoonup> string) \<Rightarrow> 'w store \<Rightarrow> 'w resumer \<Rightarrow> bool" where
  "resumeApart objects st r \<longleftrightarrow>
     (\<forall>t key c. leavesBlobs objects (dd_GetItem (st_client st) t key c)) \<and>
     (\<forall>repo br sha. leavesBlobs objects (rr_Status r repo br sha)) \<and>
     (\<forall>key. leavesBlobs objects (fk_Fork (rr_Forker r) key)) \<and> (\<forall>pod sid. leavesBlobs objects (fk_Promote (rr_Forker r) pod sid)) \<and>
     (\<forall>t. rr_Transcript r = Some t \<longrightarrow> (\<forall>ref. leavesBlobs objects (tr_Summary t ref)) \<and> (\<forall>ref n. leavesBlobs objects (tr_Tail t ref n)))"

lemma leavesBlobsD: "leavesBlobs objects f \<Longrightarrow> f w = (x, w') \<Longrightarrow> objects w' = objects w"
  unfolding leavesBlobs_def by (metis snd_conv)

section \<open>The diffs in the bucket\<close>

abbreviation blobKey :: "'w s3_blob_store \<Rightarrow> hook_input \<Rightarrow> repo_work \<Rightarrow> string \<times> string" where
  "blobKey blobs inp rw \<equiv> (bs_Bucket blobs, diffKey inp rw)"

definition blobRef :: "'w s3_blob_store \<Rightarrow> hook_input \<Rightarrow> repo_work \<Rightarrow> string" where
  "blobRef blobs inp rw = ''s3://'' @ bs_Bucket blobs @ ''/'' @ diffKey inp rw"

text \<open>The entries of a manifest that were not pushed: each names its object, which is there, and the last one's holds its diff.\<close>

definition blobsOK :: "('w \<Rightarrow> string \<times> string \<rightharpoonup> string) \<Rightarrow> 'w s3_blob_store \<Rightarrow> hook_input \<Rightarrow> 'w \<Rightarrow> (repo_work \<times> git_state) list \<Rightarrow> bool" where
  "blobsOK objects blobs inp w ps \<longleftrightarrow>
     (\<forall>(rw, gs) \<in> set ps. gs_DiffRef gs = blobRef blobs inp rw \<and> gs_Repo gs = rw_Origin rw \<and> gs_Branch gs = rw_Branch rw \<and>
        objects w (blobKey blobs inp rw) \<noteq> None) \<and>
     (ps \<noteq> [] \<longrightarrow> objects w (blobKey blobs inp (fst (List.last ps))) = Some (rw_Diff (fst (List.last ps))))"

lemma unpushed_Cons: "unpushed (rw # rws) (gs # gss) = (if gs_Uncommitted gs then [(rw, gs)] else []) @ unpushed rws gss"
  by (simp add: unpushed_def)

lemma emit_blobs:
  assumes "emit h inp m w = (Inr m', w')" "hookApart objects st h" "deployedHook st blobs print h"
  shows "m' = m \<and> objects w' = objects w"
proof -
  have "SaveManifest st (in_OrgID inp) (in_SessionID inp) (print (manifestJSON m)) w = (None, w')" "m' = m"
    using assms(1,3) by (auto simp: emit_def deployedHook_def ManifestPersister_def split: prod.splits option.splits)
  with assms(2) show ?thesis by (auto simp: SaveManifest_def hookApart_def dest: leavesBlobsD split: if_splits)
qed

lemma Upload_blobs:
  assumes "s3_objects client objects" "bs_Client blobs = Some client" "Upload blobs (diffKey inp rw) d w = (Inr ref, w')"
  shows "ref = blobRef blobs inp rw" "objects w' = (objects w)(blobKey blobs inp rw \<mapsto> d)"
proof -
  have put: "s3_PutObject client (bs_Bucket blobs) (diffKey inp rw) d w = (None, w')" and "ref = blobRef blobs inp rw"
    using assms(2,3) by (auto simp: Upload_def blobRef_def split: if_splits prod.splits option.splits)
  then show "ref = blobRef blobs inp rw" by simp
  show "objects w' = (objects w)(blobKey blobs inp rw \<mapsto> d)" using assms(1) put unfolding s3_objects_def by blast
qed

lemma blobsOK_saved:
  assumes "blobsOK objects blobs inp w' ps" and "\<And>k. k \<notin> (\<lambda>p. blobKey blobs inp (fst p)) ` set ps \<Longrightarrow> objects w' k = objects w k"
    and "objects w (blobKey blobs inp rw) = Some (rw_Diff rw)"
  shows "blobsOK objects blobs inp w' ((rw, savedState rw (blobRef blobs inp rw)) # ps)"
proof -
  have there: "objects w' (blobKey blobs inp rw) \<noteq> None"
  proof (cases "blobKey blobs inp rw \<in> (\<lambda>p. blobKey blobs inp (fst p)) ` set ps")
    case True
    with assms(1) show ?thesis by (fastforce simp: blobsOK_def)
  next
    case False
    with assms(2,3) show ?thesis by simp
  qed
  show ?thesis
  proof (cases "ps = []")
    case True
    then show ?thesis using assms(2,3) by (simp add: blobsOK_def savedState_def)
  next
    case False
    with assms(1) there show ?thesis by (auto simp: blobsOK_def savedState_def)
  qed
qed

text \<open>What the loop of the hook leaves in the bucket.\<close>

lemma runRepos_blobs:
  assumes "s3_objects client objects" "bs_Client blobs = Some client" "deployedHook st blobs print h" "hookApart objects st h"
  shows "runRepos h inp rws m w = (Inr m', w') \<Longrightarrow>
    \<exists>gss dn rest. m' = m\<lparr>mf_GitState := mf_GitState m @ gss\<rparr> \<and> rws = dn @ rest \<and> length dn = length gss \<and>
      blobsOK objects blobs inp w' (unpushed dn gss) \<and>
      (\<forall>k. k \<notin> (\<lambda>p. blobKey blobs inp (fst p)) ` set (unpushed dn gss) \<longrightarrow> objects w' k = objects w k)"
    (is "_ \<Longrightarrow> ?goal rws m w")
proof (induction rws arbitrary: m w)
  case Nil
  from Nil emit_blobs [OF _ assms(4,3)] show ?case
    by (intro exI [of _ "[]"] exI [of _ "[]"] exI [of _ "[]"]) (simp add: unpushed_def blobsOK_def)
next
  case (Cons rw rws)
  have kept: "objects w1 = objects w" if "hk_CommitAndPush h (rw_Origin rw) (rw_Branch rw) (rw_Diff rw) w = (x, w1)" for x w1
    using assms(4) that by (auto simp: hookApart_def dest: leavesBlobsD)
  obtain x w1 where push: "hk_CommitAndPush h (rw_Origin rw) (rw_Branch rw) (rw_Diff rw) w = (x, w1)" by (rule prod.exhaust)
  show ?case
  proof (cases x)
    case (Inr hp)
    obtain head pr where hp: "hp = (head, pr)" by (rule prod.exhaust)
    let ?g = "pushedState rw head pr"
    have "runRepos h inp rws (addState ?g m) w1 = (Inr m', w')" using Cons.prems push Inr hp by simp
    from Cons.IH [OF this] obtain gss dn rest where ih: "m' = (addState ?g m)\<lparr>mf_GitState := mf_GitState (addState ?g m) @ gss\<rparr>"
      "rws = dn @ rest" "length dn = length gss" "blobsOK objects blobs inp w' (unpushed dn gss)"
      "\<forall>k. k \<notin> (\<lambda>p. blobKey blobs inp (fst p)) ` set (unpushed dn gss) \<longrightarrow> objects w' k = objects w1 k" by blast
    have "unpushed (rw # dn) (?g # gss) = unpushed dn gss" by (simp add: unpushed_Cons pushedState_def)
    with ih kept [OF push] show ?thesis
      by (intro exI [of _ "?g # gss"] exI [of _ "rw # dn"] exI [of _ rest]) (simp add: addState_def)
  next
    case (Inl err)
    obtain u w2 where up: "Upload blobs (diffKey inp rw) (rw_Diff rw) w1 = (u, w2)" by (rule prod.exhaust)
    have hup: "hk_Upload h = Upload blobs" using assms(3) by (simp add: deployedHook_def)
    then obtain ref where u: "u = Inr ref" using Cons.prems push Inl up by (cases u) auto
    note ob = Upload_blobs [OF assms(1,2) up [unfolded u]]
    let ?g = "savedState rw (blobRef blobs inp rw)"
    have fits: ?thesis if "m' = (addState ?g m)\<lparr>mf_GitState := mf_GitState (addState ?g m) @ gss\<rparr>" "rws = dn @ rest" "length dn = length gss"
      "blobsOK objects blobs inp w' (unpushed dn gss)"
      "\<forall>k. k \<notin> (\<lambda>p. blobKey blobs inp (fst p)) ` set (unpushed dn gss) \<longrightarrow> objects w' k = objects w2 k" for gss dn rest
    proof -
      note rest = that(5)
      have un: "unpushed (rw # dn) (?g # gss) = (rw, ?g) # unpushed dn gss" by (simp add: unpushed_Cons savedState_def)
      have "blobsOK objects blobs inp w' ((rw, ?g) # unpushed dn gss)" proof (rule blobsOK_saved [OF that(4)])
        show "objects w' k = objects w2 k" if "k \<notin> (\<lambda>p. blobKey blobs inp (fst p)) ` set (unpushed dn gss)" for k
          using rest that by blast
      qed (simp add: ob(2))
      moreover have "objects w' k = objects w k" if "k \<notin> (\<lambda>p. blobKey blobs inp (fst p)) ` set ((rw, ?g) # unpushed dn gss)" for k
        using rest [rule_format, of k] that ob(2) kept [OF push] by (simp add: fun_upd_def)
      ultimately show ?thesis using that(1,2,3) un
        by (intro exI [of _ "?g # gss"] exI [of _ "rw # dn"] exI [of _ rest]) (simp add: addState_def)
    qed
    show ?thesis
    proof (cases "errorsIs err DeadlineExceeded \<or> hk_expired h (hk_grace h) w1")
      case True
      then have "emit h inp (addState ?g m) w2 = (Inr m', w')" using Cons.prems push Inl up u ob(1) hup by simp
      from emit_blobs [OF this assms(4,3)] show ?thesis by (intro fits [of "[]" "[]" rws]) (simp_all add: unpushed_def blobsOK_def)
    next
      case False
      then have "runRepos h inp rws (addState ?g m) w2 = (Inr m', w')" using Cons.prems push Inl up u ob(1) hup by simp
      from Cons.IH [OF this] show ?thesis by (elim exE conjE) (rule fits)
    qed
  qed
qed

section \<open>Reading them back\<close>

lemma Fetch_object:
  assumes "s3_objects client objects" "s3_reads client objects" "objects w (blobKey blobs inp rw) = Some d"
    and "list_all plainByte (bs_Bucket blobs)" "CHR ''/'' \<notin> set (bs_Bucket blobs)" "list_all plainByte (in_SessionID inp)"
  shows "\<exists>w'. Fetch client (blobRef blobs inp rw) w = (Inr d, w') \<and> objects w' = objects w"
proof -
  let ?k = "diffKey inp rw"
  from assms(2,3) obtain bd w' where get: "s3_GetObject client (bs_Bucket blobs) ?k w = (Inr bd, w')" and eof: "snd (List.last bd) = Some EOF"
    and same: "objects w' = objects w" unfolding s3_reads_def by blast
  from assms(1) get obtain d' xs x e where d: "objects w (blobKey blobs inp rw) = Some d'"
    and bd: "bd = map (\<lambda>x. (x, None)) xs @ [(x, Some e)]" and full: "e = EOF \<longrightarrow> concat xs @ x = d'"
    unfolding s3_objects_def by blast
  have "readBody bd = d" using eof d full assms(3) by (simp add: bd readBody_reads)
  moreover have "plainByte (CHR ''/'')" by (simp add: plainByte_def)
  then have "scanRef (blobRef blobs inp rw) = Some (bs_Bucket blobs @ CHR ''/'' # ?k)"
    unfolding blobRef_def using assms(4) diffKey_plain [OF assms(6)] by (subst scanRef_plain) simp_all
  ultimately show ?thesis using get same by (simp add: Fetch_def splitRef_slash [OF assms(5)])
qed

definition recoveryWarning :: "git_state \<Rightarrow> string" where
  "recoveryWarning g = ''previous session ended with UNCOMMITTED changes on '' @ gs_Branch g @ '' ('' @ gs_Repo g @ ''); review before proceeding''"

lemma recoverDiffs_blobs:
  assumes "s3_objects client objects" "s3_reads client objects" "rr_Fetch r = Some (Fetch client)"
    and "list_all plainByte (bs_Bucket blobs)" "CHR ''/'' \<notin> set (bs_Bucket blobs)" "list_all plainByte (in_SessionID inp)"
  shows "length rws = length gss \<Longrightarrow> blobsOK objects blobs inp w (unpushed rws gss) \<Longrightarrow> recoverDiffs r gss p w = (p', w') \<Longrightarrow>
    pn_Warnings p' = pn_Warnings p @ map (recoveryWarning \<circ> snd) (unpushed rws gss) \<and>
    pn_RecoveryDiff p' = (if unpushed rws gss = [] then pn_RecoveryDiff p else Some (rw_Diff (fst (List.last (unpushed rws gss))))) \<and>
    pn_AgentVersion p' = pn_AgentVersion p \<and> pn_SessionID p' = pn_SessionID p"
proof (induction rws gss arbitrary: p w rule: list_induct2)
  case Nil
  then show ?case by (simp add: unpushed_def)
next
  case (Cons rw rws gs gss)
  show ?case
  proof (cases "gs_Uncommitted gs")
    case False
    with Cons assms(3) show ?thesis by (simp add: unpushed_Cons)
  next
    case True
    with Cons.prems have ok: "blobsOK objects blobs inp w ((rw, gs) # unpushed rws gss)" by (simp add: unpushed_Cons)
    then obtain d where d: "objects w (blobKey blobs inp rw) = Some d" and ref: "gs_DiffRef gs = blobRef blobs inp rw"
      by (auto simp: blobsOK_def)
    from Fetch_object [OF assms(1,2) d assms(4-6)] obtain w1 where f: "Fetch client (blobRef blobs inp rw) w = (Inr d, w1)"
      and same: "objects w1 = objects w" by blast
    have ne: "gs_DiffRef gs \<noteq> []" by (simp add: ref blobRef_def)
    have ok1: "blobsOK objects blobs inp w1 (unpushed rws gss)" using ok same by (auto simp: blobsOK_def split: if_splits)
    have rd: "recoverDiffs r gss (addWarning (recoveryWarning gs) (p\<lparr>pn_RecoveryDiff := Some d\<rparr>)) w1 = (p', w')"
      using Cons.prems(2) True ne ref f assms(3) by (simp add: recoveryWarning_def)
    have d1: "d = rw_Diff rw" if "unpushed rws gss = []" using ok d that by (simp add: blobsOK_def)
    from Cons.IH [OF ok1 rd] d1 True show ?thesis by (auto simp: unpushed_Cons addWarning_def)
  qed
qed

lemma checkBranches_keeps:
  assumes "resumeApart objects st r"
  shows "checkBranches r gs p w = (p', w') \<Longrightarrow> objects w' = objects w \<and> prefix (pn_Warnings p) (pn_Warnings p') \<and>
    pn_AgentVersion p' = pn_AgentVersion p \<and> pn_SessionID p' = pn_SessionID p"
proof (induction gs arbitrary: p w)
  case Nil
  then show ?case by simp
next
  case (Cons g gs)
  show ?case
  proof (cases "gs_HeadSHA g = []")
    case True
    with Cons show ?thesis by simp
  next
    case False
    obtain x w1 where st: "rr_Status r (gs_Repo g) (gs_Branch g) (gs_HeadSHA g) w = (x, w1)" by (rule prod.exhaust)
    have "leavesBlobs objects (rr_Status r (gs_Repo g) (gs_Branch g) (gs_HeadSHA g))" using assms by (simp add: resumeApart_def)
    from leavesBlobsD [OF this st] have same: "objects w1 = objects w" .
    from Cons.prems False st obtain p1 where cb: "checkBranches r gs p1 w1 = (p', w')" and p1: "prefix (pn_Warnings p) (pn_Warnings p1)"
      "pn_AgentVersion p1 = pn_AgentVersion p" "pn_SessionID p1 = pn_SessionID p"
      by (cases x) (auto simp: addWarning_def addPRs_def)
    from Cons.IH [OF cb] same p1 show ?thesis by (auto intro: prefix_order.trans)
  qed
qed

lemma hydrate_keeps:
  assumes "resumeApart objects st r" "hydrate r n m p w = (p', w')"
  shows "objects w' = objects w \<and> pn_Warnings p' = pn_Warnings p \<and> pn_AgentVersion p' = pn_AgentVersion p \<and> pn_SessionID p' = pn_SessionID p"
proof (cases "rr_Transcript r")
  case None
  with assms(2) show ?thesis by (simp add: hydrate_def)
next
  case (Some t)
  obtain s w1 where s: "tr_Summary t (mf_TranscriptRef m) w = (s, w1)" by (rule prod.exhaust)
  obtain ms w2 where ms: "tr_Tail t (mf_TranscriptRef m) n w1 = (ms, w2)" by (rule prod.exhaust)
  have "leavesBlobs objects (tr_Summary t (mf_TranscriptRef m))" "leavesBlobs objects (tr_Tail t (mf_TranscriptRef m) n)"
    using assms(1) Some by (simp_all add: resumeApart_def)
  from leavesBlobsD [OF this(1) s] leavesBlobsD [OF this(2) ms] have "objects w2 = objects w" by simp
  with assms(2) Some s ms show ?thesis by (auto simp: hydrate_def Let_def split: if_splits sum.splits)
qed

lemma Acquire_keeps:
  assumes "resumeApart objects st r" "Acquire (rr_Forker r) key sid pool w = (x, pool', w')"
  shows "objects w' = objects w"
proof -
  have apart: "leavesBlobs objects (fk_Fork (rr_Forker r) key)" "leavesBlobs objects (fk_Promote (rr_Forker r) pod sid)" for pod
    using assms(1) by (simp_all add: resumeApart_def)
  from assms(2) show ?thesis
    by (auto simp: Acquire_def leavesBlobsD [OF apart(1)] leavesBlobsD [OF apart(2)] split: list.splits prod.splits sum.splits)
qed

section \<open>Across a stop and a resumption\<close>

definition storedManifest :: "('w \<Rightarrow> string \<Rightarrow> item \<rightharpoonup> item) \<Rightarrow> hook_input \<Rightarrow> 'w \<Rightarrow> string option" where
  "storedManifest rows inp w = map_option (se_Manifest \<circ> fromItem) (rows w tableSessions (keyOf (in_OrgID inp) (in_SessionID inp)))"

lemma hook_stores:
  assumes "dynamo (st_client st) rows settled" "deployedHook st blobs print h" "RunHook h inp w = (Inr m, w1)"
  shows "storedManifest rows inp w1 = Some (print (manifestJSON m))"
proof -
  have h: "hk_SaveManifest h = Some (ManifestPersister st)" "hk_Marshal h m = Inr (print (manifestJSON m))" for m
    using assms(2) by (simp_all add: deployedHook_def)
  from runRepos_emits [OF assms(3) [unfolded RunHook_def]] obtain m0 w0 where e: "emit h inp m0 w0 = (Inr m, w1)" by (elim exE)
  then have "SaveManifest st (in_OrgID inp) (in_SessionID inp) (print (manifestJSON m)) w0 = (None, w1)"
    by (auto simp: emit_def h ManifestPersister_def split: prod.splits option.splits)
  from SaveManifest_success(2) [OF assms(1) this] show ?thesis by (simp add: storedManifest_def setAttr_def fromItem_def)
qed

lemma lookup_stored:
  assumes "dynamo (st_client st) rows settled" "settled w" "storedManifest rows inp w = Some raw"
    and "GetSession st (in_OrgID inp) (in_SessionID inp) w = (Inr sess, w')"
  shows "se_Manifest sess = raw"
proof -
  obtain x w2 where g: "dd_GetItem (st_client st) tableSessions (keyOf (in_OrgID inp) (in_SessionID inp)) False w = (x, w2)" by (rule prod.exhaust)
  with assms(4) obtain it where x: "x = Inr (Some it)" "sess = fromItem it"
    by (auto simp: GetSession_def split: prod.splits sum.splits option.splits)
  with dynamoD(2) [OF assms(1) g [unfolded x(1)]] assms(2,3) show ?thesis by (auto simp: storedManifest_def)
qed

lemma GetSession_keeps:
  assumes "resumeApart objects st r" "GetSession st orgID sessionID w = (x, w')"
  shows "objects w' = objects w"
proof -
  have apart: "leavesBlobs objects (dd_GetItem (st_client st) tableSessions (keyOf orgID sessionID) False)"
    using assms(1) by (simp add: resumeApart_def)
  from assms(2) show ?thesis
    by (auto simp: GetSession_def leavesBlobsD [OF apart] split: prod.splits sum.splits option.splits)
qed

lemma unpushed_append: "length dn = length gss \<Longrightarrow> unpushed (dn @ rest) gss = unpushed dn gss"
  by (simp add: unpushed_def zip_append1)

lemma blobsOK_moved:
  assumes "blobsOK objects blobs inp w1 (unpushed rws gss)" "\<And>rw. rw \<in> set rws \<Longrightarrow> objects w2 (blobKey blobs inp rw) = objects w1 (blobKey blobs inp rw)"
  shows "blobsOK objects blobs inp w2 (unpushed rws gss)"
proof -
  let ?ps = "unpushed rws gss"
  have kept: "objects w2 (blobKey blobs inp (fst x)) = objects w1 (blobKey blobs inp (fst x))" if "x \<in> set ?ps" for x
    using that by (intro assms(2)) (auto simp: unpushed_def dest: set_zip_leftD)
  with assms(1) show ?thesis by (simp add: blobsOK_def split_beta)
qed


section \<open>A concrete stop and resumption\<close>

text \<open>A world with the tables of the example database and the bucket of the example object store.\<close>

type_synonym ex_cloud = "ex_db \<times> (string \<times> string \<rightharpoonup> string)"

definition onFst :: "('a \<Rightarrow> 'x \<times> 'a) \<Rightarrow> 'a \<times> 'b \<Rightarrow> 'x \<times> 'a \<times> 'b" where
  "onFst f w = (case f (fst w) of (x, a) \<Rightarrow> (x, a, snd w))"

definition onSnd :: "('b \<Rightarrow> 'x \<times> 'b) \<Rightarrow> 'a \<times> 'b \<Rightarrow> 'x \<times> 'a \<times> 'b" where
  "onSnd f w = (case f (snd w) of (x, b) \<Rightarrow> (x, fst w, b))"

definition exCloudDB :: "ex_cloud dynamo_client" where
  "exCloudDB =
     \<lparr>dd_CreateTable = (\<lambda>t. onFst (dd_CreateTable ex_dd t)), dd_UpdateTimeToLive = (\<lambda>t a b. onFst (dd_UpdateTimeToLive ex_dd t a b)),
      dd_PutItem = (\<lambda>t it. onFst (dd_PutItem ex_dd t it)), dd_GetItem = (\<lambda>t key c. onFst (dd_GetItem ex_dd t key c)),
      dd_UpdateItem = (\<lambda>u. onFst (dd_UpdateItem ex_dd u)), dd_DeleteItem = (\<lambda>t key. onFst (dd_DeleteItem ex_dd t key)),
      dd_Query = (\<lambda>q. onFst (dd_Query ex_dd q)), dd_ResourceInUse = dd_ResourceInUse ex_dd\<rparr>"

definition exCloudS3 :: "ex_cloud s3_client" where
  "exCloudS3 = \<lparr>s3_PutObject = (\<lambda>b k d. onSnd (s3_PutObject ex_s3 b k d)), s3_GetObject = (\<lambda>b k. onSnd (s3_GetObject ex_s3 b k))\<rparr>"

definition exCloudStore :: "ex_cloud store" where "exCloudStore = NewStore exCloudDB"

definition exCloudBlobs :: "ex_cloud s3_blob_store" where "exCloudBlobs = \<lparr>bs_Client = Some exCloudS3, bs_Bucket = ''recovery''\<rparr>"

lemma onFst_eq: "onFst f w = (x, w') \<longleftrightarrow> f (fst w) = (x, fst w') \<and> snd w' = snd w"
  by (cases w') (auto simp: onFst_def split: prod.splits)

lemma onSnd_eq: "onSnd f w = (x, w') \<longleftrightarrow> f (snd w) = (x, snd w') \<and> fst w' = fst w"
  by (cases w') (auto simp: onSnd_def split: prod.splits)

lemma exCloud_dynamo: "dynamo (st_client exCloudStore) (\<lambda>w. ex_rows (fst w)) (\<lambda>w. True)"
proof -
  note laws = ex_dynamo [unfolded dynamo_def]
  have "put_law exCloudDB (\<lambda>w. ex_rows (fst w))" using laws unfolding put_law_def by (simp add: exCloudDB_def onFst_eq)
  moreover have "get_law exCloudDB (\<lambda>w. ex_rows (fst w)) (\<lambda>w. True)" using laws unfolding get_law_def by (simp add: exCloudDB_def onFst_eq)
  moreover have "update_law exCloudDB (\<lambda>w. ex_rows (fst w))" using laws unfolding update_law_def by (simp add: exCloudDB_def onFst_eq)
  moreover have "delete_law exCloudDB (\<lambda>w. ex_rows (fst w))" using laws unfolding delete_law_def by (simp add: exCloudDB_def onFst_eq)
  moreover have "query_law exCloudDB (\<lambda>w. ex_rows (fst w)) (\<lambda>w. True)" using laws unfolding query_law_def by (simp add: exCloudDB_def onFst_eq)
  ultimately show ?thesis by (simp add: dynamo_def exCloudStore_def NewStore_def)
qed

lemma exCloud_s3: "s3_objects exCloudS3 snd" "s3_reads exCloudS3 snd"
proof -
  show "s3_objects exCloudS3 snd" using ex_s3_objects unfolding s3_objects_def by (simp add: exCloudS3_def onSnd_eq)
  show "s3_reads exCloudS3 snd" unfolding s3_reads_def
    by (simp add: exCloudS3_def onSnd_def ex_s3_def)
qed

definition exLookup :: "'w store \<Rightarrow> string \<Rightarrow> string \<Rightarrow> 'w \<Rightarrow> (string \<times> string) result \<times> 'w" where
  "exLookup st orgID sessionID w =
     (case GetSession st orgID sessionID w of
        (Inl err, w1) \<Rightarrow> (Inl err, w1)
      | (Inr sess, w1) \<Rightarrow> (Inr (se_EnvironmentKey sess, se_Manifest sess), w1))"

definition exStopInput :: hook_input where
  "exStopInput = ex_hook_input\<lparr>in_Repos := exRepos\<rparr>"

definition exStopHook :: "(json \<Rightarrow> string) \<Rightarrow> ex_cloud hook" where
  "exStopHook print =
     \<lparr>hk_CommitAndPush = (\<lambda>repo br diff w. (if repo = ''ok'' then Inr (''sha'', ''pr'') else Inl (ErrNew ''rejected''), w)),
      hk_Upload = Upload exCloudBlobs, hk_SaveManifest = Some (ManifestPersister exCloudStore), hk_Marshal = (\<lambda>m. Inr (print (manifestJSON m))),
      hk_expired = (\<lambda>g w. False), hk_grace = 120 * Second\<rparr>"

definition exStopResumer :: "(string \<Rightarrow> json result) \<Rightarrow> ex_cloud resumer" where
  "exStopResumer parse =
     \<lparr>rr_GetSession = exLookup exCloudStore, rr_Unmarshal = Unmarshal parse manifestField zeroManifest,
      rr_Status = (\<lambda>repo br sha w. (Inr BranchExists, w)),
      rr_Forker = \<lparr>fk_Fork = (\<lambda>key w. (Inr ''pod'', w)), fk_Promote = (\<lambda>pod sid w. (None, w)), fk_Destroy = (\<lambda>pod w. (None, w))\<rparr>,
      rr_Transcript = None, rr_Fetch = Some (Fetch exCloudS3), rr_TailN = 0\<rparr>"

definition exStopManifest :: manifest where
  "exStopManifest =
     \<lparr>mf_SessionID = ''sess-1'', mf_AgentVersion = ''bot@v1'', mf_TranscriptRef = [],
      mf_GitState = [pushedState (exRepos ! 0) ''sha'' ''pr'', savedState (exRepos ! 1) (blobRef exCloudBlobs exStopInput (exRepos ! 1))],
      mf_EndedReason = ''idle''\<rparr>"

text \<open>A printer and a parser that know this manifest's text.\<close>

definition exStopPrint :: "json \<Rightarrow> string" where "exStopPrint v = ''m''"

definition exStopParse :: "string \<Rightarrow> json result" where "exStopParse raw = Inr (manifestJSON exStopManifest)"

lemma ex_stop_apart:
  "hookApart snd exCloudStore (exStopHook print)" "resumeApart snd exCloudStore (exStopResumer parse)"
proof -
  have db: "leavesBlobs snd (onFst f)" for f :: "ex_db \<Rightarrow> 'x \<times> ex_db" by (simp add: leavesBlobs_def onFst_def split_beta)
  show "hookApart snd exCloudStore (exStopHook print)"
    by (simp add: hookApart_def exCloudStore_def NewStore_def exCloudDB_def db exStopHook_def) (simp add: leavesBlobs_def)
  show "resumeApart snd exCloudStore (exStopResumer parse)"
    by (simp add: resumeApart_def exCloudStore_def NewStore_def exCloudDB_def db exStopResumer_def) (simp add: leavesBlobs_def)
qed

lemma ex_stop_deployed: "deployedHook exCloudStore exCloudBlobs print (exStopHook print)" "deployedResumer exCloudStore exCloudS3 parse (exStopResumer parse)"
  by (simp_all add: deployedHook_def exStopHook_def deployedResumer_def exStopResumer_def)
    (auto simp: storeBacked_def exLookup_def split: prod.splits sum.splits)

lemma ex_stop_run: "\<exists>w1. RunHook (exStopHook exStopPrint) exStopInput (ex_put, Map.empty) = (Inr exStopManifest, w1)"
proof -
  have up: "Upload exCloudBlobs k d (a, b) = (Inr (''s3://recovery/'' @ k), a, b((''recovery'', k) \<mapsto> d))" for k d a b
    by (simp add: Upload_def exCloudBlobs_def exCloudS3_def onSnd_def ex_s3_def)
  have bucket: "bs_Bucket exCloudBlobs = ''recovery''" by (simp add: exCloudBlobs_def)
  have sm: "\<exists>w'. SaveManifest exCloudStore org sid ''m'' w = (None, w')" for org sid w
    by (simp add: SaveManifest_def maxManifest_def manifestUpdate_def exCloudStore_def NewStore_def exCloudDB_def onFst_def ex_dd_def)
  obtain w1 where w1: "SaveManifest exCloudStore ''org-1'' ''sess-1'' ''m'' (ex_put, [(''recovery'', diffKey exStopInput (exRepos ! 1)) \<mapsto> ''d2'']) = (None, w1)"
    using sm by blast
  show ?thesis
    by (rule exI [of _ w1])
      (use w1 in \<open>simp add: RunHook_def exStopInput_def ex_hook_input_def exStopHook_def exRepos_def up addState_def emit_def ManifestPersister_def
        exStopPrint_def DeadlineExceeded_def exStopManifest_def blobRef_def bucket\<close>)
qed

lemma ex_stop_resume:
  assumes "exLookup exCloudStore org sid w2 = (Inr (envKey, raw), w3)" "raw \<noteq> []"
  shows "\<exists>p pool' w'. ResumeSession (exStopResumer exStopParse) org sid (NewPool 3 Hour) w2 = (Inr p, pool', w')"
proof -
  have dec: "rr_Unmarshal (exStopResumer exStopParse) raw = Inr exStopManifest"
    by (simp add: exStopResumer_def exStopParse_def Unmarshal_def manifest_decoded)
  have acq: "Acquire (rr_Forker (exStopResumer exStopParse)) key sid (NewPool 3 Hour) w = ((''pod'', False, None), NewPool 3 Hour, w)" for key sid w
    by (simp add: Acquire_def exStopResumer_def poolOf_def NewPool_def)
  have hy: "hydrate (exStopResumer exStopParse) n m p w = (p, w)" for n m p w by (simp add: hydrate_def exStopResumer_def)
  have get: "rr_GetSession (exStopResumer exStopParse) org sid w2 = (Inr (envKey, raw), w3)" using assms(1) by (simp add: exStopResumer_def)
  obtain p1 w4 where "checkBranches (exStopResumer exStopParse) (mf_GitState exStopManifest) (newPlan sid envKey exStopManifest) w3 = (p1, w4)"
    by (rule prod.exhaust)
  moreover obtain p2 w5 where "recoverDiffs (exStopResumer exStopParse) (mf_GitState exStopManifest) (p1\<lparr>pn_PodID := ''pod'', pn_WarmHit := False\<rparr>) w4 = (p2, w5)"
    by (rule prod.exhaust)
  ultimately show ?thesis using assms(2) by (simp add: ResumeSession_def get dec acq hy)
qed


end
