(* ===== verification/TestContainers.thy ===== *)
theory TestContainers
  imports Prelude
begin

text \<open>
  \<^verbatim>\<open>internal/testutil/containers.go\<close>, \<^verbatim>\<open>postgres_redis.go\<close> and \<^verbatim>\<open>dynamodb.go\<close>: the containers that integration tests start.  The container
  library, the network and the random source act on a world \<open>'w\<close> and are parameters; of \<^verbatim>\<open>testing.T\<close>, a fatal error ends the test with
  its message, and cleanups are kept and run last in, first out when the test is over, failed or not.
\<close>

section \<open>Tests\<close>

record 'w test_run =
  tt_world :: 'w
  tt_cleanups :: "('w \<Rightarrow> 'w) list"  \<comment> \<open>the latest first\<close>

type_synonym ('w, 'a) test_step = "'w test_run \<Rightarrow> (string + 'a) \<times> 'w test_run"

definition Fatal :: "string \<Rightarrow> ('w, 'a) test_step" where
  "Fatal msg t = (Inl msg, t)"

definition Cleanup :: "('w \<Rightarrow> 'w) \<Rightarrow> 'w test_run \<Rightarrow> 'w test_run" where
  "Cleanup f t = t\<lparr>tt_cleanups := f # tt_cleanups t\<rparr>"

definition runCleanups :: "'w test_run \<Rightarrow> 'w" where
  "runCleanups t = fold (\<lambda>f w. f w) (tt_cleanups t) (tt_world t)"

text \<open>A call of the world inside a test, whose error is fatal with a message.\<close>

definition orFatal :: "('w \<Rightarrow> 'a result \<times> 'w) \<Rightarrow> string \<Rightarrow> ('a \<Rightarrow> ('w, 'b) test_step) \<Rightarrow> ('w, 'b) test_step" where
  "orFatal call msg cont t =
     (case call (tt_world t) of
        (Inl err, w) \<Rightarrow> Fatal (msg @ errText err) (t\<lparr>tt_world := w\<rparr>)
      | (Inr x, w) \<Rightarrow> cont x (t\<lparr>tt_world := w\<rparr>))"

definition thenTest :: "('w, 'a) test_step \<Rightarrow> ('a \<Rightarrow> ('w, 'b) test_step) \<Rightarrow> ('w, 'b) test_step" where
  "thenTest m f t = (case m t of (Inl msg, t') \<Rightarrow> (Inl msg, t') | (Inr x, t') \<Rightarrow> f x t')"

section \<open>Containers\<close>

record container_request =
  cq_Image :: string
  cq_Env :: "(string \<times> string) list"
  cq_ExposedPorts :: "string list"
  cq_WaitingFor :: string  \<comment> \<open>the port listened on\<close>

text \<open>A mapped port is its number.\<close>

record ('w, 'c) docker =
  dk_Start :: "container_request \<Rightarrow> 'w \<Rightarrow> 'c result \<times> 'w"
  dk_MappedPort :: "'c \<Rightarrow> string \<Rightarrow> 'w \<Rightarrow> int result \<times> 'w"
  dk_Host :: "'c \<Rightarrow> 'w \<Rightarrow> string result \<times> 'w"
  dk_Dial :: "string \<Rightarrow> 'w \<Rightarrow> unit result \<times> 'w"
  dk_Terminate :: "'c \<Rightarrow> 'w \<Rightarrow> goerr option \<times> 'w"
  dk_Intn :: "int \<Rightarrow> 'w \<Rightarrow> int \<times> 'w"
  dk_RedisClose :: "string \<Rightarrow> 'w \<Rightarrow> 'w"
  dk_RedisPing :: "string \<Rightarrow> 'w \<Rightarrow> unit result \<times> 'w"

definition pgImage :: string where "pgImage = ''postgres:16-alpine''"
definition redisImg :: string where "redisImg = ''redis:7-alpine''"
definition localImg :: string where "localImg = ''localstack/localstack:3.2''"

text \<open>The error of a termination is only printed.\<close>

definition Terminate :: "('w, 'c) docker \<Rightarrow> 'c \<Rightarrow> 'w \<Rightarrow> 'w" where
  "Terminate dk c w = snd (dk_Terminate dk c w)"

definition startContainer :: "('w, 'c) docker \<Rightarrow> container_request \<Rightarrow> ('w, 'c) test_step" where
  "startContainer dk req = orFatal (dk_Start dk req) (''start container '' @ cq_Image req @ '': '') (\<lambda>c t. (Inr c, t))"

definition mappedPort :: "('w, 'c) docker \<Rightarrow> 'c \<Rightarrow> string \<Rightarrow> ('w, int) test_step" where
  "mappedPort dk c port =
     orFatal (dk_MappedPort dk c port) (''mapped port '' @ port @ '': '') (\<lambda>p.
     orFatal (dk_Host dk c) ''container host: '' (\<lambda>h.
     orFatal (dk_Dial dk (h @ '':'' @ showInt p)) ''port not reachable: '' (\<lambda>_ t. (Inr p, t))))"

definition hostOf :: "('w, 'c) docker \<Rightarrow> 'c \<Rightarrow> ('w, string) test_step" where
  "hostOf dk c = orFatal (dk_Host dk c) ''container host: '' (\<lambda>h t. (Inr h, t))"

definition postgresRequest :: "string \<Rightarrow> container_request" where
  "postgresRequest password =
     \<lparr>cq_Image = pgImage, cq_Env = [(''POSTGRES_PASSWORD'', password)], cq_ExposedPorts = [''5432/tcp''], cq_WaitingFor = ''5432/tcp''\<rparr>"

definition charset :: string where "charset = ''abcdefghijklmnopqrstuvwxyz0123456789''"

fun randomToken :: "('w, 'c) docker \<Rightarrow> nat \<Rightarrow> 'w \<Rightarrow> string \<times> 'w" where
  "randomToken dk 0 w = ([], w)"
| "randomToken dk (Suc n) w =
     (case dk_Intn dk (int (length charset)) w of
        (i, w1) \<Rightarrow> (case randomToken dk n w1 of (s, w2) \<Rightarrow> (charset ! nat i # s, w2)))"

section \<open>Services\<close>

definition Postgres :: "('w, 'c) docker \<Rightarrow> ('w, string) test_step" where
  "Postgres dk t =
     (case randomToken dk 16 (tt_world t) of
        (pw, w) \<Rightarrow>
          thenTest (startContainer dk (postgresRequest pw)) (\<lambda>c t.
          thenTest (mappedPort dk c ''5432/tcp'') (\<lambda>port.
          thenTest (hostOf dk c) (\<lambda>h t.
            (Inr (''postgres://postgres:'' @ pw @ ''@'' @ h @ '':'' @ showInt port @ ''/postgres?sslmode=disable''), t)))
          (Cleanup (Terminate dk c) t)) (t\<lparr>tt_world := w\<rparr>))"

definition redisRequest :: container_request where
  "redisRequest = \<lparr>cq_Image = redisImg, cq_Env = [], cq_ExposedPorts = [''6379/tcp''], cq_WaitingFor = ''6379/tcp''\<rparr>"

text \<open>A client is named by its address.\<close>

definition RedisClient :: "('w, 'c) docker \<Rightarrow> ('w, string) test_step" where
  "RedisClient dk =
     thenTest (startContainer dk redisRequest) (\<lambda>c t.
     thenTest (hostOf dk c) (\<lambda>h.
     thenTest (mappedPort dk c ''6379/tcp'') (\<lambda>port t.
       (let addr = h @ '':'' @ showInt port
        in orFatal (dk_RedisPing dk addr) ''redis ping: '' (\<lambda>_ t. (Inr addr, t)) (Cleanup (dk_RedisClose dk addr) t))))
     (Cleanup (Terminate dk c) t))"

definition localRequest :: container_request where
  "localRequest =
     \<lparr>cq_Image = localImg, cq_Env = [(''SERVICES'', ''dynamodb,s3,kms'')], cq_ExposedPorts = [''4566/tcp''], cq_WaitingFor = ''4566/tcp''\<rparr>"

definition DynamoDB :: "('w, 'c) docker \<Rightarrow> ('w, string) test_step" where
  "DynamoDB dk =
     thenTest (startContainer dk localRequest) (\<lambda>c t.
     thenTest (hostOf dk c) (\<lambda>h.
     thenTest (mappedPort dk c ''4566/tcp'') (\<lambda>port t.
       (Inr (''http://'' @ h @ '':'' @ showInt port), t)))
     (Cleanup (Terminate dk c) t))"

definition TestAccessKey :: string where "TestAccessKey = ''test''"
definition TestSecretKey :: string where "TestSecretKey = ''test''"
definition TestRegion :: string where "TestRegion = ''us-east-1''"

section \<open>Containers do not outlive their test\<close>

text \<open>
  What is relied on of the containers \<open>held\<close> in a world, those that a successful start returned and no termination has ended since.  A
  termination that reports an error need not have ended its container.
\<close>

definition dockerLaws :: "('w, 'c) docker \<Rightarrow> ('w \<Rightarrow> 'c set) \<Rightarrow> bool" where
  "dockerLaws dk held \<longleftrightarrow>
     (\<forall>req w c w'. dk_Start dk req w = (Inr c, w') \<longrightarrow> c \<notin> held w \<and> held w' = insert c (held w)) \<and>
     (\<forall>req w e w'. dk_Start dk req w = (Inl e, w') \<longrightarrow> held w' = held w) \<and>
     (\<forall>c w w'. dk_Terminate dk c w = (None, w') \<longrightarrow> held w' = held w - {c}) \<and>
     (\<forall>c p w. held (snd (dk_MappedPort dk c p w)) = held w) \<and> (\<forall>c w. held (snd (dk_Host dk c w)) = held w) \<and>
     (\<forall>a w. held (snd (dk_Dial dk a w)) = held w) \<and> (\<forall>n w. held (snd (dk_Intn dk n w)) = held w) \<and>
     (\<forall>a w. held (dk_RedisClose dk a w) = held w) \<and> (\<forall>a w. held (snd (dk_RedisPing dk a w)) = held w)"

abbreviation cleanUp :: "('w \<Rightarrow> 'w) list \<Rightarrow> 'w \<Rightarrow> 'w" where "cleanUp \<equiv> fold (\<lambda>f w. f w)"

lemma dockerD:
  assumes "dockerLaws dk held"
  shows "dk_Start dk req w = (Inr c, w') \<Longrightarrow> c \<notin> held w \<and> held w' = insert c (held w)"
    and "dk_Start dk req w = (Inl e, w') \<Longrightarrow> held w' = held w"
    and "dk_Terminate dk c w = (None, w') \<Longrightarrow> held w' = held w - {c}"
    and "held (snd (dk_MappedPort dk c p w)) = held w" and "held (snd (dk_Host dk c w)) = held w"
    and "held (snd (dk_Dial dk a w)) = held w" and "held (snd (dk_Intn dk n w)) = held w"
    and "held (dk_RedisClose dk a w) = held w" and "held (snd (dk_RedisPing dk a w)) = held w"
proof -
  note l = assms [unfolded dockerLaws_def]
  show "dk_Start dk req w = (Inr c, w') \<Longrightarrow> c \<notin> held w \<and> held w' = insert c (held w)" by (rule l [THEN conjunct1, rule_format])
  show "dk_Start dk req w = (Inl e, w') \<Longrightarrow> held w' = held w" by (rule l [THEN conjunct2, THEN conjunct1, rule_format])
  show "dk_Terminate dk c w = (None, w') \<Longrightarrow> held w' = held w - {c}" by (rule l [THEN conjunct2, THEN conjunct2, THEN conjunct1, rule_format])
qed (use assms [unfolded dockerLaws_def] in simp_all)

text \<open>A step that gives back, through the cleanups it adds, the containers it came to hold.\<close>

definition undoes :: "('w \<Rightarrow> 'c set) \<Rightarrow> ('w \<Rightarrow> 'w) list \<Rightarrow> 'w test_run \<Rightarrow> 'w test_run \<Rightarrow> bool" where
  "undoes held fs t t' \<longleftrightarrow>
     tt_cleanups t' = fs @ tt_cleanups t \<and> (\<forall>w. held w = held (tt_world t') \<longrightarrow> held (cleanUp fs w) = held (tt_world t))"

definition tidy :: "('w \<Rightarrow> 'c set) \<Rightarrow> ('w, 'a) test_step \<Rightarrow> bool" where
  "tidy held m \<longleftrightarrow> (\<forall>t. \<exists>fs. undoes held fs t (snd (m t)))"

lemma undoes_same: "held w = held (tt_world t) \<Longrightarrow> undoes held [] t (t\<lparr>tt_world := w\<rparr>)"
  by (simp add: undoes_def)

lemma undoes_world: "held w = held (tt_world t) \<Longrightarrow> undoes held fs (t\<lparr>tt_world := w\<rparr>) t' \<Longrightarrow> undoes held fs t t'"
  by (simp add: undoes_def)

lemma undoes_append: "undoes held fs t t1 \<Longrightarrow> undoes held gs t1 t2 \<Longrightarrow> undoes held (gs @ fs) t t2"
  by (simp add: undoes_def)

lemma tidyD: "tidy held m \<Longrightarrow> m t = (r, t') \<Longrightarrow> \<exists>fs. undoes held fs t t'"
  unfolding tidy_def by (metis snd_conv)

lemma tidy_pure: "tidy held (\<lambda>t. (Inr x, t))"
  by (auto simp: tidy_def undoes_def intro: exI [of _ "[]"])

lemma tidy_orFatal:
  assumes "\<And>w. held (snd (call w)) = held w" "\<And>x. tidy held (cont x)"
  shows "tidy held (orFatal call msg cont)"
  unfolding tidy_def
proof
  fix t :: "_ test_run"
  obtain x w where x: "call (tt_world t) = (x, w)" by (rule prod.exhaust)
  with assms(1) [of "tt_world t"] have w: "held w = held (tt_world t)" by simp
  show "\<exists>fs. undoes held fs t (snd (orFatal call msg cont t))"
  proof (cases x)
    case (Inl err)
    with x undoes_same [OF w] show ?thesis by (auto simp: orFatal_def Fatal_def)
  next
    case (Inr y)
    from assms(2) [of y] obtain fs where "undoes held fs (t\<lparr>tt_world := w\<rparr>) (snd (cont y (t\<lparr>tt_world := w\<rparr>)))" unfolding tidy_def by blast
    with undoes_world [OF w] x Inr show ?thesis by (auto simp: orFatal_def)
  qed
qed

lemma tidy_thenTest:
  assumes "tidy held m" "\<And>x. tidy held (f x)"
  shows "tidy held (thenTest m f)"
  unfolding tidy_def
proof
  fix t :: "_ test_run"
  obtain x t1 where x: "m t = (x, t1)" by (rule prod.exhaust)
  from tidyD [OF assms(1) x] obtain fs where fs: "undoes held fs t t1" by blast
  show "\<exists>fs. undoes held fs t (snd (thenTest m f t))"
  proof (cases x)
    case (Inl err)
    with x fs show ?thesis by (auto simp: thenTest_def)
  next
    case (Inr y)
    from assms(2) [of y] obtain gs where "undoes held gs t1 (snd (f y t1))" unfolding tidy_def by blast
    from undoes_append [OF fs this] x Inr show ?thesis by (auto simp: thenTest_def)
  qed
qed

text \<open>Docker on which no termination fails.\<close>

definition endsAll :: "('w, 'c) docker \<Rightarrow> ('w \<Rightarrow> 'c set) \<Rightarrow> bool" where
  "endsAll dk held \<longleftrightarrow> dockerLaws dk held \<and> (\<forall>c w. fst (dk_Terminate dk c w) = None)"

lemma endsAllD: "endsAll dk held \<Longrightarrow> dockerLaws dk held" "endsAll dk held \<Longrightarrow> fst (dk_Terminate dk c w) = None"
  by (simp_all add: endsAll_def)

lemma Terminate_held:
  assumes "endsAll dk held"
  shows "held (Terminate dk c w) = held w - {c}"
proof -
  have "dk_Terminate dk c w = (None, Terminate dk c w)" using endsAllD(2) [OF assms, of c w] by (simp add: Terminate_def prod_eq_iff)
  from dockerD(3) [OF endsAllD(1) [OF assms] this] show ?thesis .
qed

lemma tidy_started:
  assumes ends: "endsAll dk held" and body: "\<And>c. tidy held (body c)"
  shows "tidy held (thenTest (startContainer dk req) (\<lambda>c t. body c (Cleanup (Terminate dk c) t)))"
  unfolding tidy_def
proof
  fix t :: "_ test_run"
  let ?m = "thenTest (startContainer dk req) (\<lambda>c t. body c (Cleanup (Terminate dk c) t))"
  obtain x w where x: "dk_Start dk req (tt_world t) = (x, w)" by (rule prod.exhaust)
  show "\<exists>fs. undoes held fs t (snd (?m t))"
  proof (cases x)
    case (Inl err)
    with x undoes_same [where t = t, OF dockerD(2) [OF endsAllD(1) [OF ends] x [unfolded Inl]]] show ?thesis
      by (auto simp: thenTest_def startContainer_def orFatal_def Fatal_def)
  next
    case (Inr c)
    let ?t = "Cleanup (Terminate dk c) (t\<lparr>tt_world := w\<rparr>)"
    have "undoes held [Terminate dk c] t ?t"
      using dockerD(1) [OF endsAllD(1) [OF ends] x [unfolded Inr]] by (simp add: undoes_def Cleanup_def Terminate_held [OF ends])
    moreover obtain gs where "undoes held gs ?t (snd (body c ?t))" using body [of c] unfolding tidy_def by blast
    ultimately have "undoes held (gs @ [Terminate dk c]) t (snd (body c ?t))" by (rule undoes_append)
    with x Inr show ?thesis by (auto simp: thenTest_def startContainer_def orFatal_def)
  qed
qed

lemma tidy_mappedPort: "dockerLaws dk held \<Longrightarrow> tidy held (mappedPort dk c p)"
  unfolding mappedPort_def by (intro tidy_orFatal tidy_pure dockerD)

lemma tidy_hostOf: "dockerLaws dk held \<Longrightarrow> tidy held (hostOf dk c)"
  unfolding hostOf_def by (intro tidy_orFatal tidy_pure dockerD)

lemma randomToken_held:
  assumes laws: "dockerLaws dk held"
  shows "randomToken dk n w = (s, w') \<Longrightarrow> held w' = held w"
proof (induction n arbitrary: w s)
  case (Suc n)
  obtain i w1 where i: "dk_Intn dk (int (length charset)) w = (i, w1)" by (rule prod.exhaust)
  have "held w1 = held w" using dockerD(7) [OF laws, of "int (length charset)" w] i by simp
  with Suc i show ?case by (auto split: prod.splits)
qed simp

lemmas tidy_steps = tidy_started tidy_thenTest tidy_mappedPort tidy_hostOf tidy_pure

lemma tidy_DynamoDB: "endsAll dk held \<Longrightarrow> tidy held (DynamoDB dk)"
  unfolding DynamoDB_def by (intro tidy_steps endsAllD)

lemma tidy_closing:
  assumes laws: "dockerLaws dk held" and "tidy held m"
  shows "tidy held (\<lambda>t. m (Cleanup (dk_RedisClose dk a) t))"
  unfolding tidy_def
proof
  fix t :: "_ test_run"
  have "undoes held [dk_RedisClose dk a] t (Cleanup (dk_RedisClose dk a) t)" by (simp add: undoes_def Cleanup_def dockerD(8) [OF laws])
  moreover obtain gs where "undoes held gs (Cleanup (dk_RedisClose dk a) t) (snd (m (Cleanup (dk_RedisClose dk a) t)))"
    using assms unfolding tidy_def by blast
  ultimately show "\<exists>fs. undoes held fs t (snd (m (Cleanup (dk_RedisClose dk a) t)))" by (blast intro: undoes_append)
qed

lemma tidy_RedisClient: "endsAll dk held \<Longrightarrow> tidy held (RedisClient dk)"
  unfolding RedisClient_def Let_def by (intro tidy_steps tidy_closing tidy_orFatal dockerD(9) endsAllD)

lemma tidy_Postgres:
  assumes ends: "endsAll dk held"
  shows "tidy held (Postgres dk)"
  unfolding tidy_def
proof
  fix t :: "_ test_run"
  obtain pw w where pw: "randomToken dk 16 (tt_world t) = (pw, w)" by (rule prod.exhaust)
  let ?m = "thenTest (startContainer dk (postgresRequest pw)) (\<lambda>c t.
          thenTest (mappedPort dk c ''5432/tcp'') (\<lambda>port.
          thenTest (hostOf dk c) (\<lambda>h t.
            (Inr (''postgres://postgres:'' @ pw @ ''@'' @ h @ '':'' @ showInt port @ ''/postgres?sslmode=disable''), t)))
          (Cleanup (Terminate dk c) t))"
  have "tidy held ?m" by (intro tidy_steps endsAllD(1) [OF ends] ends)
  then obtain fs where "undoes held fs (t\<lparr>tt_world := w\<rparr>) (snd (?m (t\<lparr>tt_world := w\<rparr>)))" unfolding tidy_def by blast
  with undoes_world [OF randomToken_held [OF endsAllD(1) [OF ends] pw]] have "undoes held fs t (snd (?m (t\<lparr>tt_world := w\<rparr>)))" by blast
  moreover have "Postgres dk t = ?m (t\<lparr>tt_world := w\<rparr>)" unfolding Postgres_def pw by simp
  ultimately show "\<exists>fs. undoes held fs t (snd (Postgres dk t))" by auto
qed

section \<open>Properties\<close>

text \<open>The services a test asks for, in order, up to the first that fails.\<close>

datatype test_service = PostgresService | RedisService | DynamoDBService

primrec startService :: "('w, 'c) docker \<Rightarrow> test_service \<Rightarrow> ('w, string) test_step" where
  "startService dk PostgresService = Postgres dk"
| "startService dk RedisService = RedisClient dk"
| "startService dk DynamoDBService = DynamoDB dk"

primrec startServices :: "('w, 'c) docker \<Rightarrow> test_service list \<Rightarrow> ('w, string list) test_step" where
  "startServices dk [] = (\<lambda>t. (Inr [], t))"
| "startServices dk (x # xs) = thenTest (startService dk x) (\<lambda>s. thenTest (startServices dk xs) (\<lambda>ss t. (Inr (s # ss), t)))"

text \<open>
  When a test is over, however its set-up ended, it holds no container more than before: the cleanups terminate every container that was
  started for it.
\<close>

theorem containers_end_with_test:
  assumes "endsAll dk held" and "startServices dk xs \<lparr>tt_world = w, tt_cleanups = []\<rparr> = (r, t)"
  shows "held (runCleanups t) = held w"
proof -
  have "tidy held (startService dk x)" for x
    by (cases x) (simp_all add: tidy_Postgres [OF assms(1)] tidy_RedisClient [OF assms(1)] tidy_DynamoDB [OF assms(1)])
  then have "tidy held (startServices dk xs)" by (induction xs) (simp_all add: tidy_pure tidy_thenTest)
  from tidyD [OF this assms(2)] show ?thesis by (auto simp: undoes_def runCleanups_def)
qed

text \<open>A generated password consists of letters and digits, as many as asked for: a connection string needs no escaping of it.\<close>

lemma randomToken_charset:
  assumes "\<And>n w. 0 < n \<Longrightarrow> 0 \<le> fst (dk_Intn dk n w) \<and> fst (dk_Intn dk n w) < n"
  shows "randomToken dk n w = (s, w') \<Longrightarrow> length s = n \<and> set s \<subseteq> set charset"
proof (induction n arbitrary: w s)
  case (Suc n)
  obtain i w1 where i: "dk_Intn dk (int (length charset)) w = (i, w1)" by (rule prod.exhaust)
  with assms [of "int (length charset)" w] have "0 \<le> i" "i < int (length charset)" by (simp_all add: charset_def)
  then have "charset ! nat i \<in> set charset" by (intro nth_mem) linarith
  moreover obtain s2 w2 where r: "randomToken dk n w1 = (s2, w2)" by (rule prod.exhaust)
  moreover from Suc.prems i r have "s = charset ! nat i # s2" "w2 = w'" by simp_all
  ultimately show ?case using Suc.IH [of w1 s2] by simp
qed simp

end
