(* ===== verification/TestFakes.thy ===== *)
theory TestFakes
  imports MockOIDC
begin

text \<open>
  \<^verbatim>\<open>internal/testutil/fakellm.go\<close>, \<^verbatim>\<open>fakeoidc.go\<close> and \<^verbatim>\<open>jwt.go\<close>: the scripted model server and the identity provider of the tests.
\<close>

section \<open>The scripted model\<close>

record llm_message =
  lm_Role :: string
  lm_Content :: string

record llm_request =
  lr_Model :: string
  lr_Messages :: "llm_message list"
  lr_Tools :: string

record llm_response =
  ls_Content :: string
  ls_StopReason :: string
  ls_ToolName :: string
  ls_ToolInput :: string

record fake_llm =
  fl_script :: "llm_response list"
  fl_requests :: "llm_request list"

definition NewFakeLLM :: "llm_response list \<Rightarrow> fake_llm" where
  "NewFakeLLM script =
     \<lparr>fl_script = (if script = [] then [\<lparr>ls_Content = ''ok'', ls_StopReason = ''end_turn'', ls_ToolName = [], ls_ToolInput = []\<rparr>] else script),
      fl_requests = []\<rparr>"

definition Requests :: "fake_llm \<Rightarrow> llm_request list" where
  "Requests f = fl_requests f"

datatype llm_answer = LLMText string | LLMReply llm_response

text \<open>\<open>decodeReq\<close> reads the body.  The script is not empty.\<close>

definition llmHandle :: "('b \<Rightarrow> llm_request result) \<Rightarrow> 'b \<Rightarrow> fake_llm \<Rightarrow> (int \<times> llm_answer) \<times> fake_llm" where
  "llmHandle decodeReq body f =
     (case decodeReq body of
        Inl err \<Rightarrow> ((400, LLMText ''bad request''), f)
      | Inr req \<Rightarrow>
          (let n = length (fl_requests f);
               resp = (if n < length (fl_script f) then fl_script f ! n else fl_script f ! (length (fl_script f) - 1))
           in ((200, LLMReply resp), f\<lparr>fl_requests := fl_requests f @ [req]\<rparr>)))"

definition llmServe :: "('b \<Rightarrow> llm_request result) \<Rightarrow> string \<Rightarrow> 'b \<Rightarrow> fake_llm \<Rightarrow> (int \<times> llm_answer) \<times> fake_llm" where
  "llmServe decodeReq p body f =
     (if p = ''/v1/messages'' then llmHandle decodeReq body f else ((404, LLMText ''404 page not found''), f))"

fun llmServeAll :: "('b \<Rightarrow> llm_request result) \<Rightarrow> (string \<times> 'b) list \<Rightarrow> fake_llm \<Rightarrow> (int \<times> llm_answer) list \<times> fake_llm" where
  "llmServeAll decodeReq [] f = ([], f)"
| "llmServeAll decodeReq ((p, body) # qs) f =
     (case llmServe decodeReq p body f of (a, f1) \<Rightarrow> (case llmServeAll decodeReq qs f1 of (as, f2) \<Rightarrow> (a # as, f2)))"

text \<open>The requests that are understood, and the replies to them.\<close>

definition understood :: "('b \<Rightarrow> llm_request result) \<Rightarrow> (string \<times> 'b) list \<Rightarrow> llm_request list" where
  "understood decodeReq qs = List.map_filter (\<lambda>(p, body). if p = ''/v1/messages'' then (case decodeReq body of Inl err \<Rightarrow> None | Inr req \<Rightarrow> Some req) else None) qs"

definition replies :: "(int \<times> llm_answer) list \<Rightarrow> llm_response list" where
  "replies as = List.map_filter (\<lambda>(code, a). case a of LLMReply r \<Rightarrow> Some r | LLMText t \<Rightarrow> None) as"

text \<open>The script with its last reply repeated.\<close>

definition scriptAt :: "llm_response list \<Rightarrow> nat \<Rightarrow> llm_response" where
  "scriptAt script n = script ! min n (length script - 1)"

lemma scriptAt_eq: "script \<noteq> [] \<Longrightarrow> (if n < length script then script ! n else script ! (length script - 1)) = scriptAt script n"
proof (cases "n < length script")
  case False
  then have "min n (length script - 1) = length script - 1" by simp
  with False show ?thesis by (simp only: scriptAt_def if_False)
qed (simp add: scriptAt_def)

lemma llmServeAll_from:
  "llmServeAll decodeReq qs f = (as, f') \<Longrightarrow> fl_script f \<noteq> [] \<Longrightarrow>
   fl_script f' = fl_script f \<and> fl_requests f' = fl_requests f @ understood decodeReq qs \<and>
   replies as = map (scriptAt (fl_script f)) [length (fl_requests f) ..< length (fl_requests f) + length (understood decodeReq qs)]"
proof (induction decodeReq qs f arbitrary: as f' rule: llmServeAll.induct)
  case (1 decodeReq f)
  then show ?case by (simp add: understood_def replies_def)
next
  case (2 decodeReq p body qs f)
  obtain a f1 as1 where s: "llmServe decodeReq p body f = (a, f1)" and rest: "llmServeAll decodeReq qs f1 = (as1, f')" and as: "as = a # as1"
    using "2.prems"(1) by (auto split: prod.splits)
  have script: "fl_script f1 = fl_script f" using s by (auto simp: llmServe_def llmHandle_def Let_def split: if_splits sum.splits)
  note ih = "2.IH" [OF s [symmetric] rest, unfolded script, OF "2.prems"(2)]
  show ?case
  proof (cases "\<exists>req. p = ''/v1/messages'' \<and> decodeReq body = Inr req")
    case True
    then obtain req where req: "p = ''/v1/messages''" "decodeReq body = Inr req" by blast
    have a: "a = (200, LLMReply (scriptAt (fl_script f) (length (fl_requests f))))" and f1: "fl_requests f1 = fl_requests f @ [req]"
      using s req scriptAt_eq [OF "2.prems"(2), symmetric, of "length (fl_requests f)"] by (auto simp: llmServe_def llmHandle_def Let_def)
    have u: "understood decodeReq ((p, body) # qs) = req # understood decodeReq qs" by (simp add: req understood_def map_filter_simps)
    have rp: "replies as = scriptAt (fl_script f) (length (fl_requests f)) # replies as1" by (simp add: as a replies_def map_filter_simps)
    show ?thesis using ih unfolding u rp f1 by (simp add: upt_conv_Cons del: upt_Suc)
  next
    case False
    then have a: "\<exists>code t. a = (code, LLMText t)" and f1: "f1 = f"
      using s by (auto simp: llmServe_def llmHandle_def split: if_splits sum.splits)
    have "understood decodeReq ((p, body) # qs) = understood decodeReq qs" using False by (auto simp: understood_def map_filter_simps split: sum.splits)
    moreover have "replies as = replies as1" using a by (auto simp: as replies_def map_filter_simps)
    ultimately show ?thesis using ih f1 by simp
  qed
qed

text \<open>
  The fake model replies to the requests it understands with its script in order, the last reply repeated for ever, and records
  them in order; anything else neither uses up a reply nor leaves a record.
\<close>

theorem fake_llm_follows_script:
  assumes "llmServeAll decodeReq qs (NewFakeLLM script) = (as, f)"
  shows "Requests f = understood decodeReq qs \<and>
    replies as = map (scriptAt (fl_script (NewFakeLLM script))) [0 ..< length (understood decodeReq qs)]"
  using llmServeAll_from [OF assms] by (simp add: NewFakeLLM_def Requests_def)

section \<open>The identity provider of the tests\<close>

record oidc_claims =
  oc_Issuer :: string
  oc_Subject :: string
  oc_OrgID :: string
  oc_Email :: string
  oc_Expiry :: int
  oc_IssuedAt :: int

record 'k fake_oidc =
  fo_url :: string
  fo_key :: 'k
  fo_kid :: string
  fo_nextID :: int
  fo_issued :: "string \<rightharpoonup> oidc_claims"

text \<open>The key and the address of the test server are given.\<close>

definition NewFakeOIDC :: "'k \<Rightarrow> string \<Rightarrow> 'k fake_oidc" where
  "NewFakeOIDC key url = \<lparr>fo_url = url, fo_key = key, fo_kid = ''test-key-1'', fo_nextID = 0, fo_issued = Map.empty\<rparr>"

definition claimsJSON :: "oidc_claims \<Rightarrow> json" where
  "claimsJSON c =
     JObj [(''iss'', JStr (oc_Issuer c)), (''sub'', JStr (oc_Subject c)), (''org_id'', JStr (oc_OrgID c)), (''email'', JStr (oc_Email c)),
       (''exp'', JNum (oc_Expiry c)), (''iat'', JNum (oc_IssuedAt c))]"

definition fakeHeader :: "'k fake_oidc \<Rightarrow> string" where
  "fakeHeader f =
     ''{'' @ goQuote ''alg'' @ '':'' @ goQuote ''RS256'' @ '','' @ goQuote ''typ'' @ '':'' @ goQuote ''JWT'' @ '','' @ goQuote ''kid'' @ '':'' @
     [CHR 0x22] @ fo_kid f @ [CHR 0x22] @ ''}''"

definition splitJWT :: "string \<Rightarrow> string list" where
  "splitJWT token = Split (CHR ''.'') token"

definition signRS256 :: "'k rsa \<Rightarrow> (string \<Rightarrow> string) \<Rightarrow> 'k \<Rightarrow> string \<Rightarrow> string result" where
  "signRS256 r digest key signingInput = rs_Sign r key (digest signingInput)"

definition MintToken ::
  "'k rsa \<Rightarrow> (json \<Rightarrow> string) \<Rightarrow> (string \<Rightarrow> string) \<Rightarrow> time \<Rightarrow> string \<Rightarrow> string \<Rightarrow> string \<Rightarrow> 'k fake_oidc \<Rightarrow> string \<times> 'k fake_oidc" where
  "MintToken r marshal digest now userID orgID email f0 =
     (let f = f0\<lparr>fo_nextID := wrap64 (fo_nextID f0 + 1)\<rparr>;
          cs = \<lparr>oc_Issuer = fo_url f, oc_Subject = userID, oc_OrgID = orgID, oc_Email = email,
                oc_Expiry = Unix (now + Hour), oc_IssuedAt = Unix now\<rparr>;
          signingInput = EncodeToString (fakeHeader f) @ ''.'' @ EncodeToString (marshal (claimsJSON cs))
      in case signRS256 r digest (fo_key f) signingInput of
           Inl err \<Rightarrow> ([], f)
         | Inr sm \<Rightarrow>
             (let token = signingInput @ ''.'' @ EncodeToString sm
              in (token, f\<lparr>fo_issued := (fo_issued f)(token \<mapsto> cs)\<rparr>)))"

definition Claims :: "string \<Rightarrow> 'k fake_oidc \<Rightarrow> oidc_claims option" where
  "Claims token f = fo_issued f token"

definition errMalformedToken :: goerr where
  "errMalformedToken = ErrNew ''malformed JWT''"

definition errVerification :: goerr where
  "errVerification = ErrNew ''crypto/rsa: verification error''"

text \<open>\<open>verify\<close> is \<^verbatim>\<open>rsa.VerifyPKCS1v15\<close>.\<close>

definition Verify ::
  "'k rsa \<Rightarrow> (rsa_public_key \<Rightarrow> string \<Rightarrow> string \<Rightarrow> bool) \<Rightarrow> (string \<Rightarrow> string) \<Rightarrow> string \<Rightarrow> 'k fake_oidc \<Rightarrow> goerr option" where
  "Verify r verify digest token f =
     (let parts = splitJWT token in
      if length parts \<noteq> 3 then Some errMalformedToken
      else
     (case DecodeString (parts ! 2) of
        None \<Rightarrow> Some errMalformedToken
      | Some sig \<Rightarrow>
          if verify (rs_Public r (fo_key f)) (digest (parts ! 0 @ ''.'' @ parts ! 1)) sig then None else Some errVerification))"

definition fakeDiscovery :: "'k fake_oidc \<Rightarrow> json" where
  "fakeDiscovery f = JObj [(''issuer'', JStr (fo_url f)), (''jwks_uri'', JStr (fo_url f @ ''/jwks''))]"

definition fakeJwks :: "'k rsa \<Rightarrow> 'k fake_oidc \<Rightarrow> json" where
  "fakeJwks r f =
     (let pub = rs_Public r (fo_key f) in
      JObj [(''keys'', JArr [JObj
        [(''alg'', JStr ''RS256''), (''e'', JStr (EncodeToString (Bytes (nat (pk_E pub))))), (''kid'', JStr (fo_kid f)),
         (''kty'', JStr ''RSA''), (''n'', JStr (EncodeToString (Bytes (pk_N pub)))), (''use'', JStr ''sig'')]])])"

definition fakeServe :: "'k rsa \<Rightarrow> 'k fake_oidc \<Rightarrow> string \<Rightarrow> int \<times> oidc_answer" where
  "fakeServe r f p =
     (if p = ''/.well-known/openid-configuration'' then (200, OidcJSON (fakeDiscovery f))
      else if p = ''/jwks'' then (200, OidcJSON (fakeJwks r f))
      else (404, OidcText ''404 page not found''))"

text \<open>The same documents as those of the development provider with the same key.\<close>

definition asServer :: "'k fake_oidc \<Rightarrow> 'k oidc_server" where
  "asServer f = \<lparr>os_key = fo_key f, os_kid = fo_kid f, os_iss = fo_url f\<rparr>"

lemma fake_documents:
  "fakeDiscovery f = discovery (asServer f)" "fakeJwks r f = jwks r (asServer f)" "fakeHeader f = headerText (asServer f)"
  by (simp_all add: fakeDiscovery_def discovery_def fakeJwks_def jwks_def fakeHeader_def headerText_def asServer_def)

lemma decode_claimsJSON:
  "decodeInto claimsField \<lparr>jc_Iss = [], jc_Sub = [], jc_Email = [], jc_Exp = 0\<rparr> (claimsJSON c) =
   Inr \<lparr>jc_Iss = oc_Issuer c, jc_Sub = oc_Subject c, jc_Email = oc_Email c, jc_Exp = oc_Expiry c\<rparr>"
  unfolding decodeInto_def jsonMembers_def claimsJSON_def
  by (simp add: claimsField_def jsonStr_def jsonInt_def oidc_keys del: list.map)

text \<open>Every token on record is signed by the provider over the claims on record.\<close>

definition issuedOK :: "'k rsa \<Rightarrow> (json \<Rightarrow> string) \<Rightarrow> (string \<Rightarrow> string) \<Rightarrow> 'k \<Rightarrow> string \<Rightarrow> 'k fake_oidc \<Rightarrow> bool" where
  "issuedOK r marshal digest key url f \<longleftrightarrow>
     fo_url f = url \<and> fo_key f = key \<and> fo_kid f = ''test-key-1'' \<and>
     (\<forall>token c. fo_issued f token = Some c \<longrightarrow> oc_Issuer c = url \<and> oc_Expiry c = Unix (oc_IssuedAt c * Second + Hour) \<and>
        (\<exists>sig. token = signedToken (asServer f) (marshal (claimsJSON c)) sig \<and>
           rs_Sign r key (digest (EncodeToString (headerText (asServer f)) @ ''.'' @ EncodeToString (marshal (claimsJSON c)))) = Inr sig))"

inductive mintStep :: "'k rsa \<Rightarrow> (json \<Rightarrow> string) \<Rightarrow> (string \<Rightarrow> string) \<Rightarrow> 'k fake_oidc \<Rightarrow> string \<Rightarrow> 'k fake_oidc \<Rightarrow> bool"
  for r marshal digest where
  "MintToken r marshal digest now userID orgID email f = (token, f') \<Longrightarrow> mintStep r marshal digest f token f'"

lemma asServer_simps [simp]:
  "asServer (f\<lparr>fo_nextID := n\<rparr>) = asServer f" "asServer (f\<lparr>fo_issued := m\<rparr>) = asServer f"
  "os_iss (asServer f) = fo_url f" "os_key (asServer f) = fo_key f" "os_kid (asServer f) = fo_kid f"
  by (simp_all add: asServer_def)

lemma Unix_plus: "Unix (Unix t * Second + Hour) = Unix (t + Hour)"
  by (simp add: Unix_def time_defs)

lemma MintToken_issuedOK:
  assumes "issuedOK r marshal digest key url f" "MintToken r marshal digest now userID orgID email f = (token, f')"
  shows "issuedOK r marshal digest key url f'"
  using assms
  by (auto simp: issuedOK_def MintToken_def signRS256_def signedToken_def fake_documents Let_def Unix_plus split: sum.splits if_splits)

interpretation fo: transition_system "\<lambda>f. f = NewFakeOIDC key url" "mintStep r marshal digest" "issuedOK r marshal digest key url"
  for key url r marshal digest
proof (unfold_locales, goal_cases)
  case (1 f)
  then show ?case by (simp add: issuedOK_def NewFakeOIDC_def)
next
  case (2 f token f')
  from 2(2,1) show ?case by cases (rule MintToken_issuedOK)
qed

text \<open>
  Every token that the provider of the tests ever minted has its claims on record, verifies with the provider itself, and
  authenticates its subject with the platform's authenticator until the hour is over.
\<close>

theorem minted_tokens_authenticate:
  fixes key :: 'k and url :: string
  assumes "reach (\<lambda>f. f = NewFakeOIDC key url) (mintStep r marshal (jo_Sum256 j)) f" and "Claims token f = Some c"
    and "rsaPair r j" and "joseReads r marshal (asServer f) j (claimsJSON c)"
    and "\<And>n p. net n (url @ p) = Inr (fst (fakeServe r f p), oidcBody marshal (snd (fakeServe r f p)))"
    and "0 \<le> pk_E (rs_Public r key)" "pk_E (rs_Public r key) < 2 ^ 63" and "\<not> suffix ''/'' url"
    and "Unix t < Unix (oc_IssuedAt c * Second + Hour)" and "resolve (oc_Subject c) = Inr (og, u)"
  shows "Verify r (jo_Verify j) (jo_Sum256 j) token f = None \<and>
    fst (authenticate j net t resolve (''Bearer '' @ token) (NewAuthenticator url)) =
      Inr \<lparr>id_UserID = u, id_OrgID = og, id_Sub = oc_Subject c, id_Email = oc_Email c\<rparr>"
proof
  have ok: "issuedOK r marshal (jo_Sum256 j) key url f" by (rule fo.reach_inv [OF assms(1)])
  then have f: "fo_url f = url" "fo_key f = key" "fo_kid f = ''test-key-1''" by (simp_all add: issuedOK_def)
  obtain sig where tok: "token = signedToken (asServer f) (marshal (claimsJSON c)) sig"
    and sig: "rs_Sign r key (jo_Sum256 j (EncodeToString (headerText (asServer f)) @ ''.'' @ EncodeToString (marshal (claimsJSON c)))) = Inr sig"
    and c: "oc_Issuer c = url" "oc_Expiry c = Unix (oc_IssuedAt c * Second + Hour)"
    using ok assms(2) by (auto simp: issuedOK_def Claims_def)
  have parts: "splitJWT token = [EncodeToString (headerText (asServer f)), EncodeToString (marshal (claimsJSON c)), EncodeToString sig]"
    by (simp add: splitJWT_def tok signedToken_def Split_append Split_no_sep Encode_no_sep)
  show "Verify r (jo_Verify j) (jo_Sum256 j) token f = None"
    using assms(3) sig by (simp add: Verify_def parts f rsaPair_def)
  have "publishesKeys r marshal (asServer f) net"
    unfolding publishesKeys_def using f by (simp add: assms(5) fakeServe_def fake_documents)
  from provider_token_accepted [OF this assms(4,3) _ _ _ _ _ _ decode_claimsJSON, of "NewAuthenticator url" sig t resolve og u]
  show "fst (authenticate j net t resolve (''Bearer '' @ token) (NewAuthenticator url)) =
      Inr \<lparr>id_UserID = u, id_OrgID = og, id_Sub = oc_Subject c, id_Email = oc_Email c\<rparr>"
    using assms(6-10) sig f c by (simp add: tok NewAuthenticator_def)
qed

definition exFake :: "unit fake_oidc" where
  "exFake = snd (MintToken exRsa (\<lambda>_. []) (\<lambda>s. s) 0 ''ann'' ''o'' ''a@x'' (NewFakeOIDC () ''http://t''))"

definition exFakeToken :: string where
  "exFakeToken = fst (MintToken exRsa (\<lambda>_. []) (\<lambda>s. s) 0 ''ann'' ''o'' ''a@x'' (NewFakeOIDC () ''http://t''))"

definition exFakeClaims :: oidc_claims where
  "exFakeClaims = \<lparr>oc_Issuer = ''http://t'', oc_Subject = ''ann'', oc_OrgID = ''o'', oc_Email = ''a@x'', oc_Expiry = 3600, oc_IssuedAt = 0\<rparr>"

definition exFakeJose :: jose where
  "exFakeJose =
     \<lparr>jo_Sum256 = (\<lambda>s. s), jo_Verify = (\<lambda>k d sig. d = sig), jo_header = (\<lambda>_. \<lparr>jh_Alg = ''RS256'', jh_KID = ''test-key-1''\<rparr>),
      jo_claims = (\<lambda>_. decodeInto claimsField \<lparr>jc_Iss = [], jc_Sub = [], jc_Email = [], jc_Exp = 0\<rparr> (claimsJSON exFakeClaims)),
      jo_discovery = (\<lambda>_. decodeInto discoveryField [] (fakeDiscovery exFake)), jo_jwks = (\<lambda>_. decodeInto jwksField [] (fakeJwks exRsa exFake))\<rparr>"

definition exFakeNet :: net where
  "exFakeNet n url = Inr (fst (fakeServe exRsa exFake (drop 8 url)), oidcBody (\<lambda>_. []) (snd (fakeServe exRsa exFake (drop 8 url))))"

lemma ex_fake: "fo_url exFake = ''http://t''" "fo_kid exFake = ''test-key-1''" "Claims exFakeToken exFake = Some exFakeClaims"
  by (simp_all add: exFake_def exFakeToken_def exFakeClaims_def MintToken_def NewFakeOIDC_def signRS256_def exRsa_def Claims_def Unix_def time_defs Let_def)

theorem minted_tokens_authenticate_witness:
  "Verify exRsa (jo_Verify exFakeJose) (jo_Sum256 exFakeJose) exFakeToken exFake = None \<and>
   fst (authenticate exFakeJose exFakeNet 0 (\<lambda>_. Inr (''o'', ''u'')) (''Bearer '' @ exFakeToken) (NewAuthenticator ''http://t'')) =
     Inr \<lparr>id_UserID = ''u'', id_OrgID = ''o'', id_Sub = ''ann'', id_Email = ''a@x''\<rparr>"
proof -
  have init: "reach (\<lambda>f. f = NewFakeOIDC () ''http://t'') (mintStep exRsa (\<lambda>_. []) (jo_Sum256 exFakeJose)) (NewFakeOIDC () ''http://t'')"
    by (rule reach_init) simp
  have step: "mintStep exRsa (\<lambda>_. []) (jo_Sum256 exFakeJose) (NewFakeOIDC () ''http://t'') exFakeToken exFake"
    by (rule mintStep.intros [of _ _ _ 0 "''ann''" "''o''" "''a@x''"]) (simp add: exFakeJose_def exFake_def exFakeToken_def)
  have r: "reach (\<lambda>f. f = NewFakeOIDC () ''http://t'') (mintStep exRsa (\<lambda>_. []) (jo_Sum256 exFakeJose)) exFake"
    using init step by (rule reach_step)
  have pair: "rsaPair exRsa exFakeJose" by (simp add: rsaPair_def exRsa_def exFakeJose_def)
  have reads: "joseReads exRsa (\<lambda>_. []) (asServer exFake) exFakeJose (claimsJSON exFakeClaims)"
    by (simp add: joseReads_def readsAs_def decode_header exFakeJose_def fake_documents ex_fake)
  have net: "exFakeNet n (''http://t'' @ p) = Inr (fst (fakeServe exRsa exFake p), oidcBody (\<lambda>_. []) (snd (fakeServe exRsa exFake p)))" for n p
    by (simp add: exFakeNet_def)
  have "Unix 0 < Unix (oc_IssuedAt exFakeClaims * Second + Hour)" by (simp add: exFakeClaims_def Unix_def time_defs)
  from minted_tokens_authenticate [OF r ex_fake(3) pair reads net _ _ _ this, of "\<lambda>_. Inr (''o'', ''u'')" "''o''" "''u''"] show ?thesis
    by (simp add: exRsa_def exFakeClaims_def Unix_def time_defs suffix_def)
qed

end
