(* ===== verification/Spec2Isabelle.thy ===== *)
theory Spec2Isabelle
  imports Adapters AgentSpec AuditLog Authn Base64 Budget Conformance ConsentSpec CredExchange Decimal
    DeepCopy DurableRuns Egress FakeClock GitFacade Grants Harness Health ImageBuilder InternalGateway
    JsonValue KmsConfig ManifestCodec McpProxy Metrics Migrations MockOIDC ModelGateway Operator OperatorMain
    Orchestrator PodHarness Policy Prelude QueueFlow Registry RegistryHTTP RegistryService ResumeFlow RunToken
    Secrets Serving SessionStore Snapshots Sorting Spans StateCodec StopHook StopResume TestContainers
    TestFakes ToolGateway WarmPool
begin

text \<open>
  A verification library for \<^bold>\<open>dark-factory\<close>, a platform that runs user-defined agents with the identity and
  the consents of their user.

  \<^bold>\<open>The program.\<close>  A control plane keeps agents, grants and consents, org policies and the audit log; an
  execution plane queues runs, binds them to sandboxes and serves their tools.  Every action of a run is
  authorised by a signed \<^emph>\<open>run token\<close> and decided by the policy engine against the grants of the user.

  \<^bold>\<open>Which theory models what\<close> (paths under \<^verbatim>\<open>src/internal/\<close>):

  \<^item> \<open>Prelude\<close>: Go errors and \<^verbatim>\<open>errors.Is\<close>, times, the used parts of \<^verbatim>\<open>strings\<close>, \<^verbatim>\<open>strconv\<close> and \<^verbatim>\<open>fmt\<close>, query
    results, and the locales of transition systems with an invariant and of a simulation of a specification.  \<open>Base64\<close>: the
    unpadded URL alphabet codec.  \<open>JsonValue\<close>: JSON values and decoding into structures.  \<open>Sorting\<close>: \<^verbatim>\<open>sort.Strings\<close>.
  \<^item> \<open>RunToken\<close> (\<^verbatim>\<open>runtoken/\<close>): minting, validation, renewal and revocation of run tokens; the revocation list is a
    locale, interpreted on the Redis implementation.
  \<^item> \<open>Policy\<close> (\<^verbatim>\<open>policy/\<close>): the decision function with org patterns.  \<open>Grants\<close> (\<^verbatim>\<open>grants/\<close>): consent requests, grants
    and the scope cache as a transition system; \<open>ConsentSpec\<close>: the abstract machine of consents that the ledger refines.  \<open>AuditLog\<close> (\<^verbatim>\<open>audit/\<close>, \<^verbatim>\<open>auditlog/\<close>): the hash-chained log.
  \<^item> \<open>Egress\<close>: the locale of a gate that asks for a valid token and an allowing decision before it acts;
    \<open>ToolGateway\<close> (\<^verbatim>\<open>toolgw/\<close>) and \<open>McpProxy\<close> (\<^verbatim>\<open>mcpproxy/\<close>) interpret it on their \<open>Call\<close>.
  \<^item> \<open>Harness\<close> (\<^verbatim>\<open>harness/\<close>): the agent loop, its step limit, its tool filter, checkpoints and the approval gate.
    \<open>DurableRuns\<close>: the loop over the locale of a checkpoint store, interpreted on the DynamoDB adapters, with the JSON of a run state
    (\<open>StateCodec\<close>).
  \<^item> \<open>Orchestrator\<close> (\<^verbatim>\<open>orchestrator/\<close>): sharded, idempotent enqueueing and the worker loop; \<open>QueueFlow\<close>: the JSON of a
    request and both ends of the queue together.  \<open>Budget\<close> (\<^verbatim>\<open>budget/\<close>): spend
    tracking with soft alerts and the rate limiter.
  \<^item> \<open>Operator\<close> (\<^verbatim>\<open>operator/\<close>): the reconciler of the agent-session resource.  \<open>WarmPool\<close> (\<^verbatim>\<open>warmpool/\<close>): the pool of
    pre-started pods.
  \<^item> \<open>StopHook\<close> (\<^verbatim>\<open>stophook/\<close>): commit before death and the session manifest.  \<open>ResumeFlow\<close> (\<^verbatim>\<open>resume/\<close>): the plan that
    brings a session back.  \<open>SessionStore\<close> (\<^verbatim>\<open>sessionstore/\<close>): sessions, runs and checkpoints in DynamoDB and the session
    checker.  \<open>Adapters\<close> (\<^verbatim>\<open>adapters/\<close>): the harness's and the hook's stores on DynamoDB and S3.
    \<open>ManifestCodec\<close>: the JSON of a manifest as the hook writes and the resume flow reads it.  \<open>StopResume\<close>: a session from its stop to its
    resumption over these stores.
  \<^item> \<open>GitFacade\<close> (\<^verbatim>\<open>gitfacade/\<close>): signed repository addresses, the push policy and the proxy handler.  \<open>Secrets\<close>
    (\<^verbatim>\<open>secrets/\<close>): envelope-encrypted secrets over SQL tables, with rotation and re-encryption; \<open>KmsConfig\<close>
    (\<^verbatim>\<open>secrets/kms.go\<close>): the configuration of the key service.  \<open>CredExchange\<close>
    (\<^verbatim>\<open>credexchange/\<close>): the exchange of a run token for a secret, its endpoint and the git credential helper with
    its process (\<^verbatim>\<open>src/cmd/git-credential-darkfactory\<close>).
  \<^item> \<open>AgentSpec\<close> (\<^verbatim>\<open>agentspec/\<close>): the validation of agent documents.  \<open>Registry\<close> and \<open>RegistryHTTP\<close>
    (\<^verbatim>\<open>registry/store.go\<close>, \<^verbatim>\<open>registry/http.go\<close>): agents with immutable versions, and the routes above them.  \<open>Authn\<close>
    (\<^verbatim>\<open>authn/\<close>): verification of identity tokens, the key cache, and the middleware that the routes run behind.
    \<open>Decimal\<close>: \<^verbatim>\<open>strconv.ParseInt\<close>.
  \<^item> \<open>ModelGateway\<close> (\<^verbatim>\<open>modelgw/\<close>): the router over providers, with fallback, sensitivity and metering.  \<open>ImageBuilder\<close>
    and \<open>Snapshots\<close> (\<^verbatim>\<open>environments/\<close>): content-addressed images behind a scan gate, and the layered snapshots of sessions.
  \<^item> \<open>InternalGateway\<close> (\<^verbatim>\<open>registry/internal_gateway.go\<close>, \<^verbatim>\<open>registry/scripted.go\<close>): the routes that serve models and tools
    to pods.  \<open>PodHarness\<close> (\<^verbatim>\<open>src/cmd/harness\<close>): the process in the pod, composed with those routes.
  \<^item> Processes.  \<open>RegistryService\<close> (\<^verbatim>\<open>src/cmd/registry\<close>): the registry from its environment to all its routes.  \<open>Migrations\<close>
    (\<^verbatim>\<open>db/\<close>): the schema migrations at its start.  \<open>Serving\<close> (\<^verbatim>\<open>src/cmd/registry\<close>, \<^verbatim>\<open>src/cmd/orchestrator\<close>): listening, the signal and
    the shutdown as a step relation.  \<open>OperatorMain\<close> (\<^verbatim>\<open>src/cmd/operator\<close>, \<^verbatim>\<open>src/api/v1alpha1\<close>): the scheme and the start of the operator.
    \<open>Health\<close> (\<^verbatim>\<open>health/\<close>), \<open>Metrics\<close> and \<open>Spans\<close> (\<^verbatim>\<open>tracing/\<close>): readiness, the metrics registry and the spans of runs.  \<open>MockOIDC\<close> (\<^verbatim>\<open>src/cmd/mockoidc\<close>): the identity
    provider of development stacks, against \<open>Authn\<close>.  \<open>DeepCopy\<close> (\<^verbatim>\<open>src/api/v1alpha1/deepcopy.go\<close>): copies over a store of cells.
  \<^item> Tests.  \<open>FakeClock\<close> and \<open>TestFakes\<close> (\<^verbatim>\<open>testutil/\<close>): the clock, the model server and the identity provider that tests inject.
    \<open>TestContainers\<close> (\<^verbatim>\<open>testutil/\<close>): the services that tests start in containers, and their cleanups.
    \<open>Conformance\<close> (\<^verbatim>\<open>src/conformance/framework.go\<close>): the register of conformance checks.

  \<^bold>\<open>How the code is rendered.\<close>  Structs are records, with a prefix per record; operations are functions that
  take and return the state.  A call to a service outside the repository (Redis, PostgreSQL, DynamoDB, S3,
  Kubernetes, the model provider) is a field of a client record that acts on an abstract world; what the
  code relies on of the service is a named predicate (\<^verbatim>\<open>redis_commands\<close>, \<^verbatim>\<open>dynamo\<close>, \<^verbatim>\<open>s3_objects\<close> and the like),
  shown to be satisfiable by the concrete instance that the witnesses use.  The printer and the parser of
  JSON texts, HMAC and SHA-256 are parameters; the values that the code encodes and decodes with them are modelled where two parts exchange them.  SQL statements are functions on the tables they touch, with the ways they can fail as
  arguments.  Errors are values of a sum type.  Interleavings are step relations (grants, pool, operator) or
  lists of operations.

  \<^bold>\<open>What the theorems show.\<close>  Tokens: a minted token validates to its claims, expires within the session's
  deadline, and is rejected once revoked.  Authorisation: a gateway call acts only under a valid token and
  an allowing decision, and a revoked grant blocks the next call.  Consent: every grant traces to an
  approved consent, decided once.  Harness: the loop ends within its step limit, executes granted tools only
  and gated tools only when approved.  Queue: idempotent enqueueing, acknowledgement after
  handling, and workers that are given exactly requests that were enqueued for their shard, unchanged.
  Sessions: the phases of the operator, exclusive pool pods, the manifest that accounts for all work, its
  place on the session's record, recovery of unpushed work through the manifest's JSON, DynamoDB and S3, checkpoints that read back, and renewal capped
  by the session's lifetime.  Audit: the written log verifies and tampering is found.

  Secrets: the encrypted store refines a map from names to values, and its owner can always read a secret while the services answer.
  Registry: the invariant of the tables, the immutability of published versions and the separation of tenants, from the
  store up to the routes behind the middleware.  Specifications: the validator accepts exactly the well-formed documents.
  Models: the router's nested loops are the first deciding attempt of a flat list, and exactly the successes are metered.  Images and
  snapshots: no stored image is over the size cap or has a critical finding, no stored snapshot holds one of the
  scrubber's token shapes, and eviction keeps to its bound.
  Consents: the ledger refines the abstract consents, failures included, and the active scopes are the live ones.  Durable runs: an approval
  given after a restart runs exactly the approved call and then granted tools only.  Processes: a tool result of the
  registry as configured means valid tokens, the scope, an admitting pattern and a listed host; a server ends well only after
  a graceful shutdown; configured ciphertexts are read back in every order of iteration.  Copies of session lists have statuses
  of their own.  Tests: a timer of the fake clock delivers once and on time, and no container outlives its test.
  Pods: no internal route acts without a valid token, and the composition of the pod with those routes exposes the
  mismatches between the two ends.

  \<^bold>\<open>Bounds and fuel.\<close>  The harness loop terminates by its step limit.  The worker loop of the orchestrator has
  no bound in the code; its model takes the number of passes, and the result for a number of passes is
  \<^const>\<open>None\<close> exactly while the worker still runs.  No other definition uses fuel.  Strings are byte sequences;
  times are integers of nanoseconds, and conversions to seconds that the code stores as 64-bit integers
  carry the bound as a hypothesis.

  \<^bold>\<open>Not modelled.\<close>  The insides of the libraries that the code calls, which are parameters; the redirects of
  the request multiplexer, flag parsing and the generation of keys; the real clocks, which delegate to the time package.
\<close>

end
